(* ===== verification/Go_Prelude.thy ===== *)
theory Go_Prelude
  imports Main "HOL-Library.Word" "HOL-Library.AList" "HOL-Library.Multiset"
begin

text \<open>
  What the components share: the Go types the models use, the functions of Go's
  \<^verbatim>\<open>strings\<close>, \<^verbatim>\<open>strconv\<close>, \<^verbatim>\<open>fmt\<close> and \<^verbatim>\<open>path/filepath\<close> packages that the source calls,
  Go maps as association lists, and the generic lemmas on them.

  A Go string is a sequence of bytes, and so is \<^typ>\<open>string\<close>: a \<^typ>\<open>char\<close> is one byte and
  \<^const>\<open>length\<close> is Go's \<^verbatim>\<open>len\<close>. An unsigned Go integer is a word of its width. A Go \<^verbatim>\<open>int\<close> that
  a configuration may set to anything is an \<^typ>\<open>int\<close>; a length is a \<^typ>\<open>nat\<close>. A
  \<^verbatim>\<open>time.Time\<close> is the number of nanoseconds since Go's zero time, so \<^verbatim>\<open>IsZero\<close> is equality
  with 0; a \<^verbatim>\<open>time.Duration\<close> is an \<^typ>\<open>int\<close>. What \<^verbatim>\<open>time.Now\<close> returns is an argument.
\<close>

named_theorems go_simps \<open>equations that unfold the shared Go vocabulary\<close>
named_theorems inv_intros \<open>preservation lemmas of the component invariants\<close>

type_synonym uint16 = "16 word"
type_synonym uint32 = "32 word"
type_synonym uint64 = "64 word"
type_synonym byte = "8 word"
type_synonym time = int
type_synonym duration = int

section \<open>Go maps\<close>

text \<open>
  A Go map is an association list with distinct keys: \<^const>\<open>map_of\<close> looks a key up,
  \<^const>\<open>AList.update\<close> assigns, \<^const>\<open>AList.delete\<close> deletes, \<^const>\<open>length\<close> is \<^verbatim>\<open>len\<close>. Go leaves
  the order of \<^verbatim>\<open>range\<close> unspecified; where the result of a loop depends on it, the model takes
  an oracle \<open>pick\<close> that chooses the next key, see \<open>pick_key\<close>.
\<close>

type_synonym ('k, 'v) gomap = "('k \<times> 'v) list"

abbreviation keys :: "('k, 'v) gomap \<Rightarrow> 'k list" where
  "keys m \<equiv> map fst m"

definition wf_map :: "('k, 'v) gomap \<Rightarrow> bool" where
  "wf_map m \<longleftrightarrow> distinct (keys m)"

definition get_or :: "'v \<Rightarrow> ('k, 'v) gomap \<Rightarrow> 'k \<Rightarrow> 'v" where
  "get_or d m k = (case map_of m k of None \<Rightarrow> d | Some v \<Rightarrow> v)"

definition pick_key :: "('k list \<Rightarrow> nat) \<Rightarrow> ('k, 'v) gomap \<Rightarrow> 'k" where
  "pick_key pick m = keys m ! (pick (keys m) mod length m)"

lemma wf_map_Nil [simp]: "wf_map []"
  by (simp add: wf_map_def)

lemma wf_map_update [simp]: "wf_map m \<Longrightarrow> wf_map (AList.update k v m)"
  by (simp add: wf_map_def distinct_update)

lemma wf_map_delete [simp]: "wf_map m \<Longrightarrow> wf_map (AList.delete k m)"
  by (simp add: wf_map_def distinct_delete)

lemma wf_map_filter [simp]: "wf_map m \<Longrightarrow> wf_map (filter P m)"
  by (auto simp: wf_map_def distinct_map inj_on_def)

lemma map_of_delete [simp]:
  "map_of (AList.delete k m) j = (if j = k then None else map_of m j)"
  by (simp add: AList.delete_conv)

lemma map_of_alist_update [simp]:
  "map_of (AList.update k v m) j = (if j = k then Some v else map_of m j)"
  by (simp add: update_conv)

lemma get_or_update [simp]: "get_or d (AList.update k v m) j = (if j = k then v else get_or d m j)"
  by (simp add: get_or_def)

lemma get_or_delete [simp]: "get_or d (AList.delete k m) j = (if j = k then d else get_or d m j)"
  by (simp add: get_or_def)

lemma length_alist_update:
  "length (AList.update k v m) = (if map_of m k = None then Suc (length m) else length m)"
  by (induction m) auto

lemma length_alist_delete_Some:
  assumes "wf_map m" and "map_of m k = Some v"
  shows "Suc (length (AList.delete k m)) = length m"
  using assms
proof (induction m)
  case Nil
  then show ?case by simp
next
  case (Cons p m)
  show ?case
  proof (cases "fst p = k")
    case True
    with Cons.prems(1) have "k \<notin> fst ` set m" by (auto simp: wf_map_def)
    then have "AList.delete k m = m" by (simp add: AList.delete_eq filter_id_conv) force
    with True show ?thesis by (cases p) simp
  next
    case False
    with Cons.prems have "wf_map m" "map_of m k = Some v" by (cases p; auto simp: wf_map_def)+
    with Cons.IH have "Suc (length (AList.delete k m)) = length m" by simp
    with False show ?thesis by (cases p) simp
  qed
qed

lemma alist_delete_None: "map_of m k = None \<Longrightarrow> AList.delete k m = m"
  by (induction m) (auto split: if_splits)

lemma pick_key_in: "m \<noteq> [] \<Longrightarrow> pick_key pick m \<in> set (keys m)"
  unfolding pick_key_def by (rule nth_mem) simp

lemma pick_key_Some: "m \<noteq> [] \<Longrightarrow> \<exists>v. map_of m (pick_key pick m) = Some v"
  using pick_key_in [of m pick] by (metis map_of_eq_None_iff not_Some_eq set_map)

lemma length_delete_pick:
  "wf_map m \<Longrightarrow> m \<noteq> [] \<Longrightarrow> Suc (length (AList.delete (pick_key pick m) m)) = length m"
  using pick_key_Some length_alist_delete_Some by metis

lemma length_filter_map_le: "length (filter P m) \<le> length m"
  by simp

section \<open>Strings\<close>

subsection \<open>Prefixes, suffixes, substrings\<close>

definition HasPrefix :: "string \<Rightarrow> string \<Rightarrow> bool" where
  "HasPrefix s p \<longleftrightarrow> take (length p) s = p"

definition HasSuffix :: "string \<Rightarrow> string \<Rightarrow> bool" where
  "HasSuffix s p \<longleftrightarrow> length p \<le> length s \<and> drop (length s - length p) s = p"

fun Contains :: "string \<Rightarrow> string \<Rightarrow> bool" where
  "Contains [] p = (p = [])"
| "Contains (c # s) p = (HasPrefix (c # s) p \<or> Contains s p)"

lemma HasPrefix_append: "HasPrefix s p \<longleftrightarrow> (\<exists>t. s = p @ t)"
  unfolding HasPrefix_def by (metis append_eq_conv_conj append_take_drop_id)

lemma HasSuffix_append: "HasSuffix s p \<longleftrightarrow> (\<exists>t. s = t @ p)"
proof
  assume "HasSuffix s p"
  then show "\<exists>t. s = t @ p"
    unfolding HasSuffix_def by (metis append_take_drop_id)
next
  assume "\<exists>t. s = t @ p"
  then show "HasSuffix s p" by (auto simp: HasSuffix_def)
qed

lemma HasPrefix_Nil [simp]: "HasPrefix s []"
  by (simp add: HasPrefix_def)

lemma HasPrefix_length: "HasPrefix s p \<Longrightarrow> length p \<le> length s"
  by (auto simp: HasPrefix_append)

lemma HasSuffix_length: "HasSuffix s p \<Longrightarrow> length p \<le> length s"
  by (simp add: HasSuffix_def)

lemma Contains_append: "Contains s p \<longleftrightarrow> (\<exists>a b. s = a @ p @ b)"
proof (induction s)
  case Nil
  then show ?case by auto
next
  case (Cons c s)
  show ?case
  proof
    assume "Contains (c # s) p"
    then consider "HasPrefix (c # s) p" | "Contains s p" by auto
    then show "\<exists>a b. c # s = a @ p @ b"
    proof cases
      case 1
      then show ?thesis by (metis HasPrefix_append append_Nil)
    next
      case 2
      with Cons.IH obtain a b where "s = a @ p @ b" by blast
      then show ?thesis by (metis append_Cons)
    qed
  next
    assume "\<exists>a b. c # s = a @ p @ b"
    then obtain a b where ab: "c # s = a @ p @ b" by blast
    show "Contains (c # s) p"
    proof (cases a)
      case Nil
      with ab have "HasPrefix (c # s) p" by (simp add: HasPrefix_append)
      then show ?thesis by simp
    next
      case (Cons d a')
      with ab have "s = a' @ p @ b" by simp
      with Cons.IH show ?thesis by auto
    qed
  qed
qed

lemma Contains_length: "Contains s p \<Longrightarrow> length p \<le> length s"
  by (auto simp: Contains_append)

lemma Contains_set: "Contains s p \<Longrightarrow> set p \<subseteq> set s"
  by (auto simp: Contains_append)

subsection \<open>Trimming white space\<close>

text \<open>
  \<^verbatim>\<open>strings.TrimSpace\<close> strips the runes of \<^verbatim>\<open>unicode.IsSpace\<close> at both ends. The list below
  holds the UTF-8 encoding of each of them; since UTF-8 is self-synchronising, decoding runes
  from an end and comparing byte sequences at that end agree.
\<close>

definition space_seqs :: "string list" where
  "space_seqs =
     [[CHR 0x09], [CHR 0x0A], [CHR 0x0B], [CHR 0x0C], [CHR 0x0D], [CHR 0x20],
      [CHR 0xC2, CHR 0x85], [CHR 0xC2, CHR 0xA0], [CHR 0xE1, CHR 0x9A, CHR 0x80],
      [CHR 0xE2, CHR 0x80, CHR 0x80], [CHR 0xE2, CHR 0x80, CHR 0x81],
      [CHR 0xE2, CHR 0x80, CHR 0x82], [CHR 0xE2, CHR 0x80, CHR 0x83],
      [CHR 0xE2, CHR 0x80, CHR 0x84], [CHR 0xE2, CHR 0x80, CHR 0x85],
      [CHR 0xE2, CHR 0x80, CHR 0x86], [CHR 0xE2, CHR 0x80, CHR 0x87],
      [CHR 0xE2, CHR 0x80, CHR 0x88], [CHR 0xE2, CHR 0x80, CHR 0x89],
      [CHR 0xE2, CHR 0x80, CHR 0x8A], [CHR 0xE2, CHR 0x80, CHR 0xA8],
      [CHR 0xE2, CHR 0x80, CHR 0xA9], [CHR 0xE2, CHR 0x80, CHR 0xAF],
      [CHR 0xE2, CHR 0x81, CHR 0x9F], [CHR 0xE3, CHR 0x80, CHR 0x80]]"

fun strip_one :: "string list \<Rightarrow> string \<Rightarrow> string option" where
  "strip_one [] s = None"
| "strip_one (q # qs) s =
     (if q \<noteq> [] \<and> HasPrefix s q then Some (drop (length q) s) else strip_one qs s)"

lemma strip_one_length: "strip_one qs s = Some t \<Longrightarrow> length t < length s"
  by (induction qs) (auto split: if_splits simp: HasPrefix_append)

function trim_left :: "string list \<Rightarrow> string \<Rightarrow> string" where
  "trim_left qs s = (case strip_one qs s of None \<Rightarrow> s | Some t \<Rightarrow> trim_left qs t)"
  by pat_completeness auto
termination
  by (relation "measure (\<lambda>(qs, s). length s)") (auto dest: strip_one_length)

declare trim_left.simps [simp del]

definition TrimSpace :: "string \<Rightarrow> string" where
  "TrimSpace s = rev (trim_left (map rev space_seqs) (rev (trim_left space_seqs s)))"


lemma strip_one_None_iff:
  "strip_one qs s = None \<longleftrightarrow> (\<forall>q\<in>set qs. q \<noteq> [] \<longrightarrow> \<not> HasPrefix s q)"
  by (induction qs) auto

lemma trim_left_stop: "strip_one qs (trim_left qs s) = None"
proof (induction qs s rule: trim_left.induct)
  case (1 qs s)
  then show ?case
    by (cases "strip_one qs s") (simp_all add: trim_left.simps [of qs s])
qed

lemma trim_left_fix: "strip_one qs s = None \<Longrightarrow> trim_left qs s = s"
  by (simp add: trim_left.simps [of qs s])

lemma strip_one_suffix: "strip_one qs s = Some t \<Longrightarrow> \<exists>a. s = a @ t"
  by (induction qs) (auto split: if_splits simp: HasPrefix_append)

lemma trim_left_suffix: "\<exists>a. s = a @ trim_left qs s"
proof (induction qs s rule: trim_left.induct)
  case (1 qs s)
  show ?case
  proof (cases "strip_one qs s")
    case None
    then show ?thesis by (simp add: trim_left_fix)
  next
    case (Some t)
    with 1 obtain a where "t = a @ trim_left qs t" by blast
    moreover obtain b where "s = b @ t" using Some strip_one_suffix by blast
    ultimately show ?thesis using Some by (metis append_assoc option.simps(5) trim_left.simps)
  qed
qed

lemma TrimSpace_stop_left: "strip_one space_seqs (TrimSpace s) = None"
proof -
  let ?u = "trim_left space_seqs s"
  obtain a where "rev ?u = a @ trim_left (map rev space_seqs) (rev ?u)"
    using trim_left_suffix by blast
  then have "rev (rev ?u) = rev (a @ trim_left (map rev space_seqs) (rev ?u))" by (rule arg_cong)
  then have u: "?u = TrimSpace s @ rev a" by (simp only: rev_rev_ident rev_append TrimSpace_def)
  have "strip_one space_seqs (TrimSpace s @ rev a) = None"
    unfolding u [symmetric] by (rule trim_left_stop)
  then show ?thesis
    unfolding strip_one_None_iff HasPrefix_append by (metis append_assoc)
qed

lemma TrimSpace_idem [simp]: "TrimSpace (TrimSpace s) = TrimSpace s"
proof -
  let ?t = "TrimSpace s"
  have l: "trim_left space_seqs ?t = ?t"
    by (rule trim_left_fix) (rule TrimSpace_stop_left)
  have "strip_one (map rev space_seqs) (rev ?t) = None"
    by (simp add: TrimSpace_def trim_left_stop)
  then have "trim_left (map rev space_seqs) (rev ?t) = rev ?t" by (rule trim_left_fix)
  then show ?thesis by (simp add: TrimSpace_def [of ?t] l)
qed

lemma strip_one_Nil: "strip_one qs [] = None"
  by (auto simp: strip_one_None_iff HasPrefix_def)

lemma TrimSpace_Nil [simp]: "TrimSpace [] = []"
  by (simp add: TrimSpace_def trim_left_fix strip_one_Nil)

subsection \<open>Case, joining, cutting\<close>

text \<open>
  \<^verbatim>\<open>strings.ToLower\<close> on ASCII. Bytes from 0x80 on are kept, as Go keeps every rune without a
  lower-case mapping; the names the source lower-cases (behaviours, modes, the kinds and roles of
  entities) are ASCII words, and a rune with a lower-case mapping outside ASCII is not covered.
\<close>

definition lower_char :: "char \<Rightarrow> char" where
  "lower_char c = (let n = (of_char c :: nat) in if 65 \<le> n \<and> n \<le> 90 then char_of (n + 32) else c)"

definition ToLower :: "string \<Rightarrow> string" where
  "ToLower s = map lower_char s"

lemma lower_char_idem [simp]: "lower_char (lower_char c) = lower_char c"
proof (cases "65 \<le> (of_char c :: nat) \<and> (of_char c :: nat) \<le> 90")
  case True
  let ?n = "(of_char c :: nat) + 32"
  have "(of_char (char_of ?n :: char) :: nat) = ?n mod 256" by simp
  also have "\<dots> = ?n" using True by simp
  finally have "\<not> (of_char (char_of ?n :: char) :: nat) \<le> 90" using True by simp
  with True show ?thesis by (simp add: lower_char_def Let_def)
next
  case False
  then have "lower_char c = c" by (auto simp: lower_char_def Let_def)
  then show ?thesis by simp
qed

lemma ToLower_idem [simp]: "ToLower (ToLower s) = ToLower s"
  by (simp add: ToLower_def)

lemma ToLower_Nil [simp]: "ToLower [] = []"
  by (simp add: ToLower_def)

lemma ToLower_eq_Nil [simp]: "ToLower s = [] \<longleftrightarrow> s = []"
  by (simp add: ToLower_def)

fun Join :: "string list \<Rightarrow> string \<Rightarrow> string" where
  "Join [] sep = []"
| "Join [s] sep = s"
| "Join (s # t # ts) sep = s @ sep @ Join (t # ts) sep"

text \<open>\<^verbatim>\<open>strings.Cut\<close>: the text before and after the first separator, and whether there is one.\<close>

fun Cut :: "string \<Rightarrow> string \<Rightarrow> string \<times> string \<times> bool" where
  "Cut [] sep = (if sep = [] then ([], [], True) else ([], [], False))"
| "Cut (c # s) sep =
     (if HasPrefix (c # s) sep then ([], drop (length sep) (c # s), True)
      else (let (a, b, ok) = Cut s sep in (c # a, b, ok)))"

lemma Cut_found: "Cut s sep = (a, b, True) \<Longrightarrow> s = a @ sep @ b"
proof (induction s arbitrary: a)
  case Nil
  then show ?case by (auto split: if_splits)
next
  case (Cons c s)
  then show ?case by (auto split: if_splits prod.splits simp: HasPrefix_append)
qed

lemma Cut_not_found: "Cut s sep = (a, b, False) \<Longrightarrow> a = s \<and> b = []"
  by (induction s arbitrary: a) (auto split: if_splits prod.splits)

definition ContainsAny :: "string \<Rightarrow> string \<Rightarrow> bool" where
  "ContainsAny s cs = list_ex (\<lambda>c. c \<in> set cs) s"

subsection \<open>Paths\<close>

text \<open>\<^verbatim>\<open>filepath.Base\<close> on Unix: trailing slashes are removed, then everything up to the last slash.\<close>

definition Base :: "string \<Rightarrow> string" where
  "Base p =
     (if p = [] then ''.''
      else let q = rev (dropWhile (\<lambda>c. c = CHR ''/'') (rev p));
               b = rev (takeWhile (\<lambda>c. c \<noteq> CHR ''/'') (rev q))
           in if b = [] then ''/'' else b)"

lemma Base_nonempty: "Base p \<noteq> []"
  by (simp add: Base_def Let_def)

subsection \<open>Decimal numbers\<close>

fun digits :: "nat \<Rightarrow> string" where
  "digits n = (if n < 10 then [char_of (48 + n)] else digits (n div 10) @ [char_of (48 + n mod 10)])"

declare digits.simps [simp del]

text \<open>\<^verbatim>\<open>%020d\<close>: at least twenty digits, padded with zeros on the left.\<close>

definition pad20 :: "string \<Rightarrow> string" where
  "pad20 s = replicate (20 - length s) CHR ''0'' @ s"

definition digits_value :: "string \<Rightarrow> nat" where
  "digits_value s = foldl (\<lambda>a c. a * 10 + (of_char c - 48)) 0 s"

lemma digits_value_snoc: "digits_value (s @ [c]) = digits_value s * 10 + (of_char c - 48)"
  by (simp add: digits_value_def)

lemma digits_value_Nil [simp]: "digits_value [] = 0"
  by (simp add: digits_value_def)

lemma digits_value_digits: "digits_value (digits n) = n"
proof (induction n rule: digits.induct)
  case (1 n)
  have small: "of_char (char_of (48 + k) :: char) - 48 = k" if "k < 10" for k :: nat
    using that by simp
  show ?case
  proof (cases "n < 10")
    case True
    with small [of n] show ?thesis by (simp add: digits.simps [of n] digits_value_def)
  next
    case False
    with 1 have "digits_value (digits (n div 10)) = n div 10" by simp
    then have "digits_value (digits n) = n div 10 * 10 + (of_char (char_of (48 + n mod 10) :: char) - 48)"
      using False by (simp add: digits.simps [of n] digits_value_snoc)
    also have "\<dots> = n div 10 * 10 + n mod 10" using small [of "n mod 10"] by simp
    finally show ?thesis by simp
  qed
qed

lemma digits_inject [simp]: "digits m = digits n \<longleftrightarrow> m = n"
  by (metis digits_value_digits)

lemma digits_value_zeros: "digits_value (replicate k CHR ''0'' @ s) = digits_value s"
  by (induction k) (simp_all add: digits_value_def)

lemma pad20_digits_inject [simp]: "pad20 (digits m) = pad20 (digits n) \<longleftrightarrow> m = n"
  by (metis digits_value_digits digits_value_zeros pad20_def)

text \<open>\<^verbatim>\<open>fmt.Sprintf\<close> of a counter after a literal prefix, as the source names its records.\<close>

text \<open>\<^verbatim>\<open>t.UnixNano()\<close>: the zero time is 62135596800 seconds before the epoch.\<close>

definition UnixNano :: "time \<Rightarrow> int" where
  "UnixNano t = t - 62135596800 * 1000000000"

text \<open>\<^verbatim>\<open>fmt.Sprintf("%020d", n)\<close> of a signed number.\<close>

definition fmt020d :: "int \<Rightarrow> string" where
  "fmt020d n = (if n < 0 then CHR ''-'' # replicate (19 - length (digits (nat (- n)))) (CHR ''0'') @ digits (nat (- n))
                else pad20 (digits (nat n)))"

definition counter_id :: "string \<Rightarrow> uint64 \<Rightarrow> string" where
  "counter_id prefix n = prefix @ pad20 (digits (unat n))"

lemma counter_id_inject [simp]: "counter_id p m = counter_id p n \<longleftrightarrow> m = n"
  by (simp add: counter_id_def word_unat_eq_iff)

lemma counter_id_nonempty: "p \<noteq> [] \<Longrightarrow> counter_id p n \<noteq> []"
  by (simp add: counter_id_def)

section \<open>Keeping the last elements\<close>

definition last_n :: "nat \<Rightarrow> 'a list \<Rightarrow> 'a list" where
  "last_n n xs = drop (length xs - n) xs"

lemma last_n_map: "last_n n (map f xs) = map f (last_n n xs)"
  by (simp add: last_n_def drop_map)

lemma set_last_n: "set (last_n n xs) \<subseteq> set xs"
  by (simp add: last_n_def set_drop_subset)

lemma distinct_last_n: "distinct xs \<Longrightarrow> distinct (last_n n xs)"
  by (simp add: last_n_def)

lemma length_last_n: "length (last_n n xs) = min n (length xs)"
  by (simp add: last_n_def)

lemma int_length_last_n: "0 \<le> c \<Longrightarrow> int (length (last_n (nat c) xs)) \<le> c"
  by (simp add: length_last_n)

lemma last_n_snoc: "last_n c (last_n c l @ [x]) = last_n c (l @ [x])"
  by (cases "length l \<le> c") (auto simp: last_n_def Suc_diff_le not_le)

lemma last_n_append_eq: "last_n c (last_n c l @ xs) = last_n c (l @ xs)"
proof (induction xs rule: rev_induct)
  case Nil
  then show ?case by (simp add: last_n_def)
next
  case (snoc x xs)
  then show ?case by (metis append_assoc last_n_snoc)
qed

lemma last_n_Nil [simp]: "last_n c [] = []"
  by (simp add: last_n_def)

text \<open>
  A log that keeps its newest entries: pushing one element keeps the last \<open>capacity\<close> of what was
  pushed. The law for one push gives the one for any sequence of pushes.
\<close>

locale bounded_log =
  fixes push :: "'s \<Rightarrow> 'a \<Rightarrow> 's"
    and contents :: "'s \<Rightarrow> 'a list"
    and capacity :: "'s \<Rightarrow> nat"
  assumes push_contents: "length (contents s) \<le> capacity s \<Longrightarrow> contents (push s x) = last_n (capacity s) (contents s @ [x])"
    and push_capacity: "capacity (push s x) = capacity s"
begin

lemma run_capacity: "capacity (foldl push s xs) = capacity s"
  by (induction xs rule: rev_induct) (simp_all add: push_capacity)

lemma run_contents:
  "length (contents s) \<le> capacity s \<Longrightarrow>
   contents (foldl push s xs) = last_n (capacity s) (contents s @ xs)"
proof (induction xs rule: rev_induct)
  case Nil
  then show ?case by (simp add: last_n_def)
next
  case (snoc x xs)
  have "length (contents (foldl push s xs)) \<le> capacity (foldl push s xs)"
    using snoc by (simp add: length_last_n run_capacity)
  then show ?case
    using snoc push_contents by (simp add: run_capacity last_n_append_eq)
qed

lemma run_bounded:
  "length (contents s) \<le> capacity s \<Longrightarrow> length (contents (foldl push s xs)) \<le> capacity s"
  by (simp add: run_contents length_last_n)

end

lemma map_sum_Inr: "map_sum id f r = Inr y \<longleftrightarrow> (\<exists>x. r = Inr x \<and> y = f x)"
  by (cases r) auto

section \<open>Machines and their invariants\<close>

text \<open>
  A component that reacts to a sequence of calls is a step function; an invariant that every
  call keeps holds after every sequence of calls.
\<close>

locale machine =
  fixes step :: "'s \<Rightarrow> 'e \<Rightarrow> 's"
    and invar :: "'s \<Rightarrow> bool"
  assumes step_invar: "invar s \<Longrightarrow> invar (step s e)"
begin

lemma run_invar: "invar s \<Longrightarrow> invar (foldl step s es)"
  by (induction es arbitrary: s) (simp_all add: step_invar)

lemma run_prefix_invar: "invar s \<Longrightarrow> invar (foldl step s (take n es))"
  by (rule run_invar)

lemma run_measure:
  assumes "\<And>s e. invar s \<Longrightarrow> f (step s e) = f s" and "invar s"
  shows "f (foldl step s es) = f s"
  using assms(2) by (induction es arbitrary: s) (simp_all add: assms(1) step_invar)

end

end
