(* ===== verification/Data_Model.thy ===== *)
theory Data_Model
  imports Complex_Main Go_Prelude
begin

text \<open>
  The protocol messages the components exchange (\<^verbatim>\<open>api/proto/**/*.proto\<close>), one record per message
  with the fields in the order of the message, and the behaviours of
  \<^verbatim>\<open>internal/eventmodel/behavior.go\<close>. A message field is an \<open>option\<close> (nil pointer); a
  repeated field is a list of messages, none of them nil, as the codec guarantees; a map field is
  an association list. The generated getters return the zero value on nil: \<open>get_or\<close>-style
  accessors below.
\<close>

section \<open>Numbers\<close>

datatype float64 = NaN | NegInf | PosInf | Finite rat

section \<open>Events\<close>

record ProcessRef =
  pr_stable_id :: string
  pr_pid :: uint32
  pr_binary :: string
  pr_argv :: "string list"
  pr_uid :: uint32
  pr_start_time_ns :: uint64
  pr_argv_boundaries_trusted :: bool

record ObjectRef =
  obj_kind :: string
  obj_file_path :: string
  obj_socket_addr :: string
  obj_target_proc_stable_id :: string

record RuntimeScope =
  scope_type :: string
  scope_selector :: string

record CanonicalEvent =
  ev_id :: string
  ev_seq :: uint64
  ev_agent_id :: string
  ev_host_id :: string
  ev_mono_ns :: uint64
  ev_subject_proc :: "ProcessRef option"
  ev_object :: "ObjectRef option"
  ev_parent_stable_id :: string
  ev_lineage_id :: string
  ev_raw_ref :: string
  ev_tenant_id :: string
  ev_scope :: "RuntimeScope option"
  ev_container_id :: string
  ev_cgroup :: string
  ev_namespace :: string
  ev_pod :: string
  ev_occurred_at_ns :: uint64
  ev_behavior :: string
  ev_labels :: "(string, string) gomap"

definition ProcessRef_zero :: ProcessRef where
  "ProcessRef_zero = \<lparr> pr_stable_id = [], pr_pid = 0, pr_binary = [], pr_argv = [], pr_uid = 0,
     pr_start_time_ns = 0, pr_argv_boundaries_trusted = False \<rparr>"

definition ObjectRef_zero :: ObjectRef where
  "ObjectRef_zero = \<lparr> obj_kind = [], obj_file_path = [], obj_socket_addr = [], obj_target_proc_stable_id = [] \<rparr>"

definition CanonicalEvent_zero :: CanonicalEvent where
  "CanonicalEvent_zero = \<lparr> ev_id = [], ev_seq = 0, ev_agent_id = [], ev_host_id = [], ev_mono_ns = 0,
     ev_subject_proc = None, ev_object = None, ev_parent_stable_id = [], ev_lineage_id = [],
     ev_raw_ref = [], ev_tenant_id = [], ev_scope = None, ev_container_id = [], ev_cgroup = [],
     ev_namespace = [], ev_pod = [], ev_occurred_at_ns = 0, ev_behavior = [], ev_labels = [] \<rparr>"

definition GetSubjectProc :: "CanonicalEvent \<Rightarrow> ProcessRef" where
  "GetSubjectProc ev = (case ev_subject_proc ev of None \<Rightarrow> ProcessRef_zero | Some p \<Rightarrow> p)"

definition GetObject :: "CanonicalEvent \<Rightarrow> ObjectRef" where
  "GetObject ev = (case ev_object ev of None \<Rightarrow> ObjectRef_zero | Some p \<Rightarrow> p)"

section \<open>Signals\<close>

datatype SignalWhere = WHERE_UNSPECIFIED | WHERE_ENDPOINT | WHERE_CLOUD

record EntityRef =
  ent_kind :: string
  ent_key :: string
  ent_role :: string

record EvidenceBundle =
  eb_id :: string
  eb_event_refs :: "string list"
  eb_raw_refs :: "string list"
  eb_entities :: "EntityRef list"
  eb_summary :: string

record ResponseIntent =
  ri_response_intent :: string
  ri_recommended_action :: string
  ri_confidence :: uint32
  ri_reason :: string

record ContentRef =
  cr_ref :: string
  cr_version :: string
  cr_digest :: string

record Signal =
  sig_id :: string
  sig_name :: string
  sig_where :: SignalWhere
  sig_base_risk :: uint32
  sig_local_rarity :: float64
  sig_global_rarity :: float64
  sig_lineage_id :: string
  sig_entities :: "EntityRef list"
  sig_event_refs :: "string list"
  sig_signal_refs :: "string list"
  sig_terminal :: bool
  sig_evidence :: "EvidenceBundle option"
  sig_cross_lineage :: bool
  sig_response_intent :: "ResponseIntent option"
  sig_rule_id :: string
  sig_rule_version :: uint64
  sig_ruleset_ref :: string
  sig_context_refs :: "ContentRef list"
  sig_ioc_refs :: "ContentRef list"
  sig_severity :: string
  sig_confidence :: uint32
  sig_mode :: string
  sig_labels :: "(string, string) gomap"

definition Signal_zero :: Signal where
  "Signal_zero = \<lparr> sig_id = [], sig_name = [], sig_where = WHERE_UNSPECIFIED, sig_base_risk = 0,
     sig_local_rarity = Finite 0, sig_global_rarity = Finite 0, sig_lineage_id = [], sig_entities = [],
     sig_event_refs = [], sig_signal_refs = [], sig_terminal = False, sig_evidence = None, sig_cross_lineage = False,
     sig_response_intent = None, sig_rule_id = [], sig_rule_version = 0, sig_ruleset_ref = [], sig_context_refs = [],
     sig_ioc_refs = [], sig_severity = [], sig_confidence = 0, sig_mode = [], sig_labels = [] \<rparr>"

section \<open>The data plane\<close>

record EventFrame =
  ef_sequence :: uint64
  ef_observed_at :: string
  ef_event :: "CanonicalEvent option"

record SignalFrame =
  sf_sequence :: uint64
  sf_observed_at :: string
  sf_signal :: "Signal option"

record BatchHeader =
  bh_batch_id :: string
  bh_tenant_id :: string
  bh_agent_id :: string
  bh_host_id :: string
  bh_policy_id :: string
  bh_policy_version :: uint64
  bh_policy_mode :: string
  bh_event_seq_start :: uint64
  bh_event_seq_end :: uint64
  bh_signal_seq_start :: uint64
  bh_signal_seq_end :: uint64
  bh_event_count :: uint32
  bh_signal_count :: uint32
  bh_dropped_events_delta :: uint64
  bh_parse_errors_delta :: uint64
  bh_created_at_unix_nano :: int
  bh_labels :: "(string, string) gomap"

record DataBatch =
  db_header :: "BatchHeader option"
  db_events :: "EventFrame list"
  db_signals :: "SignalFrame list"
  db_schema_version :: string

datatype DataAck_Status =
    STATUS_UNSPECIFIED | STATUS_ACCEPTED | STATUS_DUPLICATE | STATUS_RETRYABLE | STATUS_REJECTED

record DataAck =
  ack_batch_id :: string
  ack_accepted :: bool
  ack_message :: string
  ack_status :: DataAck_Status
  ack_reason_code :: string
  ack_committed_cursor :: string
  ack_server_time :: string
  ack_accepted_events :: uint64
  ack_accepted_signals :: uint64
  ack_retryable :: bool
  ack_retry_after_ms :: uint64
  ack_partial :: bool
  ack_rejected_events :: uint64
  ack_rejected_signals :: uint64
  ack_contract_version :: string

definition BatchHeader_zero :: BatchHeader where
  "BatchHeader_zero = \<lparr> bh_batch_id = [], bh_tenant_id = [], bh_agent_id = [], bh_host_id = [],
     bh_policy_id = [], bh_policy_version = 0, bh_policy_mode = [], bh_event_seq_start = 0,
     bh_event_seq_end = 0, bh_signal_seq_start = 0, bh_signal_seq_end = 0, bh_event_count = 0,
     bh_signal_count = 0, bh_dropped_events_delta = 0, bh_parse_errors_delta = 0,
     bh_created_at_unix_nano = 0, bh_labels = [] \<rparr>"

definition DataBatch_zero :: DataBatch where
  "DataBatch_zero = \<lparr> db_header = None, db_events = [], db_signals = [], db_schema_version = [] \<rparr>"

definition DataAck_zero :: DataAck where
  "DataAck_zero = \<lparr> ack_batch_id = [], ack_accepted = False, ack_message = [],
     ack_status = STATUS_UNSPECIFIED, ack_reason_code = [], ack_committed_cursor = [],
     ack_server_time = [], ack_accepted_events = 0, ack_accepted_signals = 0, ack_retryable = False,
     ack_retry_after_ms = 0, ack_partial = False, ack_rejected_events = 0, ack_rejected_signals = 0,
     ack_contract_version = [] \<rparr>"

definition GetHeader :: "DataBatch \<Rightarrow> BatchHeader" where
  "GetHeader b = (case db_header b of None \<Rightarrow> BatchHeader_zero | Some h \<Rightarrow> h)"

section \<open>Behaviours\<close>

definition NormalizeBehavior :: "string \<Rightarrow> string" where
  "NormalizeBehavior name = TrimSpace (ToLower name)"

definition AllBehaviors :: "string list" where
  "AllBehaviors =
    [''process.exec'', ''process.fork'', ''process.exit'', ''file.open'', ''file.read'',
     ''file.write'', ''file.chmod'', ''network.connect'']"

definition KnownBehavior :: "string \<Rightarrow> bool" where
  "KnownBehavior name =
    (NormalizeBehavior name \<in> set
      [''process.exec'', ''process.fork'', ''process.exit'', ''file.open'', ''file.read'',
       ''file.write'', ''file.chmod'', ''network.connect''])"

end
