(* ===== verification/Matcher.thy ===== *)
theory Matcher
  imports Go_Prelude
begin

text \<open>
  The string matchers of \<^verbatim>\<open>internal/endpoint/matcher/matcher.go\<close>: the linear matchers, the
  bucketed ones that replace them under the strategy \<^verbatim>\<open>optimized\<close>, and the choice between them.
  The lemmas show that both strategies accept the same values, and the locale
  \<open>string_matcher\<close> is the contract the compiled detection rules rely on.
\<close>

section \<open>Definitions\<close>

subsection \<open>Strategy\<close>

definition StrategyLinear :: string where
  "StrategyLinear = ''linear''"

definition StrategyOptimized :: string where
  "StrategyOptimized = ''optimized''"

text \<open>The stored default after \<^verbatim>\<open>SetDefaultStrategy(strategy)\<close>; \<^verbatim>\<open>DefaultStrategy\<close> reads it back.\<close>

definition SetDefaultStrategy :: "string \<Rightarrow> string" where
  "SetDefaultStrategy strategy =
     (if strategy = StrategyLinear \<or> strategy = StrategyOptimized then strategy else StrategyLinear)"

definition useOptimized :: "string \<Rightarrow> nat \<Rightarrow> bool" where
  "useOptimized strategy sz = (strategy = StrategyOptimized)"

subsection \<open>The matchers\<close>

datatype Matcher =
    EmptyMatcher
  | ExactMatcher "string list"
  | PrefixMatcher "string list"
  | SuffixMatcher "string list"
  | ContainsMatcher "string list"
  | BucketPrefixMatcher "string list" nat "char \<Rightarrow> string list"
  | BucketSuffixMatcher "string list" nat "char \<Rightarrow> string list"
  | BucketContainsMatcher "string list" "char \<Rightarrow> string list"

fun normalize_loop :: "string list \<Rightarrow> string list \<Rightarrow> string list" where
  "normalize_loop seen [] = []"
| "normalize_loop seen (value # values) =
     (if value = '''' then normalize_loop seen values
      else if value \<in> set seen then normalize_loop seen values
      else value # normalize_loop (value # seen) values)"

definition normalize :: "string list \<Rightarrow> string list" where
  "normalize values = normalize_loop [] values"

definition shortestLength :: "string list \<Rightarrow> nat" where
  "shortestLength values =
     (case values of [] \<Rightarrow> 0
      | v # vs \<Rightarrow> foldl (\<lambda>shortest value. if length value < shortest then length value else shortest)
                    (length v) vs)"

fun countDistinct :: "bool \<Rightarrow> nat \<Rightarrow> string list \<Rightarrow> char list \<Rightarrow> nat \<Rightarrow> nat" where
  "countDistinct reverse index [] seen n = n"
| "countDistinct reverse index (value # values) seen n =
     (if length value \<le> index then countDistinct reverse index values seen n
      else let pos = (if reverse then length value - 1 - index else index);
               key = value ! pos
           in if key \<in> set seen then countDistinct reverse index values seen n
              else countDistinct reverse index values (key # seen) (n + 1))"

fun bestSharedIndex_loop :: "string list \<Rightarrow> bool \<Rightarrow> nat list \<Rightarrow> nat \<Rightarrow> nat \<Rightarrow> nat" where
  "bestSharedIndex_loop values reverse [] bestIndex bestDistinct = bestIndex"
| "bestSharedIndex_loop values reverse (index # rest) bestIndex bestDistinct =
     (let n = countDistinct reverse index values [] 0
      in if n > bestDistinct then bestSharedIndex_loop values reverse rest index n
         else bestSharedIndex_loop values reverse rest bestIndex bestDistinct)"

definition bestSharedIndex :: "string list \<Rightarrow> bool \<Rightarrow> nat" where
  "bestSharedIndex values reverse =
     (let maxLen = shortestLength values;
          maxLen = (if maxLen > 32 then 32 else maxLen)
      in bestSharedIndex_loop values reverse [0..<maxLen] 0 0)"

fun byteFrequencies_value :: "string \<Rightarrow> char list \<Rightarrow> (char \<Rightarrow> nat) \<Rightarrow> (char \<Rightarrow> nat)" where
  "byteFrequencies_value [] seen out = out"
| "byteFrequencies_value (key # value) seen out =
     (if key \<in> set seen then byteFrequencies_value value seen out
      else byteFrequencies_value value (key # seen) (out(key := out key + 1)))"

definition byteFrequencies :: "string list \<Rightarrow> char \<Rightarrow> nat" where
  "byteFrequencies values = foldl (\<lambda>out value. byteFrequencies_value value [] out) (\<lambda>_. 0) values"

fun rarestGlobalByte_loop :: "(char \<Rightarrow> nat) \<Rightarrow> string \<Rightarrow> char \<Rightarrow> nat \<Rightarrow> char" where
  "rarestGlobalByte_loop frequencies [] best bestCount = best"
| "rarestGlobalByte_loop frequencies (c # rest) best bestCount =
     (let count = frequencies c
      in if count < bestCount
         then (if count = 1 then c else rarestGlobalByte_loop frequencies rest c count)
         else rarestGlobalByte_loop frequencies rest best bestCount)"

text \<open>\<^verbatim>\<open>value[0]\<close> panics on the empty string; the only caller skips it.\<close>

definition rarestGlobalByte :: "string \<Rightarrow> (char \<Rightarrow> nat) \<Rightarrow> char" where
  "rarestGlobalByte value frequencies =
     rarestGlobalByte_loop frequencies (tl value) (hd value) (frequencies (hd value))"

text \<open>
  \<^verbatim>\<open>sort.Slice\<close> leaves the order of equal lengths open; the model takes the stable one, and
  \<open>Match_bucket_order\<close> shows that no result depends on it.
\<close>

definition sortByLengthDesc :: "string list \<Rightarrow> string list" where
  "sortByLengthDesc values = sort_key (\<lambda>v. - int (length v)) values"

fun fillBuckets :: "(string \<Rightarrow> char option) \<Rightarrow> string list \<Rightarrow> (char \<Rightarrow> string list) \<Rightarrow> (char \<Rightarrow> string list)" where
  "fillBuckets keyOf [] buckets = buckets"
| "fillBuckets keyOf (p # ps) buckets =
     (case keyOf p of
        None \<Rightarrow> fillBuckets keyOf ps buckets
      | Some key \<Rightarrow> fillBuckets keyOf ps (buckets(key := buckets key @ [p])))"

definition newBucketPrefixMatcher :: "string list \<Rightarrow> Matcher" where
  "newBucketPrefixMatcher prefixes =
     (let index = bestSharedIndex prefixes False;
          buckets = fillBuckets (\<lambda>p. if length p \<le> index then None else Some (p ! index)) prefixes (\<lambda>_. [])
      in BucketPrefixMatcher prefixes index (\<lambda>i. sortByLengthDesc (buckets i)))"

definition newBucketSuffixMatcher :: "string list \<Rightarrow> Matcher" where
  "newBucketSuffixMatcher suffixes =
     (let index = bestSharedIndex suffixes True;
          buckets = fillBuckets (\<lambda>p. if length p \<le> index then None else Some (p ! (length p - 1 - index)))
                      suffixes (\<lambda>_. [])
      in BucketSuffixMatcher suffixes index (\<lambda>i. sortByLengthDesc (buckets i)))"

definition newBucketContainsMatcher :: "string list \<Rightarrow> Matcher" where
  "newBucketContainsMatcher patterns =
     (let frequencies = byteFrequencies patterns;
          buckets = fillBuckets (\<lambda>p. if p = '''' then None else Some (rarestGlobalByte p frequencies))
                      patterns (\<lambda>_. [])
      in BucketContainsMatcher patterns (\<lambda>i. sortByLengthDesc (buckets i)))"

definition NewExact :: "string list \<Rightarrow> Matcher" where
  "NewExact values =
     (let values = normalize values in if values = [] then EmptyMatcher else ExactMatcher values)"

definition NewPrefix :: "string \<Rightarrow> string list \<Rightarrow> Matcher" where
  "NewPrefix strategy prefixes =
     (let prefixes = normalize prefixes
      in if prefixes = [] then EmptyMatcher
         else if useOptimized strategy (length prefixes) then newBucketPrefixMatcher prefixes
         else PrefixMatcher prefixes)"

definition NewSuffix :: "string \<Rightarrow> string list \<Rightarrow> Matcher" where
  "NewSuffix strategy suffixes =
     (let suffixes = normalize suffixes
      in if suffixes = [] then EmptyMatcher
         else if useOptimized strategy (length suffixes) then newBucketSuffixMatcher suffixes
         else SuffixMatcher suffixes)"

definition NewContains :: "string \<Rightarrow> string list \<Rightarrow> Matcher" where
  "NewContains strategy patterns =
     (let patterns = normalize patterns
      in if patterns = [] then EmptyMatcher
         else if useOptimized strategy (length patterns) then newBucketContainsMatcher patterns
         else ContainsMatcher patterns)"

fun bucketContains_loop :: "(char \<Rightarrow> string list) \<Rightarrow> string \<Rightarrow> string \<Rightarrow> char list \<Rightarrow> bool" where
  "bucketContains_loop buckets value [] seen = False"
| "bucketContains_loop buckets value (key # rest) seen =
     (if key \<in> set seen then bucketContains_loop buckets value rest seen
      else if list_ex (\<lambda>p. length p \<le> length value \<and> Contains value p) (buckets key) then True
      else bucketContains_loop buckets value rest (key # seen))"

fun Match :: "Matcher \<Rightarrow> string \<Rightarrow> bool" where
  "Match EmptyMatcher value = False"
| "Match (ExactMatcher values) value = (value \<in> set values)"
| "Match (PrefixMatcher prefixes) value = list_ex (\<lambda>p. HasPrefix value p) prefixes"
| "Match (SuffixMatcher suffixes) value = list_ex (\<lambda>p. HasSuffix value p) suffixes"
| "Match (ContainsMatcher patterns) value = list_ex (\<lambda>p. Contains value p) patterns"
| "Match (BucketPrefixMatcher prefixes index buckets) value =
     (if length value \<le> index then False
      else list_ex (\<lambda>p. length p \<le> length value \<and> HasPrefix value p) (buckets (value ! index)))"
| "Match (BucketSuffixMatcher suffixes index buckets) value =
     (if length value \<le> index then False
      else list_ex (\<lambda>p. length p \<le> length value \<and> HasSuffix value p)
             (buckets (value ! (length value - 1 - index))))"
| "Match (BucketContainsMatcher patterns buckets) value =
     (if value = '''' then False else bucketContains_loop buckets value value [])"

section \<open>Normalisation and buckets\<close>

lemma set_normalize_loop: "set (normalize_loop seen vs) = {v \<in> set vs. v \<noteq> [] \<and> v \<notin> set seen}"
  by (induction seen vs rule: normalize_loop.induct) auto

lemma set_normalize [simp]: "set (normalize vs) = {v \<in> set vs. v \<noteq> []}"
  by (simp add: normalize_def set_normalize_loop)

lemma distinct_normalize_loop: "distinct (normalize_loop seen vs)"
  by (induction seen vs rule: normalize_loop.induct) (auto simp: set_normalize_loop)

lemma set_sortByLengthDesc [simp]: "set (sortByLengthDesc ps) = set ps"
  by (simp add: sortByLengthDesc_def)

lemma set_fillBuckets:
  "set (fillBuckets keyOf ps b c) = set (b c) \<union> {p \<in> set ps. keyOf p = Some c}"
  by (induction keyOf ps b arbitrary: c rule: fillBuckets.induct) (auto split: option.splits)

text \<open>A matcher's answer depends on a bucket only through the set of its patterns.\<close>

lemma bucketContains_loop_order:
  assumes "\<And>c. set (b c) = set (b' c)"
  shows "bucketContains_loop b v w seen = bucketContains_loop b' v w seen"
  by (induction w arbitrary: seen) (auto simp: list_ex_iff assms)

lemma Match_bucket_order:
  assumes "\<And>c. set (b c) = set (b' c)"
  shows "Match (BucketPrefixMatcher ps i b) v = Match (BucketPrefixMatcher ps i b') v"
    and "Match (BucketSuffixMatcher ps i b) v = Match (BucketSuffixMatcher ps i b') v"
    and "Match (BucketContainsMatcher ps b) v = Match (BucketContainsMatcher ps b') v"
  by (simp_all add: list_ex_iff assms bucketContains_loop_order [of b b', OF assms])

section \<open>The shared index\<close>

lemma foldl_min_le:
  "foldl (\<lambda>m v. if length v < m then length v else m) n vs \<le> n"
proof (induction vs arbitrary: n)
  case (Cons v vs)
  show ?case using Cons.IH [of "length v"] Cons.IH [of n] by (cases "length v < n") simp_all
qed simp

lemma foldl_min_member:
  "v \<in> set vs \<Longrightarrow> foldl (\<lambda>m v. if length v < m then length v else m) n vs \<le> length v"
proof (induction vs arbitrary: n)
  case Nil
  then show ?case by simp
next
  case (Cons w vs)
  then consider "v = w" | "v \<in> set vs" by auto
  then show ?case
  proof cases
    case 1
    show ?thesis using foldl_min_le [of "if length w < n then length w else n" vs] 1
      by (auto split: if_splits)
  next
    case 2
    then show ?thesis using Cons.IH by simp
  qed
qed

lemma foldl_min_attained:
  "foldl (\<lambda>m v. if length v < m then length v else m) n vs \<in> insert n (length ` set vs)"
  by (induction vs arbitrary: n) (auto split: if_splits)

lemma shortestLength_le: "v \<in> set vs \<Longrightarrow> shortestLength vs \<le> length v"
  by (cases vs) (auto simp: shortestLength_def intro: foldl_min_le foldl_min_member)

lemma shortestLength_pos:
  assumes "vs \<noteq> []" and "\<And>v. v \<in> set vs \<Longrightarrow> v \<noteq> []"
  shows "0 < shortestLength vs"
proof (cases vs)
  case Nil
  with assms show ?thesis by simp
next
  case (Cons w ws)
  have "shortestLength vs \<in> length ` set vs"
    using foldl_min_attained [of "length w" ws] Cons by (simp add: shortestLength_def)
  with assms(2) show ?thesis by auto
qed

lemma bestSharedIndex_loop_less:
  "(\<forall>i \<in> set is. i < n) \<Longrightarrow> b < n \<Longrightarrow> bestSharedIndex_loop vs r is b d < n"
  by (induction vs r "is" b d rule: bestSharedIndex_loop.induct) (simp_all add: Let_def)

lemma bestSharedIndex_less:
  assumes "vs \<noteq> []" and "\<And>v. v \<in> set vs \<Longrightarrow> v \<noteq> []" and "v \<in> set vs"
  shows "bestSharedIndex vs r < length v"
proof -
  have pos: "0 < shortestLength vs" using assms(1,2) by (rule shortestLength_pos)
  have "bestSharedIndex vs r < shortestLength vs"
    unfolding bestSharedIndex_def Let_def
    by (rule bestSharedIndex_loop_less) (use pos in auto)
  with shortestLength_le [OF assms(3)] show ?thesis by simp
qed

section \<open>Each bucketed matcher agrees with its linear one\<close>

lemma HasPrefix_nth: "HasPrefix v p \<Longrightarrow> i < length p \<Longrightarrow> p ! i = v ! i"
  by (auto simp: HasPrefix_append nth_append)

lemma HasSuffix_nth:
  "HasSuffix v p \<Longrightarrow> i < length p \<Longrightarrow> p ! (length p - 1 - i) = v ! (length v - 1 - i)"
  by (auto simp: HasSuffix_append nth_append)

lemma Match_newBucketPrefixMatcher:
  assumes "ps \<noteq> []" and ne: "\<And>p. p \<in> set ps \<Longrightarrow> p \<noteq> []"
  shows "Match (newBucketPrefixMatcher ps) v \<longleftrightarrow> (\<exists>p\<in>set ps. HasPrefix v p)"
proof -
  let ?i = "bestSharedIndex ps False"
  have idx: "?i < length p" if "p \<in> set ps" for p
    using assms that by (rule bestSharedIndex_less)
  have "Match (newBucketPrefixMatcher ps) v \<longleftrightarrow>
      ?i < length v \<and> (\<exists>p\<in>set ps. p ! ?i = v ! ?i \<and> length p \<le> length v \<and> HasPrefix v p)"
    by (auto simp: newBucketPrefixMatcher_def Let_def list_ex_iff set_fillBuckets not_le dest: idx)
  also have "\<dots> \<longleftrightarrow> (\<exists>p\<in>set ps. HasPrefix v p)"
    using idx by (meson HasPrefix_length HasPrefix_nth less_le_trans)
  finally show ?thesis .
qed

lemma Match_newBucketSuffixMatcher:
  assumes "ps \<noteq> []" and ne: "\<And>p. p \<in> set ps \<Longrightarrow> p \<noteq> []"
  shows "Match (newBucketSuffixMatcher ps) v \<longleftrightarrow> (\<exists>p\<in>set ps. HasSuffix v p)"
proof -
  let ?i = "bestSharedIndex ps True"
  have idx: "?i < length p" if "p \<in> set ps" for p
    using assms that by (rule bestSharedIndex_less)
  have "Match (newBucketSuffixMatcher ps) v \<longleftrightarrow>
      ?i < length v \<and> (\<exists>p\<in>set ps. p ! (length p - 1 - ?i) = v ! (length v - 1 - ?i) \<and>
        length p \<le> length v \<and> HasSuffix v p)"
    by (auto simp: newBucketSuffixMatcher_def Let_def list_ex_iff set_fillBuckets not_le dest: idx)
  also have "\<dots> \<longleftrightarrow> (\<exists>p\<in>set ps. HasSuffix v p)"
    using idx by (meson HasSuffix_length HasSuffix_nth less_le_trans)
  finally show ?thesis .
qed

lemma bucketContains_loop_iff:
  "bucketContains_loop b v w seen \<longleftrightarrow>
     (\<exists>c\<in>set w - set seen. \<exists>p\<in>set (b c). length p \<le> length v \<and> Contains v p)"
  by (induction b v w seen rule: bucketContains_loop.induct) (auto simp: list_ex_iff)

lemma rarestGlobalByte_loop_in: "rarestGlobalByte_loop f w b n \<in> insert b (set w)"
  by (induction f w b n rule: rarestGlobalByte_loop.induct) (auto simp: Let_def)

lemma rarestGlobalByte_in: "p \<noteq> [] \<Longrightarrow> rarestGlobalByte p f \<in> set p"
  using rarestGlobalByte_loop_in [of f "tl p" "hd p" "f (hd p)"]
  by (cases p) (simp_all add: rarestGlobalByte_def)

lemma Match_newBucketContainsMatcher:
  assumes ne: "\<And>p. p \<in> set ps \<Longrightarrow> p \<noteq> []"
  shows "Match (newBucketContainsMatcher ps) v \<longleftrightarrow> (\<exists>p\<in>set ps. Contains v p)"
proof -
  let ?key = "\<lambda>p. rarestGlobalByte p (byteFrequencies ps)"
  have "Match (newBucketContainsMatcher ps) v \<longleftrightarrow>
      v \<noteq> [] \<and> (\<exists>p\<in>set ps. ?key p \<in> set v \<and> length p \<le> length v \<and> Contains v p)"
    by (auto simp: newBucketContainsMatcher_def Let_def bucketContains_loop_iff set_fillBuckets
        dest: ne)
  also have "\<dots> \<longleftrightarrow> (\<exists>p\<in>set ps. Contains v p)"
    using ne Contains_set Contains_length rarestGlobalByte_in
    by (metis (no_types, lifting) le_zero_eq length_0_conv subset_iff)
  finally show ?thesis .
qed

section \<open>The contract\<close>

text \<open>
  What the compiled rules rely on: a matcher built from a list of patterns accepts a value
  exactly when one of the non-empty patterns passes the test. Order, repetition and empty
  patterns are irrelevant.
\<close>

locale string_matcher =
  fixes new :: "string list \<Rightarrow> Matcher"
    and test :: "string \<Rightarrow> string \<Rightarrow> bool"
  assumes match_new: "Match (new ps) v \<longleftrightarrow> (\<exists>p\<in>set ps. p \<noteq> [] \<and> test v p)"
begin

lemma match_Nil: "\<not> Match (new []) v"
  by (simp add: match_new)

lemma match_append: "Match (new (ps @ qs)) v \<longleftrightarrow> Match (new ps) v \<or> Match (new qs) v"
  by (auto simp: match_new)

lemma match_set_cong: "set ps = set qs \<Longrightarrow> Match (new ps) v = Match (new qs) v"
  by (simp add: match_new)

lemma match_mono: "set ps \<subseteq> set qs \<Longrightarrow> Match (new ps) v \<Longrightarrow> Match (new qs) v"
  by (auto simp: match_new)

lemma match_list_ex: "Match (new ps) v = list_ex (\<lambda>p. p \<noteq> [] \<and> test v p) ps"
  by (simp add: match_new list_ex_iff)

end

interpretation exact_matcher: string_matcher NewExact "\<lambda>v p. v = p"
  by unfold_locales (auto simp: NewExact_def Let_def simp flip: set_empty)

interpretation prefix_matcher: string_matcher "NewPrefix strategy" HasPrefix for strategy
proof unfold_locales
  fix ps v
  show "Match (NewPrefix strategy ps) v \<longleftrightarrow> (\<exists>p\<in>set ps. p \<noteq> [] \<and> HasPrefix v p)"
  proof (cases "normalize ps = []")
    case True
    then have "\<forall>p\<in>set ps. p = []" using set_normalize [of ps] by auto
    with True show ?thesis by (auto simp: NewPrefix_def)
  next
    case False
    then show ?thesis
      using Match_newBucketPrefixMatcher [of "normalize ps" v]
      by (auto simp: NewPrefix_def Let_def list_ex_iff)
  qed
qed

interpretation suffix_matcher: string_matcher "NewSuffix strategy" HasSuffix for strategy
proof unfold_locales
  fix ps v
  show "Match (NewSuffix strategy ps) v \<longleftrightarrow> (\<exists>p\<in>set ps. p \<noteq> [] \<and> HasSuffix v p)"
  proof (cases "normalize ps = []")
    case True
    then have "\<forall>p\<in>set ps. p = []" using set_normalize [of ps] by auto
    with True show ?thesis by (auto simp: NewSuffix_def)
  next
    case False
    then show ?thesis
      using Match_newBucketSuffixMatcher [of "normalize ps" v]
      by (auto simp: NewSuffix_def Let_def list_ex_iff)
  qed
qed

interpretation contains_matcher: string_matcher "NewContains strategy" Contains for strategy
proof unfold_locales
  fix ps v
  show "Match (NewContains strategy ps) v \<longleftrightarrow> (\<exists>p\<in>set ps. p \<noteq> [] \<and> Contains v p)"
  proof (cases "normalize ps = []")
    case True
    then have "\<forall>p\<in>set ps. p = []" using set_normalize [of ps] by auto
    with True show ?thesis by (auto simp: NewContains_def)
  next
    case False
    then show ?thesis
      using Match_newBucketContainsMatcher [of "normalize ps" v]
      by (auto simp: NewContains_def Let_def list_ex_iff)
  qed
qed

section \<open>Properties\<close>

text \<open>
  C9. Under every strategy, the prefix, suffix and substring matchers built from a list of
  patterns accept exactly the values that one of the non-empty patterns matches; so the
  bucketed matchers of the strategy \<^verbatim>\<open>optimized\<close> decide exactly as the linear ones.
\<close>

theorem matchers_decide_their_patterns:
  "(Match (NewPrefix strategy ps) v \<longleftrightarrow> (\<exists>p\<in>set ps. p \<noteq> [] \<and> (\<exists>t. v = p @ t))) \<and>
   (Match (NewSuffix strategy ps) v \<longleftrightarrow> (\<exists>p\<in>set ps. p \<noteq> [] \<and> (\<exists>t. v = t @ p))) \<and>
   (Match (NewContains strategy ps) v \<longleftrightarrow> (\<exists>p\<in>set ps. p \<noteq> [] \<and> (\<exists>a b. v = a @ p @ b)))"
  unfolding prefix_matcher.match_new suffix_matcher.match_new contains_matcher.match_new
    HasPrefix_append HasSuffix_append Contains_append
  by (intro conjI refl)

end
