(* ===== verification/Ring_Buffer.thy ===== *)
theory Ring_Buffer
  imports Go_Prelude
begin

text \<open>
  The raw-data ring buffer of \<^verbatim>\<open>internal/endpoint/ringbuffer/ringbuffer.go\<close>: \<open>RB_Put\<close> under a generated
  reference, \<open>Remember\<close> under a given one, \<open>RB_Get\<close>, and eviction in insertion order. The
  invariant \<open>rb_inv\<close> ties the order list to the entry map and bounds both by the capacity.
\<close>

section \<open>Definitions\<close>

record Entry =
  Ref :: string
  Data :: "byte list"

record Buffer =
  rb_next :: uint64
  rb_cap :: int
  rb_order :: "string list"
  rb_entries :: "(string, Entry) gomap"

definition RB_New :: "int \<Rightarrow> Buffer" where
  "RB_New capacity =
     (let capacity = (if capacity \<le> 0 then 1 else capacity)
      in \<lparr> rb_next = 0, rb_cap = capacity, rb_order = [], rb_entries = [] \<rparr>)"

text \<open>The eviction loop of \<^verbatim>\<open>putLocked\<close>, over the order list; \<^verbatim>\<open>cap\<close> is at least 1, so \<^verbatim>\<open>order[0]\<close> exists.\<close>

fun evict_loop :: "int \<Rightarrow> string list \<Rightarrow> (string, Entry) gomap \<Rightarrow> string list \<times> (string, Entry) gomap" where
  "evict_loop cap [] entries = ([], entries)"
| "evict_loop cap (oldest # order) entries =
     (if int (length (oldest # order)) > cap then evict_loop cap order (AList.delete oldest entries)
      else (oldest # order, entries))"

definition putLocked :: "Buffer \<Rightarrow> string \<Rightarrow> byte list \<Rightarrow> Buffer" where
  "putLocked b ref d =
     (let order = (if map_of (rb_entries b) ref = None then rb_order b @ [ref] else rb_order b);
          entries = AList.update ref \<lparr> Ref = ref, Data = d \<rparr> (rb_entries b);
          (order, entries) = evict_loop (rb_cap b) order entries
      in b\<lparr> rb_order := order, rb_entries := entries \<rparr>)"

definition RB_Put :: "Buffer \<Rightarrow> byte list \<Rightarrow> Buffer \<times> string" where
  "RB_Put b d =
     (let b = b\<lparr> rb_next := rb_next b + 1 \<rparr>;
          ref = counter_id ''raw-'' (rb_next b)
      in (putLocked b ref d, ref))"

definition Remember :: "Buffer \<Rightarrow> string \<Rightarrow> byte list \<Rightarrow> Buffer \<times> string" where
  "Remember b ref d = (if ref = '''' then RB_Put b d else (putLocked b ref d, ref))"

definition RB_Get :: "Buffer \<Rightarrow> string \<Rightarrow> Entry option" where
  "RB_Get b ref =
     (case map_of (rb_entries b) ref of
        None \<Rightarrow> None
      | Some entry \<Rightarrow> Some \<lparr> Ref = Ref entry, Data = Data entry \<rparr>)"

definition RB_Len :: "Buffer \<Rightarrow> nat" where
  "RB_Len b = length (rb_entries b)"

section \<open>The invariant and the abstract buffer\<close>

definition rb_inv :: "Buffer \<Rightarrow> bool" where
  "rb_inv b \<longleftrightarrow> wf_map (rb_entries b) \<and> distinct (rb_order b) \<and>
     set (rb_order b) = dom (map_of (rb_entries b)) \<and>
     1 \<le> rb_cap b \<and> int (length (rb_order b)) \<le> rb_cap b \<and>
     (\<forall>k e. map_of (rb_entries b) k = Some e \<longrightarrow> Ref e = k)"

text \<open>
  The abstract buffer: the stored pairs, oldest first. A write overwrites in place or appends,
  and then only the last \<open>cap\<close> pairs stay.
\<close>

definition rb_abs :: "Buffer \<Rightarrow> (string \<times> byte list) list" where
  "rb_abs b = map (\<lambda>r. (r, Data (the (map_of (rb_entries b) r)))) (rb_order b)"

definition abs_put :: "nat \<Rightarrow> string \<Rightarrow> byte list \<Rightarrow> (string \<times> byte list) list \<Rightarrow> (string \<times> byte list) list" where
  "abs_put cap ref d l = last_n cap (AList.update ref d l)"

lemma evict_loop_order: "0 \<le> cap \<Longrightarrow> fst (evict_loop cap order es) = last_n (nat cap) order"
proof (induction cap order es rule: evict_loop.induct)
  case (2 cap oldest order es)
  then show ?case
    by (cases "int (length (oldest # order)) > cap") (auto simp: last_n_def Suc_diff_le nat_le_iff)
qed (simp add: last_n_def)

lemma evict_loop_entries:
  "0 \<le> cap \<Longrightarrow> distinct order \<Longrightarrow> set order = dom (map_of es) \<Longrightarrow>
   map_of (snd (evict_loop cap order es)) =
     (\<lambda>r. if r \<in> set (last_n (nat cap) order) then map_of es r else None)"
proof (induction cap order es rule: evict_loop.induct)
  case (1 cap es)
  then show ?case by (auto simp: last_n_def dom_def fun_eq_iff)
next
  case (2 cap oldest order es)
  show ?case
  proof (cases "int (length (oldest # order)) > cap")
    case True
    have d: "set order = dom (map_of (AList.delete oldest es))"
      using 2(3-) by (auto simp: dom_def)
    have last: "last_n (nat cap) (oldest # order) = last_n (nat cap) order"
      using True by (simp add: last_n_def Suc_diff_le nat_le_iff)
    show ?thesis
      using 2(1) [OF True 2(2) _ d] 2(3) True last set_last_n [of "nat cap" order]
      by (auto simp: fun_eq_iff)
  next
    case False
    then have "last_n (nat cap) (oldest # order) = oldest # order"
      by (auto simp: last_n_def)
    then show ?thesis using False 2(4) by auto
  qed
qed

lemma wf_map_evict_loop: "wf_map es \<Longrightarrow> wf_map (snd (evict_loop cap order es))"
  by (induction cap order es rule: evict_loop.induct) auto

lemma rb_inv_New [inv_intros]: "rb_inv (RB_New capacity)"
  by (simp add: RB_New_def rb_inv_def wf_map_def Let_def)

lemma put_order:
  assumes "rb_inv b"
  defines "order \<equiv> \<lambda>ref. if map_of (rb_entries b) ref = None then rb_order b @ [ref] else rb_order b"
  shows "distinct (order ref)"
    and "set (order ref) = dom (map_of (AList.update ref \<lparr> Ref = ref, Data = d \<rparr> (rb_entries b)))"
  using assms by (auto simp: rb_inv_def dom_def split: if_splits)

lemma rb_inv_putLocked [inv_intros]:
  assumes "rb_inv b"
  shows "rb_inv (putLocked b ref d)"
proof -
  let ?order = "if map_of (rb_entries b) ref = None then rb_order b @ [ref] else rb_order b"
  let ?es = "AList.update ref \<lparr> Ref = ref, Data = d \<rparr> (rb_entries b)"
  have cap: "0 \<le> rb_cap b" using assms by (simp add: rb_inv_def)
  note dist = put_order(1) [OF assms, of ref] and dom = put_order(2) [OF assms, of ref d]
  note order = evict_loop_order [OF cap, of ?order ?es]
  note ent = evict_loop_entries [OF cap dist dom]
  have "wf_map (snd (evict_loop (rb_cap b) ?order ?es))"
    using assms by (intro wf_map_evict_loop wf_map_update) (simp add: rb_inv_def)
  moreover have "set (last_n (nat (rb_cap b)) ?order) =
      dom (map_of (snd (evict_loop (rb_cap b) ?order ?es)))"
    using set_last_n [of "nat (rb_cap b)" ?order] dom unfolding ent
    by (auto simp: dom_def split: if_splits simp del: map_of_alist_update)
  moreover have "Ref e = k" if "map_of (snd (evict_loop (rb_cap b) ?order ?es)) k = Some e" for k e
    using that assms unfolding ent by (auto simp: rb_inv_def split: if_splits)
  ultimately show ?thesis
    using assms dist order cap
    by (simp add: rb_inv_def putLocked_def Let_def case_prod_beta distinct_last_n int_length_last_n
        del: map_of_alist_update)
qed

lemma rb_abs_putLocked:
  assumes "rb_inv b"
  shows "rb_abs (putLocked b ref d) = abs_put (nat (rb_cap b)) ref d (rb_abs b)"
proof -
  let ?order = "if map_of (rb_entries b) ref = None then rb_order b @ [ref] else rb_order b"
  let ?es = "AList.update ref \<lparr> Ref = ref, Data = d \<rparr> (rb_entries b)"
  have cap: "0 \<le> rb_cap b" using assms by (simp add: rb_inv_def)
  note dist = put_order(1) [OF assms, of ref] and dom = put_order(2) [OF assms, of ref d]
  note order = evict_loop_order [OF cap, of ?order ?es]
  note ent = evict_loop_entries [OF cap dist dom]
  let ?val = "\<lambda>m r. (r, Data (the (map_of m r)))"
  have upd: "AList.update ref d (rb_abs b) = map (?val ?es) ?order"
  proof -
    have gen: "AList.update ref d (map (?val (rb_entries b)) rs) =
        map (?val ?es) (if ref \<in> set rs then rs else rs @ [ref])" if "distinct rs" for rs
      using that by (induction rs) auto
    have "ref \<in> set (rb_order b) \<longleftrightarrow> map_of (rb_entries b) ref \<noteq> None"
      using assms by (auto simp: rb_inv_def)
    then show ?thesis using gen [of "rb_order b"] assms by (simp add: rb_abs_def rb_inv_def)
  qed
  have "rb_abs (putLocked b ref d) =
      map (?val (snd (evict_loop (rb_cap b) ?order ?es))) (last_n (nat (rb_cap b)) ?order)"
    using order by (simp add: rb_abs_def putLocked_def Let_def case_prod_beta)
  also have "\<dots> = map (?val ?es) (last_n (nat (rb_cap b)) ?order)"
    unfolding ent by (intro map_cong refl) simp
  also have "\<dots> = abs_put (nat (rb_cap b)) ref d (rb_abs b)"
    unfolding abs_put_def upd last_n_map ..
  finally show ?thesis .
qed

lemma rb_cap_putLocked [simp]: "rb_cap (putLocked b ref d) = rb_cap b"
  by (simp add: putLocked_def Let_def case_prod_beta)

lemma rb_next_putLocked [simp]: "rb_next (putLocked b ref d) = rb_next b"
  by (simp add: putLocked_def Let_def case_prod_beta)

lemma rb_next_update [simp]:
  "rb_inv (b\<lparr> rb_next := n \<rparr>) = rb_inv b" "rb_abs (b\<lparr> rb_next := n \<rparr>) = rb_abs b"
  by (simp_all add: rb_inv_def rb_abs_def)

lemma RB_Get_abs:
  assumes "rb_inv b"
  shows "RB_Get b ref = map_option (\<lambda>d. \<lparr> Ref = ref, Data = d \<rparr>) (map_of (rb_abs b) ref)"
proof -
  have "map_of (rb_abs b) ref =
      (if ref \<in> set (rb_order b) then Some (Data (the (map_of (rb_entries b) ref))) else None)"
    by (simp add: rb_abs_def map_of_map_keys flip: map_of_map_restrict) (auto simp: restrict_map_def map_of_map_restrict)
  then show ?thesis using assms
    by (auto simp: RB_Get_def rb_inv_def dom_def split: option.splits)
qed

section \<open>Runs\<close>

datatype rb_op = PutOp "byte list" | RememberOp string "byte list"

fun rb_step :: "Buffer \<Rightarrow> rb_op \<Rightarrow> Buffer" where
  "rb_step b (PutOp d) = fst (RB_Put b d)"
| "rb_step b (RememberOp ref d) = fst (Remember b ref d)"

lemma rb_inv_Put [inv_intros]: "rb_inv b \<Longrightarrow> rb_inv (fst (RB_Put b d))"
  by (simp add: RB_Put_def Let_def rb_inv_putLocked)

lemma rb_inv_Remember [inv_intros]: "rb_inv b \<Longrightarrow> rb_inv (fst (Remember b ref d))"
  by (simp add: Remember_def rb_inv_putLocked rb_inv_Put)

lemma rb_cap_Remember [simp]: "rb_cap (fst (Remember b ref d)) = rb_cap b"
  by (simp add: Remember_def RB_Put_def Let_def)

interpretation ring: machine rb_step rb_inv
proof
  fix b op
  show "rb_inv b \<Longrightarrow> rb_inv (rb_step b op)"
    by (cases op) (simp_all add: rb_inv_Put rb_inv_Remember)
qed

lemma rb_abs_Put:
  "rb_inv b \<Longrightarrow> rb_abs (fst (RB_Put b d)) = abs_put (nat (rb_cap b)) (snd (RB_Put b d)) d (rb_abs b)"
  by (simp add: RB_Put_def Let_def rb_abs_putLocked)

lemma rb_abs_Remember:
  "rb_inv b \<Longrightarrow>
   rb_abs (fst (Remember b ref d)) = abs_put (nat (rb_cap b)) (snd (Remember b ref d)) d (rb_abs b)"
  by (simp add: Remember_def rb_abs_Put rb_abs_putLocked)

lemma RB_Len_abs: "rb_inv b \<Longrightarrow> RB_Len b = length (rb_abs b)"
proof -
  assume inv: "rb_inv b"
  have "length (rb_entries b) = card (set (map fst (rb_entries b)))"
    using inv by (metis distinct_card length_map rb_inv_def wf_map_def)
  also have "\<dots> = card (set (rb_order b))"
    using inv by (simp add: rb_inv_def dom_map_of_conv_image_fst)
  also have "\<dots> = length (rb_order b)"
    using inv unfolding rb_inv_def by (metis distinct_card)
  finally show ?thesis by (simp add: RB_Len_def rb_abs_def)
qed

lemma alist_update_fresh: "k \<notin> fst ` set l \<Longrightarrow> AList.update k v l = l @ [(k, v)]"
  by (induction l) auto

lemma abs_put_fresh:
  assumes "k \<notin> fst ` set l"
  shows "abs_put c k v (last_n c l) = last_n c (l @ [(k, v)])"
proof -
  have "k \<notin> fst ` set (last_n c l)" using assms set_last_n [of c l] by auto
  then show ?thesis by (simp add: abs_put_def alist_update_fresh last_n_snoc)
qed

definition puts :: "Buffer \<Rightarrow> byte list list \<Rightarrow> Buffer" where
  "puts b ds = foldl rb_step b (map PutOp ds)"

lemma puts_snoc: "puts b (ds @ [d]) = fst (RB_Put (puts b ds) d)"
  by (simp add: puts_def)

lemma rb_inv_puts: "rb_inv b \<Longrightarrow> rb_inv (puts b ds)"
  unfolding puts_def by (rule ring.run_invar)

lemma rb_cap_puts: "rb_cap (puts b ds) = rb_cap b"
  by (induction ds rule: rev_induct) (simp_all add: puts_snoc RB_Put_def Let_def puts_def)

lemma rb_next_puts: "rb_next (puts b ds) = rb_next b + of_nat (length ds)"
  by (induction ds rule: rev_induct) (simp_all add: puts_snoc RB_Put_def Let_def puts_def)

abbreviation raw_ref :: "nat \<Rightarrow> string" where
  "raw_ref k \<equiv> counter_id ''raw-'' (of_nat k)"

lemma raw_ref_inject: "i < 2 ^ 64 \<Longrightarrow> j < 2 ^ 64 \<Longrightarrow> raw_ref i = raw_ref j \<longleftrightarrow> i = j"
  by (simp add: word_of_nat_eq_iff take_bit_nat_eq_self)

definition put_log :: "byte list list \<Rightarrow> (string \<times> byte list) list" where
  "put_log ds = map (\<lambda>i. (raw_ref (Suc i), ds ! i)) [0..<length ds]"

lemma put_log_snoc: "put_log (ds @ [d]) = put_log ds @ [(raw_ref (Suc (length ds)), d)]"
  by (simp add: put_log_def nth_append)

lemma distinct_put_log: "length ds < 2 ^ 64 \<Longrightarrow> distinct (map fst (put_log ds))"
  using raw_ref_inject
  by (auto simp: put_log_def distinct_map inj_on_def comp_def simp del: counter_id_inject of_nat_Suc)

lemma rb_abs_puts:
  assumes "length ds < 2 ^ 64"
  shows "rb_abs (puts (RB_New c) ds) = last_n (nat (rb_cap (RB_New c))) (put_log ds)"
  using assms
proof (induction ds rule: rev_induct)
  case Nil
  then show ?case by (simp add: puts_def RB_New_def rb_abs_def last_n_def put_log_def Let_def)
next
  case (snoc d ds)
  let ?b = "puts (RB_New c) ds" and ?ref = "raw_ref (Suc (length ds))"
  have ref: "snd (RB_Put ?b d) = ?ref"
    by (simp add: RB_Put_def Let_def rb_next_puts) (simp add: RB_New_def Let_def add.commute)
  have fresh: "?ref \<notin> fst ` set (put_log ds)"
    using distinct_put_log [OF snoc.prems] by (simp add: put_log_snoc del: of_nat_Suc)
  have "rb_abs (puts (RB_New c) (ds @ [d])) = abs_put (nat (rb_cap (RB_New c))) ?ref d (rb_abs ?b)"
    using rb_abs_Put [OF rb_inv_puts [OF rb_inv_New], of c ds d]
    by (simp add: puts_snoc rb_cap_puts ref del: of_nat_Suc)
  also have "\<dots> = last_n (nat (rb_cap (RB_New c))) (put_log ds @ [(?ref, d)])"
    using snoc fresh by (simp add: abs_put_fresh del: of_nat_Suc)
  finally show ?case by (simp add: put_log_snoc del: of_nat_Suc)
qed

lemma map_of_drop_nth:
  assumes "distinct (map fst l)" and "k < length l"
  shows "map_of (drop n l) (fst (l ! k)) = (if n \<le> k then Some (snd (l ! k)) else None)"
proof (cases "n \<le> k")
  case True
  then have "drop n l ! (k - n) = l ! k" and "k - n < length (drop n l)"
    using assms(2) by simp_all
  then have "l ! k \<in> set (drop n l)" by (metis nth_mem)
  moreover have "distinct (map fst (drop n l))" using assms(1) by (simp flip: drop_map)
  ultimately show ?thesis using True by (simp add: map_of_eq_Some_iff)
next
  case False
  have "fst (l ! k) \<notin> set (drop n (map fst l))"
  proof
    assume "fst (l ! k) \<in> set (drop n (map fst l))"
    then obtain i where "i < length l - n" "map fst l ! (n + i) = fst (l ! k)"
      by (auto simp: in_set_conv_nth)
    then have "n + i = k" using assms nth_eq_iff_index_eq [of "map fst l" "n + i" k] by simp
    with False show False by simp
  qed
  then show ?thesis using False by (simp add: map_of_eq_None_iff drop_map)
qed

section \<open>Properties\<close>

text \<open>
  C28. The ring buffer refines a bounded association list: storing data under a reference (given,
  or generated when it is empty) overwrites that reference in place or appends it, keeps only
  the newest \<open>cap\<close> references, keeps the invariant of order list and entry map, never holds
  more than the capacity, and a lookup returns what the abstract list holds.
\<close>

theorem Remember_refines_bounded_list:
  assumes "rb_inv b"
  shows "rb_inv (fst (Remember b ref d)) \<and>
    rb_abs (fst (Remember b ref d)) = abs_put (nat (rb_cap b)) (snd (Remember b ref d)) d (rb_abs b) \<and>
    int (RB_Len (fst (Remember b ref d))) \<le> rb_cap b \<and>
    RB_Get (fst (Remember b ref d)) q =
      map_option (\<lambda>x. \<lparr> Ref = q, Data = x \<rparr>) (map_of (rb_abs (fst (Remember b ref d))) q)"
proof -
  let ?b = "fst (Remember b ref d)"
  have inv: "rb_inv ?b" using assms by (rule rb_inv_Remember)
  then have "int (length (rb_abs ?b)) \<le> rb_cap ?b" by (simp add: rb_abs_def rb_inv_def)
  then show ?thesis
    using inv RB_Get_abs [OF inv] RB_Len_abs [OF inv] rb_abs_Remember [OF assms] by simp
qed

theorem Remember_refines_bounded_list_witness:
  "rb_inv (RB_New 2) \<and>
   rb_abs (fst (Remember (RB_New 2) ''r'' [7])) = [(''r'', [7])]"
proof -
  have inv: "rb_inv (RB_New 2)" by (rule rb_inv_New)
  from Remember_refines_bounded_list [OF inv, of "''r''" "[7]"]
  have "rb_abs (fst (Remember (RB_New 2) ''r'' [7])) =
      abs_put (nat (rb_cap (RB_New 2))) (snd (Remember (RB_New 2) ''r'' [7])) [7] (rb_abs (RB_New 2))"
    by blast
  also have "\<dots> = [(''r'', [7])]"
    by (simp add: abs_put_def last_n_def Remember_def RB_New_def rb_abs_def Let_def)
  finally show ?thesis using inv by simp
qed

text \<open>
  After any sequence of fewer than $2^{64}$ \<^verbatim>\<open>Put\<close>s on a new buffer, the reference that the
  \<open>k\<close>-th call returned still yields exactly the data of that call if it is one of the last
  \<open>cap\<close> calls, and nothing otherwise.
\<close>

theorem Put_keeps_the_last_cap:
  assumes "length ds < 2 ^ 64" and "k < length ds"
  shows "RB_Get (puts (RB_New c) ds) (raw_ref (Suc k)) =
    (if length ds - nat (rb_cap (RB_New c)) \<le> k
     then Some \<lparr> Ref = raw_ref (Suc k), Data = ds ! k \<rparr> else None)"
proof -
  have nth: "put_log ds ! k = (raw_ref (Suc k), ds ! k)"
    using assms(2) by (simp add: put_log_def del: of_nat_Suc)
  have len: "length (put_log ds) = length ds" by (simp add: put_log_def)
  show ?thesis
    using map_of_drop_nth [OF distinct_put_log [OF assms(1)], of k] assms nth len
      RB_Get_abs [OF rb_inv_puts [OF rb_inv_New], of c ds "raw_ref (Suc k)"] rb_abs_puts [OF assms(1)]
    by (simp add: last_n_def del: of_nat_Suc)
qed

theorem Put_keeps_the_last_cap_witness:
  "RB_Get (puts (RB_New 2) [[1], [2], [3]]) (raw_ref 3) = Some \<lparr> Ref = raw_ref 3, Data = [3] \<rparr> \<and>
   RB_Get (puts (RB_New 2) [[1], [2], [3]]) (raw_ref 1) = None"
  using Put_keeps_the_last_cap [of "[[1], [2], [3]]" 2 2] Put_keeps_the_last_cap [of "[[1], [2], [3]]" 0 2]
  by (simp add: RB_New_def)

end
