(* ===== verification/Batcher.thy ===== *)
theory Batcher
  imports Data_Model "HOL-Library.Sublist"
begin

text \<open>
  The telemetry batcher of \<^verbatim>\<open>internal/agent/telemetry/batcher.go\<close>. A \<open>Batcher\<close> record is the
  struct; the channel \<^verbatim>\<open>queue\<close> is the list of buffered batches with its capacity and closed
  flag, the timer is one of stopped, armed and fired. Every operation holds the mutex, so it is
  one function on the record; \<open>None\<close> is a panic (a send on a closed channel). The step function
  \<open>bt_step\<close> interleaves the callers, the \<^verbatim>\<open>Run\<close> goroutine and the receiver. Not under \<^verbatim>\<open>src/\<close> and
  therefore arguments: \<^verbatim>\<open>proto.Size\<close> and the batch builder handed to \<^verbatim>\<open>NewBatcher\<close>.
\<close>

section \<open>Definitions\<close>

record BatchSettings =
  MaxItems :: int
  MaxBytes :: int
  FlushInterval :: duration

record BatcherStats =
  PendingEvents :: uint64
  PendingSignals :: uint64
  QueuedBatches :: uint64
  QueueCapacity :: uint64
  DroppedBatches :: uint64
  DroppedEvents :: uint64
  DroppedSignals :: uint64
  FlushedBatches :: uint64
  FlushedEvents :: uint64
  FlushedSignals :: uint64
  PendingBytes :: uint64
  StMaxBytes :: uint64
  FlushedByCount :: uint64
  FlushedByBytes :: uint64
  FlushedByInterval :: uint64
  FlushedByShutdown :: uint64
  LastFlushReason :: string
  LastError :: string
  StClosed :: bool

datatype timer_state = TimerStopped | TimerArmed duration | TimerFired

record Batcher =
  bt_builder :: "(time \<Rightarrow> DataBatch) option"
  bt_batchSize :: int
  bt_maxBytes :: int
  bt_flushInterval :: duration
  bt_queue :: "DataBatch list"
  bt_queueCap :: nat
  bt_queueClosed :: bool
  bt_pending :: "DataBatch option"
  bt_bytes :: int
  bt_timer :: timer_state
  bt_closed :: bool
  bt_stats :: BatcherStats

definition BatcherStats_zero :: BatcherStats where
  "BatcherStats_zero = \<lparr> PendingEvents = 0, PendingSignals = 0, QueuedBatches = 0, QueueCapacity = 0,
     DroppedBatches = 0, DroppedEvents = 0, DroppedSignals = 0, FlushedBatches = 0, FlushedEvents = 0,
     FlushedSignals = 0, PendingBytes = 0, StMaxBytes = 0, FlushedByCount = 0, FlushedByBytes = 0,
     FlushedByInterval = 0, FlushedByShutdown = 0, LastFlushReason = [], LastError = [], StClosed = False \<rparr>"

definition NewBatcher ::
  "(time \<Rightarrow> DataBatch) option \<Rightarrow> int \<Rightarrow> duration \<Rightarrow> int \<Rightarrow> int list \<Rightarrow> Batcher" where
  "NewBatcher builder batchSize flushInterval queueCapacity maxBytes =
     (let batchSize = (if batchSize \<le> 0 then 64 else batchSize);
          limitBytes = (case maxBytes of [] \<Rightarrow> 256 * 1024 | m # _ \<Rightarrow> if m > 0 then m else 256 * 1024);
          flushInterval = (if flushInterval \<le> 0 then 1000000000 else flushInterval);
          queueCapacity = (if queueCapacity \<le> 0 then 128 else queueCapacity)
      in \<lparr> bt_builder = builder, bt_batchSize = batchSize, bt_maxBytes = limitBytes,
           bt_flushInterval = flushInterval, bt_queue = [], bt_queueCap = nat queueCapacity,
           bt_queueClosed = False, bt_pending = None, bt_bytes = 0, bt_timer = TimerStopped,
           bt_closed = False, bt_stats = BatcherStats_zero \<rparr>)"

definition stopTimerLocked :: "Batcher \<Rightarrow> Batcher" where
  "stopTimerLocked b = b\<lparr> bt_timer := TimerStopped \<rparr>"

definition resetTimerLocked :: "Batcher \<Rightarrow> Batcher" where
  "resetTimerLocked b = (stopTimerLocked b)\<lparr> bt_timer := TimerArmed (bt_flushInterval b) \<rparr>"

definition newBatch :: "Batcher \<Rightarrow> time \<Rightarrow> DataBatch" where
  "newBatch b now =
     (case bt_builder b of
        Some builder \<Rightarrow> builder now
      | None \<Rightarrow> DataBatch_zero\<lparr> db_header := Some (BatchHeader_zero\<lparr> bh_created_at_unix_nano := UnixNano now \<rparr>) \<rparr>)"

definition DataPlaneCurrent :: string where
  "DataPlaneCurrent = ''sysarmor.dataplane/v1''"

text \<open>The header that \<^verbatim>\<open>finalizeBatch\<close> leaves in place; \<open>now\<close> is what \<^verbatim>\<open>time.Now()\<close> returns.\<close>

definition finalizeBatch :: "time \<Rightarrow> DataBatch \<Rightarrow> DataBatch" where
  "finalizeBatch now batch =
     (let h = (case db_header batch of None \<Rightarrow> BatchHeader_zero | Some h \<Rightarrow> h);
          h = (if bh_batch_id h = '''' then h\<lparr> bh_batch_id := fmt020d (UnixNano now) \<rparr> else h);
          h = h\<lparr> bh_event_count := of_nat (length (db_events batch)),
                 bh_signal_count := of_nat (length (db_signals batch)) \<rparr>;
          h = (if length (db_events batch) > 0
               then h\<lparr> bh_event_seq_start := ef_sequence (db_events batch ! 0),
                       bh_event_seq_end := ef_sequence (db_events batch ! (length (db_events batch) - 1)) \<rparr>
               else h);
          h = (if length (db_signals batch) > 0
               then h\<lparr> bh_signal_seq_start := sf_sequence (db_signals batch ! 0),
                       bh_signal_seq_end := sf_sequence (db_signals batch ! (length (db_signals batch) - 1)) \<rparr>
               else h)
      in batch\<lparr> db_header := Some h, db_schema_version := DataPlaneCurrent \<rparr>)"

definition recordFlushReasonLocked :: "string \<Rightarrow> BatcherStats \<Rightarrow> BatcherStats" where
  "recordFlushReasonLocked reason st =
     (if reason = ''count'' then st\<lparr> FlushedByCount := FlushedByCount st + 1 \<rparr>
      else if reason = ''bytes'' then st\<lparr> FlushedByBytes := FlushedByBytes st + 1 \<rparr>
      else if reason = ''interval'' then st\<lparr> FlushedByInterval := FlushedByInterval st + 1 \<rparr>
      else if reason = ''shutdown'' then st\<lparr> FlushedByShutdown := FlushedByShutdown st + 1 \<rparr>
      else st)"

definition flushLocked :: "string \<Rightarrow> time \<Rightarrow> Batcher \<Rightarrow> Batcher option" where
  "flushLocked reason now b =
     (case bt_pending b of
        None \<Rightarrow> Some (stopTimerLocked b)
      | Some p \<Rightarrow>
          if length (db_events p) = 0 \<and> length (db_signals p) = 0 then Some (stopTimerLocked b)
          else
            let batch = finalizeBatch now p; st = bt_stats b
            in if bt_queueClosed b then None
               else
                 let b = (if length (bt_queue b) < bt_queueCap b
                          then b\<lparr> bt_queue := bt_queue b @ [batch],
                                  bt_stats := st\<lparr> FlushedBatches := FlushedBatches st + 1,
                                    FlushedEvents := FlushedEvents st + of_nat (length (db_events batch)),
                                    FlushedSignals := FlushedSignals st + of_nat (length (db_signals batch)),
                                    LastFlushReason := reason, LastError := [] \<rparr> \<rparr>
                          else b\<lparr> bt_stats := st\<lparr> DroppedBatches := DroppedBatches st + 1,
                                    DroppedEvents := DroppedEvents st + of_nat (length (db_events batch)),
                                    DroppedSignals := DroppedSignals st + of_nat (length (db_signals batch)),
                                    LastError := ''telemetry batch queue full'' \<rparr> \<rparr>);
                     b = b\<lparr> bt_stats := recordFlushReasonLocked reason (bt_stats b) \<rparr>;
                     b = b\<lparr> bt_pending := None, bt_bytes := 0,
                            bt_stats := (bt_stats b)\<lparr> PendingEvents := 0, PendingSignals := 0, PendingBytes := 0 \<rparr> \<rparr>
                 in Some (stopTimerLocked b))"

definition Flush :: "string \<Rightarrow> time \<Rightarrow> Batcher \<Rightarrow> Batcher option" where
  "Flush reason now b = flushLocked reason now b"

text \<open>\<open>protoSize\<close> is \<^verbatim>\<open>proto.Size\<close>; \<open>now1\<close> and \<open>now2\<close> are the two clock readings of a call.\<close>

definition Add :: "(DataBatch \<Rightarrow> int) \<Rightarrow> time \<Rightarrow> time \<Rightarrow> DataBatch option \<Rightarrow> Batcher \<Rightarrow> Batcher option" where
  "Add protoSize now1 now2 batch b =
     (case batch of
        None \<Rightarrow> Some b
      | Some batch \<Rightarrow>
          if bt_closed b then
            (let st = bt_stats b
             in Some (b\<lparr> bt_stats := st\<lparr> DroppedBatches := DroppedBatches st + 1,
                          DroppedEvents := DroppedEvents st + of_nat (length (db_events batch)),
                          DroppedSignals := DroppedSignals st + of_nat (length (db_signals batch)),
                          LastError := ''telemetry batcher closed'' \<rparr> \<rparr>))
          else
            let b = (case bt_pending b of
                       None \<Rightarrow> resetTimerLocked (b\<lparr> bt_pending := Some (newBatch b now1) \<rparr>)
                     | Some _ \<Rightarrow> b);
                pending = the (bt_pending b);
                addedBytes = protoSize batch;
                pending = pending\<lparr> db_events := db_events pending @ db_events batch,
                                   db_signals := db_signals pending @ db_signals batch \<rparr>;
                b = b\<lparr> bt_pending := Some pending, bt_bytes := bt_bytes b + addedBytes \<rparr>;
                b = b\<lparr> bt_stats := (bt_stats b)\<lparr>
                       PendingEvents := of_nat (length (db_events pending)),
                       PendingSignals := of_nat (length (db_signals pending)),
                       PendingBytes := of_int (bt_bytes b) \<rparr> \<rparr>
            in if int (length (db_events pending)) + int (length (db_signals pending)) \<ge> bt_batchSize b
               then flushLocked ''count'' now2 b
               else if bt_bytes b \<ge> bt_maxBytes b then flushLocked ''bytes'' now2 b
               else Some b)"

definition Reconfigure :: "BatchSettings \<Rightarrow> time \<Rightarrow> Batcher \<Rightarrow> Batcher option" where
  "Reconfigure settings now b =
     (case flushLocked ''policy'' now b of
        None \<Rightarrow> None
      | Some b \<Rightarrow> Some (b\<lparr> bt_batchSize := MaxItems settings, bt_maxBytes := MaxBytes settings,
                           bt_flushInterval := FlushInterval settings \<rparr>))"

definition CloseAndFlush :: "string \<Rightarrow> time \<Rightarrow> Batcher \<Rightarrow> Batcher option" where
  "CloseAndFlush reason now b =
     (if bt_closed b then Some b
      else case flushLocked reason now b of
             None \<Rightarrow> None
           | Some b \<Rightarrow>
               if bt_queueClosed b then None
               else Some (b\<lparr> bt_closed := True, bt_stats := (bt_stats b)\<lparr> StClosed := True \<rparr>,
                             bt_queueClosed := True \<rparr>))"

definition BatcherStats_read :: "Batcher \<Rightarrow> BatcherStats" where
  "BatcherStats_read b =
     (let stats = (bt_stats b)\<lparr> QueueCapacity := of_nat (bt_queueCap b),
                    QueuedBatches := of_nat (length (bt_queue b)),
                    StMaxBytes := of_int (bt_maxBytes b), StClosed := bt_closed b \<rparr>
      in case bt_pending b of
           None \<Rightarrow> stats
         | Some p \<Rightarrow> stats\<lparr> PendingEvents := of_nat (length (db_events p)),
                           PendingSignals := of_nat (length (db_signals p)),
                           PendingBytes := of_int (bt_bytes b) \<rparr>)"

subsection \<open>The batcher with its callers\<close>

text \<open>
  The state of the \<^verbatim>\<open>Run\<close> goroutine (waiting in its \<^verbatim>\<open>select\<close>, holding a tick it has taken from the
  timer channel, returned), the batches the receiver has taken, and everything that was handed
  to \<open>Add\<close>.
\<close>

datatype run_state = RunWaiting | RunHasTick | RunReturned

record BatcherRun =
  br_batcher :: Batcher
  br_run :: run_state
  br_delivered :: "DataBatch list"
  br_added_events :: "EventFrame list"
  br_added_signals :: "SignalFrame list"

datatype bt_action =
    DoAdd "DataBatch option" time time
  | DoFlush string time
  | DoReconfigure BatchSettings time
  | DoClose string time
  | TimerExpires
  | RunTakesTick
  | RunFlushes time
  | RunDone time
  | Receive

definition bt_set :: "BatcherRun \<Rightarrow> Batcher option \<Rightarrow> BatcherRun option" where
  "bt_set r res = map_option (\<lambda>b. r\<lparr> br_batcher := b \<rparr>) res"

fun bt_act :: "(DataBatch \<Rightarrow> int) \<Rightarrow> BatcherRun \<Rightarrow> bt_action \<Rightarrow> BatcherRun option" where
  "bt_act protoSize r (DoAdd batch now1 now2) =
     bt_set (case batch of None \<Rightarrow> r
             | Some x \<Rightarrow> r\<lparr> br_added_events := br_added_events r @ db_events x,
                            br_added_signals := br_added_signals r @ db_signals x \<rparr>)
       (Add protoSize now1 now2 batch (br_batcher r))"
| "bt_act protoSize r (DoFlush reason now) = bt_set r (Flush reason now (br_batcher r))"
| "bt_act protoSize r (DoReconfigure settings now) = bt_set r (Reconfigure settings now (br_batcher r))"
| "bt_act protoSize r (DoClose reason now) = bt_set r (CloseAndFlush reason now (br_batcher r))"
| "bt_act protoSize r TimerExpires =
     Some (case bt_timer (br_batcher r) of
             TimerArmed d \<Rightarrow> r\<lparr> br_batcher := (br_batcher r)\<lparr> bt_timer := TimerFired \<rparr> \<rparr>
           | _ \<Rightarrow> r)"
| "bt_act protoSize r RunTakesTick =
     Some (if br_run r = RunWaiting \<and> bt_timer (br_batcher r) = TimerFired
           then r\<lparr> br_batcher := (br_batcher r)\<lparr> bt_timer := TimerStopped \<rparr>, br_run := RunHasTick \<rparr>
           else r)"
| "bt_act protoSize r (RunFlushes now) =
     (if br_run r = RunHasTick
      then bt_set (r\<lparr> br_run := RunWaiting \<rparr>) (Flush ''interval'' now (br_batcher r)) else Some r)"
| "bt_act protoSize r (RunDone now) =
     (if br_run r = RunWaiting
      then bt_set (r\<lparr> br_run := RunReturned \<rparr>) (CloseAndFlush ''shutdown'' now (br_batcher r)) else Some r)"
| "bt_act protoSize r Receive =
     Some (case bt_queue (br_batcher r) of
             [] \<Rightarrow> r
           | x # q \<Rightarrow> r\<lparr> br_batcher := (br_batcher r)\<lparr> bt_queue := q \<rparr>, br_delivered := br_delivered r @ [x] \<rparr>)"

definition bt_step :: "(DataBatch \<Rightarrow> int) \<Rightarrow> BatcherRun option \<Rightarrow> bt_action \<Rightarrow> BatcherRun option" where
  "bt_step protoSize r a = (case r of None \<Rightarrow> None | Some r \<Rightarrow> bt_act protoSize r a)"

definition bt_start :: "Batcher \<Rightarrow> BatcherRun" where
  "bt_start b = \<lparr> br_batcher = b, br_run = RunWaiting, br_delivered = [], br_added_events = [], br_added_signals = [] \<rparr>"

section \<open>The shape of a flush\<close>

text \<open>
  A builder hands out batches without events or signals, as \<^verbatim>\<open>AgentRuntime.newDataBatch\<close> does.
\<close>

definition builder_ok :: "(time \<Rightarrow> DataBatch) option \<Rightarrow> bool" where
  "builder_ok builder \<longleftrightarrow> (\<forall>f now. builder = Some f \<longrightarrow> db_events (f now) = [] \<and> db_signals (f now) = [])"

definition batch_ok :: "DataBatch \<Rightarrow> bool" where
  "batch_ok x \<longleftrightarrow>
     (db_events x \<noteq> [] \<or> db_signals x \<noteq> []) \<and> db_schema_version x = DataPlaneCurrent \<and>
     (\<exists>h. db_header x = Some h \<and> bh_batch_id h \<noteq> [] \<and>
        bh_event_count h = of_nat (length (db_events x)) \<and>
        bh_signal_count h = of_nat (length (db_signals x)) \<and>
        (db_events x \<noteq> [] \<longrightarrow> bh_event_seq_start h = ef_sequence (hd (db_events x)) \<and>
                              bh_event_seq_end h = ef_sequence (last (db_events x))) \<and>
        (db_signals x \<noteq> [] \<longrightarrow> bh_signal_seq_start h = sf_sequence (hd (db_signals x)) \<and>
                               bh_signal_seq_end h = sf_sequence (last (db_signals x))))"

definition pend :: "(DataBatch \<Rightarrow> 'a list) \<Rightarrow> Batcher \<Rightarrow> 'a list" where
  "pend items b = (case bt_pending b of None \<Rightarrow> [] | Some p \<Rightarrow> items p)"

abbreviation pending_items :: "Batcher \<Rightarrow> bool" where
  "pending_items b \<equiv> pend db_events b \<noteq> [] \<or> pend db_signals b \<noteq> []"

definition bt_inv :: "Batcher \<Rightarrow> bool" where
  "bt_inv b \<longleftrightarrow> length (bt_queue b) \<le> bt_queueCap b \<and> 1 \<le> bt_queueCap b \<and>
     bt_queueClosed b = bt_closed b \<and> (bt_closed b \<longrightarrow> \<not> pending_items b) \<and>
     builder_ok (bt_builder b) \<and> (\<forall>x \<in> set (bt_queue b). batch_ok x)"

lemma fmt020d_nonempty [simp]: "fmt020d n \<noteq> []"
proof -
  have "digits m \<noteq> []" for m by (subst digits.simps) simp
  then show ?thesis by (simp add: fmt020d_def pad20_def)
qed

lemma finalizeBatch_items [simp]:
  "db_events (finalizeBatch now p) = db_events p" "db_signals (finalizeBatch now p) = db_signals p"
  by (simp_all add: finalizeBatch_def Let_def)

lemma batch_ok_finalizeBatch:
  "db_events p \<noteq> [] \<or> db_signals p \<noteq> [] \<Longrightarrow> batch_ok (finalizeBatch now p)"
  by (auto simp: batch_ok_def finalizeBatch_def Let_def hd_conv_nth last_conv_nth)

lemma newBatch_items:
  "builder_ok (bt_builder b) \<Longrightarrow> db_events (newBatch b now) = [] \<and> db_signals (newBatch b now) = []"
  by (auto simp: newBatch_def builder_ok_def DataBatch_zero_def split: option.splits)

lemma recordFlushReasonLocked_keeps [simp]:
  "FlushedBatches (recordFlushReasonLocked reason st) = FlushedBatches st"
  "FlushedEvents (recordFlushReasonLocked reason st) = FlushedEvents st"
  "FlushedSignals (recordFlushReasonLocked reason st) = FlushedSignals st"
  "DroppedEvents (recordFlushReasonLocked reason st) = DroppedEvents st"
  "DroppedSignals (recordFlushReasonLocked reason st) = DroppedSignals st"
  by (simp_all add: recordFlushReasonLocked_def)

text \<open>A flush does nothing, queues exactly the finalised pending batch, or counts it as dropped.\<close>

lemma flushLocked_cases:
  assumes "bt_inv b"
  obtains
    (idle) "\<not> pending_items b" "flushLocked reason now b = Some (stopTimerLocked b)"
  | (queued) p b' where "bt_pending b = Some p" "pending_items b" "flushLocked reason now b = Some b'"
      "bt_inv b'" "bt_pending b' = None" "bt_timer b' = TimerStopped" "bt_closed b' = bt_closed b"
      "\<not> bt_closed b"
      "length (bt_queue b) < bt_queueCap b"
      "bt_queue b' = bt_queue b @ [finalizeBatch now p]"
      "FlushedBatches (bt_stats b') = FlushedBatches (bt_stats b) + 1"
      "FlushedEvents (bt_stats b') = FlushedEvents (bt_stats b) + of_nat (length (db_events p))"
      "FlushedSignals (bt_stats b') = FlushedSignals (bt_stats b) + of_nat (length (db_signals p))"
      "DroppedEvents (bt_stats b') = DroppedEvents (bt_stats b)"
      "DroppedSignals (bt_stats b') = DroppedSignals (bt_stats b)"
  | (dropped) p b' where "bt_pending b = Some p" "pending_items b" "flushLocked reason now b = Some b'"
      "bt_inv b'" "bt_pending b' = None" "bt_timer b' = TimerStopped" "bt_closed b' = bt_closed b"
      "\<not> bt_closed b"
      "bt_queue b' = bt_queue b"
      "FlushedBatches (bt_stats b') = FlushedBatches (bt_stats b)"
      "FlushedEvents (bt_stats b') = FlushedEvents (bt_stats b)"
      "FlushedSignals (bt_stats b') = FlushedSignals (bt_stats b)"
      "DroppedEvents (bt_stats b') = DroppedEvents (bt_stats b) + of_nat (length (db_events p))"
      "DroppedSignals (bt_stats b') = DroppedSignals (bt_stats b) + of_nat (length (db_signals p))"
proof (cases "pending_items b")
  case False
  then have "flushLocked reason now b = Some (stopTimerLocked b)"
    by (auto simp: flushLocked_def pend_def split: option.splits)
  with False show ?thesis by (intro idle) auto
next
  case True
  then obtain p where p: "bt_pending b = Some p" and ne: "db_events p \<noteq> [] \<or> db_signals p \<noteq> []"
    by (auto simp: pend_def split: option.splits)
  have open': "\<not> bt_closed b" "\<not> bt_queueClosed b" using assms True by (auto simp: bt_inv_def)
  have inv: "length (bt_queue b) \<le> bt_queueCap b" "1 \<le> bt_queueCap b" "builder_ok (bt_builder b)"
    "\<forall>x \<in> set (bt_queue b). batch_ok x" using assms by (auto simp: bt_inv_def)
  show ?thesis
  proof (cases "length (bt_queue b) < bt_queueCap b")
    case space: True
    obtain b' where b': "flushLocked reason now b = Some b'"
      using p ne open' space by (auto simp: flushLocked_def Let_def)
    show ?thesis
      by (rule queued [OF p True b'])
        (use b' p ne open' space inv batch_ok_finalizeBatch [of p now] in
          \<open>auto simp: flushLocked_def Let_def stopTimerLocked_def bt_inv_def pend_def\<close>)
  next
    case full: False
    obtain b' where b': "flushLocked reason now b = Some b'"
      using p ne open' full by (auto simp: flushLocked_def Let_def)
    show ?thesis
      by (rule dropped [OF p True b'])
        (use b' p ne open' full inv in
          \<open>auto simp: flushLocked_def Let_def stopTimerLocked_def bt_inv_def pend_def\<close>)
  qed
qed

lemma bt_inv_stopTimer [simp]: "bt_inv (stopTimerLocked b) = bt_inv b"
  by (simp add: bt_inv_def stopTimerLocked_def pend_def)

lemma stopTimer_keeps [simp]:
  "bt_stats (stopTimerLocked b) = bt_stats b" "bt_queue (stopTimerLocked b) = bt_queue b"
  "bt_closed (stopTimerLocked b) = bt_closed b" "bt_timer (stopTimerLocked b) = TimerStopped"
  "pend f (stopTimerLocked b) = pend f b"
  by (simp_all add: stopTimerLocked_def pend_def)

section \<open>Conservation\<close>

text \<open>
  One kind of item (events or signals) on its way through the batcher: \<open>out\<close> are the batches
  queued or delivered, oldest first.
\<close>

definition flow :: "(DataBatch \<Rightarrow> 'a list) \<Rightarrow> uint64 \<Rightarrow> uint64 \<Rightarrow> DataBatch list \<Rightarrow> 'a list \<Rightarrow> 'a list \<Rightarrow> bool" where
  "flow items flushed dropped out pending added \<longleftrightarrow>
     flushed = of_nat (length (concat (map items out))) \<and>
     flushed + dropped + of_nat (length pending) = of_nat (length added) \<and>
     subseq (concat (map items out) @ pending) added"

lemma flow_init: "flow items 0 0 [] [] []"
  by (simp add: flow_def)

lemma subseq_append_right: "subseq xs ys \<Longrightarrow> subseq xs (ys @ zs)"
  using list_emb_append_mono [of "(=)" xs ys "[]" zs] by simp

lemma flow_add:
  assumes "flow items f d out pending added"
  shows "flow items f d out (pending @ xs) (added @ xs)"
proof -
  have "subseq ((concat (map items out) @ pending) @ xs) (added @ xs)"
    using assms by (intro list_emb_append_mono) (simp_all add: flow_def)
  moreover have "f + d + of_nat (length (pending @ xs)) =
      (f + d + of_nat (length pending)) + of_nat (length xs)"
    by simp
  ultimately show ?thesis using assms by (auto simp: flow_def add.assoc)
qed

lemma flow_reject:
  assumes "flow items f d out pending added"
  shows "flow items f (d + of_nat (length xs)) out pending (added @ xs)"
proof -
  have "f + (d + of_nat (length xs)) + of_nat (length pending) =
      (f + d + of_nat (length pending)) + of_nat (length xs)"
    by simp
  then show ?thesis using assms by (auto simp: flow_def add.assoc subseq_append_right)
qed

lemma flow_queue:
  "flow items f d out pending added \<Longrightarrow> items x = pending \<Longrightarrow>
   flow items (f + of_nat (length pending)) d (out @ [x]) [] added"
  by (auto simp: flow_def algebra_simps)

lemma flow_drop:
  assumes "flow items f d out pending added"
  shows "flow items f (d + of_nat (length pending)) out [] added"
proof -
  have "subseq (concat (map items out)) (concat (map items out) @ pending)"
    by (simp add: subseq_append_right)
  with assms have "subseq (concat (map items out)) added"
    unfolding flow_def using subseq_order.trans by blast
  with assms show ?thesis by (auto simp: flow_def algebra_simps)
qed

definition br_inv :: "BatcherRun \<Rightarrow> bool" where
  "br_inv r \<longleftrightarrow>
     (let b = br_batcher r; st = bt_stats b; out = br_delivered r @ bt_queue b
      in bt_inv b \<and> (\<forall>x \<in> set (br_delivered r). batch_ok x) \<and>
         FlushedBatches st = of_nat (length out) \<and>
         flow db_events (FlushedEvents st) (DroppedEvents st) out (pend db_events b) (br_added_events r) \<and>
         flow db_signals (FlushedSignals st) (DroppedSignals st) out (pend db_signals b) (br_added_signals r))"

lemma br_inv_start:
  "builder_ok builder \<Longrightarrow> br_inv (bt_start (NewBatcher builder size' interval cap maxBytes))"
  by (simp add: br_inv_def bt_start_def NewBatcher_def Let_def bt_inv_def pend_def BatcherStats_zero_def flow_init Suc_le_eq)

lemma br_inv_run [simp]: "br_inv (r\<lparr> br_run := x \<rparr>) = br_inv r"
  by (simp add: br_inv_def)

lemma br_inv_stopTimer:
  "br_inv r \<Longrightarrow> br_inv (r\<lparr> br_batcher := stopTimerLocked (br_batcher r) \<rparr>)"
  by (simp add: br_inv_def Let_def)

lemma br_inv_timer:
  "br_inv (r\<lparr> br_batcher := (br_batcher r)\<lparr> bt_timer := t \<rparr> \<rparr>) = br_inv r"
  by (simp add: br_inv_def Let_def bt_inv_def pend_def)

lemma br_inv_flushLocked:
  assumes "br_inv r"
  shows "\<exists>b'. flushLocked reason now (br_batcher r) = Some b' \<and> br_inv (r\<lparr> br_batcher := b' \<rparr>)"
proof -
  let ?b = "br_batcher r"
  have inv: "bt_inv ?b" using assms by (simp add: br_inv_def Let_def)
  then show ?thesis
  proof (cases rule: flushLocked_cases [where reason = reason and now = now])
    case idle
    then show ?thesis using assms br_inv_stopTimer by blast
  next
    case (queued p b')
    have pend: "pend db_events ?b = db_events p" "pend db_signals ?b = db_signals p"
      using queued(1) by (simp_all add: pend_def)
    show ?thesis
      using assms queued flow_queue [of db_events _ _ _ "db_events p" _ "finalizeBatch now p"]
        flow_queue [of db_signals _ _ _ "db_signals p" _ "finalizeBatch now p"]
      by (simp add: br_inv_def Let_def pend pend_def [of _ b'] flip: append_assoc)
  next
    case (dropped p b')
    have pend: "pend db_events ?b = db_events p" "pend db_signals ?b = db_signals p"
      using dropped(1) by (simp_all add: pend_def)
    show ?thesis
      using assms dropped flow_drop [of db_events _ _ _ "db_events p"] flow_drop [of db_signals _ _ _ "db_signals p"]
      by (simp add: br_inv_def Let_def pend pend_def [of _ b'])
  qed
qed

text \<open>The batch that \<open>Add\<close> extends, and the batcher once it has extended it.\<close>

definition add_pending :: "(DataBatch \<Rightarrow> int) \<Rightarrow> time \<Rightarrow> DataBatch \<Rightarrow> Batcher \<Rightarrow> Batcher" where
  "add_pending protoSize now1 batch b =
     (let b = (case bt_pending b of
                 None \<Rightarrow> resetTimerLocked (b\<lparr> bt_pending := Some (newBatch b now1) \<rparr>)
               | Some _ \<Rightarrow> b);
          pending = the (bt_pending b);
          pending = pending\<lparr> db_events := db_events pending @ db_events batch,
                             db_signals := db_signals pending @ db_signals batch \<rparr>;
          b = b\<lparr> bt_pending := Some pending, bt_bytes := bt_bytes b + protoSize batch \<rparr>
      in b\<lparr> bt_stats := (bt_stats b)\<lparr> PendingEvents := of_nat (length (db_events pending)),
              PendingSignals := of_nat (length (db_signals pending)), PendingBytes := of_int (bt_bytes b) \<rparr> \<rparr>)"

lemma add_pending_keeps:
  assumes "builder_ok (bt_builder b)"
  shows "pend db_events (add_pending protoSize now1 batch b) = pend db_events b @ db_events batch"
    and "pend db_signals (add_pending protoSize now1 batch b) = pend db_signals b @ db_signals batch"
    and "bt_queue (add_pending protoSize now1 batch b) = bt_queue b"
    and "bt_closed (add_pending protoSize now1 batch b) = bt_closed b"
    and "bt_timer (add_pending protoSize now1 batch b) =
      (if bt_pending b = None then TimerArmed (bt_flushInterval b) else bt_timer b)"
    and "bt_inv b \<Longrightarrow> \<not> bt_closed b \<Longrightarrow> bt_inv (add_pending protoSize now1 batch b)"
    and "FlushedBatches (bt_stats (add_pending protoSize now1 batch b)) = FlushedBatches (bt_stats b)"
    and "FlushedEvents (bt_stats (add_pending protoSize now1 batch b)) = FlushedEvents (bt_stats b)"
    and "FlushedSignals (bt_stats (add_pending protoSize now1 batch b)) = FlushedSignals (bt_stats b)"
    and "DroppedEvents (bt_stats (add_pending protoSize now1 batch b)) = DroppedEvents (bt_stats b)"
    and "DroppedSignals (bt_stats (add_pending protoSize now1 batch b)) = DroppedSignals (bt_stats b)"
  using newBatch_items [OF assms, of now1]
  by (cases "bt_pending b";
      simp add: add_pending_def Let_def pend_def resetTimerLocked_def stopTimerLocked_def bt_inv_def)+

lemma Add_cases:
  obtains "batch = None" "Add protoSize now1 now2 batch b = Some b"
  | x where "batch = Some x" "bt_closed b" "Add protoSize now1 now2 batch b =
      Some (b\<lparr> bt_stats := (bt_stats b)\<lparr> DroppedBatches := DroppedBatches (bt_stats b) + 1,
                 DroppedEvents := DroppedEvents (bt_stats b) + of_nat (length (db_events x)),
                 DroppedSignals := DroppedSignals (bt_stats b) + of_nat (length (db_signals x)),
                 LastError := ''telemetry batcher closed'' \<rparr> \<rparr>)"
  | x reason where "batch = Some x" "\<not> bt_closed b"
      "Add protoSize now1 now2 batch b = flushLocked reason now2 (add_pending protoSize now1 x b)"
  | x where "batch = Some x" "\<not> bt_closed b"
      "Add protoSize now1 now2 batch b = Some (add_pending protoSize now1 x b)"
proof -
  consider "batch = None" | x where "batch = Some x" "bt_closed b" | x where "batch = Some x" "\<not> bt_closed b"
    by (cases batch) auto
  then show ?thesis
  proof cases
    case (3 x)
    have "Add protoSize now1 now2 batch b = Some (add_pending protoSize now1 x b) \<or>
        Add protoSize now1 now2 batch b = flushLocked ''count'' now2 (add_pending protoSize now1 x b) \<or>
        Add protoSize now1 now2 batch b = flushLocked ''bytes'' now2 (add_pending protoSize now1 x b)"
      using 3 unfolding Add_def add_pending_def Let_def by (simp split del: option.split)
    with 3 that show ?thesis by blast
  qed (use that in \<open>auto simp: Add_def Let_def\<close>)
qed

lemma br_inv_Add:
  assumes "br_inv r"
  shows "\<exists>r'. bt_act protoSize r (DoAdd batch now1 now2) = Some r' \<and> br_inv r'"
proof (cases rule: Add_cases [of batch protoSize now1 now2 "br_batcher r"])
  case 1
  then show ?thesis using assms by (simp add: bt_set_def)
next
  case (2 x)
  then show ?thesis using assms
    by (auto simp: bt_set_def br_inv_def Let_def bt_inv_def pend_def intro: flow_reject)
next
  case (3 x reason)
  let ?b = "add_pending protoSize now1 x (br_batcher r)"
  let ?r = "r\<lparr> br_added_events := br_added_events r @ db_events x,
               br_added_signals := br_added_signals r @ db_signals x \<rparr>"
  have "builder_ok (bt_builder (br_batcher r))" using assms by (simp add: br_inv_def Let_def bt_inv_def)
  note keeps = add_pending_keeps [OF this, of protoSize now1 x]
  have "br_inv (?r\<lparr> br_batcher := ?b \<rparr>)"
    using assms 3(2) keeps by (auto simp: br_inv_def Let_def intro: flow_add)
  from br_inv_flushLocked [OF this, of reason now2] show ?thesis
    using 3 by (auto simp: bt_set_def)
next
  case (4 x)
  have "builder_ok (bt_builder (br_batcher r))" using assms by (simp add: br_inv_def Let_def bt_inv_def)
  note keeps = add_pending_keeps [OF this, of protoSize now1 x]
  show ?thesis
    using assms 4 keeps by (auto simp: bt_set_def br_inv_def Let_def intro: flow_add)
qed

lemma br_inv_Close:
  assumes "br_inv r"
  shows "\<exists>r'. bt_set r (CloseAndFlush reason now (br_batcher r)) = Some r' \<and> br_inv r'"
proof (cases "bt_closed (br_batcher r)")
  case True
  then show ?thesis using assms by (simp add: CloseAndFlush_def bt_set_def)
next
  case False
  obtain b' where b': "flushLocked reason now (br_batcher r) = Some b'" "br_inv (r\<lparr> br_batcher := b' \<rparr>)"
    using br_inv_flushLocked [OF assms] by blast
  have inv: "bt_inv (br_batcher r)" using assms by (simp add: br_inv_def Let_def)
  have "\<not> bt_queueClosed b' \<and> \<not> pending_items b'"
    using inv False b'(1)
    by (cases rule: flushLocked_cases [OF inv, where reason = reason and now = now])
      (auto simp: bt_inv_def pend_def stopTimerLocked_def)
  then show ?thesis
    using b' False by (auto simp: CloseAndFlush_def bt_set_def br_inv_def Let_def bt_inv_def pend_def)
qed

lemma br_inv_act:
  assumes "br_inv r"
  shows "\<exists>r'. bt_act protoSize r a = Some r' \<and> br_inv r'"
proof (cases a)
  case (DoAdd batch now1 now2)
  then show ?thesis using br_inv_Add [OF assms] by simp
next
  case (DoFlush reason now)
  then show ?thesis using br_inv_flushLocked [OF assms, of reason now] by (auto simp: bt_set_def Flush_def)
next
  case (DoReconfigure settings now)
  then show ?thesis using br_inv_flushLocked [OF assms, of "''policy''" now]
    by (auto simp: bt_set_def Reconfigure_def br_inv_def Let_def bt_inv_def pend_def)
next
  case (DoClose reason now)
  then show ?thesis using br_inv_Close [OF assms] by simp
next
  case TimerExpires
  then show ?thesis using assms by (auto simp: br_inv_timer split: timer_state.splits)
next
  case RunTakesTick
  then show ?thesis using assms by (auto simp: br_inv_timer)
next
  case (RunFlushes now)
  then show ?thesis using assms br_inv_flushLocked [of "r\<lparr> br_run := RunWaiting \<rparr>" "''interval''" now]
    by (auto simp: bt_set_def Flush_def)
next
  case (RunDone now)
  then show ?thesis using assms br_inv_Close [of "r\<lparr> br_run := RunReturned \<rparr>" "''shutdown''" now] by auto
next
  case Receive
  then show ?thesis using assms
    by (cases "bt_queue (br_batcher r)") (auto simp: br_inv_def Let_def bt_inv_def pend_def)
qed

definition br_ok :: "BatcherRun option \<Rightarrow> bool" where
  "br_ok s \<longleftrightarrow> (\<exists>r. s = Some r \<and> br_inv r)"

interpretation batcher: machine "bt_step protoSize" br_ok for protoSize
proof
  fix s a
  assume "br_ok s"
  then show "br_ok (bt_step protoSize s a)"
    using br_inv_act by (auto simp: br_ok_def bt_step_def)
qed

section \<open>The flush timer\<close>

text \<open>An action that does not hand an empty batch to \<open>Add\<close>.\<close>

fun nonempty_action :: "bt_action \<Rightarrow> bool" where
  "nonempty_action (DoAdd (Some x) now1 now2) = (db_events x \<noteq> [] \<or> db_signals x \<noteq> [])"
| "nonempty_action _ = True"

definition timer_inv :: "BatcherRun \<Rightarrow> bool" where
  "timer_inv r \<longleftrightarrow>
     (let b = br_batcher r
      in br_inv r \<and> (bt_pending b \<noteq> None \<longrightarrow> pending_items b) \<and>
         (pending_items b \<longrightarrow> bt_timer b \<noteq> TimerStopped \<or> br_run r = RunHasTick) \<and>
         (br_run r = RunReturned \<longrightarrow> bt_closed b))"

lemma timer_inv_start:
  "builder_ok builder \<Longrightarrow> timer_inv (bt_start (NewBatcher builder sz interval cap maxBytes))"
  using br_inv_start [of builder sz interval cap maxBytes]
  by (simp add: timer_inv_def Let_def) (simp add: bt_start_def NewBatcher_def pend_def Let_def)

lemma flushLocked_clears:
  assumes "br_inv r" and "bt_pending (br_batcher r) \<noteq> None \<longrightarrow> pending_items (br_batcher r)"
    and "flushLocked reason now (br_batcher r) = Some b'"
  shows "bt_pending b' = None" and "bt_closed b' = bt_closed (br_batcher r)" and "br_inv (r\<lparr> br_batcher := b' \<rparr>)"
proof -
  have inv: "bt_inv (br_batcher r)" using assms(1) by (simp add: br_inv_def Let_def)
  show "bt_pending b' = None" and "bt_closed b' = bt_closed (br_batcher r)"
    using assms(2,3)
    by (cases rule: flushLocked_cases [OF inv, where reason = reason and now = now];
        auto simp: stopTimerLocked_def)+
  show "br_inv (r\<lparr> br_batcher := b' \<rparr>)"
    using br_inv_flushLocked [OF assms(1), of reason now] assms(3) by auto
qed

lemma timer_inv_flushed:
  assumes "br_inv (r\<lparr> br_batcher := b' \<rparr>)" and "bt_pending b' = None"
    and "br_run r = RunReturned \<longrightarrow> bt_closed b'"
  shows "timer_inv (r\<lparr> br_batcher := b' \<rparr>)"
  using assms by (simp add: timer_inv_def Let_def pend_def)

lemma timer_inv_Add:
  assumes "timer_inv r" and "nonempty_action (DoAdd batch now1 now2)"
    and "bt_act protoSize r (DoAdd batch now1 now2) = Some r'"
  shows "timer_inv r'"
proof -
  have br': "br_inv r'"
    using br_inv_Add [of r protoSize batch now1 now2] assms by (auto simp: timer_inv_def Let_def)
  have inv: "bt_inv (br_batcher r)" "builder_ok (bt_builder (br_batcher r))"
    using assms(1) by (auto simp: timer_inv_def Let_def br_inv_def bt_inv_def)
  show ?thesis
  proof (cases rule: Add_cases [of batch protoSize now1 now2 "br_batcher r"])
    case 1
    then show ?thesis using assms by (simp add: bt_set_def)
  next
    case (2 x)
    then have "bt_pending (br_batcher r') = bt_pending (br_batcher r)"
        "bt_timer (br_batcher r') = bt_timer (br_batcher r)"
        "bt_closed (br_batcher r') = bt_closed (br_batcher r)" "br_run r' = br_run r"
      using assms(3) by (auto simp: bt_set_def)
    then show ?thesis using br' assms(1) by (simp add: timer_inv_def Let_def pend_def)
  next
    case (3 x reason)
    let ?b = "add_pending protoSize now1 x (br_batcher r)"
    note keeps = add_pending_keeps [OF inv(2), of protoSize now1 x]
    have some: "pending_items ?b" using assms(2) 3(1) keeps(1,2) by auto
    obtain b' where b': "flushLocked reason now2 ?b = Some b'" and r': "br_batcher r' = b'" "br_run r' = br_run r"
      using assms(3) 3(1,3) by (auto simp: bt_set_def)
    have "bt_inv ?b" using keeps(6) inv(1) 3(2) by simp
    then have "bt_pending b' = None" and "bt_closed b' = bt_closed (br_batcher r)"
      using some b' keeps(4)
      by (cases rule: flushLocked_cases [where b = ?b and reason = reason and now = now2]; simp)+
    then show ?thesis using br' r' assms(1) by (simp add: timer_inv_def Let_def pend_def)
  next
    case (4 x)
    note keeps = add_pending_keeps [OF inv(2), of protoSize now1 x]
    have "pending_items (add_pending protoSize now1 x (br_batcher r))" using assms(2) 4(1) keeps(1,2) by auto
    moreover have "br_batcher r' = add_pending protoSize now1 x (br_batcher r)" "br_run r' = br_run r"
      using assms(3) 4(1,3) by (auto simp: bt_set_def)
    ultimately show ?thesis
      using br' assms(1) 4(2) keeps(4,5) by (auto simp: timer_inv_def Let_def)
  qed
qed

lemma timer_inv_Close:
  assumes "timer_inv r" and "bt_set (r\<lparr> br_run := run \<rparr>) (CloseAndFlush reason now (br_batcher r)) = Some r'"
    and "run = br_run r \<or> run = RunReturned"
  shows "timer_inv r'"
proof (cases "bt_closed (br_batcher r)")
  case True
  then have r': "r' = r\<lparr> br_run := run \<rparr>" using assms(2) by (auto simp: CloseAndFlush_def bt_set_def)
  have "br_inv r" using assms(1) by (simp add: timer_inv_def Let_def)
  then have "\<not> pending_items (br_batcher r)" using True by (auto simp: br_inv_def Let_def bt_inv_def)
  then show ?thesis using r' assms(1) True by (auto simp: timer_inv_def Let_def)
next
  case False
  then obtain b' where b': "flushLocked reason now (br_batcher r) = Some b'"
    using assms(2) by (auto simp: CloseAndFlush_def bt_set_def split: option.splits)
  have br: "br_inv r" using assms(1) by (simp add: timer_inv_def Let_def)
  have br': "br_inv r'"
    using br_inv_Close [of "r\<lparr> br_run := run \<rparr>" reason now] assms(2) br by auto
  note cl = flushLocked_clears [OF br _ b']
  have "bt_pending (br_batcher r') = None \<and> bt_closed (br_batcher r')"
    using assms(1,2) False b' cl(1) by (auto simp: CloseAndFlush_def bt_set_def timer_inv_def Let_def split: if_splits)
  then show ?thesis using br' by (simp add: timer_inv_def Let_def pend_def)
qed

lemma timer_inv_act:
  assumes t: "timer_inv r" and "nonempty_action a" and step: "bt_act protoSize r a = Some r'"
  shows "timer_inv r'"
proof -
  have br: "br_inv r" and pn: "bt_pending (br_batcher r) \<noteq> None \<longrightarrow> pending_items (br_batcher r)"
    and ret: "br_run r = RunReturned \<longrightarrow> bt_closed (br_batcher r)"
    using t by (simp_all add: timer_inv_def Let_def)
  note cl = flushLocked_clears [OF br pn]
  have br': "br_inv r'" using br_inv_act [OF br, of protoSize a] step by auto
  show ?thesis
  proof (cases a)
    case (DoAdd batch now1 now2)
    then show ?thesis using timer_inv_Add assms by blast
  next
    case (DoFlush reason now)
    then show ?thesis using step cl [of reason now] ret timer_inv_flushed [where r = r]
      by (auto simp: bt_set_def Flush_def)
  next
    case (DoReconfigure settings now)
    then have "bt_pending (br_batcher r') = None \<and> bt_closed (br_batcher r') = bt_closed (br_batcher r) \<and> br_run r' = br_run r"
      using step cl(1,2) [of "''policy''" now] by (auto simp: bt_set_def Reconfigure_def split: option.splits)
    then show ?thesis using br' ret by (simp add: timer_inv_def Let_def pend_def)
  next
    case (DoClose reason now)
    then show ?thesis using step timer_inv_Close [OF t, of "br_run r" reason now r'] by simp
  next
    case TimerExpires
    then show ?thesis using step t br'
      by (auto simp: timer_inv_def Let_def pend_def split: timer_state.splits)
  next
    case RunTakesTick
    then show ?thesis using step t br' by (auto simp: timer_inv_def Let_def pend_def split: if_splits)
  next
    case (RunFlushes now)
    show ?thesis
    proof (cases "br_run r = RunHasTick")
      case True
      then have "bt_pending (br_batcher r') = None \<and> br_run r' = RunWaiting"
        using RunFlushes step cl(1) [of "''interval''" now] by (auto simp: bt_set_def Flush_def)
      then show ?thesis using br' by (simp add: timer_inv_def Let_def pend_def)
    next
      case False
      then show ?thesis using RunFlushes step t by simp
    qed
  next
    case (RunDone now)
    then show ?thesis using step t timer_inv_Close [OF t, of RunReturned "''shutdown''" now r']
      by (auto split: if_splits)
  next
    case Receive
    then show ?thesis using step t br'
      by (auto simp: timer_inv_def Let_def pend_def split: list.splits)
  qed
qed

lemma timer_inv_run:
  "timer_inv r \<Longrightarrow> list_all nonempty_action as \<Longrightarrow>
   \<exists>r'. foldl (bt_step protoSize) (Some r) as = Some r' \<and> timer_inv r'"
proof (induction as arbitrary: r)
  case (Cons a as)
  obtain r1 where "bt_act protoSize r a = Some r1"
    using br_inv_act [of r protoSize a] Cons.prems(1) by (auto simp: timer_inv_def Let_def)
  moreover from this have "timer_inv r1" using timer_inv_act Cons.prems by auto
  ultimately show ?case using Cons.IH [of r1] Cons.prems(2) by (simp add: bt_step_def)
qed simp

subsection \<open>An example run\<close>

definition example_event :: EventFrame where
  "example_event = \<lparr> ef_sequence = 7, ef_observed_at = [], ef_event = None \<rparr>"

definition example_batch :: DataBatch where
  "example_batch = DataBatch_zero\<lparr> db_events := [example_event] \<rparr>"

abbreviation example_start :: "BatcherRun option" where
  "example_start \<equiv> Some (bt_start (NewBatcher None 64 0 2 []))"

lemmas bt_eval =
  bt_step_def bt_set_def bt_start_def NewBatcher_def Add_def CloseAndFlush_def Flush_def flushLocked_def
  newBatch_def resetTimerLocked_def stopTimerLocked_def recordFlushReasonLocked_def Let_def
  DataBatch_zero_def example_batch_def

lemma example_run:
  "\<exists>r x. foldl (bt_step (\<lambda>_. 10)) (Some (bt_start (NewBatcher None 64 0 2 [])))
       [DoAdd (Some example_batch) 0 0, RunDone 0, Receive] = Some r \<and>
     br_delivered r = [x] \<and> db_events x = [example_event]"
  by (simp add: bt_eval cong: let_weak_cong)

section \<open>Properties\<close>

text \<open>
  C2. In every interleaving of callers, \<^verbatim>\<open>Run\<close> goroutine, timer and receiver, the batcher never
  panics (in particular it never sends on its closed queue), its queue never exceeds its
  capacity, and no event or signal is lost, duplicated or reordered without being counted: what
  was queued is a subsequence of what was added, \<^verbatim>\<open>FlushedEvents\<close> counts exactly the events
  in the queued batches, and flushed, dropped and pending events add up to the added ones
  (modulo the width of the counters); the same for signals.
\<close>

theorem batcher_conserves_items:
  assumes "builder_ok builder"
  shows "\<exists>r. foldl (bt_step protoSize) (Some (bt_start (NewBatcher builder sz interval cap maxBytes))) as = Some r \<and>
    (let b = br_batcher r; st = bt_stats b; out = br_delivered r @ bt_queue b
     in length (bt_queue b) \<le> bt_queueCap b \<and>
        FlushedBatches st = of_nat (length out) \<and>
        FlushedEvents st = of_nat (length (concat (map db_events out))) \<and>
        FlushedEvents st + DroppedEvents st + of_nat (length (pend db_events b)) = of_nat (length (br_added_events r)) \<and>
        subseq (concat (map db_events out) @ pend db_events b) (br_added_events r) \<and>
        FlushedSignals st = of_nat (length (concat (map db_signals out))) \<and>
        FlushedSignals st + DroppedSignals st + of_nat (length (pend db_signals b)) = of_nat (length (br_added_signals r)) \<and>
        subseq (concat (map db_signals out) @ pend db_signals b) (br_added_signals r))"
proof -
  have "br_ok (foldl (bt_step protoSize) (Some (bt_start (NewBatcher builder sz interval cap maxBytes))) as)"
    by (rule batcher.run_invar) (simp add: br_ok_def br_inv_start [OF assms])
  then show ?thesis by (auto simp: br_ok_def br_inv_def bt_inv_def flow_def Let_def)
qed

theorem batcher_conserves_items_witness:
  "\<exists>r. foldl (bt_step (\<lambda>_. 10)) (Some (bt_start (NewBatcher None 64 0 2 []))) [DoAdd (Some example_batch) 0 0, RunDone 0, Receive] = Some r \<and>
     subseq (concat (map db_events (br_delivered r @ bt_queue (br_batcher r))) @ pend db_events (br_batcher r)) (br_added_events r)"
proof -
  have "builder_ok None" by (simp add: builder_ok_def)
  from batcher_conserves_items [OF this, of "\<lambda>_. 10" 64 0 2 "[]" "[DoAdd (Some example_batch) 0 0, RunDone 0, Receive]"]
  show ?thesis unfolding Let_def by blast
qed

text \<open>
  Every batch that reaches the queue or the receiver carries the current schema version, a
  batch id, and a header whose counts and sequence ranges are those of its events and signals;
  none is empty.
\<close>

theorem batcher_headers_describe_batches:
  assumes "builder_ok builder"
    and "foldl (bt_step protoSize) (Some (bt_start (NewBatcher builder sz interval cap maxBytes))) as = Some r"
    and "x \<in> set (br_delivered r @ bt_queue (br_batcher r))"
  shows "batch_ok x"
proof -
  have "br_ok (foldl (bt_step protoSize) (Some (bt_start (NewBatcher builder sz interval cap maxBytes))) as)"
    by (rule batcher.run_invar) (simp add: br_ok_def br_inv_start [OF assms(1)])
  then show ?thesis using assms(2,3) by (auto simp: br_ok_def br_inv_def bt_inv_def Let_def)
qed

theorem batcher_headers_describe_batches_witness:
  "\<exists>r x. foldl (bt_step (\<lambda>_. 10)) (Some (bt_start (NewBatcher None 64 0 2 []))) [DoAdd (Some example_batch) 0 0, RunDone 0, Receive] = Some r \<and>
     x \<in> set (br_delivered r) \<and> db_events x = [example_event] \<and> batch_ok x"
proof -
  have ok: "builder_ok None" by (simp add: builder_ok_def)
  obtain r x where r: "foldl (bt_step (\<lambda>_. 10)) (Some (bt_start (NewBatcher None 64 0 2 [])))
      [DoAdd (Some example_batch) 0 0, RunDone 0, Receive] = Some r" "br_delivered r = [x]" "db_events x = [example_event]"
    using example_run by blast
  from batcher_headers_describe_batches [OF ok r(1), of x] r(2) have "batch_ok x" by simp
  with r show ?thesis by auto
qed

text \<open>
  C30. If no caller hands an empty batch to \<open>Add\<close>, pending items are never stuck: whatever happened
  before, once the timer expires (if it is armed) and the \<^verbatim>\<open>Run\<close> goroutine takes its turn, nothing
  is pending any more.
\<close>

theorem batcher_interval_flushes:
  assumes "builder_ok builder" and "list_all nonempty_action as"
  shows "\<exists>r. foldl (bt_step protoSize) (Some (bt_start (NewBatcher builder sz interval cap maxBytes)))
      (as @ [TimerExpires, RunTakesTick, RunFlushes now]) = Some r \<and> \<not> pending_items (br_batcher r)"
proof -
  obtain r where run: "foldl (bt_step protoSize) (Some (bt_start (NewBatcher builder sz interval cap maxBytes))) as = Some r"
    and t: "timer_inv r"
    using timer_inv_run [OF timer_inv_start [OF assms(1)] assms(2)] by blast
  obtain r1 where r1: "bt_act protoSize r TimerExpires = Some r1" by simp
  obtain r2 where r2: "bt_act protoSize r1 RunTakesTick = Some r2" by simp
  have t1: "timer_inv r1" using timer_inv_act [OF t _ r1] by simp
  have t2: "timer_inv r2" using timer_inv_act [OF t1 _ r2] by simp
  obtain r3 where r3: "bt_act protoSize r2 (RunFlushes now) = Some r3"
    using br_inv_act [of r2 protoSize "RunFlushes now"] t2 by (auto simp: timer_inv_def Let_def)
  have t3: "timer_inv r3" using timer_inv_act [OF t2 _ r3] by simp
  have idle: "\<not> pending_items (br_batcher r2) \<or> br_run r2 = RunHasTick"
  proof (cases "br_run r1 = RunWaiting")
    case True
    have "bt_timer (br_batcher r1) = TimerFired \<or> bt_timer (br_batcher r1) = TimerStopped"
      using r1 by (auto split: timer_state.splits)
    then show ?thesis using True r2 t1 by (auto simp: timer_inv_def Let_def)
  next
    case False
    then show ?thesis using r2 t1
      by (cases "br_run r1") (auto simp: timer_inv_def Let_def br_inv_def bt_inv_def)
  qed
  have "\<not> pending_items (br_batcher r3)"
  proof (cases "br_run r2 = RunHasTick")
    case True
    have "br_inv r2" and "bt_pending (br_batcher r2) \<noteq> None \<longrightarrow> pending_items (br_batcher r2)"
      using t2 by (simp_all add: timer_inv_def Let_def)
    from flushLocked_clears(1) [OF this, of "''interval''" now] have "bt_pending (br_batcher r3) = None"
      using True r3 by (auto simp: bt_set_def Flush_def)
    then show ?thesis by (simp add: pend_def)
  next
    case False
    then show ?thesis using idle r3 by auto
  qed
  then show ?thesis using run r1 r2 r3 by (simp add: bt_step_def)
qed

theorem batcher_interval_flushes_witness:
  "list_all nonempty_action [DoAdd (Some example_batch) 0 0] \<and>
   (\<exists>r. foldl (bt_step (\<lambda>_. 10)) (Some (bt_start (NewBatcher None 64 0 2 [])))
      ([DoAdd (Some example_batch) 0 0] @ [TimerExpires, RunTakesTick, RunFlushes 0]) = Some r \<and> \<not> pending_items (br_batcher r))"
proof -
  have ok: "builder_ok None" by (simp add: builder_ok_def)
  have ne: "list_all nonempty_action [DoAdd (Some example_batch) 0 0]" by (simp add: example_batch_def)
  from batcher_interval_flushes [OF ok ne, of "\<lambda>_. 10" 64 0 2 "[]" 0] ne show ?thesis by blast
qed

text \<open>
  An empty batch defeats the flush interval. After an empty batch is added and the interval
  passes, the empty pending batch stays with the timer stopped, so the next \<open>Add\<close> does not arm it:
  its event stays pending however often the timer and the \<^verbatim>\<open>Run\<close> goroutine get their turn.
\<close>

theorem batcher_empty_batch_stops_interval:
  "\<exists>r. foldl (bt_step (\<lambda>_. 10)) (Some (bt_start (NewBatcher None 64 0 2 [])))
     [DoAdd (Some DataBatch_zero) 0 0, TimerExpires, RunTakesTick, RunFlushes 0, DoAdd (Some example_batch) 0 0] = Some r \<and>
   pend db_events (br_batcher r) = [example_event] \<and>
   foldl (bt_step (\<lambda>_. 10)) (Some r) (concat (replicate n [TimerExpires, RunTakesTick, RunFlushes now])) = Some r"
proof -
  let ?run = "foldl (bt_step (\<lambda>_. 10)) (Some (bt_start (NewBatcher None 64 0 2 [])))
     [DoAdd (Some DataBatch_zero) 0 0, TimerExpires, RunTakesTick, RunFlushes 0, DoAdd (Some example_batch) 0 0]"
  obtain r where r: "?run = Some r" "pend db_events (br_batcher r) = [example_event]"
      "bt_timer (br_batcher r) = TimerStopped" "br_run r = RunWaiting"
    by (simp add: bt_eval pend_def cong: let_weak_cong)
  have "foldl (bt_step (\<lambda>_. 10)) (Some r) (concat (replicate n [TimerExpires, RunTakesTick, RunFlushes now])) = Some r"
    using r(3,4) by (induction n) (simp_all add: bt_step_def)
  with r show ?thesis by blast
qed

end
