(* ===== verification/Sender.thy ===== *)
theory Sender
  imports Data_Model
begin

text \<open>
  The data-plane acknowledgements of \<^verbatim>\<open>internal/endpoint/dataappend/ack.go\<close> and the \<^verbatim>\<open>Sender\<close> of
  \<^verbatim>\<open>internal/agent/telemetry/batcher.go\<close>, which sends each batch until it is committed or
  rejected. The appender is an argument: \<open>send n\<close> is the acknowledgement and the error of attempt
  \<open>n\<close>. The wait between attempts ends with the timer or with the context; \<open>cancelled n\<close> says
  which. The loop need not end, so it is a partial function.
\<close>

section \<open>Definitions\<close>

definition AckCommitted :: "DataAck option \<Rightarrow> bool" where
  "AckCommitted ack =
     (case ack of
        None \<Rightarrow> False
      | Some a \<Rightarrow> (case ack_status a of
                    STATUS_ACCEPTED \<Rightarrow> True
                  | STATUS_DUPLICATE \<Rightarrow> True
                  | STATUS_UNSPECIFIED \<Rightarrow> ack_accepted a
                  | _ \<Rightarrow> False))"

definition AckRetryable :: "DataAck option \<Rightarrow> bool" where
  "AckRetryable ack =
     (case ack of None \<Rightarrow> True | Some a \<Rightarrow> ack_retryable a \<or> ack_status a = STATUS_RETRYABLE)"

definition AckTerminalRejected :: "DataAck option \<Rightarrow> bool" where
  "AckTerminalRejected ack =
     (case ack of None \<Rightarrow> False | Some a \<Rightarrow> ack_status a = STATUS_REJECTED \<and> \<not> ack_retryable a)"

record SenderStats =
  SentBatches :: uint64
  SentEvents :: uint64
  SentSignals :: uint64
  RejectedBatches :: uint64
  RetriedBatches :: uint64
  SndLastError :: string
  Drained :: bool

record Sender =
  snd_appender :: bool
  RetryInitial :: duration
  RetryMax :: duration
  snd_stats :: SenderStats

definition recordSent :: "DataBatch \<Rightarrow> SenderStats \<Rightarrow> SenderStats" where
  "recordSent batch st = st\<lparr> SentBatches := SentBatches st + 1,
     SentEvents := SentEvents st + of_nat (length (db_events batch)),
     SentSignals := SentSignals st + of_nat (length (db_signals batch)), SndLastError := [] \<rparr>"

definition recordDrained :: "SenderStats \<Rightarrow> SenderStats" where
  "recordDrained st = st\<lparr> Drained := True \<rparr>"

definition recordRejected :: "string \<Rightarrow> SenderStats \<Rightarrow> SenderStats" where
  "recordRejected message st = st\<lparr> RejectedBatches := RejectedBatches st + 1, SndLastError := message \<rparr>"

definition recordRetry :: "string \<Rightarrow> SenderStats \<Rightarrow> SenderStats" where
  "recordRetry message st = st\<lparr> RetriedBatches := RetriedBatches st + 1, SndLastError := message \<rparr>"

definition retryMessage :: "DataAck option \<Rightarrow> string option \<Rightarrow> string" where
  "retryMessage ack err =
     (let message = ''missing data ack'';
          message = (case err of None \<Rightarrow> message | Some e \<Rightarrow> e)
      in case ack of None \<Rightarrow> message | Some a \<Rightarrow> if ack_message a \<noteq> '''' then ack_message a else message)"

text \<open>\<^verbatim>\<open>time.Duration(ms) * time.Millisecond\<close> is a 64-bit product, read as signed.\<close>

definition retryDelay :: "DataAck option \<Rightarrow> duration \<Rightarrow> duration" where
  "retryDelay ack backoff =
     (case ack of
        None \<Rightarrow> backoff
      | Some a \<Rightarrow> if ack_retry_after_ms a > 0 then sint (ack_retry_after_ms a * 1000000) else backoff)"

definition nextBackoff :: "duration \<Rightarrow> duration \<Rightarrow> duration" where
  "nextBackoff maxBackoff backoff =
     (let backoff = backoff * 2 in if backoff > maxBackoff then maxBackoff else backoff)"

text \<open>The loop returns the counters and the delays it waited for.\<close>

partial_function (option) sendLoop ::
  "(nat \<Rightarrow> DataAck option \<times> string option) \<Rightarrow> (nat \<Rightarrow> bool) \<Rightarrow> DataBatch \<Rightarrow> duration \<Rightarrow>
   nat \<Rightarrow> duration \<Rightarrow> SenderStats \<Rightarrow> duration list \<Rightarrow> (SenderStats \<times> duration list) option" where
  "sendLoop send cancelled batch maxBackoff n backoff st delays =
     (let (ack, err) = send n
      in if err = None \<and> AckCommitted ack then Some (recordSent batch st, delays)
         else if AckTerminalRejected ack then Some (recordRejected (ack_message (the ack)) st, delays)
         else
           let st' = recordRetry (retryMessage ack err) st;
               delay = retryDelay ack backoff
           in if cancelled n then Some (st', delays @ [delay])
              else sendLoop send cancelled batch maxBackoff (n + 1) (nextBackoff maxBackoff backoff) st'
                     (delays @ [delay]))"

definition initialBackoff :: "Sender \<Rightarrow> duration" where
  "initialBackoff s = (if RetryInitial s \<le> 0 then 1000000000 else RetryInitial s)"

definition maximalBackoff :: "Sender \<Rightarrow> duration" where
  "maximalBackoff s = (if RetryMax s \<le> 0 then 30 * 1000000000 else RetryMax s)"

definition sendWithRetry ::
  "(nat \<Rightarrow> DataAck option \<times> string option) \<Rightarrow> (nat \<Rightarrow> bool) \<Rightarrow> DataBatch option \<Rightarrow> Sender \<Rightarrow> (Sender \<times> duration list) option" where
  "sendWithRetry send cancelled batch s =
     (case batch of
        None \<Rightarrow> Some (s, [])
      | Some batch \<Rightarrow>
          if \<not> snd_appender s then Some (s, [])
          else case sendLoop send cancelled batch (maximalBackoff s) 0 (initialBackoff s) (snd_stats s) [] of
                 None \<Rightarrow> None
               | Some (st, delays) \<Rightarrow> Some (s\<lparr> snd_stats := st \<rparr>, delays))"

text \<open>
  \<^verbatim>\<open>Run\<close> and \<^verbatim>\<open>DrainUntilIdle\<close> have the same body: receive until the queue is closed and empty, or the
  context is done.
\<close>

datatype sender_input =
    Batch DataBatch "nat \<Rightarrow> DataAck option \<times> string option" "nat \<Rightarrow> bool"
  | QueueClosed
  | ContextDone

fun Sender_Run :: "sender_input list \<Rightarrow> Sender \<Rightarrow> Sender option" where
  "Sender_Run [] s = Some s"
| "Sender_Run (ContextDone # _) s = Some s"
| "Sender_Run (QueueClosed # _) s = Some (s\<lparr> snd_stats := recordDrained (snd_stats s) \<rparr>)"
| "Sender_Run (Batch batch send cancelled # inputs) s =
     (case sendWithRetry send cancelled (Some batch) s of
        None \<Rightarrow> None
      | Some (s, _) \<Rightarrow> Sender_Run inputs s)"

section \<open>The retry loop\<close>

definition committed :: "DataAck option \<times> string option \<Rightarrow> bool" where
  "committed r \<longleftrightarrow> snd r = None \<and> AckCommitted (fst r)"

definition rejected :: "DataAck option \<times> string option \<Rightarrow> bool" where
  "rejected r \<longleftrightarrow> \<not> committed r \<and> AckTerminalRejected (fst r)"

definition retried :: "DataAck option \<times> string option \<Rightarrow> bool" where
  "retried r \<longleftrightarrow> \<not> committed r \<and> \<not> rejected r"

lemma committed_or_retryable:
  "AckCommitted ack \<Longrightarrow> \<not> AckTerminalRejected ack"
  "ack_status a = STATUS_RETRYABLE \<Longrightarrow> retried (Some a, e)"
  by (auto simp: AckCommitted_def AckTerminalRejected_def retried_def committed_def rejected_def
      split: option.splits DataAck_Status.splits)

lemma sendLoop_step:
  "committed (send n) \<Longrightarrow> sendLoop send cancelled batch m n b st ds = Some (recordSent batch st, ds)"
  "rejected (send n) \<Longrightarrow>
     sendLoop send cancelled batch m n b st ds = Some (recordRejected (ack_message (the (fst (send n)))) st, ds)"
  "retried (send n) \<Longrightarrow> cancelled n \<Longrightarrow>
     sendLoop send cancelled batch m n b st ds =
       Some (recordRetry (retryMessage (fst (send n)) (snd (send n))) st, ds @ [retryDelay (fst (send n)) b])"
  "retried (send n) \<Longrightarrow> \<not> cancelled n \<Longrightarrow>
     sendLoop send cancelled batch m n b st ds =
       sendLoop send cancelled batch m (n + 1) (nextBackoff m b)
         (recordRetry (retryMessage (fst (send n)) (snd (send n))) st) (ds @ [retryDelay (fst (send n)) b])"
  by (subst sendLoop.simps, auto simp: committed_def rejected_def retried_def case_prod_beta Let_def)+

text \<open>Counters and delays after \<open>k\<close> retries from attempt \<open>n\<close> on.\<close>

fun after_retries ::
  "(nat \<Rightarrow> DataAck option \<times> string option) \<Rightarrow> duration \<Rightarrow> nat \<Rightarrow> nat \<Rightarrow> duration \<Rightarrow> SenderStats \<Rightarrow>
   duration list \<Rightarrow> duration \<times> SenderStats \<times> duration list" where
  "after_retries send m n 0 b st ds = (b, st, ds)"
| "after_retries send m n (Suc k) b st ds =
     after_retries send m (n + 1) k (nextBackoff m b)
       (recordRetry (retryMessage (fst (send n)) (snd (send n))) st) (ds @ [retryDelay (fst (send n)) b])"

lemma sendLoop_after_retries:
  assumes "\<forall>i<k. retried (send (n + i)) \<and> \<not> cancelled (n + i)"
  shows "sendLoop send cancelled batch m n b st ds =
    (case after_retries send m n k b st ds of (b', st', ds') \<Rightarrow> sendLoop send cancelled batch m (n + k) b' st' ds')"
  using assms
proof (induction k arbitrary: n b st ds)
  case (Suc k)
  have "retried (send n)" "\<not> cancelled n" using Suc.prems [rule_format, of 0] by simp_all
  moreover have "\<forall>i<k. retried (send (n + 1 + i)) \<and> \<not> cancelled (n + 1 + i)"
    using Suc.prems by (metis Suc_eq_plus1 Suc_mono add.assoc add.commute)
  ultimately show ?case using Suc.IH [of "n + 1"] by (simp add: sendLoop_step(4))
qed simp

lemma after_retries_stats:
  assumes "after_retries send m n k b st ds = (b', st', ds')"
  shows "b' = (nextBackoff m ^^ k) b \<and> SentBatches st' = SentBatches st \<and> SentEvents st' = SentEvents st \<and>
    SentSignals st' = SentSignals st \<and> RejectedBatches st' = RejectedBatches st \<and>
    RetriedBatches st' = RetriedBatches st + of_nat k \<and>
    ds' = ds @ map (\<lambda>i. retryDelay (fst (send (n + i))) ((nextBackoff m ^^ i) b)) [0..<k]"
  using assms
proof (induction k arbitrary: n b st ds)
  case (Suc k)
  have upt: "[0..<Suc k] = 0 # map Suc [0..<k]" by (simp add: upt_conv_Cons map_Suc_upt del: upt_Suc)
  show ?case using Suc.IH [OF Suc.prems [unfolded after_retries.simps]]
    by (simp add: recordRetry_def funpow_swap1 upt comp_def del: upt_Suc)
qed simp

lemma nextBackoff_power:
  assumes "0 < m" and "0 < b" and "0 < k"
  shows "(nextBackoff m ^^ k) b = min m (b * 2 ^ k)"
  using assms(3)
proof (induction k)
  case (Suc k)
  have step: "nextBackoff m x = min m (x * 2)" for x by (simp add: nextBackoff_def Let_def min_def)
  show ?case
  proof (cases "k = 0")
    case True
    then show ?thesis by (simp add: step)
  next
    case False
    then have "(nextBackoff m ^^ Suc k) b = min m (min m (b * 2 ^ k) * 2)"
      using Suc.IH step [of "(nextBackoff m ^^ k) b"] by simp
    then show ?thesis using assms(1,2) by (auto simp: min_def)
  qed
qed simp

lemma after_sendWithRetry:
  assumes "\<forall>i<k. retried (send i) \<and> \<not> cancelled i" and "snd_appender s"
  shows "\<exists>st. SentBatches st = SentBatches (snd_stats s) \<and> SentEvents st = SentEvents (snd_stats s) \<and>
    SentSignals st = SentSignals (snd_stats s) \<and> RejectedBatches st = RejectedBatches (snd_stats s) \<and>
    RetriedBatches st = RetriedBatches (snd_stats s) + of_nat k \<and>
    sendWithRetry send cancelled (Some batch) s =
       (case sendLoop send cancelled batch (maximalBackoff s) k ((nextBackoff (maximalBackoff s) ^^ k) (initialBackoff s)) st
          (map (\<lambda>i. retryDelay (fst (send i)) ((nextBackoff (maximalBackoff s) ^^ i) (initialBackoff s))) [0..<k]) of
          None \<Rightarrow> None | Some (st, delays) \<Rightarrow> Some (s\<lparr> snd_stats := st \<rparr>, delays))"
proof -
  obtain b' st' ds' where r: "after_retries send (maximalBackoff s) 0 k (initialBackoff s) (snd_stats s) [] = (b', st', ds')"
    by (metis prod_cases3)
  have "\<forall>i<k. retried (send (0 + i)) \<and> \<not> cancelled (0 + i)" using assms(1) by simp
  note loop = sendLoop_after_retries [OF this]
  show ?thesis
    by (rule exI [of _ st']) (use after_retries_stats [OF r] loop r assms(2) in \<open>simp add: sendWithRetry_def\<close>)
qed

section \<open>Properties\<close>


definition example_sender :: Sender where
  "example_sender = \<lparr> snd_appender = True, RetryInitial = 0, RetryMax = 0,
     snd_stats = \<lparr> SentBatches = 0, SentEvents = 0, SentSignals = 0, RejectedBatches = 0, RetriedBatches = 0,
                   SndLastError = [], Drained = False \<rparr> \<rparr>"

definition example_attempts :: "nat \<Rightarrow> DataAck option \<times> string option" where
  "example_attempts n = (if n < 2 then (None, Some ''unavailable'') else (Some (DataAck_zero\<lparr> ack_status := STATUS_ACCEPTED \<rparr>), None))"


lemma sendLoop_result:
  "sendLoop send cancelled batch m n b st ds = Some y \<Longrightarrow>
   \<exists>k. (\<forall>i<k. retried (send (n + i)) \<and> \<not> cancelled (n + i)) \<and>
     (committed (send (n + k)) \<or> rejected (send (n + k)) \<or> retried (send (n + k)) \<and> cancelled (n + k))"
proof (induction send cancelled batch m n b st ds y rule: sendLoop.raw_induct [rotated, consumes 1])
  case (1 rec send cancelled batch m n b st ds y)
  show ?case
  proof (cases "retried (send n) \<and> \<not> cancelled n")
    case False
    then have "committed (send n) \<or> rejected (send n) \<or> retried (send n) \<and> cancelled n"
      by (auto simp: retried_def)
    then show ?thesis by (auto intro: exI [where x = 0])
  next
    case True
    then have "rec send cancelled batch m (n + 1) (nextBackoff m b)
       (recordRetry (retryMessage (fst (send n)) (snd (send n))) st) (ds @ [retryDelay (fst (send n)) b]) = Some y"
      using 1(2) by (auto simp: retried_def rejected_def committed_def case_prod_beta Let_def split: if_splits)
    note 1(1) [OF this]
    then obtain k where k: "\<forall>i<k. retried (send (n + 1 + i)) \<and> \<not> cancelled (n + 1 + i)"
      "committed (send (n + 1 + k)) \<or> rejected (send (n + 1 + k)) \<or> retried (send (n + 1 + k)) \<and> cancelled (n + 1 + k)"
      by (elim exE conjE)
    have "retried (send (n + i)) \<and> \<not> cancelled (n + i)" if "i < Suc k" for i
      using k(1) True that by (cases i) auto
    with k(2) have "(\<forall>i<Suc k. retried (send (n + i)) \<and> \<not> cancelled (n + i)) \<and>
      (committed (send (n + Suc k)) \<or> rejected (send (n + Suc k)) \<or> retried (send (n + Suc k)) \<and> cancelled (n + Suc k))"
      by simp
    then show ?thesis by (rule exI)
  qed
qed

lemma sendWithRetry_result:
  assumes "snd_appender s" and "sendWithRetry send cancelled (Some batch) s = Some (s', delays)"
  shows "\<exists>k. (\<forall>i<k. retried (send i) \<and> \<not> cancelled i) \<and>
     (committed (send k) \<or> rejected (send k) \<or> retried (send k) \<and> cancelled k)"
proof -
  obtain st' ds' where "sendLoop send cancelled batch (maximalBackoff s) 0 (initialBackoff s) (snd_stats s) [] = Some (st', ds')"
    using assms by (auto simp: sendWithRetry_def split: option.splits)
  from sendLoop_result [OF this] show ?thesis by simp
qed

lemma sendWithRetry_ends:
  assumes "snd_appender s" and "committed (send k) \<or> rejected (send k) \<or> cancelled k"
  shows "\<exists>s' delays. sendWithRetry send cancelled (Some batch) s = Some (s', delays)"
proof -
  define l where "l = (LEAST k. committed (send k) \<or> rejected (send k) \<or> cancelled k)"
  have last: "committed (send l) \<or> rejected (send l) \<or> retried (send l) \<and> cancelled l"
    unfolding l_def retried_def using LeastI [where P = "\<lambda>k. committed (send k) \<or> rejected (send k) \<or> cancelled k", OF assms(2)]
    by blast
  have before: "\<forall>i<l. retried (send i) \<and> \<not> cancelled i"
    unfolding l_def retried_def using not_less_Least by blast
  obtain st ds b where run: "sendWithRetry send cancelled (Some batch) s =
       (case sendLoop send cancelled batch (maximalBackoff s) l b st ds of
          None \<Rightarrow> None | Some (st, delays) \<Rightarrow> Some (s\<lparr> snd_stats := st \<rparr>, delays))"
    using after_sendWithRetry [OF before assms(1), of batch] by blast
  from last show ?thesis
    unfolding run by (elim disjE conjE) (simp_all add: sendLoop_step)
qed

lemma not_committed_not_sent:
  assumes "snd_appender s" and "\<forall>i<k. retried (send i) \<and> \<not> cancelled i" and "\<not> committed (send k)"
    and "rejected (send k) \<or> retried (send k) \<and> cancelled k"
    and "sendWithRetry send cancelled (Some batch) s = Some (s', delays)"
  shows "SentBatches (snd_stats s') = SentBatches (snd_stats s)"
proof -
  obtain st ds b where st: "SentBatches st = SentBatches (snd_stats s)"
    and run: "sendWithRetry send cancelled (Some batch) s =
       (case sendLoop send cancelled batch (maximalBackoff s) k b st ds of
          None \<Rightarrow> None | Some (st, delays) \<Rightarrow> Some (s\<lparr> snd_stats := st \<rparr>, delays))"
    using after_sendWithRetry [OF assms(2,1), of batch] by blast
  from assms(4) show ?thesis
    using assms(5) st unfolding run
    by (elim disjE conjE) (auto simp: sendLoop_step recordRejected_def recordRetry_def)
qed

text \<open>
  C24. \<^verbatim>\<open>sendWithRetry\<close> returns exactly when some attempt ends it: an attempt that is committed,
  rejected for good, or followed by a cancelled wait. It counts the batch as sent only if the
  last attempt was committed without error, and then no earlier attempt was.
\<close>

theorem sendWithRetry_returns_iff:
  assumes "snd_appender s"
  shows "((\<exists>s' delays. sendWithRetry send cancelled (Some batch) s = Some (s', delays)) \<longleftrightarrow>
       (\<exists>k. committed (send k) \<or> rejected (send k) \<or> cancelled k)) \<and>
    (\<forall>s' delays. sendWithRetry send cancelled (Some batch) s = Some (s', delays) \<longrightarrow>
       SentBatches (snd_stats s') \<noteq> SentBatches (snd_stats s) \<longrightarrow>
       (\<exists>k. committed (send k) \<and> (\<forall>i<k. retried (send i))))"
proof (intro conjI allI impI)
  show "(\<exists>s' delays. sendWithRetry send cancelled (Some batch) s = Some (s', delays)) \<longleftrightarrow>
      (\<exists>k. committed (send k) \<or> rejected (send k) \<or> cancelled k)"
    using sendWithRetry_result [OF assms] sendWithRetry_ends [OF assms] by blast
next
  fix s' delays
  assume ret: "sendWithRetry send cancelled (Some batch) s = Some (s', delays)"
    and sent: "SentBatches (snd_stats s') \<noteq> SentBatches (snd_stats s)"
  obtain k where k: "\<forall>i<k. retried (send i) \<and> \<not> cancelled i"
    "committed (send k) \<or> rejected (send k) \<or> retried (send k) \<and> cancelled k"
    using sendWithRetry_result [OF assms ret] by blast
  have "committed (send k)"
    using not_committed_not_sent [OF assms k(1) _ _ ret] k(2) sent by blast
  with k(1) show "\<exists>k. committed (send k) \<and> (\<forall>i<k. retried (send i))" by blast
qed

theorem sendWithRetry_returns_iff_witness:
  "\<exists>s' delays. sendWithRetry example_attempts (\<lambda>_. False) (Some DataBatch_zero) example_sender = Some (s', delays)"
proof -
  have "snd_appender example_sender" by (simp add: example_sender_def)
  moreover have "committed (example_attempts 2)"
    by (simp add: committed_def AckCommitted_def example_attempts_def DataAck_zero_def)
  ultimately show ?thesis
    using sendWithRetry_returns_iff [of example_sender example_attempts "\<lambda>_. False" DataBatch_zero] by blast
qed

end
