(* ===== verification/Bus.thy ===== *)
theory Bus
  imports Data_Model
begin

text \<open>
  The in-process telemetry bus of \<^verbatim>\<open>internal/agent/telemetry/bus.go\<close>. The event half and the signal
  half of the struct have the same shape and the same code, so they are two values of one
  polymorphic record \<open>BusSide\<close>. A watcher's channel is the list of frames it buffers (capacity
  256); a channel leaves the map exactly when it is closed.
\<close>

section \<open>Definitions\<close>

record 'f BusSide =
  bs_frames :: "'f list"
  bs_watchers :: "(uint64, 'f list) gomap"
  bs_published :: uint64
  bs_dropped :: uint64

record Bus =
  bus_capacity :: int
  bus_events :: "EventFrame BusSide"
  bus_signals :: "SignalFrame BusSide"
  bus_nextWatcherID :: uint64

record BusStats =
  EventCapacity :: uint64
  EventBuffered :: uint64
  EventNextSequence :: uint64
  EventOldestSequence :: uint64
  EventNewestSequence :: uint64
  EventDropped :: uint64
  EventSubscribers :: uint64
  SignalCapacity :: uint64
  SignalBuffered :: uint64
  SignalNextSequence :: uint64
  SignalOldestSequence :: uint64
  SignalNewestSequence :: uint64
  SignalDropped :: uint64
  SignalSubscribers :: uint64

definition BusSide_empty :: "'f BusSide" where
  "BusSide_empty = \<lparr> bs_frames = [], bs_watchers = [], bs_published = 0, bs_dropped = 0 \<rparr>"

definition NewBus :: "int \<Rightarrow> Bus" where
  "NewBus capacity =
     (let capacity = (if capacity \<le> 0 then 4096 else capacity)
      in \<lparr> bus_capacity = capacity, bus_events = BusSide_empty, bus_signals = BusSide_empty, bus_nextWatcherID = 0 \<rparr>)"

text \<open>
  \<^verbatim>\<open>copy(b.events, b.events[1:])\<close> followed by writing the last slot, as index updates; on a full buffer
  the oldest frame is overwritten. Then each watcher gets the frame, or is removed and its
  channel closed when it cannot take it; the watchers are independent, so the order of the
  \<^verbatim>\<open>range\<close> does not matter.
\<close>

definition shiftIn :: "'f list \<Rightarrow> 'f \<Rightarrow> 'f list" where
  "shiftIn fs frame = (drop 1 fs @ drop (length fs - 1) fs)[length fs - 1 := frame]"

definition publishSide :: "int \<Rightarrow> 'f BusSide \<Rightarrow> 'f \<Rightarrow> 'f BusSide" where
  "publishSide capacity s frame =
     (let s = s\<lparr> bs_published := bs_published s + 1 \<rparr>;
          s = (if int (length (bs_frames s)) \<ge> capacity
               then s\<lparr> bs_frames := shiftIn (bs_frames s) frame, bs_dropped := bs_dropped s + 1 \<rparr>
               else s\<lparr> bs_frames := bs_frames s @ [frame] \<rparr>)
      in s\<lparr> bs_watchers := map (\<lambda>(id, buf). (id, buf @ [frame]))
                            (filter (\<lambda>(id, buf). length buf < 256) (bs_watchers s)) \<rparr>)"

definition PublishEvent :: "Bus \<Rightarrow> EventFrame option \<Rightarrow> Bus" where
  "PublishEvent b frame =
     (case frame of None \<Rightarrow> b
      | Some frame \<Rightarrow> b\<lparr> bus_events := publishSide (bus_capacity b) (bus_events b) frame \<rparr>)"

definition PublishSignal :: "Bus \<Rightarrow> SignalFrame option \<Rightarrow> Bus" where
  "PublishSignal b frame =
     (case frame of None \<Rightarrow> b
      | Some frame \<Rightarrow> b\<lparr> bus_signals := publishSide (bus_capacity b) (bus_signals b) frame \<rparr>)"

definition PublishBatch :: "Bus \<Rightarrow> DataBatch option \<Rightarrow> Bus" where
  "PublishBatch b batch =
     (case batch of None \<Rightarrow> b
      | Some batch \<Rightarrow>
          foldl (\<lambda>b f. PublishSignal b (Some f)) (foldl (\<lambda>b f. PublishEvent b (Some f)) b (db_events batch))
            (db_signals batch))"

definition SnapshotEvents :: "Bus \<Rightarrow> EventFrame list" where
  "SnapshotEvents b = bs_frames (bus_events b)"

definition SnapshotSignals :: "Bus \<Rightarrow> SignalFrame list" where
  "SnapshotSignals b = bs_frames (bus_signals b)"

definition WatchEvents :: "Bus \<Rightarrow> Bus \<times> uint64" where
  "WatchEvents b =
     (let b = b\<lparr> bus_nextWatcherID := bus_nextWatcherID b + 1 \<rparr>; id = bus_nextWatcherID b;
          s = bus_events b
      in (b\<lparr> bus_events := s\<lparr> bs_watchers := AList.update id [] (bs_watchers s) \<rparr> \<rparr>, id))"

definition WatchSignals :: "Bus \<Rightarrow> Bus \<times> uint64" where
  "WatchSignals b =
     (let b = b\<lparr> bus_nextWatcherID := bus_nextWatcherID b + 1 \<rparr>; id = bus_nextWatcherID b;
          s = bus_signals b
      in (b\<lparr> bus_signals := s\<lparr> bs_watchers := AList.update id [] (bs_watchers s) \<rparr> \<rparr>, id))"

text \<open>The goroutine each \<^verbatim>\<open>Watch\<close> starts, once its context is done.\<close>

definition UnwatchEvents :: "Bus \<Rightarrow> uint64 \<Rightarrow> Bus" where
  "UnwatchEvents b wid =
     b\<lparr> bus_events := (bus_events b)\<lparr> bs_watchers := AList.delete wid (bs_watchers (bus_events b)) \<rparr> \<rparr>"

definition UnwatchSignals :: "Bus \<Rightarrow> uint64 \<Rightarrow> Bus" where
  "UnwatchSignals b wid =
     b\<lparr> bus_signals := (bus_signals b)\<lparr> bs_watchers := AList.delete wid (bs_watchers (bus_signals b)) \<rparr> \<rparr>"

definition BusStats_read :: "Bus \<Rightarrow> BusStats" where
  "BusStats_read b =
     (let es = bs_frames (bus_events b); ss = bs_frames (bus_signals b);
          stats = \<lparr> EventCapacity = of_int (bus_capacity b), EventBuffered = of_nat (length es),
            EventNextSequence = 0, EventOldestSequence = 0, EventNewestSequence = 0,
            EventDropped = bs_dropped (bus_events b),
            EventSubscribers = of_nat (length (bs_watchers (bus_events b))),
            SignalCapacity = of_int (bus_capacity b), SignalBuffered = of_nat (length ss),
            SignalNextSequence = 0, SignalOldestSequence = 0, SignalNewestSequence = 0,
            SignalDropped = bs_dropped (bus_signals b),
            SignalSubscribers = of_nat (length (bs_watchers (bus_signals b))) \<rparr>;
          stats = (if length es > 0
                   then stats\<lparr> EventOldestSequence := ef_sequence (es ! 0),
                               EventNewestSequence := ef_sequence (es ! (length es - 1)),
                               EventNextSequence := ef_sequence (es ! (length es - 1)) + 1 \<rparr>
                   else stats)
      in if length ss > 0
         then stats\<lparr> SignalOldestSequence := sf_sequence (ss ! 0),
                     SignalNewestSequence := sf_sequence (ss ! (length ss - 1)),
                     SignalNextSequence := sf_sequence (ss ! (length ss - 1)) + 1 \<rparr>
         else stats)"

section \<open>The ring of frames\<close>

lemma shiftIn_last_n: "fs \<noteq> [] \<Longrightarrow> shiftIn fs frame = tl fs @ [frame]"
proof -
  assume "fs \<noteq> []"
  then obtain x xs where fs: "fs = x # xs" by (cases fs) auto
  show ?thesis
  proof (cases xs rule: rev_cases)
    case Nil
    then show ?thesis by (simp add: shiftIn_def fs)
  next
    case (snoc ys y)
    then show ?thesis by (simp add: shiftIn_def fs list_update_append)
  qed
qed

lemma publishSide_frames:
  assumes "length (bs_frames s) \<le> nat c"
  shows "bs_frames (publishSide c s f) = last_n (nat c) (bs_frames s @ [f])"
proof (cases "c \<le> int (length (bs_frames s))")
  case True
  then have len: "length (bs_frames s) = nat c" using assms by auto
  show ?thesis
  proof (cases "bs_frames s = []")
    case True
    then show ?thesis using len \<open>c \<le> int (length (bs_frames s))\<close>
      by (simp add: publishSide_def Let_def shiftIn_def last_n_def)
  next
    case False
    then have "1 \<le> nat c" by (simp add: Suc_le_eq flip: len)
    then show ?thesis using False len \<open>c \<le> int (length (bs_frames s))\<close>
      by (simp add: publishSide_def Let_def shiftIn_last_n last_n_def Suc_diff_le drop_Suc)
  qed
next
  case False
  then show ?thesis by (auto simp: publishSide_def Let_def last_n_def)
qed

lemma publishSide_counts:
  assumes "length (bs_frames s) \<le> nat c" and "1 \<le> c"
    and "bs_published s = bs_dropped s + of_nat (length (bs_frames s))"
  shows "bs_published (publishSide c s f) =
    bs_dropped (publishSide c s f) + of_nat (length (bs_frames (publishSide c s f)))"
proof (cases "c \<le> int (length (bs_frames s))")
  case True
  then have "bs_frames s \<noteq> []" using assms by auto
  then show ?thesis using True assms(3)
    by (simp add: publishSide_def Let_def shiftIn_last_n add.commute)
next
  case False
  then show ?thesis using assms(3) by (simp add: publishSide_def Let_def)
qed

lemma PublishEvent_Some [simp]:
  "bus_capacity (PublishEvent b (Some f)) = bus_capacity b"
  "bus_signals (PublishEvent b (Some f)) = bus_signals b"
  "bus_events (PublishEvent b (Some f)) = publishSide (bus_capacity b) (bus_events b) f"
  by (simp_all add: PublishEvent_def)

lemma PublishSignal_Some [simp]:
  "bus_capacity (PublishSignal b (Some f)) = bus_capacity b"
  "bus_events (PublishSignal b (Some f)) = bus_events b"
  "bus_signals (PublishSignal b (Some f)) = publishSide (bus_capacity b) (bus_signals b) f"
  by (simp_all add: PublishSignal_def)

interpretation event_log: bounded_log "\<lambda>b f. PublishEvent b (Some f)" SnapshotEvents "\<lambda>b. nat (bus_capacity b)"
  by unfold_locales (simp_all add: SnapshotEvents_def publishSide_frames)

interpretation signal_log: bounded_log "\<lambda>b f. PublishSignal b (Some f)" SnapshotSignals "\<lambda>b. nat (bus_capacity b)"
  by unfold_locales (simp_all add: SnapshotSignals_def publishSide_frames)

lemma PublishEvents_keep:
  "bus_signals (foldl (\<lambda>b f. PublishEvent b (Some f)) b fs) = bus_signals b"
  "bus_capacity (foldl (\<lambda>b f. PublishEvent b (Some f)) b fs) = bus_capacity b"
  by (induction fs rule: rev_induct) simp_all

lemma PublishSignals_keep:
  "bus_events (foldl (\<lambda>b f. PublishSignal b (Some f)) b fs) = bus_events b"
  "bus_capacity (foldl (\<lambda>b f. PublishSignal b (Some f)) b fs) = bus_capacity b"
  by (induction fs rule: rev_induct) simp_all

lemma Snapshot_PublishBatch:
  assumes "length (SnapshotEvents b) \<le> nat (bus_capacity b)" and "length (SnapshotSignals b) \<le> nat (bus_capacity b)"
  shows "SnapshotEvents (PublishBatch b (Some x)) = last_n (nat (bus_capacity b)) (SnapshotEvents b @ db_events x)"
    and "SnapshotSignals (PublishBatch b (Some x)) = last_n (nat (bus_capacity b)) (SnapshotSignals b @ db_signals x)"
proof -
  let ?e = "foldl (\<lambda>b f. PublishEvent b (Some f)) b (db_events x)"
  show "SnapshotEvents (PublishBatch b (Some x)) = last_n (nat (bus_capacity b)) (SnapshotEvents b @ db_events x)"
    using event_log.run_contents [OF assms(1), of "db_events x"]
    by (simp add: PublishBatch_def SnapshotEvents_def PublishSignals_keep)
  have "SnapshotSignals ?e = SnapshotSignals b" "bus_capacity ?e = bus_capacity b"
    by (simp_all add: SnapshotSignals_def PublishEvents_keep)
  then show "SnapshotSignals (PublishBatch b (Some x)) = last_n (nat (bus_capacity b)) (SnapshotSignals b @ db_signals x)"
    using signal_log.run_contents [of ?e "db_signals x"] assms(2) by (simp add: PublishBatch_def)
qed

section \<open>Watchers\<close>

text \<open>
  The bus with everything published so far, and for each event watcher the number of events
  published before it subscribed and the frames it has read.
\<close>

record BusRun =
  bu_bus :: Bus
  bu_events :: "EventFrame list"
  bu_since :: "uint64 \<Rightarrow> nat"
  bu_got :: "uint64 \<Rightarrow> EventFrame list"

datatype bus_action =
    BPublish "DataBatch option"
  | BPublishEvent EventFrame
  | BPublishSignal SignalFrame
  | BWatchEvents
  | BWatchSignals
  | BUnwatchEvents uint64
  | BUnwatchSignals uint64
  | BRead uint64

fun bus_step :: "BusRun \<Rightarrow> bus_action \<Rightarrow> BusRun" where
  "bus_step r (BPublish batch) =
     r\<lparr> bu_bus := PublishBatch (bu_bus r) batch,
        bu_events := bu_events r @ (case batch of None \<Rightarrow> [] | Some x \<Rightarrow> db_events x) \<rparr>"
| "bus_step r (BPublishEvent f) = r\<lparr> bu_bus := PublishEvent (bu_bus r) (Some f), bu_events := bu_events r @ [f] \<rparr>"
| "bus_step r (BPublishSignal f) = r\<lparr> bu_bus := PublishSignal (bu_bus r) (Some f) \<rparr>"
| "bus_step r BWatchEvents =
     (let (b, wid) = WatchEvents (bu_bus r)
      in r\<lparr> bu_bus := b, bu_since := (bu_since r)(wid := length (bu_events r)), bu_got := (bu_got r)(wid := []) \<rparr>)"
| "bus_step r BWatchSignals = r\<lparr> bu_bus := fst (WatchSignals (bu_bus r)) \<rparr>"
| "bus_step r (BUnwatchEvents wid) = r\<lparr> bu_bus := UnwatchEvents (bu_bus r) wid \<rparr>"
| "bus_step r (BUnwatchSignals wid) = r\<lparr> bu_bus := UnwatchSignals (bu_bus r) wid \<rparr>"
| "bus_step r (BRead wid) =
     (case map_of (bs_watchers (bus_events (bu_bus r))) wid of
        Some (f # buf) \<Rightarrow>
          let s = bus_events (bu_bus r)
          in r\<lparr> bu_bus := (bu_bus r)\<lparr> bus_events := s\<lparr> bs_watchers := AList.update wid buf (bs_watchers s) \<rparr> \<rparr>,
                bu_got := (bu_got r)(wid := bu_got r wid @ [f]) \<rparr>
      | _ \<Rightarrow> r)"

definition bu_inv :: "BusRun \<Rightarrow> bool" where
  "bu_inv r \<longleftrightarrow>
     (let b = bu_bus r; s = bus_events b
      in 1 \<le> bus_capacity b \<and> wf_map (bs_watchers s) \<and>
         SnapshotEvents b = last_n (nat (bus_capacity b)) (bu_events r) \<and>
         bs_published s = of_nat (length (bu_events r)) \<and>
         bs_published s = bs_dropped s + of_nat (length (bs_frames s)) \<and>
         (\<forall>wid buf. map_of (bs_watchers s) wid = Some buf \<longrightarrow>
            length buf \<le> 256 \<and> bu_since r wid \<le> length (bu_events r) \<and>
            bu_got r wid @ buf = drop (bu_since r wid) (bu_events r)))"

lemma watchers_publishSide:
  "bs_watchers (publishSide c s f) =
     map (\<lambda>(i, buf). (i, buf @ [f])) (filter (\<lambda>(i, buf). length buf < 256) (bs_watchers s))"
  by (simp add: publishSide_def Let_def)

lemma wf_map_watchers: "wf_map m \<Longrightarrow> wf_map (map (\<lambda>(i, buf). (i, buf @ [f])) (filter P m))"
proof -
  have "map fst (map (\<lambda>(i, buf). (i, buf @ [f])) l) = map fst l" for l :: "('a \<times> 'b list) list"
    by (induction l) auto
  then show "wf_map m \<Longrightarrow> ?thesis" using wf_map_filter [of m P] unfolding wf_map_def by metis
qed

lemma map_of_watchers:
  assumes "wf_map (bs_watchers s)"
  shows "map_of (bs_watchers (publishSide c s f)) i =
    (case map_of (bs_watchers s) i of
       Some buf \<Rightarrow> if length buf < 256 then Some (buf @ [f]) else None
     | None \<Rightarrow> None)"
  using assms unfolding watchers_publishSide
proof (induction "bs_watchers s" arbitrary: s)
  case (Cons p m)
  obtain j buf where p: "p = (j, buf)" by fastforce
  have wf: "wf_map m" and fresh: "map_of m j = None"
    using Cons.prems Cons.hyps(2) p by (auto simp: wf_map_def map_of_eq_None_iff simp flip: Cons.hyps(2))
  show ?case
    using Cons.hyps(1) [of "s\<lparr> bs_watchers := m \<rparr>"] wf fresh p
    by (auto simp flip: Cons.hyps(2))
qed simp

lemma bu_inv_start: "bu_inv \<lparr> bu_bus = NewBus c, bu_events = [], bu_since = \<lambda>_. 0, bu_got = \<lambda>_. [] \<rparr>"
  by (simp add: bu_inv_def NewBus_def Let_def BusSide_empty_def SnapshotEvents_def)

lemma bu_inv_PublishEvent:
  assumes "bu_inv r"
  shows "bu_inv (r\<lparr> bu_bus := PublishEvent (bu_bus r) (Some f), bu_events := bu_events r @ [f] \<rparr>)"
proof -
  let ?s = "bus_events (bu_bus r)" and ?c = "bus_capacity (bu_bus r)"
  have wf: "wf_map (bs_watchers ?s)" and c: "1 \<le> ?c" and frames: "bs_frames ?s = last_n (nat ?c) (bu_events r)"
    using assms by (simp_all add: bu_inv_def Let_def SnapshotEvents_def)
  have len: "length (bs_frames ?s) \<le> nat ?c" by (simp add: frames length_last_n)
  have "bs_frames (publishSide ?c ?s f) = last_n (nat ?c) (bu_events r @ [f])"
    by (simp add: publishSide_frames [OF len] frames last_n_append_eq)
  moreover have "bs_published (publishSide ?c ?s f) = bs_published ?s + 1"
    by (simp add: publishSide_def Let_def)
  moreover have "wf_map (bs_watchers (publishSide ?c ?s f))"
    unfolding watchers_publishSide using wf by (rule wf_map_watchers)
  ultimately show ?thesis
    using assms publishSide_counts [OF len c, of f]
    by (auto simp: bu_inv_def Let_def SnapshotEvents_def map_of_watchers [OF wf] le_SucI split: option.splits if_splits)
qed

lemma bu_inv_PublishEvents:
  "bu_inv r \<Longrightarrow>
   bu_inv (r\<lparr> bu_bus := foldl (\<lambda>b f. PublishEvent b (Some f)) (bu_bus r) fs, bu_events := bu_events r @ fs \<rparr>)"
proof (induction fs rule: rev_induct)
  case (snoc f fs)
  from bu_inv_PublishEvent [OF snoc.IH [OF snoc.prems], of f] show ?case by simp
qed simp

lemma bu_inv_events_only:
  assumes "bu_inv r" and "bus_events b = bus_events (bu_bus r)" and "bus_capacity b = bus_capacity (bu_bus r)"
  shows "bu_inv (r\<lparr> bu_bus := b \<rparr>)"
  using assms by (auto simp: bu_inv_def Let_def SnapshotEvents_def)

lemma bu_inv_events_only':
  assumes "bu_inv (r\<lparr> bu_bus := b', bu_events := es \<rparr>)" and "bus_events b = bus_events b'" and "bus_capacity b = bus_capacity b'"
  shows "bu_inv (r\<lparr> bu_bus := b, bu_events := es \<rparr>)"
  using assms by (auto simp: bu_inv_def Let_def SnapshotEvents_def)

interpretation bus: machine bus_step bu_inv
proof
  fix r a
  assume inv: "bu_inv r"
  show "bu_inv (bus_step r a)"
  proof (cases a)
    case (BPublish batch)
    show ?thesis
    proof (cases batch)
      case (Some x)
      from bu_inv_events_only' [OF bu_inv_PublishEvents [OF inv, of "db_events x"]] show ?thesis
        using BPublish Some by (simp add: PublishBatch_def PublishSignals_keep)
    qed (use inv BPublish in \<open>simp add: PublishBatch_def\<close>)
  next
    case (BPublishEvent f)
    then show ?thesis using bu_inv_PublishEvent [OF inv] by simp
  next
    case (BPublishSignal f)
    then show ?thesis using inv by (auto intro: bu_inv_events_only)
  next
    case BWatchEvents
    then show ?thesis using inv
      by (auto simp: WatchEvents_def Let_def bu_inv_def SnapshotEvents_def split: if_splits)
  next
    case BWatchSignals
    then show ?thesis using inv by (auto simp: WatchSignals_def Let_def intro: bu_inv_events_only)
  next
    case (BUnwatchEvents wid)
    then show ?thesis using inv
      by (auto simp: UnwatchEvents_def Let_def bu_inv_def SnapshotEvents_def split: if_splits)
  next
    case (BUnwatchSignals wid)
    then show ?thesis using inv by (auto simp: UnwatchSignals_def intro: bu_inv_events_only)
  next
    case (BRead wid)
    show ?thesis
    proof (cases "\<exists>f buf. map_of (bs_watchers (bus_events (bu_bus r))) wid = Some (f # buf)")
      case True
      then obtain f buf where some: "map_of (bs_watchers (bus_events (bu_bus r))) wid = Some (f # buf)" by blast
      then have "length (f # buf) \<le> 256 \<and> bu_since r wid \<le> length (bu_events r) \<and>
          bu_got r wid @ f # buf = drop (bu_since r wid) (bu_events r)"
        using inv unfolding bu_inv_def Let_def by blast
      then show ?thesis using inv BRead some
        by (auto simp: Let_def bu_inv_def SnapshotEvents_def)
    qed (use inv BRead in \<open>auto split: option.splits list.splits\<close>)
  qed
qed

section \<open>Properties\<close>

text \<open>
  C26. Whatever is published, watched, unwatched and read in whatever order, a snapshot of a new
  bus's events is the last \<open>capacity\<close> published events, the published count is the dropped count
  plus what is buffered, and an open event watcher has missed nothing: what it has read followed
  by what its channel buffers is exactly what was published since it subscribed.
\<close>

theorem bus_snapshot_and_watchers:
  fixes capacity as
  defines "r \<equiv> foldl bus_step \<lparr> bu_bus = NewBus capacity, bu_events = [], bu_since = \<lambda>_. 0, bu_got = \<lambda>_. [] \<rparr> as"
  shows "SnapshotEvents (bu_bus r) = last_n (nat (bus_capacity (bu_bus r))) (bu_events r) \<and>
    bs_published (bus_events (bu_bus r)) =
      bs_dropped (bus_events (bu_bus r)) + of_nat (length (SnapshotEvents (bu_bus r))) \<and>
    (map_of (bs_watchers (bus_events (bu_bus r))) wid = Some buf \<longrightarrow>
      length buf \<le> 256 \<and> bu_got r wid @ buf = drop (bu_since r wid) (bu_events r))"
proof -
  have "bu_inv r" unfolding r_def by (rule bus.run_invar [OF bu_inv_start])
  then show ?thesis unfolding bu_inv_def Let_def by (auto simp: SnapshotEvents_def)
qed

definition example_frame :: EventFrame where
  "example_frame = \<lparr> ef_sequence = 3, ef_observed_at = [], ef_event = None \<rparr>"

theorem bus_snapshot_and_watchers_witness:
  "let r = foldl bus_step \<lparr> bu_bus = NewBus 2, bu_events = [], bu_since = \<lambda>_. 0, bu_got = \<lambda>_. [] \<rparr>
             [BPublishEvent example_frame, BWatchEvents, BPublishEvent example_frame]
   in map_of (bs_watchers (bus_events (bu_bus r))) 1 = Some [example_frame] \<and>
      bu_got r 1 @ [example_frame] = drop (bu_since r 1) (bu_events r)"
proof -
  let ?r = "foldl bus_step \<lparr> bu_bus = NewBus 2, bu_events = [], bu_since = \<lambda>_. 0, bu_got = \<lambda>_. [] \<rparr>
             [BPublishEvent example_frame, BWatchEvents, BPublishEvent example_frame]"
  have "map_of (bs_watchers (bus_events (bu_bus ?r))) 1 = Some [example_frame]"
    by (simp add: NewBus_def Let_def BusSide_empty_def WatchEvents_def publishSide_def PublishEvent_def)
  with bus_snapshot_and_watchers [of 2 "[BPublishEvent example_frame, BWatchEvents, BPublishEvent example_frame]" 1 "[example_frame]"]
  show ?thesis unfolding Let_def by blast
qed

end
