(* ===== verification/Segment_Format.thy ===== *)
theory Segment_Format
  imports Data_Model
begin

text \<open>
  The on-disk format of the agent's spool: \<^verbatim>\<open>internal/agent/localstore/segment_format.go\<close> and the
  reader of \<^verbatim>\<open>segment_reader.go\<close>. A file is its bytes. The codecs are not under \<^verbatim>\<open>src/\<close> and are
  arguments: \<open>marshal\<close> and \<open>unmarshal\<close> (\<^verbatim>\<open>proto.Marshal\<close>, \<^verbatim>\<open>proto.Unmarshal\<close>), \<open>compress\<close> and
  \<open>decompress\<close> (\<^verbatim>\<open>zstd\<close>) and \<open>crc\<close> (CRC-32C). The theorems need of them only that decoding
  inverts encoding, \<open>codec_ok\<close>.
\<close>

section \<open>Definitions\<close>

type_synonym bytes = "byte list"

subsection \<open>Big-endian numbers\<close>

fun be_bytes :: "nat \<Rightarrow> nat \<Rightarrow> bytes" where
  "be_bytes 0 x = []"
| "be_bytes (Suc n) x = be_bytes n (x div 256) @ [of_nat (x mod 256)]"

definition be_value :: "bytes \<Rightarrow> nat" where
  "be_value bs = foldl (\<lambda>a b. a * 256 + unat b) 0 bs"

definition PutUint16 :: "uint16 \<Rightarrow> bytes" where "PutUint16 w = be_bytes 2 (unat w)"
definition PutUint32 :: "uint32 \<Rightarrow> bytes" where "PutUint32 w = be_bytes 4 (unat w)"
definition PutUint64 :: "uint64 \<Rightarrow> bytes" where "PutUint64 w = be_bytes 8 (unat w)"
definition Uint16 :: "bytes \<Rightarrow> uint16" where "Uint16 bs = of_nat (be_value (take 2 bs))"
definition Uint32 :: "bytes \<Rightarrow> uint32" where "Uint32 bs = of_nat (be_value (take 4 bs))"
definition Uint64 :: "bytes \<Rightarrow> uint64" where "Uint64 bs = of_nat (be_value (take 8 bs))"

text \<open>\<^verbatim>\<open>b[i:j]\<close>\<close>

definition bslice :: "nat \<Rightarrow> nat \<Rightarrow> 'a list \<Rightarrow> 'a list" where
  "bslice i j b = take (j - i) (drop i b)"

definition string_bytes :: "string \<Rightarrow> bytes" where
  "string_bytes s = map (\<lambda>c. of_nat (of_char c)) s"

subsection \<open>Segment header\<close>

datatype seg_error =
    InvalidHeader
  | UnsupportedFormat
  | MarshalError
  | BatchTooLarge
  | RecordTooShort
  | CrcMismatch
  | PayloadTooLarge
  | InvalidBatchIdLength
  | DecompressError
  | LengthMismatch
  | UnmarshalError
  | InvalidRecordLength
  | UnexpectedEOF
  | FileNotFound
  | BatchIdRequired
  | WriteError
  | DbError
  | MultipleOpenSegments

definition segmentMagic :: bytes where
  "segmentMagic = string_bytes ''SYSASEG1''"

definition maxBatchBytes :: nat where
  "maxBatchBytes = 16 * 2 ^ 20"

definition encodeSegmentHeader :: "uint64 \<Rightarrow> time \<Rightarrow> bytes" where
  "encodeSegmentHeader segmentID createdAt =
     segmentMagic @ PutUint16 1 @ [1] @ replicate 5 0 @ PutUint64 segmentID @ PutUint64 (of_int (UnixNano createdAt))"

definition parseSegmentHeader :: "bytes \<Rightarrow> seg_error + uint64" where
  "parseSegmentHeader header =
     (if length header \<noteq> 32 \<or> bslice 0 8 header \<noteq> segmentMagic then Inl InvalidHeader
      else if Uint16 (bslice 8 10 header) \<noteq> 1 \<or> header ! 10 \<noteq> 1 then Inl UnsupportedFormat
      else Inr (Uint64 (bslice 16 24 header)))"

subsection \<open>Records\<close>

definition batchSequence :: "DataBatch \<Rightarrow> uint64" where
  "batchSequence batch =
     (if bh_event_seq_start (GetHeader batch) > 0 then bh_event_seq_start (GetHeader batch)
      else bh_signal_seq_start (GetHeader batch))"

abbreviation batch_id :: "DataBatch \<Rightarrow> string" where
  "batch_id batch \<equiv> bh_batch_id (GetHeader batch)"

record codec =
  marshal :: "DataBatch \<Rightarrow> bytes option"
  unmarshal :: "bytes \<Rightarrow> DataBatch option"
  compress :: "bytes \<Rightarrow> bytes"
  decompress :: "bytes \<Rightarrow> bytes option"
  crc :: "bytes \<Rightarrow> uint32"

text \<open>The bytes of a record between its length and its checksum.\<close>

definition recordBody :: "codec \<Rightarrow> DataBatch \<Rightarrow> bytes \<Rightarrow> bytes" where
  "recordBody cd batch raw =
     (let batchID = string_bytes (batch_id batch)
      in PutUint32 (of_nat (length raw)) @ PutUint64 (batchSequence batch) @
         PutUint16 (of_nat (length batchID)) @ [0, 0] @ batchID @ compress cd raw)"

definition encodeRecord :: "codec \<Rightarrow> DataBatch \<Rightarrow> seg_error + (bytes \<times> uint64)" where
  "encodeRecord cd batch =
     (case marshal cd batch of
        None \<Rightarrow> Inl MarshalError
      | Some raw \<Rightarrow>
          if length raw > maxBatchBytes then Inl BatchTooLarge
          else
            let compressed = compress cd raw;
                batchID = string_bytes (batch_id batch);
                sequence = batchSequence batch;
                total = 20 - 4 + length batchID + length compressed + 4;
                body = recordBody cd batch raw
            in Inr (PutUint32 (of_nat total) @ body @ PutUint32 (crc cd body), sequence))"

definition decodeRecord :: "codec \<Rightarrow> bytes \<Rightarrow> seg_error + (DataBatch \<times> uint64)" where
  "decodeRecord cd record =
     (if length record < 24 then Inl RecordTooShort
      else
        let crcAt = length record - 4
        in if crc cd (bslice 4 crcAt record) \<noteq> Uint32 (drop crcAt record) then Inl CrcMismatch
           else
             let rawLen = Uint32 (bslice 4 8 record)
             in if unat rawLen > maxBatchBytes then Inl PayloadTooLarge
                else
                  let idLen = unat (Uint16 (bslice 16 18 record))
                  in if 20 + idLen > crcAt then Inl InvalidBatchIdLength
                     else case decompress cd (bslice (20 + idLen) crcAt record) of
                            None \<Rightarrow> Inl DecompressError
                          | Some raw \<Rightarrow>
                              if length raw \<noteq> unat rawLen then Inl LengthMismatch
                              else case unmarshal cd raw of
                                     None \<Rightarrow> Inl UnmarshalError
                                   | Some batch \<Rightarrow> Inr (batch, Uint64 (bslice 8 16 record)))"

subsection \<open>Reading a segment\<close>

record Position =
  SegmentID :: uint64
  RecordOffset :: int
  BatchSequence :: uint64
  BatchID :: string

record StoredBatch =
  sb_Position :: Position
  sb_Batch :: DataBatch

text \<open>
  \<open>rest\<close> is what the file holds from \<open>offset\<close> on. The result is the stored batches and the length the
  file is cut to, \<open>None\<close> when it is left alone.
\<close>

definition truncateOrError ::
  "int \<Rightarrow> bool \<Rightarrow> StoredBatch list \<Rightarrow> seg_error + (StoredBatch list \<times> int option)" where
  "truncateOrError offset allowed batches =
     (if \<not> allowed then Inl UnexpectedEOF else Inr (batches, Some offset))"

function readRecords ::
  "codec \<Rightarrow> uint64 \<Rightarrow> bool \<Rightarrow> bytes \<Rightarrow> int \<Rightarrow> StoredBatch list \<Rightarrow> seg_error + (StoredBatch list \<times> int option)" where
  "readRecords cd segmentID truncateTail rest offset out =
     (if rest = [] then Inr (out, None)
      else if length rest < 4 then truncateOrError offset truncateTail out
      else
        let lengthRaw = take 4 rest; len = unat (Uint32 lengthRaw)
        in if len < 20 \<or> len > maxBatchBytes then Inl InvalidRecordLength
           else if length (drop 4 rest) < len then truncateOrError offset truncateTail out
           else
             let record = lengthRaw @ take len (drop 4 rest)
             in case decodeRecord cd record of
                  Inl e \<Rightarrow> Inl e
                | Inr (batch, sequence) \<Rightarrow>
                    readRecords cd segmentID truncateTail (drop (4 + len) rest) (offset + int (length record))
                      (out @ [\<lparr> sb_Position = \<lparr> SegmentID = segmentID, RecordOffset = offset,
                                  BatchSequence = sequence, BatchID = batch_id batch \<rparr>,
                                sb_Batch = batch \<rparr>]))"
  by pat_completeness auto

termination
  by (relation "measure (\<lambda>(_, _, _, rest, _, _). length rest)") auto

declare readRecords.simps [simp del]

definition readSegment :: "codec \<Rightarrow> bool \<Rightarrow> bytes \<Rightarrow> seg_error + (StoredBatch list \<times> bytes)" where
  "readSegment cd truncateTail content =
     (if length content < 32 then Inl UnexpectedEOF
      else case parseSegmentHeader (take 32 content) of
             Inl e \<Rightarrow> Inl e
           | Inr segmentID \<Rightarrow>
               (case readRecords cd segmentID truncateTail (drop 32 content) 32 [] of
                  Inl e \<Rightarrow> Inl e
                | Inr (batches, None) \<Rightarrow> Inr (batches, content)
                | Inr (batches, Some offset) \<Rightarrow> Inr (batches, take (nat offset) content)))"

section \<open>Numbers and slices\<close>

lemma length_be_bytes [simp]: "length (be_bytes n x) = n"
  by (induction n x rule: be_bytes.induct) simp_all

lemma be_value_snoc [simp]: "be_value (bs @ [b]) = be_value bs * 256 + unat b"
  by (simp add: be_value_def)

lemma unat_of_nat_byte: "unat (of_nat (x mod 256) :: byte) = x mod 256"
  by (simp add: unat_of_nat take_bit_eq_mod)

lemma be_value_be_bytes: "be_value (be_bytes n x) = x mod 256 ^ n"
proof (induction n x rule: be_bytes.induct)
  case (1 x)
  then show ?case by (simp add: be_value_def)
next
  case (2 n x)
  then show ?case
    by (simp add: unat_of_nat_byte mod_mult2_eq [of x 256] mult.commute)
qed

lemma PutUint_length [simp]:
  "length (PutUint16 a) = 2" "length (PutUint32 b) = 4" "length (PutUint64 c) = 8"
  by (simp_all add: PutUint16_def PutUint32_def PutUint64_def)

lemma Uint16_PutUint16 [simp]: "Uint16 (PutUint16 w @ bs) = w"
  using unsigned_less [where w = w and 'a = nat]
  by (simp add: Uint16_def PutUint16_def be_value_be_bytes)

lemma Uint32_PutUint32 [simp]: "Uint32 (PutUint32 w @ bs) = w"
  using unsigned_less [where w = w and 'a = nat]
  by (simp add: Uint32_def PutUint32_def be_value_be_bytes)

lemma Uint64_PutUint64 [simp]: "Uint64 (PutUint64 w @ bs) = w"
  using unsigned_less [where w = w and 'a = nat]
  by (simp add: Uint64_def PutUint64_def be_value_be_bytes)

lemmas Uint_Put_exact [simp] =
  Uint16_PutUint16 [where bs = "[]", simplified]
  Uint32_PutUint32 [where bs = "[]", simplified]
  Uint64_PutUint64 [where bs = "[]", simplified]

lemma length_string_bytes [simp]: "length (string_bytes s) = length s"
  by (simp add: string_bytes_def)

lemma slice_append_skip: "length a \<le> i \<Longrightarrow> bslice i j (a @ b) = bslice (i - length a) (j - length a) b"
  by (simp add: bslice_def)

lemma slice_append_take: "i = 0 \<Longrightarrow> j = length a \<Longrightarrow> bslice i j (a @ b) = a"
  by (simp add: bslice_def)

lemma slice_all: "i = 0 \<Longrightarrow> length a \<le> j \<Longrightarrow> bslice i j a = a"
  by (simp add: bslice_def)

lemma slice_Cons: "0 < i \<Longrightarrow> 0 < j \<Longrightarrow> bslice i j (x # xs) = bslice (i - 1) (j - 1) xs"
  by (simp add: bslice_def drop_Cons')

lemmas slice_simps = slice_Cons slice_append_skip slice_append_take slice_all

section \<open>Header and record round trips\<close>

lemma length_encodeSegmentHeader [simp]: "length (encodeSegmentHeader i t) = 32"
  by (simp add: encodeSegmentHeader_def segmentMagic_def)

lemma parse_encodeSegmentHeader: "parseSegmentHeader (encodeSegmentHeader i t) = Inr i"
proof -
  have magic: "length segmentMagic = 8" by (simp add: segmentMagic_def)
  have flag: "encodeSegmentHeader i t ! 10 = 1"
    by (simp add: encodeSegmentHeader_def nth_append magic)
  show ?thesis
    using flag by (simp add: parseSegmentHeader_def)
      (simp add: encodeSegmentHeader_def slice_simps magic)
qed

text \<open>What the documentation of the codecs promises for the batch at hand.\<close>

definition codec_ok :: "codec \<Rightarrow> DataBatch \<Rightarrow> bool" where
  "codec_ok cd batch \<longleftrightarrow>
     (\<forall>raw. marshal cd batch = Some raw \<longrightarrow>
        unmarshal cd raw = Some batch \<and> decompress cd (compress cd raw) = Some raw)"

lemma length_recordBody:
  "length (recordBody cd batch raw) = 16 + length (batch_id batch) + length (compress cd raw)"
  by (simp add: recordBody_def Let_def)

lemma encodeRecord_shape:
  assumes "encodeRecord cd batch = Inr (rec, sequence)"
  obtains raw where "marshal cd batch = Some raw" "length raw \<le> maxBatchBytes"
    "sequence = batchSequence batch"
    "rec = PutUint32 (of_nat (20 + length (batch_id batch) + length (compress cd raw))) @
       recordBody cd batch raw @ PutUint32 (crc cd (recordBody cd batch raw))"
    "length rec = 24 + length (batch_id batch) + length (compress cd raw)"
  using assms
  by (auto simp: encodeRecord_def Let_def length_recordBody add_ac split: option.splits if_splits)

lemma unat_of_nat_word: "n < 2 ^ LENGTH('a::len) \<Longrightarrow> unat (of_nat n :: 'a word) = n"
  by (simp add: unat_of_nat take_bit_nat_eq_self)

lemma decode_encodeRecord:
  assumes enc: "encodeRecord cd batch = Inr (rec, sequence)"
    and ok: "codec_ok cd batch" and id: "length (batch_id batch) < 2 ^ 16"
  shows "decodeRecord cd rec = Inr (batch, sequence)"
proof -
  obtain raw where raw: "marshal cd batch = Some raw" "length raw \<le> maxBatchBytes"
    and seq: "sequence = batchSequence batch"
    and rec: "rec = PutUint32 (of_nat (20 + length (batch_id batch) + length (compress cd raw))) @
       recordBody cd batch raw @ PutUint32 (crc cd (recordBody cd batch raw))"
    and len: "length rec = 24 + length (batch_id batch) + length (compress cd raw)"
    using encodeRecord_shape [OF enc] by blast
  let ?body = "recordBody cd batch raw"
  have lb: "length ?body = 16 + length (batch_id batch) + length (compress cd raw)"
    by (rule length_recordBody)
  have body: "bslice 4 (length rec - 4) rec = ?body"
    by (simp add: len) (simp add: rec slice_simps lb)
  have crcs: "drop (length rec - 4) rec = PutUint32 (crc cd ?body)"
    by (simp add: len) (simp add: rec lb)
  have sl: "bslice (4 + i) (4 + j) rec = bslice i j ?body" if "j \<le> length ?body" for i j
    using that by (simp add: rec bslice_def)
  have rl: "unat (of_nat (length raw) :: uint32) = length raw"
    using raw(2) by (simp add: unat_of_nat_word maxBatchBytes_def)
  have il: "unat (of_nat (length (batch_id batch)) :: uint16) = length (batch_id batch)"
    using id by (simp add: unat_of_nat_word)
  have f1: "bslice 4 8 rec = PutUint32 (of_nat (length raw))"
    using sl [of 4 0] lb by (simp add: recordBody_def Let_def slice_simps)
  have f2: "bslice 8 16 rec = PutUint64 (batchSequence batch)"
    using sl [of 12 4] lb by (simp add: recordBody_def Let_def slice_simps)
  have f3: "bslice 16 18 rec = PutUint16 (of_nat (length (batch_id batch)))"
    using sl [of 14 12] lb by (simp add: recordBody_def Let_def slice_simps)
  have f4: "bslice (20 + length (batch_id batch)) (length rec - 4) rec = compress cd raw"
    using sl [of "length ?body" "16 + length (batch_id batch)"] lb len
    by (simp add: recordBody_def Let_def slice_simps)
  have "24 \<le> length rec" and "20 + length (batch_id batch) \<le> length rec - 4" using len by simp_all
  then show ?thesis
    using ok raw by (simp add: decodeRecord_def Let_def body crcs f1 f2 f3 f4 rl il seq codec_ok_def)
qed

section \<open>Reading back what was written\<close>

text \<open>
  A batch whose record the reader accepts: it encodes, its id fits the length field, and its
  record is at most \<open>maxBatchBytes\<close> long.
\<close>

definition readable :: "codec \<Rightarrow> DataBatch \<Rightarrow> bytes \<Rightarrow> bool" where
  "readable cd batch rec \<longleftrightarrow>
     (\<exists>sequence. encodeRecord cd batch = Inr (rec, sequence)) \<and> codec_ok cd batch \<and>
     length (batch_id batch) < 2 ^ 16 \<and> length rec \<le> maxBatchBytes + 4"

definition stored :: "uint64 \<Rightarrow> int \<Rightarrow> DataBatch \<Rightarrow> StoredBatch" where
  "stored segmentID offset batch =
     \<lparr> sb_Position = \<lparr> SegmentID = segmentID, RecordOffset = offset, BatchSequence = batchSequence batch,
                       BatchID = batch_id batch \<rparr>,
       sb_Batch = batch \<rparr>"

fun stored_from :: "uint64 \<Rightarrow> int \<Rightarrow> (DataBatch \<times> bytes) list \<Rightarrow> StoredBatch list" where
  "stored_from segmentID offset [] = []"
| "stored_from segmentID offset ((batch, rec) # l) =
     stored segmentID offset batch # stored_from segmentID (offset + int (length rec)) l"

lemma length_readable:
  assumes "readable cd batch rec"
  shows "unat (Uint32 (take 4 rec)) = length rec - 4" and "24 \<le> length rec" and "length rec - 4 \<le> maxBatchBytes"
    and "decodeRecord cd rec = Inr (batch, batchSequence batch)"
proof -
  obtain sequence raw where enc: "encodeRecord cd batch = Inr (rec, sequence)" and seq: "sequence = batchSequence batch"
    and rec: "rec = PutUint32 (of_nat (20 + length (batch_id batch) + length (compress cd raw))) @
       recordBody cd batch raw @ PutUint32 (crc cd (recordBody cd batch raw))"
    and len: "length rec = 24 + length (batch_id batch) + length (compress cd raw)"
    using assms encodeRecord_shape unfolding readable_def by metis
  have le: "length rec \<le> maxBatchBytes + 4" using assms by (simp add: readable_def)
  then have small: "20 + length (batch_id batch) + length (compress cd raw) < 2 ^ 32"
    using len by (simp add: maxBatchBytes_def)
  have "take 4 rec = PutUint32 (of_nat (20 + length (batch_id batch) + length (compress cd raw)))"
    by (simp add: rec)
  then have "unat (Uint32 (take 4 rec)) = unat (of_nat (20 + length (batch_id batch) + length (compress cd raw)) :: uint32)"
    by simp
  also have "\<dots> = 20 + length (batch_id batch) + length (compress cd raw)"
    using small by (intro unat_of_nat_word) simp
  finally show "unat (Uint32 (take 4 rec)) = length rec - 4" by (simp add: len)
  show "24 \<le> length rec" "length rec - 4 \<le> maxBatchBytes" using len le by simp_all
  show "decodeRecord cd rec = Inr (batch, batchSequence batch)"
    using decode_encodeRecord [OF enc] assms by (simp add: readable_def seq)
qed

lemma readRecords_Cons:
  assumes "readable cd batch rec"
  shows "readRecords cd sid trunc (rec @ rest) offset out =
    readRecords cd sid trunc rest (offset + int (length rec)) (out @ [stored sid offset batch])"
proof -
  note l = length_readable [OF assms]
  have split: "take 4 rec @ drop 4 rec = rec" by simp
  have "length (drop 4 (rec @ rest)) \<ge> length rec - 4" by simp
  moreover have "take 4 (rec @ rest) = take 4 rec" using l(2) by simp
  moreover have "take (length rec - 4) (drop 4 (rec @ rest)) = drop 4 rec" using l(2) by simp
  moreover have "drop (4 + (length rec - 4)) (rec @ rest) = rest" using l(2) by simp
  moreover have "rec \<noteq> []" and "\<not> length rec - 4 < 20" using l(2) by auto
  ultimately show ?thesis
    using l by (subst readRecords.simps) (simp add: Let_def stored_def split)
qed

lemma readRecords_all:
  "list_all (\<lambda>(batch, rec). readable cd batch rec) l \<Longrightarrow>
   readRecords cd sid trunc (concat (map snd l) @ rest) offset out =
     readRecords cd sid trunc rest (offset + int (length (concat (map snd l)))) (out @ stored_from sid offset l)"
proof (induction l arbitrary: offset out)
  case (Cons p l)
  obtain batch rec where p: "p = (batch, rec)" by fastforce
  show ?case using Cons readRecords_Cons [of cd batch rec sid trunc "concat (map snd l) @ rest" offset out]
    by (simp add: p add.assoc)
qed simp

lemma readRecords_torn:
  assumes "readable cd batch rec" and "n < length rec" and "0 < n"
  shows "readRecords cd sid trunc (take n rec) offset out = truncateOrError offset trunc out"
proof -
  note l = length_readable [OF assms(1)]
  show ?thesis
  proof (cases "n < 4")
    case True
    then show ?thesis using assms by (subst readRecords.simps) auto
  next
    case False
    then have "take 4 (take n rec) = take 4 rec" by (simp add: min_def)
    moreover have "length (drop 4 (take n rec)) < length rec - 4" using assms(2) False by auto
    ultimately show ?thesis
      using l assms False by (subst readRecords.simps) (auto simp: Let_def)
  qed
qed

section \<open>Properties\<close>

text \<open>
  C27. A segment header that was written parses back to its segment id, and a record that
  \<^verbatim>\<open>encodeRecord\<close> produced for a batch whose id is shorter than $2^{16}$ bytes decodes back to that
  batch and its sequence, for every codec whose decoders invert its encoders on the batch.
\<close>

theorem segment_format_round_trips:
  assumes "encodeRecord cd batch = Inr (rec, sequence)" and "codec_ok cd batch"
    and "length (batch_id batch) < 2 ^ 16"
  shows "parseSegmentHeader (encodeSegmentHeader i t) = Inr i \<and> decodeRecord cd rec = Inr (batch, sequence)"
  using parse_encodeSegmentHeader decode_encodeRecord [OF assms] by simp

definition example_id_batch :: DataBatch where
  "example_id_batch = DataBatch_zero\<lparr> db_header := Some (BatchHeader_zero\<lparr> bh_batch_id := ''b1'', bh_event_seq_start := 9 \<rparr>) \<rparr>"

text \<open>A codec that stores nothing but the fact that there is a batch, and does not compress.\<close>

definition example_codec :: "nat \<Rightarrow> codec" where
  "example_codec n = \<lparr> marshal = (\<lambda>_. Some (replicate n 0)), unmarshal = (\<lambda>_. Some example_id_batch),
     compress = (\<lambda>raw. raw), decompress = Some, crc = (\<lambda>bs. of_nat (length bs)) \<rparr>"

lemma example_codec_ok: "codec_ok (example_codec n) example_id_batch"
  by (simp add: codec_ok_def example_codec_def)

lemma example_id: "batch_id example_id_batch = ''b1''"
  by (simp add: example_id_batch_def GetHeader_def)

lemma example_encode:
  assumes "n \<le> maxBatchBytes"
  shows "\<exists>rec. encodeRecord (example_codec n) example_id_batch = Inr (rec, 9) \<and> length rec = 26 + n"
  using assms
  by (simp add: encodeRecord_def example_codec_def Let_def length_recordBody example_id batchSequence_def)
    (simp add: example_id_batch_def GetHeader_def)

theorem segment_format_round_trips_witness:
  "\<exists>rec. encodeRecord (example_codec 3) example_id_batch = Inr (rec, 9) \<and>
     decodeRecord (example_codec 3) rec = Inr (example_id_batch, 9)"
proof -
  obtain rec where "encodeRecord (example_codec 3) example_id_batch = Inr (rec, 9)"
    using example_encode [of 3] by (auto simp: maxBatchBytes_def)
  with segment_format_round_trips [OF this example_codec_ok] show ?thesis by (simp add: example_id)
qed

lemma example_readable: "\<exists>rec. readable (example_codec 3) example_id_batch rec \<and> length rec = 29"
  using example_encode [of 3] example_codec_ok [of 3] by (auto simp: readable_def example_id maxBatchBytes_def)

lemma readSegment_recovers:
  assumes "list_all (\<lambda>(batch, rec). readable cd batch rec) l"
    and "readable cd torn tornRec" and "n < length tornRec"
  shows "readSegment cd True (encodeSegmentHeader sid t @ concat (map snd l) @ take n tornRec) =
      Inr (stored_from sid 32 l, encodeSegmentHeader sid t @ concat (map snd l)) \<and>
    readSegment cd False (encodeSegmentHeader sid t @ concat (map snd l) @ take n tornRec) =
      (if n = 0 then Inr (stored_from sid 32 l, encodeSegmentHeader sid t @ concat (map snd l)) else Inl UnexpectedEOF)"
proof (cases "n = 0")
  case True
  have "readRecords cd sid trunc (concat (map snd l)) 32 [] = Inr (stored_from sid 32 l, None)" for trunc
    using readRecords_all [OF assms(1), of sid trunc "[]" 32 "[]"] by (simp add: readRecords.simps [of _ _ _ "[]"])
  then show ?thesis using True by (simp add: readSegment_def parse_encodeSegmentHeader)
next
  case False
  then have "readRecords cd sid trunc (concat (map snd l) @ take n tornRec) 32 [] =
      truncateOrError (32 + int (length (concat (map snd l)))) trunc (stored_from sid 32 l)" for trunc
    using readRecords_all [OF assms(1), of sid trunc "take n tornRec" 32 "[]"]
      readRecords_torn [OF assms(2,3)] by simp
  moreover have "nat (32 + int (length (concat (map snd l)))) = 32 + length (concat (map snd l))" by simp
  ultimately show ?thesis using False
    by (simp add: readSegment_def parse_encodeSegmentHeader truncateOrError_def)
qed

text \<open>
  C10. Crash recovery. Reopening a segment file that holds a header, complete records, and
  possibly a torn last record (any proper prefix of one) returns exactly the batches of the
  complete records, in order, each at the offset where its record starts, and cuts the file back
  to the complete records; without permission to truncate, a torn file is refused.
\<close>

theorem readSegment_recovers_complete_records:
  assumes "list_all (\<lambda>(batch, rec). readable cd batch rec) l"
    and "readable cd torn tornRec" and "n < length tornRec"
  shows "readSegment cd True (encodeSegmentHeader sid t @ concat (map snd l) @ take n tornRec) =
      Inr (stored_from sid 32 l, encodeSegmentHeader sid t @ concat (map snd l)) \<and>
    readSegment cd False (encodeSegmentHeader sid t @ concat (map snd l) @ take n tornRec) =
      (if n = 0 then Inr (stored_from sid 32 l, encodeSegmentHeader sid t @ concat (map snd l)) else Inl UnexpectedEOF)"
  using readSegment_recovers [OF assms] .

theorem readSegment_recovers_complete_records_witness:
  "\<exists>rec. readable (example_codec 3) example_id_batch rec \<and>
     readSegment (example_codec 3) True (encodeSegmentHeader 5 0 @ rec @ take 7 rec) =
       Inr ([stored 5 32 example_id_batch], encodeSegmentHeader 5 0 @ rec)"
proof -
  obtain rec where r: "readable (example_codec 3) example_id_batch rec" "length rec = 29"
    using example_readable by blast
  from readSegment_recovers_complete_records [of "example_codec 3" "[(example_id_batch, rec)]" example_id_batch rec 7 5 0] r
  show ?thesis by auto
qed

text \<open>
  C40. The reader's limit is on the record, the writer's on the uncompressed batch. A record
  longer than the reader's limit, which the writer produces for a batch of at most
  \<open>maxBatchBytes\<close> that does not shrink under compression, makes its whole segment unreadable, in
  both modes, so the store does not open again.
\<close>

theorem oversized_record_blocks_segment:
  assumes "list_all (\<lambda>(batch, rec). readable cd batch rec) l"
    and "encodeRecord cd batch = Inr (rec, sequence)" and "maxBatchBytes + 4 < length rec" and "length rec < 2 ^ 32"
  shows "readSegment cd trunc (encodeSegmentHeader sid t @ concat (map snd l) @ rec @ rest) = Inl InvalidRecordLength"
proof -
  obtain raw where rec: "rec = PutUint32 (of_nat (20 + length (batch_id batch) + length (compress cd raw))) @
       recordBody cd batch raw @ PutUint32 (crc cd (recordBody cd batch raw))"
    and len: "length rec = 24 + length (batch_id batch) + length (compress cd raw)"
    using encodeRecord_shape [OF assms(2)] by metis
  have "unat (of_nat (20 + length (batch_id batch) + length (compress cd raw)) :: uint32) = length rec - 4"
    using assms(4) len by (subst unat_of_nat_word) simp_all
  moreover have "take 4 (rec @ rest) = PutUint32 (of_nat (20 + length (batch_id batch) + length (compress cd raw)))"
    by (simp add: rec)
  ultimately have u: "unat (Uint32 (take 4 (rec @ rest))) = length rec - 4" by simp
  have "readRecords cd sid trunc (rec @ rest) offset out = Inl InvalidRecordLength" for offset out
    using assms(3) u len by (subst readRecords.simps) (auto simp: Let_def)
  then show ?thesis
    using readRecords_all [OF assms(1), of sid trunc "rec @ rest" 32 "[]"]
    by (simp add: readSegment_def parse_encodeSegmentHeader)
qed

theorem oversized_record_blocks_segment_witness:
  "\<exists>rec. encodeRecord (example_codec maxBatchBytes) example_id_batch = Inr (rec, 9) \<and>
     readSegment (example_codec maxBatchBytes) True (encodeSegmentHeader 5 0 @ rec) = Inl InvalidRecordLength"
proof -
  obtain rec where r: "encodeRecord (example_codec maxBatchBytes) example_id_batch = Inr (rec, 9)"
    "length rec = 26 + maxBatchBytes"
    using example_encode [of maxBatchBytes] by auto
  from oversized_record_blocks_segment [OF _ r(1), of "[]" True 5 0 "[]"] r
  show ?thesis by (auto simp: maxBatchBytes_def)
qed

end
