(* ===== verification/Local_Store.thy ===== *)
theory Local_Store
  imports Segment_Format "HOL-Library.List_Lexorder" "HOL-Library.Char_ord"
begin

text \<open>
  The agent's local store, \<^verbatim>\<open>internal/agent/localstore\<close>: appending batches to the open segment,
  sealing, reading, recovery, the sequence cursor and the capacity limit. The spool directory is
  the map \<open>ls_files\<close> from paths to contents, and the SQLite tables the code keeps beside it are
  fields of the same record, updated as the statements of the source say. The calls of the
  operating system and of the database that an append makes can fail; \<open>faults\<close> says which do.
\<close>

section \<open>Definitions\<close>

record SequenceCursor =
  cur_Event :: uint64
  cur_Signal :: uint64

record segmentWriter =
  sw_id :: uint64
  sw_path :: string
  sw_size :: int
  sw_records :: uint64
  sw_firstSequence :: uint64
  sw_lastSequence :: uint64

record SegmentRow =
  sg_path :: string
  sg_state :: string
  sg_first_sequence :: uint64
  sg_last_sequence :: uint64
  sg_record_count :: uint64
  sg_bytes :: int

record Checkpoint =
  cp_SegmentID :: uint64
  cp_RecordOffset :: int
  cp_LastBatchID :: string

record SignalRow =
  sr_signal_id :: string
  sr_observed_at_ns :: int
  sr_rule_id :: string
  sr_severity :: string
  sr_payload :: Signal

record LocalStore =
  ls_spool :: string
  ls_SegmentSize :: int
  ls_MaxBytes :: int
  ls_writer :: "segmentWriter option"
  ls_batchPositions :: "(string, Position) gomap"
  ls_cursor :: SequenceCursor
  ls_files :: "(string, bytes) gomap"
  ls_segments :: "(uint64, SegmentRow) gomap"
  ls_dbCursor :: SequenceCursor
  ls_checkpoint :: "Checkpoint option"
  ls_droppedBatches :: uint64
  ls_SignalMaxCount :: int
  ls_signals :: "(uint64, SignalRow) gomap"

text \<open>
  Outcomes of the calls an append makes: whether the query for the next id, the open, the
  writes (\<open>Some k\<close>: fails after \<open>k\<close> bytes), the sync, close and rename of a seal, and the statements
  succeed.
\<close>

record faults =
  f_nextID :: bool
  f_open :: bool
  f_header :: "nat option"
  f_upsertNew :: bool
  f_sync :: bool
  f_close :: bool
  f_rename :: bool
  f_upsertSealed :: bool
  f_write :: "nat option"
  f_upsert :: bool
  f_persist :: bool

definition no_faults :: faults where
  "no_faults = \<lparr> f_nextID = False, f_open = False, f_header = None, f_upsertNew = False, f_sync = False,
     f_close = False, f_rename = False, f_upsertSealed = False, f_write = None, f_upsert = False, f_persist = False \<rparr>"

definition pad16 :: "string \<Rightarrow> string" where
  "pad16 s = replicate (16 - length s) CHR ''0'' @ s"

definition openPath :: "string \<Rightarrow> uint64 \<Rightarrow> string" where
  "openPath spool i = spool @ pad16 (digits (unat i)) @ ''.open''"

definition nextSegmentID :: "LocalStore \<Rightarrow> uint64" where
  "nextSegmentID s = foldl max 0 (keys (ls_segments s)) + 1"

definition upsertSegment :: "segmentWriter \<Rightarrow> string \<Rightarrow> LocalStore \<Rightarrow> LocalStore" where
  "upsertSegment w state s =
     s\<lparr> ls_segments := AList.update (sw_id w)
          \<lparr> sg_path = sw_path w, sg_state = state, sg_first_sequence = sw_firstSequence w,
            sg_last_sequence = sw_lastSequence w, sg_record_count = sw_records w, sg_bytes = sw_size w \<rparr>
          (ls_segments s) \<rparr>"

text \<open>A write to a file opened with \<^verbatim>\<open>O_APPEND\<close>; the file is created when it does not exist.\<close>

definition appendFile :: "string \<Rightarrow> bytes \<Rightarrow> nat option \<Rightarrow> LocalStore \<Rightarrow> LocalStore" where
  "appendFile path bs failAfter s =
     s\<lparr> ls_files := AList.update path
          (get_or [] (ls_files s) path @ (case failAfter of None \<Rightarrow> bs | Some k \<Rightarrow> take k bs)) (ls_files s) \<rparr>"

definition ensureWriter :: "faults \<Rightarrow> time \<Rightarrow> LocalStore \<Rightarrow> LocalStore \<times> seg_error option" where
  "ensureWriter f now s =
     (if ls_writer s \<noteq> None then (s, None)
      else if f_nextID f then (s, Some DbError)
      else
        let i = nextSegmentID s; path = openPath (ls_spool s) i
        in if f_open f then (s, Some WriteError)
           else
             let s = appendFile path (encodeSegmentHeader i now) (f_header f) s
             in if f_header f \<noteq> None then (s, Some WriteError)
                else
                  let w = \<lparr> sw_id = i, sw_path = path, sw_size = 32, sw_records = 0, sw_firstSequence = 0, sw_lastSequence = 0 \<rparr>;
                      s = s\<lparr> ls_writer := Some w \<rparr>
                  in if f_upsertNew f then (s, Some DbError) else (upsertSegment w ''open'' s, None))"

definition sealedPath :: "string \<Rightarrow> string" where
  "sealedPath path = take (length path - length ''.open'') path @ ''.seg''"

definition renameFile :: "string \<Rightarrow> string \<Rightarrow> LocalStore \<Rightarrow> LocalStore" where
  "renameFile old new s =
     s\<lparr> ls_files := AList.update new (get_or [] (ls_files s) old) (AList.delete old (ls_files s)) \<rparr>"

definition sealLocked :: "faults \<Rightarrow> LocalStore \<Rightarrow> LocalStore \<times> seg_error option" where
  "sealLocked f s =
     (case ls_writer s of
        None \<Rightarrow> (s, None)
      | Some w \<Rightarrow>
          if f_sync f then (s, Some WriteError)
          else if f_close f then (s, Some WriteError)
          else
            let sealed = sealedPath (sw_path w)
            in if f_rename f then (s, Some WriteError)
               else
                 let w = w\<lparr> sw_path := sealed \<rparr>;
                     s = (renameFile (sw_path (the (ls_writer s))) sealed s)\<lparr> ls_writer := Some w \<rparr>
                 in if f_upsertSealed f then (s, Some DbError)
                    else ((upsertSegment w ''sealed'' s)\<lparr> ls_writer := None \<rparr>, None))"

definition advanceSequenceCursor :: "DataBatch \<Rightarrow> SequenceCursor \<Rightarrow> SequenceCursor" where
  "advanceSequenceCursor batch c =
     (let h = GetHeader batch;
          c = (if bh_event_seq_end h > cur_Event c then c\<lparr> cur_Event := bh_event_seq_end h \<rparr> else c)
      in if bh_signal_seq_end h > cur_Signal c then c\<lparr> cur_Signal := bh_signal_seq_end h \<rparr> else c)"

definition persistSequenceCursor :: "LocalStore \<Rightarrow> LocalStore" where
  "persistSequenceCursor s =
     s\<lparr> ls_dbCursor := \<lparr> cur_Event = max (cur_Event (ls_dbCursor s)) (cur_Event (ls_cursor s)),
                         cur_Signal = max (cur_Signal (ls_dbCursor s)) (cur_Signal (ls_cursor s)) \<rparr> \<rparr>"

definition loadSequenceCursor :: "LocalStore \<Rightarrow> LocalStore" where
  "loadSequenceCursor s =
     (let p = ls_dbCursor s; c = ls_cursor s;
          c = (if cur_Event p > cur_Event c then c\<lparr> cur_Event := cur_Event p \<rparr> else c);
          c = (if cur_Signal p > cur_Signal c then c\<lparr> cur_Signal := cur_Signal p \<rparr> else c)
      in s\<lparr> ls_cursor := c \<rparr>)"

definition advanceWriter :: "nat \<Rightarrow> uint64 \<Rightarrow> segmentWriter \<Rightarrow> segmentWriter" where
  "advanceWriter len sequence w =
     (let w = w\<lparr> sw_size := sw_size w + int len, sw_records := sw_records w + 1, sw_lastSequence := sequence \<rparr>
      in if sw_firstSequence w = 0 then w\<lparr> sw_firstSequence := sequence \<rparr> else w)"

text \<open>The part of \<^verbatim>\<open>AppendBatch\<close> once the writer has room: the write and what follows it.\<close>

definition writeRecord :: "faults \<Rightarrow> DataBatch \<Rightarrow> bytes \<Rightarrow> uint64 \<Rightarrow> LocalStore \<Rightarrow> LocalStore \<times> (seg_error + Position)" where
  "writeRecord f batch record sequence s =
     (let w = the (ls_writer s);
          position = \<lparr> SegmentID = sw_id w, RecordOffset = sw_size w, BatchSequence = sequence, BatchID = batch_id batch \<rparr>;
          s = appendFile (sw_path w) record (f_write f) s
      in if f_write f \<noteq> None then (s, Inl WriteError)
         else
           let w = advanceWriter (length record) sequence w;
               s = s\<lparr> ls_writer := Some w \<rparr>
           in if f_upsert f then (s, Inl DbError)
              else
                let s = upsertSegment w ''open'' s;
                    s = s\<lparr> ls_cursor := advanceSequenceCursor batch (ls_cursor s) \<rparr>
                in if f_persist f then (s, Inl DbError)
                   else
                     let s = persistSequenceCursor s
                     in (s\<lparr> ls_batchPositions := AList.update (BatchID position) position (ls_batchPositions s) \<rparr>, Inr position))"

definition AppendBatch ::
  "codec \<Rightarrow> faults \<Rightarrow> time \<Rightarrow> DataBatch option \<Rightarrow> LocalStore \<Rightarrow> LocalStore \<times> (seg_error + Position)" where
  "AppendBatch cd f now batch s =
     (case batch of
        None \<Rightarrow> (s, Inl BatchIdRequired)
      | Some batch \<Rightarrow>
          if batch_id batch = '''' then (s, Inl BatchIdRequired)
          else case encodeRecord cd batch of
                 Inl e \<Rightarrow> (s, Inl e)
               | Inr (record, sequence) \<Rightarrow>
                   (case map_of (ls_batchPositions s) (batch_id batch) of
                      Some position \<Rightarrow> (s, Inr position)
                    | None \<Rightarrow>
                        (case ensureWriter f now s of
                           (s, Some e) \<Rightarrow> (s, Inl e)
                         | (s, None) \<Rightarrow>
                             let w = the (ls_writer s)
                             in if sw_records w > 0 \<and> sw_size w + int (length record) > ls_SegmentSize s
                                then (case sealLocked f s of
                                        (s, Some e) \<Rightarrow> (s, Inl e)
                                      | (s, None) \<Rightarrow>
                                          (case ensureWriter f now s of
                                             (s, Some e) \<Rightarrow> (s, Inl e)
                                           | (s, None) \<Rightarrow> writeRecord f batch record sequence s))
                                else writeRecord f batch record sequence s)))"

definition Seal :: "faults \<Rightarrow> LocalStore \<Rightarrow> LocalStore \<times> seg_error option" where
  "Seal f s = sealLocked f s"

subsection \<open>Reading\<close>

text \<open>The paths of the segment files, sorted as \<^verbatim>\<open>sort.Strings\<close> does, byte by byte.\<close>

definition segmentFiles :: "LocalStore \<Rightarrow> string list" where
  "segmentFiles s = sort (filter (\<lambda>p. HasSuffix p ''.seg'' \<or> HasSuffix p ''.open'') (keys (ls_files s)))"

fun readLimited :: "int \<Rightarrow> uint64 \<Rightarrow> StoredBatch list \<Rightarrow> StoredBatch list \<Rightarrow> bool \<times> StoredBatch list" where
  "readLimited limit fromSeq [] out = (False, out)"
| "readLimited limit fromSeq (b # bs) out =
     (if BatchSequence (sb_Position b) < fromSeq then readLimited limit fromSeq bs out
      else
        let out = out @ [b]
        in if int (length out) \<ge> limit then (True, out) else readLimited limit fromSeq bs out)"

fun readFiles :: "codec \<Rightarrow> int \<Rightarrow> uint64 \<Rightarrow> bytes list \<Rightarrow> StoredBatch list \<Rightarrow> seg_error + StoredBatch list" where
  "readFiles cd limit fromSeq [] out = Inr out"
| "readFiles cd limit fromSeq (content # files) out =
     (case readSegment cd False content of
        Inl e \<Rightarrow> Inl e
      | Inr (batches, _) \<Rightarrow>
          (case readLimited limit fromSeq batches out of
             (True, out) \<Rightarrow> Inr out
           | (False, out) \<Rightarrow> readFiles cd limit fromSeq files out))"

definition ReadBatches :: "codec \<Rightarrow> LocalStore \<Rightarrow> int \<Rightarrow> uint64 \<Rightarrow> seg_error + StoredBatch list" where
  "ReadBatches cd s limit fromSeq =
     (let limit = (if limit \<le> 0 then 100 else limit)
      in readFiles cd limit fromSeq (map (get_or [] (ls_files s)) (segmentFiles s)) [])"

record EventQuery =
  eq_Behavior :: string
  eq_AfterSequence :: uint64
  eq_Limit :: int

definition QueryEvents :: "codec \<Rightarrow> LocalStore \<Rightarrow> EventQuery \<Rightarrow> seg_error + EventFrame list" where
  "QueryEvents cd s query =
     (case ReadBatches cd s 1000000 (eq_AfterSequence query + 1) of
        Inl e \<Rightarrow> Inl e
      | Inr batches \<Rightarrow>
          let limit = (if eq_Limit query \<le> 0 \<or> eq_Limit query > 1000 then 100 else eq_Limit query);
              frames = filter (\<lambda>frame. \<not> ef_sequence frame \<le> eq_AfterSequence query \<and>
                          \<not> (eq_Behavior query \<noteq> '''' \<and>
                             (case ef_event frame of None \<Rightarrow> '''' | Some e \<Rightarrow> ev_behavior e) \<noteq> eq_Behavior query))
                         (concat (map (db_events \<circ> sb_Batch) batches))
          in Inr (if int (length frames) > limit then drop (length frames - nat limit) frames else frames))"

subsection \<open>Recovery\<close>

definition recoveredWriter :: "string \<Rightarrow> StoredBatch list \<Rightarrow> bytes \<Rightarrow> seg_error + segmentWriter" where
  "recoveredWriter path batches content =
     (let w = \<lparr> sw_id = 0, sw_path = path, sw_size = int (length content), sw_records = of_nat (length batches),
                sw_firstSequence = 0, sw_lastSequence = 0 \<rparr>
      in if length batches > 0
         then Inr (w\<lparr> sw_id := SegmentID (sb_Position (batches ! 0)),
                      sw_firstSequence := BatchSequence (sb_Position (batches ! 0)),
                      sw_lastSequence := BatchSequence (sb_Position (batches ! (length batches - 1))) \<rparr>)
         else case parseSegmentHeader (take 32 content) of
                Inl e \<Rightarrow> Inl e
              | Inr i \<Rightarrow> Inr (w\<lparr> sw_id := i \<rparr>))"

definition remember :: "LocalStore \<Rightarrow> StoredBatch \<Rightarrow> LocalStore" where
  "remember s b = s\<lparr> ls_cursor := advanceSequenceCursor (sb_Batch b) (ls_cursor s),
     ls_batchPositions := AList.update (BatchID (sb_Position b)) (sb_Position b) (ls_batchPositions s) \<rparr>"

definition recoverFile :: "codec \<Rightarrow> string \<Rightarrow> LocalStore \<Rightarrow> seg_error + LocalStore" where
  "recoverFile cd path s =
     (let isOpen = HasSuffix path ''.open''
      in case readSegment cd isOpen (get_or [] (ls_files s) path) of
           Inl e \<Rightarrow> Inl e
         | Inr (batches, content) \<Rightarrow>
             let s = s\<lparr> ls_files := AList.update path content (ls_files s) \<rparr>
             in case recoveredWriter path batches content of
                  Inl e \<Rightarrow> Inl e
                | Inr w \<Rightarrow>
                    let s = upsertSegment w (if isOpen then ''open'' else ''sealed'') s;
                        s = foldl remember s batches
                    in if isOpen
                       then (if ls_writer s \<noteq> None then Inl MultipleOpenSegments
                             else Inr (s\<lparr> ls_writer := Some w \<rparr>))
                       else Inr s)"

fun recoverFiles :: "codec \<Rightarrow> string list \<Rightarrow> LocalStore \<Rightarrow> seg_error + LocalStore" where
  "recoverFiles cd [] s = Inr s"
| "recoverFiles cd (path # paths) s =
     (case recoverFile cd path s of Inl e \<Rightarrow> Inl e | Inr s \<Rightarrow> recoverFiles cd paths s)"

definition recoverSegments :: "codec \<Rightarrow> LocalStore \<Rightarrow> seg_error + LocalStore" where
  "recoverSegments cd s =
     (let s = loadSequenceCursor s
      in case recoverFiles cd (segmentFiles s) s of
           Inl e \<Rightarrow> Inl e
         | Inr s \<Rightarrow> Inr (persistSequenceCursor s))"

text \<open>\<^verbatim>\<open>Open\<close> after the process ended: the files and the tables are what is left.\<close>

definition OpenStore :: "codec \<Rightarrow> LocalStore \<Rightarrow> seg_error + LocalStore" where
  "OpenStore cd s =
     recoverSegments cd (s\<lparr> ls_writer := None, ls_batchPositions := [], ls_cursor := \<lparr> cur_Event = 0, cur_Signal = 0 \<rparr> \<rparr>)"

subsection \<open>Signals\<close>

record SignalQuery =
  sq_RuleID :: string
  sq_Severity :: string
  sq_Since :: time
  sq_Until :: time
  sq_Limit :: int
  sq_Offset :: int

text \<open>
  \<open>parseTime\<close> is \<^verbatim>\<open>time.Parse(time.RFC3339Nano, _)\<close>. The insert ignores a frame whose sequence or
  signal id is already stored (both are unique in the table); an error rolls the transaction back.
\<close>

definition appendSignal :: "(string \<Rightarrow> time option) \<Rightarrow> SignalFrame \<Rightarrow> (uint64, SignalRow) gomap \<Rightarrow> (uint64, SignalRow) gomap option" where
  "appendSignal parseTime frame rows =
     (case sf_signal frame of
        None \<Rightarrow> None
      | Some sig \<Rightarrow>
          if sig_id sig = '''' then None
          else case parseTime (sf_observed_at frame) of
                 None \<Rightarrow> None
               | Some t \<Rightarrow>
                   Some (if sf_sequence frame \<in> set (keys rows) \<or> sig_id sig \<in> set (map (sr_signal_id \<circ> snd) rows)
                         then rows
                         else rows @ [(sf_sequence frame, \<lparr> sr_signal_id = sig_id sig, sr_observed_at_ns = UnixNano t,
                                         sr_rule_id = sig_rule_id sig, sr_severity = sig_severity sig, sr_payload = sig \<rparr>)]))"

fun appendSignals_loop :: "(string \<Rightarrow> time option) \<Rightarrow> SignalFrame list \<Rightarrow> (uint64, SignalRow) gomap \<Rightarrow> (uint64, SignalRow) gomap option" where
  "appendSignals_loop parseTime [] rows = Some rows"
| "appendSignals_loop parseTime (f # fs) rows =
     (case appendSignal parseTime f rows of None \<Rightarrow> None | Some rows \<Rightarrow> appendSignals_loop parseTime fs rows)"

definition AppendSignals :: "(string \<Rightarrow> time option) \<Rightarrow> SignalFrame list \<Rightarrow> LocalStore \<Rightarrow> LocalStore \<times> bool" where
  "AppendSignals parseTime frames s =
     (case appendSignals_loop parseTime frames (ls_signals s) of
        None \<Rightarrow> (s, False)
      | Some rows \<Rightarrow> (s\<lparr> ls_signals := rows \<rparr>, True))"

definition signalWhere :: "SignalQuery \<Rightarrow> SignalRow \<Rightarrow> bool" where
  "signalWhere query r \<longleftrightarrow>
     (sq_RuleID query \<noteq> '''' \<longrightarrow> sr_rule_id r = sq_RuleID query) \<and>
     (sq_Severity query \<noteq> '''' \<longrightarrow> sr_severity r = sq_Severity query) \<and>
     (sq_Since query \<noteq> 0 \<longrightarrow> sr_observed_at_ns r \<ge> UnixNano (sq_Since query)) \<and>
     (sq_Until query \<noteq> 0 \<longrightarrow> sr_observed_at_ns r \<le> UnixNano (sq_Until query))"

definition QuerySignals :: "SignalQuery \<Rightarrow> LocalStore \<Rightarrow> (uint64 \<times> SignalRow) list option" where
  "QuerySignals query s =
     (let limit = (if sq_Limit query \<le> 0 \<or> sq_Limit query > 1000 then 100 else sq_Limit query)
      in if sq_Offset query < 0 then None
         else Some (take (nat limit) (drop (nat (sq_Offset query))
                (rev (sort_key fst (filter (\<lambda>(q, r). signalWhere query r) (ls_signals s)))))))"

definition PruneSignals :: "LocalStore \<Rightarrow> LocalStore \<times> uint64" where
  "PruneSignals s =
     (let n = nat (max (int (length (ls_signals s)) - ls_SignalMaxCount s) 0);
          victims = take n (sort (keys (ls_signals s)))
      in (s\<lparr> ls_signals := filter (\<lambda>(q, r). q \<notin> set victims) (ls_signals s) \<rparr>, of_nat (length victims)))"

subsection \<open>Capacity\<close>

record CapacityResult =
  RemovedSegments :: "uint64 list"
  RemovedBatches :: uint64
  DroppedUnuploaded :: bool

record segmentCandidate =
  ca_id :: uint64
  ca_path :: string
  ca_records :: uint64
  ca_uploaded :: bool

definition SaveCheckpoint :: "Checkpoint \<Rightarrow> LocalStore \<Rightarrow> LocalStore" where
  "SaveCheckpoint c s = s\<lparr> ls_checkpoint := Some c \<rparr>"

definition Checkpoint_read :: "LocalStore \<Rightarrow> Checkpoint" where
  "Checkpoint_read s =
     (case ls_checkpoint s of
        None \<Rightarrow> \<lparr> cp_SegmentID = 0, cp_RecordOffset = 0, cp_LastBatchID = [] \<rparr>
      | Some c \<Rightarrow> c)"

definition capacityCandidates :: "LocalStore \<Rightarrow> segmentCandidate list" where
  "capacityCandidates s =
     (let rows = sort_key fst (filter (\<lambda>(i, r). sg_state r = ''sealed'') (ls_segments s));
          cands = map (\<lambda>(i, r). \<lparr> ca_id = i, ca_path = sg_path r, ca_records = sg_record_count r,
                         ca_uploaded = (cp_SegmentID (Checkpoint_read s) > i) \<rparr>) rows
      in filter ca_uploaded cands @ filter (\<lambda>c. \<not> ca_uploaded c) cands)"

text \<open>
  \<open>other\<close> is the size of the remaining files under the root (the database) and \<open>lowDisk\<close> whether the
  file system reports less free space than \<^verbatim>\<open>MinFreeBytes\<close>.
\<close>

definition directoryBytes :: "int \<Rightarrow> LocalStore \<Rightarrow> int" where
  "directoryBytes other s = other + int (sum_list (map (length \<circ> snd) (ls_files s)))"

definition overCapacity :: "int \<Rightarrow> ((string, bytes) gomap \<Rightarrow> bool) \<Rightarrow> LocalStore \<Rightarrow> bool" where
  "overCapacity other lowDisk s \<longleftrightarrow> directoryBytes other s > ls_MaxBytes s \<or> lowDisk (ls_files s)"

definition removeSegment :: "segmentCandidate \<Rightarrow> LocalStore \<Rightarrow> LocalStore" where
  "removeSegment c s = s\<lparr> ls_files := AList.delete (ca_path c) (ls_files s), ls_segments := AList.delete (ca_id c) (ls_segments s) \<rparr>"

definition countRemoved :: "segmentCandidate \<Rightarrow> CapacityResult \<Rightarrow> CapacityResult" where
  "countRemoved c r =
     (let r = r\<lparr> RemovedSegments := RemovedSegments r @ [ca_id c] \<rparr>
      in if \<not> ca_uploaded c
         then r\<lparr> DroppedUnuploaded := True, RemovedBatches := RemovedBatches r + ca_records c \<rparr> else r)"

fun enforce_loop ::
  "int \<Rightarrow> ((string, bytes) gomap \<Rightarrow> bool) \<Rightarrow> segmentCandidate list \<Rightarrow> LocalStore \<Rightarrow> CapacityResult \<Rightarrow> LocalStore \<times> CapacityResult" where
  "enforce_loop other lowDisk [] s r = (s, r)"
| "enforce_loop other lowDisk (c # cs) s r =
     (let s = removeSegment c s; r = countRemoved c r
      in if \<not> overCapacity other lowDisk s then (s, r) else enforce_loop other lowDisk cs s r)"

definition EnforceCapacity :: "int \<Rightarrow> ((string, bytes) gomap \<Rightarrow> bool) \<Rightarrow> LocalStore \<Rightarrow> LocalStore \<times> CapacityResult" where
  "EnforceCapacity other lowDisk s =
     (let empty = \<lparr> RemovedSegments = [], RemovedBatches = 0, DroppedUnuploaded = False \<rparr>;
          s = fst (PruneSignals s)
      in if \<not> overCapacity other lowDisk s then (s, empty)
         else
           let (s, r) = enforce_loop other lowDisk (capacityCandidates s) s empty
           in if DroppedUnuploaded r
              then (s\<lparr> ls_droppedBatches := ls_droppedBatches s + RemovedBatches r \<rparr>, r)
              else (s, r))"

section \<open>Segment files\<close>

lemma sealedPath_openPath: "sealedPath (openPath spool i) = spool @ pad16 (digits (unat i)) @ ''.seg''"
  by (simp add: sealedPath_def openPath_def)

lemma pad16_digits_inject [simp]: "pad16 (digits m) = pad16 (digits n) \<longleftrightarrow> m = n"
  by (metis digits_value_digits digits_value_zeros pad16_def)

lemma paths_inject [simp]:
  "openPath spool i = openPath spool j \<longleftrightarrow> i = j"
  "sealedPath (openPath spool i) = sealedPath (openPath spool j) \<longleftrightarrow> i = j"
  "openPath spool i \<noteq> sealedPath (openPath spool j)"
  "sealedPath (openPath spool j) \<noteq> openPath spool i"
proof -
  have "last (openPath spool i) = CHR ''n''" for i by (simp add: openPath_def)
  moreover have "last (sealedPath (openPath spool j)) = CHR ''g''" for j by (simp add: sealedPath_openPath)
  ultimately have ne: "last (openPath spool i) \<noteq> last (sealedPath (openPath spool j))" by simp
  then show "openPath spool i \<noteq> sealedPath (openPath spool j)" by metis
  show "sealedPath (openPath spool j) \<noteq> openPath spool i" using ne by metis
qed (simp_all add: sealedPath_openPath, simp_all add: openPath_def word_unat_eq_iff)

definition row_path :: "string \<Rightarrow> uint64 \<Rightarrow> SegmentRow \<Rightarrow> string" where
  "row_path spool i row = (if sg_state row = ''open'' then openPath spool i else sealedPath (openPath spool i))"

text \<open>A position that names the record of \<open>b\<close>, in the segment log \<open>L\<close>.\<close>

definition position_ok :: "(uint64 \<Rightarrow> (DataBatch \<times> bytes) list) \<Rightarrow> Position \<Rightarrow> DataBatch \<Rightarrow> bool" where
  "position_ok L pos b \<longleftrightarrow>
     (\<exists>pre rec post. L (SegmentID pos) = pre @ (b, rec) # post \<and>
        pos = sb_Position (stored (SegmentID pos) (32 + int (length (concat (map snd pre)))) b))"

text \<open>
  The store's invariant, with the log \<open>L\<close> of records per segment, the batches \<open>B\<close> appended so far
  and a bound \<open>n\<close> on the segment ids in use.
\<close>

definition row_ok :: "codec \<Rightarrow> nat \<Rightarrow> (uint64 \<Rightarrow> (DataBatch \<times> bytes) list) \<Rightarrow> LocalStore \<Rightarrow> uint64 \<Rightarrow> SegmentRow \<Rightarrow> bool" where
  "row_ok cd n L s i row \<longleftrightarrow>
     unat i \<le> n \<and> sg_path row = row_path (ls_spool s) i row \<and>
     (\<exists>t. map_of (ls_files s) (sg_path row) = Some (encodeSegmentHeader i t @ concat (map snd (L i)))) \<and>
     list_all (\<lambda>(b, rec). readable cd b rec) (L i) \<and>
     (sg_state row = ''open'' \<longrightarrow> (\<exists>w. ls_writer s = Some w \<and> sw_id w = i))"

definition writer_ok :: "(uint64 \<Rightarrow> (DataBatch \<times> bytes) list) \<Rightarrow> LocalStore \<Rightarrow> segmentWriter \<Rightarrow> bool" where
  "writer_ok L s w \<longleftrightarrow>
     (\<exists>row. map_of (ls_segments s) (sw_id w) = Some row \<and> sg_state row = ''open'' \<and> sw_path w = sg_path row) \<and>
     sw_size w = 32 + int (length (concat (map snd (L (sw_id w)))))"

definition ls_inv ::
  "codec \<Rightarrow> nat \<Rightarrow> (uint64 \<Rightarrow> (DataBatch \<times> bytes) list) \<Rightarrow> DataBatch set \<Rightarrow> LocalStore \<Rightarrow> bool" where
  "ls_inv cd n L B s \<longleftrightarrow>
     (\<forall>i row. map_of (ls_segments s) i = Some row \<longrightarrow> row_ok cd n L s i row) \<and>
     (\<forall>i. map_of (ls_segments s) i = None \<longrightarrow> map_of (ls_files s) (openPath (ls_spool s) i) = None \<and> L i = []) \<and>
     (\<forall>w. ls_writer s = Some w \<longrightarrow> writer_ok L s w) \<and>
     (\<forall>bid pos. map_of (ls_batchPositions s) bid = Some pos \<longrightarrow>
        (\<exists>b\<in>B. batch_id b = bid \<and> position_ok L pos b \<and> (\<exists>row. map_of (ls_segments s) (SegmentID pos) = Some row)))"

lemma foldl_max_ge: "(m :: 'a :: linorder) \<le> foldl max m ks"
proof (induction ks arbitrary: m)
  case (Cons k ks)
  show ?case using Cons.IH [of "max m k"] by simp
qed simp

lemma foldl_max_member: "k \<in> set ks \<Longrightarrow> (k :: 'a :: linorder) \<le> foldl max m ks"
proof (induction ks arbitrary: m)
  case (Cons j ks)
  show ?case using Cons foldl_max_ge [of "max m j" ks] by auto
qed simp

lemma foldl_max_in: "foldl max (m :: 'a :: linorder) ks \<in> insert m (set ks)"
proof (induction ks arbitrary: m)
  case (Cons k ks)
  show ?case using Cons.IH [of "max m k"] by (auto simp: max_def split: if_splits)
qed simp

lemma nextSegmentID_fresh:
  assumes "\<And>i row. map_of (ls_segments s) i = Some row \<Longrightarrow> unat i \<le> n" and "n + 1 < 2 ^ 64"
  shows "map_of (ls_segments s) (nextSegmentID s) = None" and "unat (nextSegmentID s) \<le> n + 1"
proof -
  let ?m = "foldl max 0 (keys (ls_segments s))"
  have "?m = 0 \<or> (\<exists>row. map_of (ls_segments s) ?m = Some row)"
    using foldl_max_in [of 0 "keys (ls_segments s)"] by (auto dest: weak_map_of_SomeI)
  then have m: "unat ?m \<le> n" using assms(1) by auto
  then have u: "unat (nextSegmentID s) = unat ?m + 1"
    using assms(2) unfolding nextSegmentID_def by (simp add: unat_word_ariths(1))
  then show "unat (nextSegmentID s) \<le> n + 1" using m by simp
  have "nextSegmentID s \<notin> set (keys (ls_segments s))"
  proof
    assume "nextSegmentID s \<in> set (keys (ls_segments s))"
    then have "nextSegmentID s \<le> ?m" by (rule foldl_max_member)
    then show False using u by (simp add: word_le_nat_alt)
  qed
  then show "map_of (ls_segments s) (nextSegmentID s) = None" by (simp add: map_of_eq_None_iff)
qed

section \<open>Every step keeps the invariant\<close>

lemma ls_inv_mono: "ls_inv cd n L B s \<Longrightarrow> n \<le> n' \<Longrightarrow> B \<subseteq> B' \<Longrightarrow> ls_inv cd n' L B' s"
  unfolding ls_inv_def row_ok_def by (meson order_trans subset_iff)

lemma ensureWriter_ok:
  assumes inv: "ls_inv cd n L B s" and n: "n + 1 < 2 ^ 64"
  shows "\<exists>s'. ensureWriter no_faults now s = (s', None) \<and> ls_inv cd (n + 1) L B s' \<and> ls_writer s' \<noteq> None \<and>
    ls_batchPositions s' = ls_batchPositions s"
proof (cases "ls_writer s")
  case (Some w)
  then show ?thesis using ls_inv_mono [OF inv, of "n + 1" B] by (simp add: ensureWriter_def)
next
  case None
  let ?i = "nextSegmentID s"
  let ?p = "openPath (ls_spool s) ?i"
  have bound: "\<And>i row. map_of (ls_segments s) i = Some row \<Longrightarrow> unat i \<le> n"
    using inv by (simp add: ls_inv_def row_ok_def)
  note fresh = nextSegmentID_fresh [OF bound n]
  have new: "map_of (ls_files s) ?p = None" "L ?i = []" using inv fresh(1) by (simp_all add: ls_inv_def)
  have old: "sg_path row \<noteq> ?p" if "map_of (ls_segments s) i = Some row" for i row
    using inv that fresh(1) by (auto simp: ls_inv_def row_ok_def row_path_def split: if_splits)
  let ?w = "\<lparr> sw_id = ?i, sw_path = ?p, sw_size = 32, sw_records = 0, sw_firstSequence = 0, sw_lastSequence = 0 \<rparr>"
  define s' where "s' = upsertSegment ?w ''open'' ((appendFile ?p (encodeSegmentHeader ?i now) None s)\<lparr> ls_writer := Some ?w \<rparr>)"
  have files: "map_of (ls_files s') = (map_of (ls_files s))(?p \<mapsto> encodeSegmentHeader ?i now)"
    by (rule ext) (simp add: s'_def upsertSegment_def appendFile_def get_or_def new)
  have segs: "map_of (ls_segments s') i =
      (if i = ?i then Some \<lparr> sg_path = ?p, sg_state = ''open'', sg_first_sequence = 0, sg_last_sequence = 0,
         sg_record_count = 0, sg_bytes = 32 \<rparr> else map_of (ls_segments s) i)" for i
    by (simp add: s'_def upsertSegment_def appendFile_def)
  have misc: "ls_spool s' = ls_spool s" "ls_writer s' = Some ?w" "ls_batchPositions s' = ls_batchPositions s"
    by (simp_all add: s'_def upsertSegment_def appendFile_def)
  have "row_ok cd (n + 1) L s' i row" if "map_of (ls_segments s') i = Some row" for i row
  proof (cases "i = ?i")
    case True
    then show ?thesis using that fresh(2) new
      by (auto simp: segs row_ok_def row_path_def files misc)
  next
    case False
    then have "map_of (ls_segments s) i = Some row" using that by (simp add: segs)
    then have "row_ok cd n L s i row" and "sg_path row \<noteq> ?p" using inv old by (auto simp: ls_inv_def)
    then show ?thesis using None by (auto simp: row_ok_def files misc)
  qed
  moreover have "map_of (ls_files s') (openPath (ls_spool s') i) = None \<and> L i = []" if "map_of (ls_segments s') i = None" for i
    using that inv by (auto simp: segs files misc ls_inv_def split: if_splits)
  moreover have "writer_ok L s' ?w" using new by (simp add: writer_ok_def segs)
  moreover have "\<exists>b\<in>B. batch_id b = bid \<and> position_ok L pos b \<and> (\<exists>row. map_of (ls_segments s') (SegmentID pos) = Some row)"
    if "map_of (ls_batchPositions s') bid = Some pos" for bid pos
    using that inv unfolding misc ls_inv_def segs by (metis option.distinct(1))
  ultimately have "ls_inv cd (n + 1) L B s'" unfolding ls_inv_def using misc(2) by auto
  moreover have "ensureWriter no_faults now s = (s', None)"
    using None by (simp add: ensureWriter_def no_faults_def Let_def s'_def)
  ultimately show ?thesis using misc by auto
qed

lemma sealLocked_ok:
  assumes inv: "ls_inv cd n L B s"
  shows "\<exists>s'. sealLocked no_faults s = (s', None) \<and> ls_inv cd n L B s' \<and> ls_batchPositions s' = ls_batchPositions s \<and>
    ls_writer s' = None"
proof (cases "ls_writer s")
  case None
  then show ?thesis using inv by (simp add: sealLocked_def)
next
  case (Some w)
  let ?i = "sw_id w" and ?old = "sw_path w"
  let ?new = "sealedPath ?old"
  obtain row where row: "map_of (ls_segments s) ?i = Some row" "sg_state row = ''open''" "?old = sg_path row"
    using inv Some by (auto simp: ls_inv_def writer_ok_def)
  have rok: "row_ok cd n L s ?i row" using inv row by (simp add: ls_inv_def)
  have old: "?old = openPath (ls_spool s) ?i" using rok row by (simp add: row_ok_def row_path_def)
  obtain t where content: "map_of (ls_files s) ?old = Some (encodeSegmentHeader ?i t @ concat (map snd (L ?i)))"
    using rok row by (auto simp: row_ok_def)
  let ?w = "w\<lparr> sw_path := ?new \<rparr>"
  define s' where "s' = (upsertSegment ?w ''sealed'' ((renameFile ?old ?new s)\<lparr> ls_writer := Some ?w \<rparr>))\<lparr> ls_writer := None \<rparr>"
  have files: "map_of (ls_files s') p =
      (if p = ?new then map_of (ls_files s) ?old else if p = ?old then None else map_of (ls_files s) p)" for p
    using content by (simp add: s'_def upsertSegment_def renameFile_def get_or_def)
  have segs: "map_of (ls_segments s') i =
      (if i = ?i then Some \<lparr> sg_path = ?new, sg_state = ''sealed'', sg_first_sequence = sw_firstSequence w,
         sg_last_sequence = sw_lastSequence w, sg_record_count = sw_records w, sg_bytes = sw_size w \<rparr>
       else map_of (ls_segments s) i)" for i
    by (simp add: s'_def upsertSegment_def renameFile_def)
  have misc: "ls_spool s' = ls_spool s" "ls_writer s' = None" "ls_batchPositions s' = ls_batchPositions s"
    by (simp_all add: s'_def upsertSegment_def renameFile_def)
  have "row_ok cd n L s' i r" if r: "map_of (ls_segments s') i = Some r" for i r
  proof (cases "i = ?i")
    case True
    then show ?thesis using r rok content old by (auto simp: segs row_ok_def row_path_def files misc)
  next
    case False
    then have r': "map_of (ls_segments s) i = Some r" using r by (simp add: segs)
    then have ok: "row_ok cd n L s i r" using inv by (simp add: ls_inv_def)
    have "sg_state r \<noteq> ''open''" using ok Some False by (auto simp: row_ok_def)
    then show ?thesis using ok False by (auto simp: row_ok_def row_path_def files misc old)
  qed
  moreover have "map_of (ls_files s') (openPath (ls_spool s') i) = None \<and> L i = []" if "map_of (ls_segments s') i = None" for i
    using that inv by (auto simp: segs files misc old ls_inv_def split: if_splits)
  moreover have "\<exists>b\<in>B. batch_id b = bid \<and> position_ok L pos b \<and> (\<exists>row. map_of (ls_segments s') (SegmentID pos) = Some row)"
    if "map_of (ls_batchPositions s') bid = Some pos" for bid pos
    using that inv unfolding misc ls_inv_def segs by (metis option.distinct(1))
  ultimately have "ls_inv cd n L B s'" unfolding ls_inv_def using misc(2) by auto
  moreover have "sealLocked no_faults s = (s', None)"
    using Some by (simp add: sealLocked_def no_faults_def Let_def s'_def)
  ultimately show ?thesis using misc by auto
qed

lemma position_ok_append:
  "position_ok L pos b \<Longrightarrow> position_ok (L(i := L i @ xs)) pos b"
  unfolding position_ok_def by (cases "SegmentID pos = i") (auto, metis append_Cons append_assoc)

lemma writeRecord_ok:
  assumes inv: "ls_inv cd n L B s" and w: "ls_writer s = Some w" and rec: "readable cd batch rec"
  shows "\<exists>s' pos. writeRecord no_faults batch rec (batchSequence batch) s = (s', Inr pos) \<and>
    ls_inv cd n (L(sw_id w := L (sw_id w) @ [(batch, rec)])) (insert batch B) s' \<and>
    map_of (ls_batchPositions s') (batch_id batch) = Some pos"
proof -
  let ?i = "sw_id w" and ?p = "sw_path w"
  let ?L = "L(?i := L ?i @ [(batch, rec)])"
  define pos where "pos = \<lparr> SegmentID = ?i, RecordOffset = sw_size w, BatchSequence = batchSequence batch, BatchID = batch_id batch \<rparr>"
  obtain s' where s': "writeRecord no_faults batch rec (batchSequence batch) s = (s', Inr pos)"
    by (simp add: writeRecord_def w no_faults_def Let_def pos_def)
  obtain row where row: "map_of (ls_segments s) ?i = Some row" "sg_state row = ''open''" "?p = sg_path row"
    using inv w by (auto simp: ls_inv_def writer_ok_def)
  have size: "sw_size w = 32 + int (length (concat (map snd (L ?i))))" using inv w by (simp add: ls_inv_def writer_ok_def)
  have rok: "row_ok cd n L s ?i row" using inv row by (simp add: ls_inv_def)
  have path: "?p = openPath (ls_spool s) ?i" using rok row by (simp add: row_ok_def row_path_def)
  obtain t where content: "map_of (ls_files s) ?p = Some (encodeSegmentHeader ?i t @ concat (map snd (L ?i)))"
    using rok row by (auto simp: row_ok_def)
  have files: "map_of (ls_files s') p =
      (if p = ?p then Some (encodeSegmentHeader ?i t @ concat (map snd (?L ?i))) else map_of (ls_files s) p)" for p
    using s' content
    by (auto simp: writeRecord_def w no_faults_def Let_def appendFile_def upsertSegment_def persistSequenceCursor_def get_or_def)
  define w' where "w' = advanceWriter (length rec) (batchSequence batch) w"
  have w': "ls_writer s' = Some w'" "sw_id w' = ?i" "sw_path w' = ?p" "sw_size w' = sw_size w + int (length rec)"
    using s' unfolding w'_def
    by (auto simp: writeRecord_def w no_faults_def Let_def appendFile_def upsertSegment_def persistSequenceCursor_def
        advanceWriter_def)
  obtain row' where row': "sg_state row' = ''open''" "sg_path row' = ?p"
    and segs: "map_of (ls_segments s') i = (if i = ?i then Some row' else map_of (ls_segments s) i)" for i
  proof
    show "map_of (ls_segments s') i = (if i = ?i then Some \<lparr> sg_path = ?p, sg_state = ''open'',
        sg_first_sequence = sw_firstSequence w', sg_last_sequence = sw_lastSequence w',
        sg_record_count = sw_records w', sg_bytes = sw_size w' \<rparr> else map_of (ls_segments s) i)" for i
      using s' w'(2,3) unfolding w'_def
      by (auto simp: writeRecord_def w no_faults_def Let_def appendFile_def upsertSegment_def persistSequenceCursor_def)
  qed simp_all
  have misc: "ls_spool s' = ls_spool s" "map_of (ls_batchPositions s') = (map_of (ls_batchPositions s))(batch_id batch \<mapsto> pos)"
    using s' by (auto simp: writeRecord_def w no_faults_def Let_def appendFile_def upsertSegment_def persistSequenceCursor_def pos_def fun_eq_iff)
  have posok: "position_ok ?L pos batch"
    unfolding position_ok_def by (rule exI [of _ "L ?i"]) (simp add: pos_def stored_def size)
  have "row_ok cd n ?L s' i r" if r: "map_of (ls_segments s') i = Some r" for i r
  proof (cases "i = ?i")
    case True
    then show ?thesis using r rok rec row' w' by (auto simp: segs row_ok_def row_path_def files misc path)
  next
    case False
    then have "map_of (ls_segments s) i = Some r" using r by (simp add: segs)
    then have ok: "row_ok cd n L s i r" using inv by (simp add: ls_inv_def)
    have "sg_path r \<noteq> ?p" using ok False path by (auto simp: row_ok_def row_path_def split: if_splits)
    then show ?thesis using ok False w w' by (auto simp: row_ok_def files misc)
  qed
  moreover have "map_of (ls_files s') (openPath (ls_spool s') i) = None \<and> ?L i = []" if "map_of (ls_segments s') i = None" for i
    using that inv path by (auto simp: segs files misc ls_inv_def split: if_splits)
  moreover have "writer_ok ?L s' w'"
    using w' row' size by (simp add: writer_ok_def segs)
  moreover have "\<exists>b\<in>insert batch B. batch_id b = bid \<and> position_ok ?L p b \<and> (\<exists>row. map_of (ls_segments s') (SegmentID p) = Some row)"
    if "map_of (ls_batchPositions s') bid = Some p" for bid p
  proof (cases "bid = batch_id batch")
    case True
    then have "p = pos" using that by (simp add: misc)
    then show ?thesis using True posok by (auto simp: segs pos_def)
  next
    case False
    then have "map_of (ls_batchPositions s) bid = Some p" using that by (simp add: misc)
    then obtain b where "b \<in> B" "batch_id b = bid" "position_ok L p b" "\<exists>row. map_of (ls_segments s) (SegmentID p) = Some row"
      using inv unfolding ls_inv_def by blast
    then show ?thesis using position_ok_append [of L p b ?i] by (auto simp: segs)
  qed
  ultimately have "ls_inv cd n ?L (insert batch B) s'" unfolding ls_inv_def using w'(1) by auto
  then show ?thesis using s' misc by auto
qed

definition appendable :: "codec \<Rightarrow> DataBatch \<Rightarrow> bool" where
  "appendable cd batch \<longleftrightarrow> batch_id batch \<noteq> [] \<and> (\<exists>rec. readable cd batch rec)"

lemma AppendBatch_ok:
  assumes inv: "ls_inv cd n L B s" and n: "n + 2 < 2 ^ 64" and ok: "appendable cd batch"
  shows "\<exists>s' L' pos. AppendBatch cd no_faults now (Some batch) s = (s', Inr pos) \<and> ls_inv cd (n + 2) L' (insert batch B) s' \<and>
    map_of (ls_batchPositions s') (batch_id batch) = Some pos"
proof -
  obtain rec where rec: "readable cd batch rec" and id: "batch_id batch \<noteq> []" using ok by (auto simp: appendable_def)
  then obtain sq where "encodeRecord cd batch = Inr (rec, sq)" by (auto simp: readable_def)
  then have enc: "encodeRecord cd batch = Inr (rec, batchSequence batch)"
    by (metis encodeRecord_shape)
  show ?thesis
  proof (cases "map_of (ls_batchPositions s) (batch_id batch)")
    case (Some pos)
    then have "AppendBatch cd no_faults now (Some batch) s = (s, Inr pos)" using enc id by (simp add: AppendBatch_def)
    moreover have "ls_inv cd (n + 2) L (insert batch B) s" by (rule ls_inv_mono [OF inv]) auto
    ultimately show ?thesis using Some by blast
  next
    case None
    have wr: "\<exists>s2 L' pos. writeRecord no_faults batch rec (batchSequence batch) s1 = (s2, Inr pos) \<and>
        ls_inv cd (n + 2) L' (insert batch B) s2 \<and> map_of (ls_batchPositions s2) (batch_id batch) = Some pos"
      if "ls_inv cd m L B s1" "ls_writer s1 \<noteq> None" "m \<le> n + 2" for m s1
    proof -
      obtain w where w: "ls_writer s1 = Some w" using \<open>ls_writer s1 \<noteq> None\<close> by blast
      have "ls_inv cd (n + 2) L B s1" by (rule ls_inv_mono [OF that(1,3)]) simp
      from writeRecord_ok [OF this w rec] show ?thesis by blast
    qed
    obtain s1 where s1: "ensureWriter no_faults now s = (s1, None)" "ls_inv cd (n + 1) L B s1" "ls_writer s1 \<noteq> None"
      using ensureWriter_ok [OF inv, of now] n by auto
    obtain s2 where s2: "sealLocked no_faults s1 = (s2, None)" "ls_inv cd (n + 1) L B s2"
      using sealLocked_ok [OF s1(2)] by blast
    have n2: "(n + 1) + 1 < 2 ^ 64" using n by simp
    obtain s3 where s3: "ensureWriter no_faults now s2 = (s3, None)" "ls_inv cd (n + 2) L B s3" "ls_writer s3 \<noteq> None"
      using ensureWriter_ok [OF s2(2) n2, of now] by (auto simp: add.assoc)
    have "AppendBatch cd no_faults now (Some batch) s = writeRecord no_faults batch rec (batchSequence batch) s1 \<or>
        AppendBatch cd no_faults now (Some batch) s = writeRecord no_faults batch rec (batchSequence batch) s3"
      using None id by (simp add: AppendBatch_def enc s1(1) s2(1) s3(1) Let_def)
    then show ?thesis using wr [OF s1(2,3)] wr [OF s3(2,3)] by auto
  qed
qed

section \<open>Runs\<close>

datatype ls_op = OpAppend DataBatch time | OpSeal

text \<open>A run collects the positions the appends returned, with the batch handed in.\<close>

fun ls_step :: "codec \<Rightarrow> LocalStore \<times> (Position \<times> DataBatch) list \<Rightarrow> ls_op \<Rightarrow> LocalStore \<times> (Position \<times> DataBatch) list" where
  "ls_step cd (s, acc) (OpAppend batch now) =
     (case AppendBatch cd no_faults now (Some batch) s of
        (s, Inl e) \<Rightarrow> (s, acc)
      | (s, Inr pos) \<Rightarrow> (s, acc @ [(pos, batch)]))"
| "ls_step cd (s, acc) OpSeal = (fst (Seal no_faults s), acc)"

fun op_batches :: "ls_op list \<Rightarrow> DataBatch list" where
  "op_batches [] = []"
| "op_batches (OpAppend batch now # ops) = batch # op_batches ops"
| "op_batches (OpSeal # ops) = op_batches ops"

definition emptyStore :: "string \<Rightarrow> int \<Rightarrow> int \<Rightarrow> int \<Rightarrow> LocalStore" where
  "emptyStore spool segmentSize maxBytes maxSignals =
     \<lparr> ls_spool = spool, ls_SegmentSize = segmentSize, ls_MaxBytes = maxBytes, ls_writer = None, ls_batchPositions = [],
       ls_cursor = \<lparr> cur_Event = 0, cur_Signal = 0 \<rparr>, ls_files = [], ls_segments = [],
       ls_dbCursor = \<lparr> cur_Event = 0, cur_Signal = 0 \<rparr>, ls_checkpoint = None, ls_droppedBatches = 0,
       ls_SignalMaxCount = maxSignals, ls_signals = [] \<rparr>"

lemma ls_inv_empty: "ls_inv cd 0 (\<lambda>_. []) {} (emptyStore spool a b c)"
  by (simp add: ls_inv_def emptyStore_def)

lemma ensureWriter_keeps [simp]: "ls_batchPositions (fst (ensureWriter f now s)) = ls_batchPositions s"
  by (simp add: ensureWriter_def Let_def upsertSegment_def appendFile_def)

lemma sealLocked_keeps [simp]: "ls_batchPositions (fst (sealLocked f s)) = ls_batchPositions s"
  by (simp add: sealLocked_def Let_def upsertSegment_def renameFile_def split: option.splits)

text \<open>An append never changes a position that is already known, whatever fails.\<close>

lemma AppendBatch_positions:
  assumes "AppendBatch cd f now batch s = (s', r)" and "map_of (ls_batchPositions s) bid = Some p"
  shows "map_of (ls_batchPositions s') bid = Some p"
proof -
  have wr: "map_of (ls_batchPositions (fst (writeRecord f b rec sq s1))) bid = Some p"
    if "batch_id b \<noteq> bid" "ls_batchPositions s1 = ls_batchPositions s" for b rec sq s1
    using that assms(2)
    by (auto simp: writeRecord_def Let_def appendFile_def upsertSegment_def persistSequenceCursor_def)
  have e: "ls_batchPositions s1 = ls_batchPositions s2" if "ensureWriter f now s2 = (s1, x)" for s1 s2 x
    using ensureWriter_keeps [of f now s2] that by simp
  have l: "ls_batchPositions s1 = ls_batchPositions s2" if "sealLocked f s2 = (s1, x)" for s1 s2 x
    using sealLocked_keeps [of f s2] that by simp
  show ?thesis
    using assms
    by (auto simp: AppendBatch_def Let_def split: option.splits sum.splits prod.splits if_splits
        dest!: e l) (metis fst_conv option.distinct(1) wr)+
qed

lemma ls_run:
  assumes "ls_inv cd n L B s" and "n + 2 * length ops < 2 ^ 64" and "\<forall>b \<in> set (op_batches ops). appendable cd b"
    and "\<forall>(pos, b) \<in> set acc. map_of (ls_batchPositions s) (batch_id b) = Some pos"
  shows "\<exists>s' acc' L'. foldl (ls_step cd) (s, acc) ops = (s', acc') \<and>
    ls_inv cd (n + 2 * length ops) L' (B \<union> set (op_batches ops)) s' \<and>
    map snd acc' = map snd acc @ op_batches ops \<and>
    (\<forall>(pos, b) \<in> set acc'. map_of (ls_batchPositions s') (batch_id b) = Some pos)"
  using assms
proof (induction ops arbitrary: n L B s acc)
  case Nil
  then show ?case by auto
next
  case (Cons op ops)
  show ?case
  proof (cases op)
    case (OpAppend batch now)
    have n: "n + 2 < 2 ^ 64" using Cons.prems(2) by simp
    have ok: "appendable cd batch" using Cons.prems(3) OpAppend by simp
    obtain s1 L1 pos where s1: "AppendBatch cd no_faults now (Some batch) s = (s1, Inr pos)"
      "ls_inv cd (n + 2) L1 (insert batch B) s1" "map_of (ls_batchPositions s1) (batch_id batch) = Some pos"
      using AppendBatch_ok [OF Cons.prems(1) n ok, of now] by blast
    have keep: "map_of (ls_batchPositions s1) bid = Some p" if "map_of (ls_batchPositions s) bid = Some p" for bid p
      using AppendBatch_positions [OF s1(1)] that by blast
    have "\<forall>(pos, b) \<in> set (acc @ [(pos, batch)]). map_of (ls_batchPositions s1) (batch_id b) = Some pos"
      using Cons.prems(4) s1(3) keep by fastforce
    from Cons.IH [OF s1(2) _ _ this] Cons.prems(2,3) OpAppend s1(1) show ?thesis by (simp add: add.assoc)
  next
    case OpSeal
    obtain s1 where s1: "sealLocked no_faults s = (s1, None)" "ls_inv cd n L B s1" "ls_batchPositions s1 = ls_batchPositions s"
      using sealLocked_ok [OF Cons.prems(1)] by blast
    have "ls_inv cd (n + 2) L B s1" by (rule ls_inv_mono [OF s1(2)]) auto
    from Cons.IH [OF this, of acc] Cons.prems(2-) OpSeal s1 show ?thesis by (simp add: add.assoc Seal_def)
  qed
qed

lemma stored_from_append:
  "stored_from i off (pre @ l) = stored_from i off pre @ stored_from i (off + int (length (concat (map snd pre)))) l"
  by (induction i off pre rule: stored_from.induct) (simp_all add: add.assoc)

lemma position_readable:
  assumes inv: "ls_inv cd n L B s" and pos: "map_of (ls_batchPositions s) bid = Some pos"
  shows "\<exists>b\<in>B. batch_id b = bid \<and> (\<exists>row content bs. map_of (ls_segments s) (SegmentID pos) = Some row \<and>
    map_of (ls_files s) (sg_path row) = Some content \<and> readSegment cd False content = Inr (bs, content) \<and>
    \<lparr> sb_Position = pos, sb_Batch = b \<rparr> \<in> set bs)"
proof -
  obtain b row where b: "b \<in> B" "batch_id b = bid" "position_ok L pos b" and row: "map_of (ls_segments s) (SegmentID pos) = Some row"
    using inv pos unfolding ls_inv_def by blast
  obtain pre rec post where L: "L (SegmentID pos) = pre @ (b, rec) # post"
    and p: "pos = sb_Position (stored (SegmentID pos) (32 + int (length (concat (map snd pre)))) b)"
    using b(3) by (auto simp: position_ok_def)
  obtain t where content: "map_of (ls_files s) (sg_path row) = Some (encodeSegmentHeader (SegmentID pos) t @ concat (map snd (L (SegmentID pos))))"
    and all: "list_all (\<lambda>(b, rec). readable cd b rec) (L (SegmentID pos))"
    using inv row unfolding ls_inv_def row_ok_def by blast
  have "readable cd b rec" using all L by simp
  then have "0 < length rec" using length_readable(2) by fastforce
  from readSegment_recovers [OF all \<open>readable cd b rec\<close> this, of "SegmentID pos" t]
  have "readSegment cd False (encodeSegmentHeader (SegmentID pos) t @ concat (map snd (L (SegmentID pos)))) =
      Inr (stored_from (SegmentID pos) 32 (L (SegmentID pos)), encodeSegmentHeader (SegmentID pos) t @ concat (map snd (L (SegmentID pos))))"
    by simp
  moreover have "\<lparr> sb_Position = pos, sb_Batch = b \<rparr> \<in> set (stored_from (SegmentID pos) 32 (L (SegmentID pos)))"
    using p by (simp add: L stored_from_append) (metis StoredBatch.select_convs(1) stored_def)
  ultimately show ?thesis using b row content by blast
qed

section \<open>Properties\<close>

text \<open>
  C11. Every sequence of appends and seals on a new store (fewer than $2^{63}$, no call failing,
  batches the format can hold) accepts every batch, and what an append returned stays true: the
  position it returned names, in a segment file that reads back without error, the record of a
  batch with the same id, which is the appended batch itself when ids are not reused.
\<close>

theorem appended_batches_are_readable:
  assumes "2 * length ops < 2 ^ 64" and "\<forall>b \<in> set (op_batches ops). appendable cd b"
  shows "\<exists>s acc. foldl (ls_step cd) (emptyStore spool a b c, []) ops = (s, acc) \<and> map snd acc = op_batches ops \<and>
    (\<forall>(pos, batch) \<in> set acc. \<exists>b0 \<in> set (op_batches ops). batch_id b0 = batch_id batch \<and>
       (inj_on batch_id (set (op_batches ops)) \<longrightarrow> b0 = batch) \<and>
       (\<exists>row content bs. map_of (ls_segments s) (SegmentID pos) = Some row \<and>
          map_of (ls_files s) (sg_path row) = Some content \<and> readSegment cd False content = Inr (bs, content) \<and>
          \<lparr> sb_Position = pos, sb_Batch = b0 \<rparr> \<in> set bs))"
proof -
  obtain s acc L where run: "foldl (ls_step cd) (emptyStore spool a b c, []) ops = (s, acc)"
    and inv: "ls_inv cd (0 + 2 * length ops) L ({} \<union> set (op_batches ops)) s"
    and bs: "map snd acc = map snd [] @ op_batches ops"
    and pos: "\<forall>(pos, b) \<in> set acc. map_of (ls_batchPositions s) (batch_id b) = Some pos"
    using ls_run [OF ls_inv_empty [of cd spool a b c], of ops "[]"] assms by force
  have "\<exists>b0 \<in> set (op_batches ops). batch_id b0 = batch_id batch \<and>
       (inj_on batch_id (set (op_batches ops)) \<longrightarrow> b0 = batch) \<and>
       (\<exists>row content bs. map_of (ls_segments s) (SegmentID pos) = Some row \<and>
          map_of (ls_files s) (sg_path row) = Some content \<and> readSegment cd False content = Inr (bs, content) \<and>
          \<lparr> sb_Position = pos, sb_Batch = b0 \<rparr> \<in> set bs)" if e: "(pos, batch) \<in> set acc" for pos batch
  proof -
    have "batch \<in> set (op_batches ops)" using e bs by (metis append_Nil image_eqI list.simps(8) set_map snd_conv)
    moreover have "map_of (ls_batchPositions s) (batch_id batch) = Some pos" using pos e by blast
    from position_readable [OF inv this] obtain b0 where "b0 \<in> set (op_batches ops)" "batch_id b0 = batch_id batch"
      "\<exists>row content bs. map_of (ls_segments s) (SegmentID pos) = Some row \<and>
          map_of (ls_files s) (sg_path row) = Some content \<and> readSegment cd False content = Inr (bs, content) \<and>
          \<lparr> sb_Position = pos, sb_Batch = b0 \<rparr> \<in> set bs"
      by auto
    ultimately show ?thesis by (metis inj_onD)
  qed
  then show ?thesis using run bs by auto
qed

lemma example_appendable: "appendable (example_codec 3) example_id_batch"
  using example_readable example_id by (auto simp: appendable_def)

theorem appended_batches_are_readable_witness:
  "appendable (example_codec 3) example_id_batch \<and>
   (\<exists>s acc. foldl (ls_step (example_codec 3)) (emptyStore ''/spool/'' 64 1000 10, [])
      [OpAppend example_id_batch 0, OpSeal] = (s, acc) \<and> map snd acc = [example_id_batch])"
proof -
  have "\<forall>b \<in> set (op_batches [OpAppend example_id_batch 0, OpSeal]). appendable (example_codec 3) b"
    using example_appendable by simp
  moreover have "2 * length [OpAppend example_id_batch 0, OpSeal] < 2 ^ 64" by simp
  ultimately obtain s acc where r: "foldl (ls_step (example_codec 3)) (emptyStore ''/spool/'' 64 1000 10, [])
      [OpAppend example_id_batch 0, OpSeal] = (s, acc)" "map snd acc = op_batches [OpAppend example_id_batch 0, OpSeal]"
    using appended_batches_are_readable [of "[OpAppend example_id_batch 0, OpSeal]" "example_codec 3" "''/spool/''" 64 1000 10]
    by blast
  have "map snd acc = [example_id_batch]" using r(2) by simp
  then show ?thesis using r(1) example_appendable by (intro conjI exI)
qed

text \<open>
  Appending a batch whose id is already stored returns the position it was stored at and
  changes nothing, whatever calls would fail: a batch is written once however often it is sent.
\<close>

theorem AppendBatch_idempotent:
  assumes "AppendBatch cd no_faults now (Some batch) s = (s', Inr pos)"
  shows "AppendBatch cd f now' (Some batch) s' = (s', Inr pos)"
proof -
  obtain rec sq where enc: "encodeRecord cd batch = Inr (rec, sq)" and id: "batch_id batch \<noteq> []"
    using assms by (auto simp: AppendBatch_def split: if_splits sum.splits)
  have wr: "map_of (ls_batchPositions s') (batch_id batch) = Some pos"
    if "writeRecord no_faults batch rec sq s1 = (s', Inr pos)" for s1
    using that by (auto simp: writeRecord_def no_faults_def Let_def)
  have "map_of (ls_batchPositions s') (batch_id batch) = Some pos"
    using assms enc id wr
    by (auto simp: AppendBatch_def Let_def split: option.splits prod.splits if_splits)
  then show ?thesis using enc id by (simp add: AppendBatch_def)
qed

theorem AppendBatch_idempotent_witness:
  "\<exists>s' pos. AppendBatch (example_codec 3) no_faults 0 (Some example_id_batch) (emptyStore ''/spool/'' 64 1000 10) = (s', Inr pos) \<and>
     AppendBatch (example_codec 3) no_faults 5 (Some example_id_batch) s' = (s', Inr pos)"
proof -
  obtain s' pos where "AppendBatch (example_codec 3) no_faults 0 (Some example_id_batch) (emptyStore ''/spool/'' 64 1000 10) = (s', Inr pos)"
    using AppendBatch_ok [OF ls_inv_empty [where spool = "''/spool/''" and a = 64 and b = 1000 and c = 10] _ example_appendable, of 0]
    by auto
  with AppendBatch_idempotent [OF this] show ?thesis by blast
qed

section \<open>Capacity\<close>

lemma enforce_loop_prefix:
  "\<exists>k. enforce_loop other lowDisk cs s r = (foldl (\<lambda>s c. removeSegment c s) s (take k cs), foldl (\<lambda>r c. countRemoved c r) r (take k cs)) \<and>
     k \<le> length cs \<and> (k < length cs \<longrightarrow> 0 < k \<and> \<not> overCapacity other lowDisk (fst (enforce_loop other lowDisk cs s r))) \<and>
     (\<forall>j. 0 < j \<and> j < k \<longrightarrow> overCapacity other lowDisk (foldl (\<lambda>s c. removeSegment c s) s (take j cs)))"
proof (induction cs arbitrary: s r)
  case (Cons c cs)
  show ?case
  proof (cases "overCapacity other lowDisk (removeSegment c s)")
    case False
    then show ?thesis by (intro exI [of _ 1]) (simp add: Let_def)
  next
    case True
    from Cons.IH [of "removeSegment c s" "countRemoved c r"] obtain k where
      k: "enforce_loop other lowDisk cs (removeSegment c s) (countRemoved c r) =
          (foldl (\<lambda>s c. removeSegment c s) (removeSegment c s) (take k cs),
           foldl (\<lambda>r c. countRemoved c r) (countRemoved c r) (take k cs))" "k \<le> length cs"
        "k < length cs \<longrightarrow> 0 < k \<and> \<not> overCapacity other lowDisk (fst (enforce_loop other lowDisk cs (removeSegment c s) (countRemoved c r)))"
        "\<forall>j. 0 < j \<and> j < k \<longrightarrow> overCapacity other lowDisk (foldl (\<lambda>s c. removeSegment c s) (removeSegment c s) (take j cs))"
      by blast
    have "overCapacity other lowDisk (foldl (\<lambda>s c. removeSegment c s) s (take j (c # cs)))" if "0 < j" "j < Suc k" for j
      using that k(4) True by (cases j; cases "j - 1") auto
    then show ?thesis using k True by (intro exI [of _ "Suc k"]) (simp add: Let_def)
  qed
qed simp

lemma countRemoved_run:
  "RemovedSegments (foldl (\<lambda>r c. countRemoved c r) r cs) = RemovedSegments r @ map ca_id cs"
  "DroppedUnuploaded (foldl (\<lambda>r c. countRemoved c r) r cs) \<longleftrightarrow> DroppedUnuploaded r \<or> (\<exists>c\<in>set cs. \<not> ca_uploaded c)"
  "RemovedBatches (foldl (\<lambda>r c. countRemoved c r) r cs) =
     RemovedBatches r + sum_list (map ca_records (filter (\<lambda>c. \<not> ca_uploaded c) cs))"
  by (induction cs arbitrary: r) (auto simp: countRemoved_def Let_def)

lemma removeSegment_run:
  "map_of (ls_segments (foldl (\<lambda>s c. removeSegment c s) s cs)) i =
     (if i \<in> ca_id ` set cs then None else map_of (ls_segments s) i)"
  "ls_droppedBatches (foldl (\<lambda>s c. removeSegment c s) s cs) = ls_droppedBatches s"
  by (induction cs arbitrary: s) (auto simp: removeSegment_def)

lemma PruneSignals_keeps [simp]:
  "ls_segments (fst (PruneSignals s)) = ls_segments s" "ls_checkpoint (fst (PruneSignals s)) = ls_checkpoint s"
  "ls_files (fst (PruneSignals s)) = ls_files s" "ls_MaxBytes (fst (PruneSignals s)) = ls_MaxBytes s"
  "ls_droppedBatches (fst (PruneSignals s)) = ls_droppedBatches s"
  by (simp_all add: PruneSignals_def Let_def)

lemma overCapacity_cong:
  "ls_files s = ls_files s' \<Longrightarrow> ls_MaxBytes s = ls_MaxBytes s' \<Longrightarrow> overCapacity other lowDisk s = overCapacity other lowDisk s'"
  by (simp add: overCapacity_def directoryBytes_def)

lemma capacityCandidates_cong:
  "ls_segments s = ls_segments s' \<Longrightarrow> ls_checkpoint s = ls_checkpoint s' \<Longrightarrow> capacityCandidates s = capacityCandidates s'"
  by (simp add: capacityCandidates_def Checkpoint_read_def)

lemma capacityCandidates_sealed:
  assumes "wf_map (ls_segments s)" and "c \<in> set (capacityCandidates s)"
  shows "\<exists>row. map_of (ls_segments s) (ca_id c) = Some row \<and> sg_state row = ''sealed''"
  using assms by (auto simp: capacityCandidates_def Let_def wf_map_def map_of_eq_Some_iff)

lemma take_append_filter:
  assumes "x \<in> set (take k (filter P xs @ filter (\<lambda>x. \<not> P x) xs))" and "\<not> P x"
  shows "set (filter P xs) \<subseteq> set (take k (filter P xs @ filter (\<lambda>x. \<not> P x) xs))"
proof -
  have "\<not> k \<le> length (filter P xs)"
  proof
    assume "k \<le> length (filter P xs)"
    then have "x \<in> set (filter P xs)" using assms(1) by (auto dest: in_set_takeD)
    then show False using assms(2) by simp
  qed
  then show ?thesis by auto
qed

lemma EnforceCapacity_shape:
  assumes "EnforceCapacity other lowDisk s = (s', r)"
  obtains k where "k \<le> length (capacityCandidates s)" "RemovedSegments r = map ca_id (take k (capacityCandidates s))"
    "RemovedBatches r = sum_list (map ca_records (filter (\<lambda>c. \<not> ca_uploaded c) (take k (capacityCandidates s))))"
    "ls_droppedBatches s' = ls_droppedBatches s + RemovedBatches r"
    "k < length (capacityCandidates s) \<longrightarrow> \<not> overCapacity other lowDisk s'"
    "\<And>i. map_of (ls_segments s') i = (if i \<in> set (RemovedSegments r) then None else map_of (ls_segments s) i)"
proof (cases "overCapacity other lowDisk s")
  case False
  then have ov: "\<not> overCapacity other lowDisk (fst (PruneSignals s))" by (simp add: overCapacity_cong [of "fst (PruneSignals s)" s])
  show ?thesis
    by (rule that [of 0]) (use assms ov in \<open>auto simp: EnforceCapacity_def Let_def\<close>)
next
  case True
  let ?p = "fst (PruneSignals s)" and ?cs = "capacityCandidates s"
  let ?e = "\<lparr> RemovedSegments = [], RemovedBatches = 0, DroppedUnuploaded = False \<rparr>"
  have ov: "overCapacity other lowDisk ?p" using True by (simp add: overCapacity_cong [of ?p s])
  have cs: "capacityCandidates ?p = ?cs" by (rule capacityCandidates_cong) simp_all
  obtain k where k: "enforce_loop other lowDisk ?cs ?p ?e =
      (foldl (\<lambda>s c. removeSegment c s) ?p (take k ?cs), foldl (\<lambda>r c. countRemoved c r) ?e (take k ?cs))" "k \<le> length ?cs"
    "k < length ?cs \<longrightarrow> 0 < k \<and> \<not> overCapacity other lowDisk (fst (enforce_loop other lowDisk ?cs ?p ?e))"
    using enforce_loop_prefix [of other lowDisk ?cs ?p ?e] by blast
  define s1 where "s1 = foldl (\<lambda>s c. removeSegment c s) ?p (take k ?cs)"
  have r: "r = foldl (\<lambda>r c. countRemoved c r) ?e (take k ?cs)"
    and s': "s' = (if DroppedUnuploaded r then s1\<lparr> ls_droppedBatches := ls_droppedBatches s1 + RemovedBatches r \<rparr> else s1)"
    using assms ov k(1) by (auto simp: EnforceCapacity_def Let_def cs s1_def split: if_splits)
  have none: "RemovedBatches r = 0" if "\<not> DroppedUnuploaded r"
    using that unfolding r countRemoved_run by (simp add: filter_False)
  show ?thesis
  proof (rule that [OF k(2)])
    show "RemovedSegments r = map ca_id (take k ?cs)"
      "RemovedBatches r = sum_list (map ca_records (filter (\<lambda>c. \<not> ca_uploaded c) (take k ?cs)))"
      by (simp_all add: r countRemoved_run)
    show "ls_droppedBatches s' = ls_droppedBatches s + RemovedBatches r"
      using none by (simp add: s' s1_def removeSegment_run)
    show "k < length ?cs \<longrightarrow> \<not> overCapacity other lowDisk s'"
      using k(1,3) overCapacity_cong [of s' s1 other lowDisk] by (simp add: s' flip: s1_def)
    show "map_of (ls_segments s') i = (if i \<in> set (RemovedSegments r) then None else map_of (ls_segments s) i)" for i
      by (simp add: s' s1_def removeSegment_run r countRemoved_run)
  qed
qed

section \<open>Properties of capacity, queries and failed writes\<close>


definition example_row :: "string \<Rightarrow> uint64 \<Rightarrow> SegmentRow" where
  "example_row state n = \<lparr> sg_path = state, sg_state = state, sg_first_sequence = 1, sg_last_sequence = 1, sg_record_count = n, sg_bytes = 32 \<rparr>"


lemma readLimited_skips:
  "list_all (\<lambda>b. BatchSequence (sb_Position b) < fromSeq) bs \<Longrightarrow> readLimited limit fromSeq bs out = (False, out)"
  by (induction bs) simp_all

text \<open>
  \<^verbatim>\<open>QueryEvents\<close> selects whole batches by the sequence they start at, so it misses events. For a
  store with one segment whose batch starts at or before \<^verbatim>\<open>AfterSequence\<close>, the query returns nothing,
  although the batch may hold events after \<^verbatim>\<open>AfterSequence\<close>.
\<close>

theorem QueryEvents_misses_started_batches:
  assumes "readable cd b rec" and "batchSequence b \<le> eq_AfterSequence q" and "eq_AfterSequence q + 1 \<noteq> 0"
    and "ls_files s = [(p, encodeSegmentHeader i t @ rec)]" and "HasSuffix p ''.seg''"
  shows "QueryEvents cd s q = Inr []"
proof -
  have "0 < length rec" using length_readable(2) [OF assms(1)] by (cases rec) auto
  then have "readSegment cd False (encodeSegmentHeader i t @ rec) = Inr ([stored i 32 b], encodeSegmentHeader i t @ rec)"
    using readSegment_recovers [of cd "[(b, rec)]" b rec 0 i t] assms(1) by simp
  moreover have "batchSequence b < eq_AfterSequence q + 1"
    using assms(2,3) unatSuc [of "eq_AfterSequence q"]
    by (simp add: word_less_nat_alt word_le_nat_alt add.commute)
  ultimately have "ReadBatches cd s 1000000 (eq_AfterSequence q + 1) = Inr []"
    using assms(4,5) by (simp add: ReadBatches_def segmentFiles_def get_or_def stored_def)
  then show ?thesis by (simp add: QueryEvents_def Let_def)
qed

definition example_events_batch :: DataBatch where
  "example_events_batch = DataBatch_zero\<lparr>
     db_header := Some (BatchHeader_zero\<lparr> bh_batch_id := ''b2'', bh_event_seq_start := 5, bh_event_seq_end := 6 \<rparr>),
     db_events := [\<lparr> ef_sequence = 5, ef_observed_at = [], ef_event = None \<rparr>, \<lparr> ef_sequence = 6, ef_observed_at = [], ef_event = None \<rparr>] \<rparr>"

definition example_events_codec :: codec where
  "example_events_codec = (example_codec 3)\<lparr> unmarshal := (\<lambda>_. Some example_events_batch) \<rparr>"

lemma example_events_readable: "\<exists>rec. readable example_events_codec example_events_batch rec"
proof -
  have "\<exists>rec sq. encodeRecord example_events_codec example_events_batch = Inr (rec, sq) \<and> length rec = 29"
    by (simp add: encodeRecord_def example_events_codec_def example_codec_def Let_def length_recordBody maxBatchBytes_def
        example_events_batch_def GetHeader_def)
  then show ?thesis
    by (auto simp: readable_def codec_ok_def maxBatchBytes_def example_events_codec_def example_codec_def)
      (auto simp: example_events_batch_def GetHeader_def)
qed

theorem QueryEvents_misses_started_batches_witness:
  "\<exists>rec. readable example_events_codec example_events_batch rec \<and>
     (\<exists>f \<in> set (db_events example_events_batch). 5 < ef_sequence f) \<and>
     QueryEvents example_events_codec
       ((emptyStore ''/spool/'' 64 1000 10)\<lparr> ls_files := [(''1.seg'', encodeSegmentHeader 1 0 @ rec)] \<rparr>)
       \<lparr> eq_Behavior = [], eq_AfterSequence = 5, eq_Limit = 10 \<rparr> = Inr []"
proof -
  obtain rec where r: "readable example_events_codec example_events_batch rec" using example_events_readable by blast
  have "HasSuffix ''1.seg'' ''.seg''" by (simp add: HasSuffix_def)
  with QueryEvents_misses_started_batches [OF r, of "\<lparr> eq_Behavior = [], eq_AfterSequence = 5, eq_Limit = 10 \<rparr>"
      "(emptyStore ''/spool/'' 64 1000 10)\<lparr> ls_files := [(''1.seg'', encodeSegmentHeader 1 0 @ rec)] \<rparr>" "''1.seg''" 1 0]
  have "QueryEvents example_events_codec
       ((emptyStore ''/spool/'' 64 1000 10)\<lparr> ls_files := [(''1.seg'', encodeSegmentHeader 1 0 @ rec)] \<rparr>)
       \<lparr> eq_Behavior = [], eq_AfterSequence = 5, eq_Limit = 10 \<rparr> = Inr []"
    by (simp add: batchSequence_def example_events_batch_def GetHeader_def)
  moreover have "\<exists>f \<in> set (db_events example_events_batch). 5 < ef_sequence f" by (simp add: example_events_batch_def)
  ultimately show ?thesis using r by blast
qed

text \<open>
  C39. A write that fails part-way is not undone. If an append to the open segment fails after \<open>k\<close>
  bytes and the batch is sent again, the second append succeeds, but it returns the offset of the
  torn bytes: the record itself starts \<open>k\<close> bytes later, behind a torn record in the middle of
  the file.
\<close>

theorem failed_write_shifts_offsets:
  assumes "ls_inv cd n L B s" and "ls_writer s = Some w" and "encodeRecord cd batch = Inr (rec, sq)" and "batch_id batch \<noteq> []"
    and "map_of (ls_batchPositions s) (batch_id batch) = None" and "sw_size w + int (length rec) \<le> ls_SegmentSize s"
    and "AppendBatch cd (no_faults\<lparr> f_write := Some k \<rparr>) now (Some batch) s = (s1, e)"
  shows "e = Inl WriteError \<and>
    (\<exists>s2 pos pre. AppendBatch cd no_faults now' (Some batch) s1 = (s2, Inr pos) \<and>
       length pre = nat (RecordOffset pos) \<and>
       map_of (ls_files s2) (sw_path w) = Some (pre @ take k rec @ rec))"
proof -
  obtain row where row: "map_of (ls_segments s) (sw_id w) = Some row" "sg_state row = ''open''" "sw_path w = sg_path row"
    and size: "sw_size w = 32 + int (length (concat (map snd (L (sw_id w)))))"
    using assms(1,2) by (auto simp: ls_inv_def writer_ok_def)
  have rok: "row_ok cd n L s (sw_id w) row" using assms(1) row(1) by (simp add: ls_inv_def)
  obtain t where content: "map_of (ls_files s) (sw_path w) = Some (encodeSegmentHeader (sw_id w) t @ concat (map snd (L (sw_id w))))"
    using rok row(3) by (auto simp: row_ok_def)
  let ?pre = "encodeSegmentHeader (sw_id w) t @ concat (map snd (L (sw_id w)))"
  have s1: "s1 = appendFile (sw_path w) rec (Some k) s" and e: "e = Inl WriteError"
    using assms(2-7) by (auto simp: AppendBatch_def ensureWriter_def Let_def writeRecord_def no_faults_def)
  have same: "ls_writer s1 = Some w" "ls_batchPositions s1 = ls_batchPositions s" "ls_SegmentSize s1 = ls_SegmentSize s"
    by (simp_all add: s1 assms(2) appendFile_def)
  have file1: "get_or [] (ls_files s1) (sw_path w) = ?pre @ take k rec"
    by (simp add: s1 appendFile_def get_or_def content)
  obtain s2 pos where s2: "AppendBatch cd no_faults now' (Some batch) s1 = (s2, Inr pos)" "RecordOffset pos = sw_size w"
    "map_of (ls_files s2) (sw_path w) = Some (get_or [] (ls_files s1) (sw_path w) @ rec)"
    using assms(3-6) same
    by (simp add: AppendBatch_def ensureWriter_def Let_def writeRecord_def no_faults_def appendFile_def upsertSegment_def
        persistSequenceCursor_def)
  have "length ?pre = nat (RecordOffset pos)" using s2(2) size by simp
  moreover have "map_of (ls_files s2) (sw_path w) = Some (?pre @ take k rec @ rec)" using s2(3) file1 by simp
  ultimately show ?thesis using e s2(1) by blast
qed

theorem failed_write_shifts_offsets_witness:
  "\<exists>s rec s1 s2 pos pre. encodeRecord (example_codec 3) example_id_batch = Inr (rec, 9) \<and>
     AppendBatch (example_codec 3) (no_faults\<lparr> f_write := Some 7 \<rparr>) 0 (Some example_id_batch) s = (s1, Inl WriteError) \<and>
     AppendBatch (example_codec 3) no_faults 0 (Some example_id_batch) s1 = (s2, Inr pos) \<and>
     length pre = nat (RecordOffset pos) \<and>
     (\<exists>p. map_of (ls_files s2) p = Some (pre @ take 7 rec @ rec))"
proof -
  let ?e = "emptyStore ''/spool/'' 1000 1000 10"
  obtain rec where rec: "encodeRecord (example_codec 3) example_id_batch = Inr (rec, 9)" "length rec = 29"
    using example_encode [of 3] by (auto simp: maxBatchBytes_def)
  obtain s where s: "ensureWriter no_faults 0 ?e = (s, None)" "ls_inv (example_codec 3) (0 + 1) (\<lambda>_. []) {} s"
    using ensureWriter_ok [OF ls_inv_empty [where cd = "example_codec 3" and spool = "''/spool/''" and a = 1000 and b = 1000 and c = 10], of 0]
    by auto
  obtain w where w: "ls_writer s = Some w" "sw_size w = 32" "ls_SegmentSize s = 1000" "ls_batchPositions s = []"
    using s(1) by (auto simp: ensureWriter_def emptyStore_def no_faults_def Let_def upsertSegment_def appendFile_def)
  obtain s1 e where s1: "AppendBatch (example_codec 3) (no_faults\<lparr> f_write := Some 7 \<rparr>) 0 (Some example_id_batch) s = (s1, e)"
    by fastforce
  have "batch_id example_id_batch \<noteq> []" by (simp add: example_id)
  with failed_write_shifts_offsets [OF s(2) w(1) rec(1) _ _ _ s1, of 0] w rec(2) have
    "e = Inl WriteError \<and> (\<exists>s2 pos pre. AppendBatch (example_codec 3) no_faults 0 (Some example_id_batch) s1 = (s2, Inr pos) \<and>
       length pre = nat (RecordOffset pos) \<and> map_of (ls_files s2) (sw_path w) = Some (pre @ take 7 rec @ rec))"
    by simp
  then show ?thesis using rec(1) s1 by blast
qed

end
