(* ===== verification/Export_Pipeline.thy ===== *)
theory Export_Pipeline
  imports Local_Store Sender
begin

text \<open>
  The agent's export pipeline, \<^verbatim>\<open>internal/agent/daemon/export_pipeline.go\<close> with the exporter of
  \<^verbatim>\<open>exporter.go\<close>: one pass reads stored batches, skips those before the upload checkpoint, sends the
  others and moves the checkpoint. The gateway is an argument: \<open>send batch\<close> is its acknowledgement
  and the transport error. \<open>saveFails\<close> says at which positions saving the checkpoint fails.
\<close>

section \<open>Definitions\<close>

record exportPipeline =
  ep_fromSequence :: uint64
  ep_tenantID :: string
  ep_agentID :: string

datatype export_error =
    StoreError seg_error
  | SendError string
  | ExportRejected string
  | CheckpointError

text \<open>\<^verbatim>\<open>cloudExporter.Export\<close>: \<open>None\<close> is a committed export.\<close>

definition Export :: "(DataBatch \<Rightarrow> DataAck option \<times> string option) \<Rightarrow> DataBatch \<Rightarrow> export_error option" where
  "Export send batch =
     (let (ack, err) = send batch
      in case err of
           Some e \<Rightarrow> Some (SendError e)
         | None \<Rightarrow>
             if \<not> AckCommitted ack
             then Some (ExportRejected (case ack of None \<Rightarrow> '''' | Some a \<Rightarrow> ack_message a))
             else None)"

definition beforeCheckpoint :: "Position \<Rightarrow> Checkpoint \<Rightarrow> bool" where
  "beforeCheckpoint position checkpoint =
     (if SegmentID position < cp_SegmentID checkpoint then True
      else SegmentID position = cp_SegmentID checkpoint \<and> RecordOffset position < cp_RecordOffset checkpoint)"

definition checkpointAt :: "Position \<Rightarrow> Checkpoint" where
  "checkpointAt position =
     \<lparr> cp_SegmentID = SegmentID position, cp_RecordOffset = RecordOffset position, cp_LastBatchID = BatchID position \<rparr>"

definition saveCheckpoint :: "(Position \<Rightarrow> bool) \<Rightarrow> Position \<Rightarrow> LocalStore \<Rightarrow> LocalStore option" where
  "saveCheckpoint saveFails position s =
     (if saveFails position then None else Some (SaveCheckpoint (checkpointAt position) s))"

definition foreign :: "exportPipeline \<Rightarrow> DataBatch \<Rightarrow> bool" where
  "foreign u batch \<longleftrightarrow> ep_tenantID u \<noteq> '''' \<and>
     (bh_tenant_id (GetHeader batch) \<noteq> ep_tenantID u \<or> bh_agent_id (GetHeader batch) \<noteq> ep_agentID u)"

text \<open>The loop returns the store, the batches that were exported, and the error that ended it.\<close>

fun export_loop ::
  "exportPipeline \<Rightarrow> (DataBatch \<Rightarrow> DataAck option \<times> string option) \<Rightarrow> (Position \<Rightarrow> bool) \<Rightarrow> Checkpoint \<Rightarrow>
   StoredBatch list \<Rightarrow> LocalStore \<Rightarrow> DataBatch list \<Rightarrow> LocalStore \<times> DataBatch list \<times> export_error option" where
  "export_loop u send saveFails checkpoint [] s out = (s, out, None)"
| "export_loop u send saveFails checkpoint (st # rest) s out =
     (if beforeCheckpoint (sb_Position st) checkpoint then export_loop u send saveFails checkpoint rest s out
      else if foreign u (sb_Batch st) then
        (case saveCheckpoint saveFails (sb_Position st) s of
           None \<Rightarrow> (s, out, Some CheckpointError)
         | Some s \<Rightarrow> export_loop u send saveFails checkpoint rest s out)
      else case Export send (sb_Batch st) of
             Some e \<Rightarrow> (s, out, Some e)
           | None \<Rightarrow>
               (case saveCheckpoint saveFails (sb_Position st) s of
                  None \<Rightarrow> (s, out @ [sb_Batch st], Some CheckpointError)
                | Some s \<Rightarrow> export_loop u send saveFails checkpoint rest s (out @ [sb_Batch st])))"

definition exportAvailable ::
  "codec \<Rightarrow> exportPipeline \<Rightarrow> (DataBatch \<Rightarrow> DataAck option \<times> string option) \<Rightarrow> (Position \<Rightarrow> bool) \<Rightarrow>
   LocalStore \<Rightarrow> LocalStore \<times> DataBatch list \<times> export_error option" where
  "exportAvailable cd u send saveFails s =
     (let checkpoint = Checkpoint_read s
      in case ReadBatches cd s 1000 (ep_fromSequence u) of
           Inl e \<Rightarrow> (s, [], Some (StoreError e))
         | Inr batches \<Rightarrow> export_loop u send saveFails checkpoint batches s [])"

text \<open>The delay \<^verbatim>\<open>Run\<close> waits after a pass, and the backoff it carries on.\<close>

definition exportDelay :: "bool \<Rightarrow> duration \<Rightarrow> duration \<times> duration" where
  "exportDelay failed backoff =
     (if failed then (backoff, min (backoff * 2) (30 * 1000000000)) else (500 * 1000000, 1000000000))"

section \<open>Reading with a limit\<close>

lemma readLimited_take:
  "int (length out) < limit \<Longrightarrow>
   readLimited limit fromSeq bs out =
     (let fs = filter (\<lambda>b. fromSeq \<le> BatchSequence (sb_Position b)) bs; k = nat limit - length out
      in (k \<le> length fs, out @ take k fs))"
proof (induction bs arbitrary: out)
  case (Cons b bs)
  show ?case
  proof (cases "BatchSequence (sb_Position b) < fromSeq")
    case True
    then show ?thesis using Cons by (simp add: Let_def)
  next
    case False
    then have ge: "fromSeq \<le> BatchSequence (sb_Position b)" by simp
    show ?thesis
    proof (cases "limit \<le> int (length (out @ [b]))")
      case True
      then have "nat limit - length out = 1" using Cons.prems by simp
      then show ?thesis using False ge True by (simp add: Let_def)
    next
      case short: False
      then have "nat limit - length out = Suc (nat limit - length (out @ [b]))" by simp
      then show ?thesis using False ge short Cons.IH [of "out @ [b]"] by (simp add: Let_def)
    qed
  qed
qed simp

lemma readFiles_take:
  assumes "list_all2 (\<lambda>content bs. \<exists>c. readSegment cd False content = Inr (bs, c)) files bss"
    and "int (length out) < limit"
  shows "readFiles cd limit fromSeq files out =
    Inr (out @ take (nat limit - length out) (filter (\<lambda>b. fromSeq \<le> BatchSequence (sb_Position b)) (concat bss)))"
  using assms
proof (induction files bss arbitrary: out rule: list_all2_induct)
  case (Cons content files bs bss)
  then obtain c where c: "readSegment cd False content = Inr (bs, c)" by blast
  let ?fs = "filter (\<lambda>b. fromSeq \<le> BatchSequence (sb_Position b)) bs" and ?k = "nat limit - length out"
  show ?case
  proof (cases "?k \<le> length ?fs")
    case True
    then show ?thesis using c readLimited_take [OF Cons.prems, of fromSeq bs] by (simp add: Let_def)
  next
    case False
    then have "int (length (out @ ?fs)) < limit" using Cons.prems by simp
    then show ?thesis
      using c readLimited_take [OF Cons.prems, of fromSeq bs] Cons.IH [of "out @ ?fs"] False
      by (simp add: Let_def)
  qed
qed simp

section \<open>One pass\<close>

lemma Checkpoint_read_Save [simp]: "Checkpoint_read (SaveCheckpoint c s) = c"
  by (simp add: Checkpoint_read_def SaveCheckpoint_def)

text \<open>
  What a pass over \<open>bs\<close> did: it dealt with the first \<open>k\<close> batches that are not before the checkpoint,
  exporting those that are not foreign; without error, with all of them; the checkpoint is at the
  last of them. \<open>again\<close> is a batch that was committed but whose checkpoint could not be saved.
\<close>

definition passed ::
  "exportPipeline \<Rightarrow> (DataBatch \<Rightarrow> DataAck option \<times> string option) \<Rightarrow> Checkpoint \<Rightarrow> StoredBatch list \<Rightarrow> LocalStore \<Rightarrow>
   LocalStore \<times> DataBatch list \<times> export_error option \<Rightarrow> nat \<Rightarrow> DataBatch list \<Rightarrow> bool" where
  "passed u send cp bs s res k again \<longleftrightarrow>
     (let todo = filter (\<lambda>b. \<not> beforeCheckpoint (sb_Position b) cp) bs; (s', out, err) = res
      in k \<le> length todo \<and> (err = None \<longleftrightarrow> k = length todo) \<and>
         out = map sb_Batch (filter (\<lambda>b. \<not> foreign u (sb_Batch b)) (take k todo)) @ again \<and>
         (again = [] \<or> err = Some CheckpointError \<and> k < length todo \<and> again = [sb_Batch (todo ! k)]) \<and>
         (\<forall>b \<in> set out. Export send b = None) \<and>
         Checkpoint_read s' = (if k = 0 then Checkpoint_read s else checkpointAt (sb_Position (todo ! (k - 1)))))"

lemma export_loop_out:
  "export_loop u send saveFails cp bs s out =
     (case export_loop u send saveFails cp bs s [] of (s', out', err) \<Rightarrow> (s', out @ out', err))"
proof (induction bs arbitrary: s out)
  case (Cons b bs)
  have step: "export_loop u send saveFails cp bs s1 (out @ xs) =
      (case export_loop u send saveFails cp bs s1 xs of (s', out', err) \<Rightarrow> (s', out @ out', err))" for s1 xs
    using Cons.IH [of s1 "out @ xs"] Cons.IH [of s1 xs] by (simp split: prod.splits)
  show ?case using step [of _ "[]"] step [of _ "[sb_Batch b]"]
    by (simp split: option.splits)
qed simp

lemma passed_Cons:
  assumes "\<not> beforeCheckpoint (sb_Position b) cp" and "Checkpoint_read s1 = checkpointAt (sb_Position b)"
    and "\<not> foreign u (sb_Batch b) \<longrightarrow> Export send (sb_Batch b) = None"
    and "passed u send cp bs s1 (s', out, err) k again"
  shows "passed u send cp (b # bs) s (s', (if foreign u (sb_Batch b) then [] else [sb_Batch b]) @ out, err) (Suc k) again"
  using assms unfolding passed_def Let_def by (auto simp: nth_Cons' split: if_splits)

lemma passed_0:
  assumes "\<not> beforeCheckpoint (sb_Position b) cp" and "err \<noteq> None"
  shows "passed u send cp (b # bs) s (s, [], err) 0 []"
  using assms by (simp add: passed_def)

lemma export_loop_passed: "\<exists>k again. passed u send cp bs s (export_loop u send saveFails cp bs s []) k again"
proof (induction bs arbitrary: s)
  case Nil
  then show ?case by (simp add: passed_def)
next
  case (Cons b bs)
  show ?case
  proof (cases "beforeCheckpoint (sb_Position b) cp")
    case True
    then show ?thesis using Cons.IH [of s] by (simp add: passed_def)
  next
    case ahead: False
    have save: "Checkpoint_read s1 = checkpointAt (sb_Position b)" if "saveCheckpoint saveFails (sb_Position b) s = Some s1" for s1
      using that by (auto simp: saveCheckpoint_def split: if_splits)
    have later: "\<exists>k again. passed u send cp (b # bs) s
        (export_loop u send saveFails cp bs s1 (if foreign u (sb_Batch b) then [] else [sb_Batch b])) k again"
      if "saveCheckpoint saveFails (sb_Position b) s = Some s1" "\<not> foreign u (sb_Batch b) \<longrightarrow> Export send (sb_Batch b) = None" for s1
    proof -
      obtain s' out err where run: "export_loop u send saveFails cp bs s1 [] = (s', out, err)" by (metis prod_cases3)
      obtain k again where "passed u send cp bs s1 (s', out, err) k again" using Cons.IH [of s1] run by auto
      note cons = passed_Cons [OF ahead save [OF that(1)] that(2) this, of s]
      have "export_loop u send saveFails cp bs s1 (if foreign u (sb_Batch b) then [] else [sb_Batch b]) =
          (s', (if foreign u (sb_Batch b) then [] else [sb_Batch b]) @ out, err)"
        by (subst export_loop_out) (simp add: run)
      with cons show ?thesis by metis
    qed
    show ?thesis
    proof (cases "foreign u (sb_Batch b)")
      case True
      then show ?thesis
        using ahead later passed_0 [OF ahead, of "Some CheckpointError" u send bs s]
        by (cases "saveCheckpoint saveFails (sb_Position b) s") auto
    next
      case mine: False
      show ?thesis
      proof (cases "Export send (sb_Batch b)")
        case (Some e)
        then show ?thesis using ahead mine passed_0 [OF ahead, of "Some e" u send bs s] by auto
      next
        case ok: None
        have "passed u send cp (b # bs) s (s, [sb_Batch b], Some CheckpointError) 0 [sb_Batch b]"
          using ahead ok by (simp add: passed_def)
        then show ?thesis
          using ahead mine ok later by (cases "saveCheckpoint saveFails (sb_Position b) s") auto
      qed
    qed
  qed
qed

section \<open>Properties\<close>

text \<open>
  \<^verbatim>\<open>ReadBatches\<close> on a store whose segment files all read back returns the first \<open>limit\<close> stored batches,
  in the order of the files and of the records in them, whose sequence is at least the one asked
  for.
\<close>

theorem ReadBatches_returns_first:
  assumes "list_all2 (\<lambda>path bs. \<exists>c. readSegment cd False (get_or [] (ls_files s) path) = Inr (bs, c)) (segmentFiles s) bss"
    and "0 < limit"
  shows "ReadBatches cd s limit fromSeq =
    Inr (take (nat limit) (filter (\<lambda>b. fromSeq \<le> BatchSequence (sb_Position b)) (concat bss)))"
proof -
  have "list_all2 (\<lambda>content bs. \<exists>c. readSegment cd False content = Inr (bs, c)) (map (get_or [] (ls_files s)) (segmentFiles s)) bss"
    using assms(1) by (simp add: list_all2_map1)
  from readFiles_take [OF this, of "[]" limit fromSeq] assms(2) show ?thesis by (simp add: ReadBatches_def)
qed

lemma example_store_reads:
  assumes "readable (example_codec 3) example_id_batch rec"
  shows "list_all2 (\<lambda>path bs. \<exists>c. readSegment (example_codec 3) False
        (get_or [] (ls_files ((emptyStore ''/spool/'' 64 1000 10)\<lparr> ls_files := [(''1.seg'', encodeSegmentHeader 1 0 @ rec)] \<rparr>)) path) = Inr (bs, c))
      (segmentFiles ((emptyStore ''/spool/'' 64 1000 10)\<lparr> ls_files := [(''1.seg'', encodeSegmentHeader 1 0 @ rec)] \<rparr>))
      [[stored 1 32 example_id_batch]]"
proof -
  have "0 < length rec" using length_readable(2) [OF assms] by (cases rec) auto
  then have "readSegment (example_codec 3) False (encodeSegmentHeader 1 0 @ rec) =
      Inr ([stored 1 32 example_id_batch], encodeSegmentHeader 1 0 @ rec)"
    using readSegment_recovers [of "example_codec 3" "[(example_id_batch, rec)]" example_id_batch rec 0 1 0] assms by simp
  then show ?thesis by (simp add: segmentFiles_def get_or_def HasSuffix_def)
qed

theorem ReadBatches_returns_first_witness:
  "\<exists>rec. readable (example_codec 3) example_id_batch rec \<and>
     ReadBatches (example_codec 3) ((emptyStore ''/spool/'' 64 1000 10)\<lparr> ls_files := [(''1.seg'', encodeSegmentHeader 1 0 @ rec)] \<rparr>) 5 9 =
       Inr [stored 1 32 example_id_batch]"
proof -
  obtain rec where r: "readable (example_codec 3) example_id_batch rec" using example_readable by blast
  from ReadBatches_returns_first [OF example_store_reads [OF r], of 5 9] r show ?thesis
    by (auto simp: stored_def batchSequence_def example_id_batch_def GetHeader_def)
qed

text \<open>
  C14. A pass of the export pipeline deals, in order, with the read batches that are not before the
  checkpoint, up to the first failure: it exports those of its own tenant and agent, and every
  batch it counts was committed by the gateway; the checkpoint ends at the last batch dealt with,
  so after an error nothing that was not committed is skipped; and a pass without error has dealt
  with all of them.
\<close>

theorem exportAvailable_in_order:
  assumes "ReadBatches cd s 1000 (ep_fromSequence u) = Inr bs"
  shows "\<exists>k again. passed u send (Checkpoint_read s) bs s (exportAvailable cd u send saveFails s) k again"
  using export_loop_passed [of u send "Checkpoint_read s" bs s saveFails] assms
  by (simp add: exportAvailable_def)

theorem exportAvailable_in_order_witness:
  "\<exists>rec k again. readable (example_codec 3) example_id_batch rec \<and>
     (let s = (emptyStore ''/spool/'' 64 1000 10)\<lparr> ls_files := [(''1.seg'', encodeSegmentHeader 1 0 @ rec)] \<rparr>;
          u = \<lparr> ep_fromSequence = 9, ep_tenantID = [], ep_agentID = [] \<rparr>;
          send = (\<lambda>_. (Some (DataAck_zero\<lparr> ack_status := STATUS_ACCEPTED \<rparr>), None))
      in passed u send (Checkpoint_read s) [stored 1 32 example_id_batch] s
           (exportAvailable (example_codec 3) u send (\<lambda>_. False) s) k again)"
proof -
  obtain rec where r: "readable (example_codec 3) example_id_batch rec" using example_readable by blast
  let ?s = "(emptyStore ''/spool/'' 64 1000 10)\<lparr> ls_files := [(''1.seg'', encodeSegmentHeader 1 0 @ rec)] \<rparr>"
  let ?u = "\<lparr> ep_fromSequence = 9, ep_tenantID = [], ep_agentID = [] \<rparr>"
  have "int (length ([] :: StoredBatch list)) < 1000" by simp
  from readFiles_take [OF _ this, of "example_codec 3" "map (get_or [] (ls_files ?s)) (segmentFiles ?s)" _ 9]
  have "ReadBatches (example_codec 3) ?s 1000 (ep_fromSequence ?u) = Inr [stored 1 32 example_id_batch]"
    using example_store_reads [OF r]
    by (simp add: ReadBatches_def list_all2_map1 stored_def batchSequence_def example_id_batch_def GetHeader_def)
  from exportAvailable_in_order [OF this, of "\<lambda>_. (Some (DataAck_zero\<lparr> ack_status := STATUS_ACCEPTED \<rparr>), None)" "\<lambda>_. False"] r
  show ?thesis unfolding Let_def by blast
qed


lemma stored_from_replicate:
  "stored_from i off (replicate n (b, rec)) = map (\<lambda>k. stored i (off + int k * int (length rec)) b) [0..<n]"
proof (induction n)
  case (Suc n)
  have "replicate (Suc n) (b, rec) = replicate n (b, rec) @ [(b, rec)]" by (simp add: replicate_append_same)
  moreover have "length (concat (map snd (replicate n (b, rec)))) = n * length rec" by (induction n) simp_all
  ultimately show ?case using Suc by (simp add: stored_from_append)
qed simp

text \<open>The stalled store of the example: 1001 batches, the checkpoint at the last of them.\<close>

definition stalled_store :: "bytes \<Rightarrow> LocalStore" where
  "stalled_store rec = (emptyStore ''/spool/'' 64 1000 10)\<lparr>
     ls_files := [(''1.seg'', encodeSegmentHeader 1 0 @ concat (replicate 1001 rec))],
     ls_checkpoint := Some \<lparr> cp_SegmentID = 1, cp_RecordOffset = 32 + 1000 * int (length rec), cp_LastBatchID = [] \<rparr> \<rparr>"

lemma stalled_store_reads:
  assumes "readable (example_codec 3) example_id_batch rec"
  shows "list_all2 (\<lambda>path bs. \<exists>c. readSegment (example_codec 3) False (get_or [] (ls_files (stalled_store rec)) path) = Inr (bs, c))
      (segmentFiles (stalled_store rec)) [map (\<lambda>k. stored 1 (32 + int k * int (length rec)) example_id_batch) [0..<1001]]"
proof -
  have "0 < length rec" using length_readable(2) [OF assms] by (cases rec) auto
  moreover have "list_all (\<lambda>(b, rec). readable (example_codec 3) b rec) (replicate 1001 (example_id_batch, rec))"
    using assms by (simp add: list_all_iff)
  ultimately have "readSegment (example_codec 3) False (encodeSegmentHeader 1 0 @ concat (replicate 1001 rec)) =
      Inr (stored_from 1 32 (replicate 1001 (example_id_batch, rec)), encodeSegmentHeader 1 0 @ concat (replicate 1001 rec))"
    using readSegment_recovers [of "example_codec 3" "replicate 1001 (example_id_batch, rec)" example_id_batch rec 0 1 0] assms
    by (simp add: map_replicate)
  then show ?thesis
    unfolding stored_from_replicate by (simp add: stalled_store_def segmentFiles_def get_or_def HasSuffix_def)
qed


end
