(* ===== verification/Detect_Rules.thy ===== *)
theory Detect_Rules
  imports Data_Model Matcher
begin

text \<open>
  The rules of the endpoint detection engine and how a condition is evaluated:
  the rule types of \<^verbatim>\<open>internal/endpoint/detection/engine.go\<close>, the compilation of conditions and
  fields of \<^verbatim>\<open>compiled.go\<close>, the condition trees of \<^verbatim>\<open>condition_tree.go\<close>, the view of an event, and
  the interpreter of uncompiled conditions that the compilation replaces.

  A matching function changes the metrics of the engine, so it returns them with its result. The
  default strategy of the matchers is the argument \<open>strategy\<close>; \<^verbatim>\<open>strconv.ParseFloat\<close> is the
  argument \<open>pf\<close>, and every lemma holds whatever numbers it reads.
\<close>

section \<open>Rule types\<close>

record ConditionSpec =
  cs_Field :: string
  cs_Op :: string
  cs_Value :: string
  cs_Values :: "string list"
  cs_Ref :: string
  cs_Step :: string
  cs_StepField :: string

text \<open>\<^verbatim>\<open>All\<close> and \<^verbatim>\<open>Any\<close> distinguish nil from an empty slice.\<close>

datatype ConditionNodeSpec = ConditionNodeSpec
  (cn_All: "ConditionNodeSpec list option")
  (cn_Any: "ConditionNodeSpec list option")
  (cn_Not: "ConditionNodeSpec option")
  (cn_Condition: "ConditionSpec option")

record ExprSpec =
  ex_Conditions :: "ConditionSpec list"
  ex_ConditionGroup :: "ConditionNodeSpec option"

record StepSpec =
  st_ID :: string
  st_Behavior :: string
  st_Conditions :: "ConditionSpec list"
  st_ConditionGroup :: "ConditionNodeSpec option"

record SequenceSpec =
  sq_Within :: duration
  sq_By :: "string list"
  sq_Steps :: "StepSpec list"

record FactSpec =
  fa_ID :: string
  fa_Event :: string
  fa_Events :: "string list"
  fa_Conditions :: "ConditionSpec list"
  fa_ConditionGroup :: "ConditionNodeSpec option"

record CorrelateSpec =
  co_Within :: duration
  co_WithinText :: string
  co_By :: "string list"
  co_Facts :: "FactSpec list"

record SuppressionSpec =
  su_Within :: duration
  su_By :: "string list"

record RequiredEventSpec =
  re_Behavior :: string
  re_Fields :: "string list"

record ResponseIntentRef =
  rir_Action :: string
  rir_Confidence :: uint32
  rir_Reason :: string

record RuleSpec =
  rs_RuleID :: string
  rs_Version :: uint64
  rs_RuleSetRef :: string
  rs_Where :: string
  rs_Severity :: string
  rs_Runtime :: string
  rs_RuntimeType :: string
  rs_Expr :: ExprSpec
  rs_Sequence :: SequenceSpec
  rs_Correlate :: CorrelateSpec
  rs_Suppression :: SuppressionSpec
  rs_RequiredEvents :: "RequiredEventSpec list"
  rs_RequiredBehaviors :: "string list"
  rs_ContextRefs :: "string list"
  rs_IOCRefs :: "string list"
  rs_ResponseIntent :: "ResponseIntentRef option"
  rs_Terminal :: "bool option"

record effectiveRule =
  er_spec :: RuleSpec
  er_enabled :: bool
  er_mode :: string
  er_severity :: string
  er_intent :: "ResponseIntentRef option"
  er_params :: "(string, string) gomap"

record ResolvedRef =
  rr_Ref :: string
  rr_Version :: string
  rr_Digest :: string
  rr_Values :: "string list"

record ContentSnapshot =
  ct_ContextRefs :: "(string, ResolvedRef) gomap"
  ct_IOCRefs :: "(string, ResolvedRef) gomap"
  ct_Rules :: "RuleSpec list"

record Metrics =
  m_EventsProcessed :: uint64
  m_EventsByBehavior :: "(string, uint64) gomap"
  m_CEPRulesScanned :: uint64
  m_CEPRulesEvaluated :: uint64
  m_ConditionsEvaluated :: uint64
  m_ConditionsMatched :: uint64
  m_FieldReads :: uint64
  m_ProcessNanosTotal :: uint64
  m_ActiveCEPGroups :: uint64
  m_EvictedCEPGroups :: uint64
  m_ExpiredCEPGroups :: uint64
  m_DroppedEventRefs :: uint64
  m_SuppressionEvictions :: uint64
  m_CEPEvalErrors :: uint64
  m_EmittedSignals :: uint64

text \<open>
  The state of one group of a sequence rule. \<^verbatim>\<open>Values\<close> maps a step id to the fields saved when
  that step matched.
\<close>

record cepGroupState =
  gs_StepIndex :: nat
  gs_Refs :: "string list"
  gs_Entities :: "EntityRef list"
  gs_Values :: "(string, (string, string) gomap) gomap"
  gs_ExpiresAt :: uint64
  gs_WaitingBehavior :: string

section \<open>Fields and operators\<close>

datatype fieldID =
    fieldUnknown | fieldEventID | fieldBehavior | fieldLineageID | fieldProcessStableID
  | fieldProcessBinary | fieldProcessBinaryName | fieldProcessArgv | fieldProcessSudoCommand
  | fieldProcessUID | fieldProcessPID | fieldParentStableID | fieldFilePath | fieldSocketAddr
  | fieldSocketPort | fieldSocket | fieldScopeType | fieldScopeSelector | fieldContainerID
  | fieldCgroup

text \<open>The numbers the constants stand for (\<^verbatim>\<open>iota\<close>); the source sorts saved fields by them.\<close>

fun fieldID_number :: "fieldID \<Rightarrow> nat" where
  "fieldID_number fieldUnknown = 0"
| "fieldID_number fieldEventID = 1"
| "fieldID_number fieldBehavior = 2"
| "fieldID_number fieldLineageID = 3"
| "fieldID_number fieldProcessStableID = 4"
| "fieldID_number fieldProcessBinary = 5"
| "fieldID_number fieldProcessBinaryName = 6"
| "fieldID_number fieldProcessArgv = 7"
| "fieldID_number fieldProcessSudoCommand = 8"
| "fieldID_number fieldProcessUID = 9"
| "fieldID_number fieldProcessPID = 10"
| "fieldID_number fieldParentStableID = 11"
| "fieldID_number fieldFilePath = 12"
| "fieldID_number fieldSocketAddr = 13"
| "fieldID_number fieldSocketPort = 14"
| "fieldID_number fieldSocket = 15"
| "fieldID_number fieldScopeType = 16"
| "fieldID_number fieldScopeSelector = 17"
| "fieldID_number fieldContainerID = 18"
| "fieldID_number fieldCgroup = 19"

lemma fieldID_number_inject [simp]: "fieldID_number f = fieldID_number g \<longleftrightarrow> f = g"
  by (cases f; cases g) simp_all

instantiation fieldID :: linorder
begin

definition less_eq_fieldID :: "fieldID \<Rightarrow> fieldID \<Rightarrow> bool" where
  "less_eq_fieldID f g \<longleftrightarrow> fieldID_number f \<le> fieldID_number g"

definition less_fieldID :: "fieldID \<Rightarrow> fieldID \<Rightarrow> bool" where
  "less_fieldID f g \<longleftrightarrow> fieldID_number f < fieldID_number g"

instance
proof
  fix x y z :: fieldID
  show "(x < y) = (x \<le> y \<and> \<not> y \<le> x)" by (auto simp: less_eq_fieldID_def less_fieldID_def)
  show "x \<le> x" by (simp add: less_eq_fieldID_def)
  show "x \<le> y \<Longrightarrow> y \<le> z \<Longrightarrow> x \<le> z" by (simp add: less_eq_fieldID_def)
  show "x \<le> y \<Longrightarrow> y \<le> x \<Longrightarrow> x = y" by (simp add: less_eq_fieldID_def)
  show "x \<le> y \<or> y \<le> x" by (auto simp: less_eq_fieldID_def)
qed

end

definition compileField :: "string \<Rightarrow> fieldID" where
  "compileField f =
     (let t = TrimSpace f in
      if t = ''event.id'' \<or> t = ''id'' then fieldEventID
      else if t = ''event.behavior'' \<or> t = ''behavior'' then fieldBehavior
      else if t = ''lineage_id'' \<or> t = ''lineage.id'' then fieldLineageID
      else if t = ''process.stable_id'' \<or> t = ''process.id'' then fieldProcessStableID
      else if t = ''process.binary'' \<or> t = ''binary'' then fieldProcessBinary
      else if t = ''process.binary_name'' \<or> t = ''binary_name'' then fieldProcessBinaryName
      else if t = ''process.argv'' \<or> t = ''argv'' then fieldProcessArgv
      else if t = ''process.sudo_command'' then fieldProcessSudoCommand
      else if t = ''process.uid'' \<or> t = ''uid'' then fieldProcessUID
      else if t = ''process.pid'' \<or> t = ''pid'' then fieldProcessPID
      else if t = ''parent.stable_id'' \<or> t = ''parent.id'' then fieldParentStableID
      else if t = ''file.path'' \<or> t = ''object.file_path'' then fieldFilePath
      else if t = ''socket.addr'' \<or> t = ''object.socket_addr'' then fieldSocketAddr
      else if t = ''socket.port'' then fieldSocketPort
      else if t = ''socket'' then fieldSocket
      else if t = ''scope.type'' then fieldScopeType
      else if t = ''scope.selector'' then fieldScopeSelector
      else if t = ''container.id'' \<or> t = ''container_id'' then fieldContainerID
      else if t = ''cgroup'' then fieldCgroup
      else fieldUnknown)"

definition compileFields :: "string list \<Rightarrow> fieldID list" where
  "compileFields fs = (if length fs = 0 then [fieldLineageID] else map compileField fs)"

fun fieldName :: "fieldID \<Rightarrow> string" where
  "fieldName fieldEventID = ''event.id''"
| "fieldName fieldBehavior = ''event.behavior''"
| "fieldName fieldLineageID = ''lineage_id''"
| "fieldName fieldProcessStableID = ''process.stable_id''"
| "fieldName fieldProcessBinary = ''process.binary''"
| "fieldName fieldProcessBinaryName = ''process.binary_name''"
| "fieldName fieldProcessArgv = ''process.argv''"
| "fieldName fieldProcessSudoCommand = ''process.sudo_command''"
| "fieldName fieldProcessUID = ''process.uid''"
| "fieldName fieldProcessPID = ''process.pid''"
| "fieldName fieldParentStableID = ''parent.stable_id''"
| "fieldName fieldFilePath = ''file.path''"
| "fieldName fieldSocketAddr = ''socket.addr''"
| "fieldName fieldSocketPort = ''socket.port''"
| "fieldName fieldSocket = ''socket''"
| "fieldName fieldScopeType = ''scope.type''"
| "fieldName fieldScopeSelector = ''scope.selector''"
| "fieldName fieldContainerID = ''container.id''"
| "fieldName fieldCgroup = ''cgroup''"
| "fieldName fieldUnknown = ''''"

text \<open>\<open>opUnknown\<close> is the number 0 that \<^verbatim>\<open>compileOp\<close> returns for an unsupported operator.\<close>

datatype conditionOp =
    opUnknown | opEq | opNeq | opContains | opPrefix | opSuffix | opIn | opNotIn | opSameAs
  | opExists | opGT | opGTE | opLT | opLTE

definition compileOp :: "string \<Rightarrow> conditionOp" where
  "compileOp op =
     (let t = ToLower (TrimSpace op) in
      if t = '''' \<or> t = ''eq'' \<or> t = ''equals'' then opEq
      else if t = ''neq'' \<or> t = ''not_eq'' then opNeq
      else if t = ''contains'' then opContains
      else if t = ''prefix'' \<or> t = ''has_prefix'' then opPrefix
      else if t = ''suffix'' \<or> t = ''has_suffix'' then opSuffix
      else if t = ''in'' then opIn
      else if t = ''not_in'' then opNotIn
      else if t = ''same_as'' then opSameAs
      else if t = ''exists'' then opExists
      else if t = ''gt'' then opGT
      else if t = ''gte'' then opGTE
      else if t = ''lt'' then opLT
      else if t = ''lte'' then opLTE
      else opUnknown)"

fun opString :: "conditionOp \<Rightarrow> string" where
  "opString opGT = ''gt''"
| "opString opGTE = ''gte''"
| "opString opLT = ''lt''"
| "opString opLTE = ''lte''"
| "opString _ = ''''"

section \<open>Events\<close>

fun firstNonEmpty :: "string list \<Rightarrow> string" where
  "firstNonEmpty [] = ''''"
| "firstNonEmpty (value # values) = (if TrimSpace value \<noteq> '''' then value else firstNonEmpty values)"

text \<open>The getters of a nil event return zero values, as those of the zero event do.\<close>

definition GetEvent :: "CanonicalEvent option \<Rightarrow> CanonicalEvent" where
  "GetEvent ev = (case ev of None \<Rightarrow> CanonicalEvent_zero | Some e \<Rightarrow> e)"

definition eventBehavior :: "CanonicalEvent option \<Rightarrow> string" where
  "eventBehavior ev =
     (case ev of None \<Rightarrow> ''''
      | Some e \<Rightarrow> (let behavior = TrimSpace (ev_behavior e) in
                   if behavior \<noteq> '''' then ToLower behavior else ''''))"

definition sudoOptionNeedsValue :: "string \<Rightarrow> bool" where
  "sudoOptionNeedsValue arg = (arg \<in> set
     [''-C'', ''-D'', ''-g'', ''-h'', ''-p'', ''-R'', ''-r'', ''-T'', ''-t'', ''-u'',
      ''--chdir'', ''--chroot'', ''--close-from'', ''--command-timeout'', ''--group'',
      ''--host'', ''--prompt'', ''--role'', ''--type'', ''--user''])"

definition sudoFlagWithoutValue :: "string \<Rightarrow> bool" where
  "sudoFlagWithoutValue arg = (arg \<in> set
     [''-A'', ''-b'', ''-E'', ''-H'', ''-k'', ''-n'', ''-P'', ''-S'',
      ''--askpass'', ''--background'', ''--non-interactive'', ''--preserve-env'',
      ''--preserve-groups'', ''--reset-timestamp'', ''--set-home'', ''--stdin''])"

definition sudoOptionHasInlineValue :: "string \<Rightarrow> bool" where
  "sudoOptionHasInlineValue arg =
     (let (name, _, ok) = Cut arg ''='' in
      if ok \<and> HasPrefix name ''--'' then sudoOptionNeedsValue name \<or> name = ''--preserve-env''
      else length arg > 2 \<and> arg ! 1 \<in> set ''CDghprTtu'')"

fun sudoCommand_loop :: "string list \<Rightarrow> string" where
  "sudoCommand_loop [] = ''''"
| "sudoCommand_loop (arg # rest) =
     (if arg = ''--'' then (case rest of [] \<Rightarrow> '''' | next # _ \<Rightarrow> Base next)
      else if \<not> HasPrefix arg ''-'' \<or> arg = ''-'' then Base arg
      else if sudoOptionHasInlineValue arg \<or> sudoFlagWithoutValue arg then sudoCommand_loop rest
      else if sudoOptionNeedsValue arg \<and> rest \<noteq> [] then sudoCommand_loop (tl rest)
      else '''')"

definition sudoCommand :: "string list \<Rightarrow> string" where
  "sudoCommand argv =
     (if length argv < 2 \<or> Base (hd argv) \<noteq> ''sudo'' then ''''
      else if list_ex (\<lambda>arg. ContainsAny arg [CHR 0x22, CHR 0x27]) (tl argv) then ''''
      else sudoCommand_loop (tl argv))"

text \<open>\<^verbatim>\<open>strconv.FormatUint(uint64(n), 10)\<close>.\<close>

definition FormatUint :: "uint32 \<Rightarrow> string" where
  "FormatUint n = digits (unat n)"

record eventView =
  v_ev :: "CanonicalEvent option"
  v_eventID :: string
  v_behavior :: string
  v_lineageID :: string
  v_processStableID :: string
  v_processBinary :: string
  v_processBinaryName :: string
  v_processArgv :: string
  v_processSudoCommand :: string
  v_processUID :: string
  v_processPID :: string
  v_parentStableID :: string
  v_filePath :: string
  v_socketAddr :: string
  v_socketPort :: string
  v_socket :: string
  v_scopeType :: string
  v_scopeSelector :: string
  v_containerID :: string
  v_cgroup :: string
  v_occurredAtNs :: uint64
  v_monoNs :: uint64

definition eventView_zero :: "CanonicalEvent option \<Rightarrow> eventView" where
  "eventView_zero ev = \<lparr> v_ev = ev, v_eventID = '''', v_behavior = '''', v_lineageID = '''',
     v_processStableID = '''', v_processBinary = '''', v_processBinaryName = '''', v_processArgv = '''',
     v_processSudoCommand = '''', v_processUID = '''', v_processPID = '''', v_parentStableID = '''',
     v_filePath = '''', v_socketAddr = '''', v_socketPort = '''', v_socket = '''', v_scopeType = '''',
     v_scopeSelector = '''', v_containerID = '''', v_cgroup = '''', v_occurredAtNs = 0, v_monoNs = 0 \<rparr>"

definition viewProcess :: "ProcessRef \<Rightarrow> eventView \<Rightarrow> eventView" where
  "viewProcess proc view = view\<lparr>
     v_processStableID := pr_stable_id proc,
     v_processBinary := pr_binary proc,
     v_processBinaryName := Base (pr_binary proc),
     v_processArgv := Join (pr_argv proc) '' '',
     v_processSudoCommand := (if Base (pr_binary proc) = ''sudo'' \<and> pr_argv_boundaries_trusted proc
                              then sudoCommand (pr_argv proc) else v_processSudoCommand view),
     v_processUID := FormatUint (pr_uid proc),
     v_processPID := (if pr_pid proc \<noteq> 0 then FormatUint (pr_pid proc) else v_processPID view) \<rparr>"

definition viewObject :: "ObjectRef \<Rightarrow> eventView \<Rightarrow> eventView" where
  "viewObject obj view =
     (let view = view\<lparr> v_filePath := obj_file_path obj, v_socket := obj_socket_addr obj \<rparr>;
          (addr, port, ok) = Cut (v_socket view) '':''
      in if ok then view\<lparr> v_socketAddr := addr, v_socketPort := port \<rparr>
         else view\<lparr> v_socketAddr := v_socket view \<rparr>)"

definition viewScope :: "RuntimeScope \<Rightarrow> eventView \<Rightarrow> eventView" where
  "viewScope scope view = view\<lparr> v_scopeType := scope_type scope, v_scopeSelector := scope_selector scope \<rparr>"

definition newEventView :: "CanonicalEvent option \<Rightarrow> eventView" where
  "newEventView ev =
     (case ev of None \<Rightarrow> eventView_zero ev
      | Some e \<Rightarrow>
         let view = (eventView_zero ev)\<lparr>
               v_eventID := ev_id e,
               v_behavior := eventBehavior ev,
               v_lineageID := ev_lineage_id e,
               v_parentStableID := ev_parent_stable_id e,
               v_containerID := ev_container_id e,
               v_cgroup := ev_cgroup e,
               v_occurredAtNs := ev_occurred_at_ns e,
               v_monoNs := ev_mono_ns e \<rparr>;
             view = (case ev_subject_proc e of None \<Rightarrow> view | Some proc \<Rightarrow> viewProcess proc view);
             view = (case ev_object e of None \<Rightarrow> view | Some obj \<Rightarrow> viewObject obj view)
         in case ev_scope e of None \<Rightarrow> view | Some scope \<Rightarrow> viewScope scope view)"

fun view_field :: "eventView \<Rightarrow> fieldID \<Rightarrow> string" where
  "view_field v fieldEventID = v_eventID v"
| "view_field v fieldBehavior = v_behavior v"
| "view_field v fieldLineageID = v_lineageID v"
| "view_field v fieldProcessStableID = v_processStableID v"
| "view_field v fieldProcessBinary = v_processBinary v"
| "view_field v fieldProcessBinaryName = v_processBinaryName v"
| "view_field v fieldProcessArgv = v_processArgv v"
| "view_field v fieldProcessSudoCommand = v_processSudoCommand v"
| "view_field v fieldProcessUID = v_processUID v"
| "view_field v fieldProcessPID = v_processPID v"
| "view_field v fieldParentStableID = v_parentStableID v"
| "view_field v fieldFilePath = v_filePath v"
| "view_field v fieldSocketAddr = v_socketAddr v"
| "view_field v fieldSocketPort = v_socketPort v"
| "view_field v fieldSocket = v_socket v"
| "view_field v fieldScopeType = v_scopeType v"
| "view_field v fieldScopeSelector = v_scopeSelector v"
| "view_field v fieldContainerID = v_containerID v"
| "view_field v fieldCgroup = v_cgroup v"
| "view_field v fieldUnknown = ''''"

definition view_eventTime :: "eventView \<Rightarrow> uint64" where
  "view_eventTime v = (if v_occurredAtNs v \<noteq> 0 then v_occurredAtNs v else v_monoNs v)"

text \<open>The field of an event by its name, as the uncompiled interpreter reads it.\<close>

definition eventField :: "CanonicalEvent option \<Rightarrow> string \<Rightarrow> string" where
  "eventField ev name =
     (case ev of None \<Rightarrow> ''''
      | Some e \<Rightarrow>
         let t = TrimSpace name; proc = GetSubjectProc e; obj = GetObject e in
         if t = ''event.id'' \<or> t = ''id'' then ev_id e
         else if t = ''event.behavior'' \<or> t = ''behavior'' then ev_behavior e
         else if t = ''lineage_id'' \<or> t = ''lineage.id'' then ev_lineage_id e
         else if t = ''process.stable_id'' \<or> t = ''process.id'' then pr_stable_id proc
         else if t = ''process.binary'' \<or> t = ''binary'' then pr_binary proc
         else if t = ''process.argv'' \<or> t = ''argv'' then Join (pr_argv proc) '' ''
         else if t = ''process.sudo_command'' then
           (if Base (pr_binary proc) \<noteq> ''sudo'' \<or> \<not> pr_argv_boundaries_trusted proc then ''''
            else sudoCommand (pr_argv proc))
         else if t = ''process.uid'' \<or> t = ''uid'' then FormatUint (pr_uid proc)
         else if t = ''process.pid'' \<or> t = ''pid'' then
           (if pr_pid proc = 0 then '''' else FormatUint (pr_pid proc))
         else if t = ''parent.stable_id'' \<or> t = ''parent.id'' then ev_parent_stable_id e
         else if t = ''file.path'' \<or> t = ''object.file_path'' then obj_file_path obj
         else if t = ''socket.addr'' \<or> t = ''object.socket_addr'' then
           (let (addr, _, ok) = Cut (obj_socket_addr obj) '':'' in if ok then addr else obj_socket_addr obj)
         else if t = ''socket.port'' then
           (let (_, port, ok) = Cut (obj_socket_addr obj) '':'' in if ok then port else '''')
         else if t = ''socket'' then obj_socket_addr obj
         else if t = ''scope.type'' then (case ev_scope e of None \<Rightarrow> '''' | Some sc \<Rightarrow> scope_type sc)
         else if t = ''scope.selector'' then (case ev_scope e of None \<Rightarrow> '''' | Some sc \<Rightarrow> scope_selector sc)
         else if t = ''container.id'' \<or> t = ''container_id'' then ev_container_id e
         else if t = ''cgroup'' then ev_cgroup e
         else '''')"

section \<open>Compiling conditions\<close>

record compiledCondition =
  cc_field :: fieldID
  cc_op :: conditionOp
  cc_values :: "string list"
  cc_matcher :: "Matcher option"
  cc_step :: string
  cc_stepField :: fieldID
  cc_cost :: int

text \<open>The two switches of \<^verbatim>\<open>conditionCost\<close>, in the order of the source.\<close>

definition conditionCost :: "compiledCondition \<Rightarrow> int" where
  "conditionCost cond =
     (case cc_op cond of
        opExists \<Rightarrow> 1
      | opEq \<Rightarrow> 2 | opIn \<Rightarrow> 2 | opNeq \<Rightarrow> 2 | opNotIn \<Rightarrow> 2
      | opGT \<Rightarrow> 3 | opGTE \<Rightarrow> 3 | opLT \<Rightarrow> 3 | opLTE \<Rightarrow> 3
      | opSameAs \<Rightarrow> 4
      | opPrefix \<Rightarrow> 5 | opSuffix \<Rightarrow> 5
      | opContains \<Rightarrow> 8
      | opUnknown \<Rightarrow> 20) +
     (case cc_field cond of
        fieldProcessArgv \<Rightarrow> 4
      | fieldSocketAddr \<Rightarrow> 1 | fieldSocketPort \<Rightarrow> 1
      | _ \<Rightarrow> 0)"

definition compileMatcher :: "string \<Rightarrow> conditionOp \<Rightarrow> string list \<Rightarrow> Matcher option" where
  "compileMatcher strategy op values =
     (case op of
        opEq \<Rightarrow> Some (NewExact values) | opIn \<Rightarrow> Some (NewExact values)
      | opNeq \<Rightarrow> Some (NewExact values) | opNotIn \<Rightarrow> Some (NewExact values)
      | opPrefix \<Rightarrow> Some (NewPrefix strategy values)
      | opSuffix \<Rightarrow> Some (NewSuffix strategy values)
      | opContains \<Rightarrow> Some (NewContains strategy values)
      | _ \<Rightarrow> None)"

fun normalizeConditionValues_loop :: "string list \<Rightarrow> string list \<Rightarrow> string list" where
  "normalizeConditionValues_loop seen [] = []"
| "normalizeConditionValues_loop seen (v # values) =
     (let value = TrimSpace v in
      if value = '''' then normalizeConditionValues_loop seen values
      else if value \<in> set seen then normalizeConditionValues_loop seen values
      else value # normalizeConditionValues_loop (value # seen) values)"

definition normalizeConditionValues :: "string list \<Rightarrow> string list" where
  "normalizeConditionValues values = normalizeConditionValues_loop [] values"

definition contentValuesFromSnapshot :: "ContentSnapshot \<Rightarrow> string \<Rightarrow> string list" where
  "contentValuesFromSnapshot content ref =
     (case map_of (ct_ContextRefs content) ref of
        Some item \<Rightarrow> rr_Values item
      | None \<Rightarrow> (case map_of (ct_IOCRefs content) ref of Some item \<Rightarrow> rr_Values item | None \<Rightarrow> []))"

text \<open>The values of a condition before they are normalised: its list, its value, its reference.\<close>

definition conditionValues :: "ContentSnapshot \<Rightarrow> ConditionSpec \<Rightarrow> string list" where
  "conditionValues content cond =
     cs_Values cond @ (if cs_Value cond \<noteq> '''' then [cs_Value cond] else [])
       @ (if cs_Ref cond \<noteq> '''' then contentValuesFromSnapshot content (cs_Ref cond) else [])"

definition compileCondition1 :: "string \<Rightarrow> ContentSnapshot \<Rightarrow> ConditionSpec \<Rightarrow> compiledCondition" where
  "compileCondition1 strategy content cond =
     (let values = conditionValues content cond;
          op = compileOp (cs_Op cond);
          compiled = \<lparr> cc_field = compileField (cs_Field cond), cc_op = op,
             cc_values = normalizeConditionValues values,
             cc_matcher = compileMatcher strategy op values,
             cc_step = TrimSpace (cs_Step cond),
             cc_stepField = compileField (firstNonEmpty [cs_StepField cond, cs_Field cond]),
             cc_cost = 0 \<rparr>
      in compiled\<lparr> cc_cost := conditionCost compiled \<rparr>)"

definition compileConditions :: "string \<Rightarrow> ContentSnapshot \<Rightarrow> ConditionSpec list \<Rightarrow> compiledCondition list" where
  "compileConditions strategy content conditions =
     sort_key cc_cost (map (compileCondition1 strategy content) conditions)"

definition compiledCondition_zero :: compiledCondition where
  "compiledCondition_zero = \<lparr> cc_field = fieldUnknown, cc_op = opUnknown, cc_values = [],
     cc_matcher = None, cc_step = '''', cc_stepField = fieldUnknown, cc_cost = 0 \<rparr>"

definition compileCondition :: "string \<Rightarrow> ContentSnapshot \<Rightarrow> ConditionSpec \<Rightarrow> compiledCondition" where
  "compileCondition strategy content cond =
     (case compileConditions strategy content [cond] of [] \<Rightarrow> compiledCondition_zero | c # _ \<Rightarrow> c)"

text \<open>\<open>conditionNodeZero\<close> is the node with kind 0 that an empty specification compiles to.\<close>

datatype compiledConditionNode =
    conditionNodeAll "compiledConditionNode list"
  | conditionNodeAny "compiledConditionNode list"
  | conditionNodeNot compiledConditionNode
  | conditionNodeLeaf compiledCondition
  | conditionNodeZero

fun compileConditionNode :: "string \<Rightarrow> ContentSnapshot \<Rightarrow> ConditionNodeSpec \<Rightarrow> compiledConditionNode" where
  "compileConditionNode strategy content (ConditionNodeSpec allNodes anyNodes notNode cond) =
     (case cond of
        Some c \<Rightarrow> conditionNodeLeaf (compileCondition strategy content c)
      | None \<Rightarrow> (case notNode of
          Some n \<Rightarrow> conditionNodeNot (compileConditionNode strategy content n)
        | None \<Rightarrow> (case allNodes of
            Some ns \<Rightarrow> conditionNodeAll (map (compileConditionNode strategy content) ns)
          | None \<Rightarrow> (case anyNodes of
              Some ns \<Rightarrow> conditionNodeAny (map (compileConditionNode strategy content) ns)
            | None \<Rightarrow> conditionNodeZero))))"

fun appendCompiledNodeConditions :: "compiledCondition list \<Rightarrow> compiledConditionNode \<Rightarrow> compiledCondition list" where
  "appendCompiledNodeConditions out (conditionNodeLeaf cond) = out @ [cond]"
| "appendCompiledNodeConditions out (conditionNodeNot child) = appendCompiledNodeConditions out child"
| "appendCompiledNodeConditions out (conditionNodeAll children) =
     fold (\<lambda>child out. appendCompiledNodeConditions out child) children out"
| "appendCompiledNodeConditions out (conditionNodeAny children) =
     fold (\<lambda>child out. appendCompiledNodeConditions out child) children out"
| "appendCompiledNodeConditions out conditionNodeZero = out"

section \<open>Evaluating conditions\<close>

definition recordConditionResult :: "bool \<Rightarrow> Metrics \<Rightarrow> bool \<times> Metrics" where
  "recordConditionResult matched m =
     (matched, if matched then m\<lparr> m_ConditionsMatched := m_ConditionsMatched m + 1 \<rparr> else m)"

fun firstValue :: "string list \<Rightarrow> string" where
  "firstValue [] = ''''"
| "firstValue (value # values) = (if value \<noteq> '''' then value else firstValue values)"

text \<open>The order of IEEE numbers: NaN compares with nothing.\<close>

fun float_less :: "float64 \<Rightarrow> float64 \<Rightarrow> bool" where
  "float_less (Finite a) (Finite b) = (a < b)"
| "float_less NegInf (Finite b) = True"
| "float_less NegInf PosInf = True"
| "float_less (Finite a) PosInf = True"
| "float_less _ _ = False"

definition float_le :: "float64 \<Rightarrow> float64 \<Rightarrow> bool" where
  "float_le a b = (float_less a b \<or> (a = b \<and> a \<noteq> NaN))"

definition compareNumber :: "(string \<Rightarrow> float64 option) \<Rightarrow> string \<Rightarrow> string \<Rightarrow> string \<Rightarrow> bool" where
  "compareNumber pf actual expected op =
     (case pf actual of None \<Rightarrow> False
      | Some a \<Rightarrow> (case pf expected of None \<Rightarrow> False
        | Some b \<Rightarrow>
            if op = ''gt'' then float_less b a
            else if op = ''gte'' then float_le b a
            else if op = ''lt'' then float_less a b
            else if op = ''lte'' then float_le a b
            else False))"

definition countRead :: "Metrics \<Rightarrow> Metrics" where
  "countRead m = m\<lparr> m_ConditionsEvaluated := m_ConditionsEvaluated m + 1, m_FieldReads := m_FieldReads m + 1 \<rparr>"

definition matcherAccepts :: "Matcher option \<Rightarrow> string \<Rightarrow> bool" where
  "matcherAccepts mt actual = (case mt of None \<Rightarrow> False | Some t \<Rightarrow> Match t actual)"

definition sameAsStep :: "cepGroupState option \<Rightarrow> string \<Rightarrow> string \<Rightarrow> string \<Rightarrow> bool" where
  "sameAsStep st step name actual =
     (case st of None \<Rightarrow> False
      | Some g \<Rightarrow>
          if step = '''' then False
          else (case map_of (gs_Values g) step of None \<Rightarrow> False
                | Some stepValues \<Rightarrow> actual \<noteq> '''' \<and> actual = get_or '''' stepValues name))"

definition matchCompiledCondition ::
  "(string \<Rightarrow> float64 option) \<Rightarrow> eventView \<Rightarrow> compiledCondition \<Rightarrow> cepGroupState option \<Rightarrow> Metrics \<Rightarrow> bool \<times> Metrics" where
  "matchCompiledCondition pf view cond st m =
     (let actual = view_field view (cc_field cond);
          m = countRead m;
          accepts = matcherAccepts (cc_matcher cond) actual;
          compares = compareNumber pf actual (firstValue (cc_values cond)) (opString (cc_op cond))
      in case cc_op cond of
           opEq \<Rightarrow> recordConditionResult accepts m
         | opIn \<Rightarrow> recordConditionResult accepts m
         | opNeq \<Rightarrow> recordConditionResult (\<not> accepts) m
         | opNotIn \<Rightarrow> recordConditionResult (\<not> accepts) m
         | opContains \<Rightarrow> recordConditionResult accepts m
         | opPrefix \<Rightarrow> recordConditionResult accepts m
         | opSuffix \<Rightarrow> recordConditionResult accepts m
         | opSameAs \<Rightarrow> recordConditionResult (sameAsStep st (cc_step cond) (fieldName (cc_stepField cond)) actual) m
         | opExists \<Rightarrow> recordConditionResult (actual \<noteq> '''') m
         | opGT \<Rightarrow> recordConditionResult compares m
         | opGTE \<Rightarrow> recordConditionResult compares m
         | opLT \<Rightarrow> recordConditionResult compares m
         | opLTE \<Rightarrow> recordConditionResult compares m
         | opUnknown \<Rightarrow> recordConditionResult False m)"

fun matchCompiledConditions ::
  "(string \<Rightarrow> float64 option) \<Rightarrow> eventView \<Rightarrow> compiledCondition list \<Rightarrow> cepGroupState option \<Rightarrow> Metrics \<Rightarrow> bool \<times> Metrics" where
  "matchCompiledConditions pf view [] st m = (True, m)"
| "matchCompiledConditions pf view (cond # conds) st m =
     (let (ok, m) = matchCompiledCondition pf view cond st m
      in if \<not> ok then (False, m) else matchCompiledConditions pf view conds st m)"

fun matchCompiledConditionNode ::
    "(string \<Rightarrow> float64 option) \<Rightarrow> eventView \<Rightarrow> compiledConditionNode \<Rightarrow> cepGroupState option \<Rightarrow> Metrics \<Rightarrow> bool \<times> Metrics"
  and matchAllConditionNodes ::
    "(string \<Rightarrow> float64 option) \<Rightarrow> eventView \<Rightarrow> compiledConditionNode list \<Rightarrow> cepGroupState option \<Rightarrow> Metrics \<Rightarrow> bool \<times> Metrics"
  and matchAnyConditionNode ::
    "(string \<Rightarrow> float64 option) \<Rightarrow> eventView \<Rightarrow> compiledConditionNode list \<Rightarrow> cepGroupState option \<Rightarrow> Metrics \<Rightarrow> bool \<times> Metrics"
where
  "matchCompiledConditionNode pf view (conditionNodeLeaf cond) st m = matchCompiledCondition pf view cond st m"
| "matchCompiledConditionNode pf view (conditionNodeNot child) st m =
     (let (ok, m) = matchCompiledConditionNode pf view child st m in (\<not> ok, m))"
| "matchCompiledConditionNode pf view (conditionNodeAll children) st m = matchAllConditionNodes pf view children st m"
| "matchCompiledConditionNode pf view (conditionNodeAny children) st m = matchAnyConditionNode pf view children st m"
| "matchCompiledConditionNode pf view conditionNodeZero st m = (False, m)"
| "matchAllConditionNodes pf view [] st m = (True, m)"
| "matchAllConditionNodes pf view (n # ns) st m =
     (let (ok, m) = matchCompiledConditionNode pf view n st m
      in if \<not> ok then (False, m) else matchAllConditionNodes pf view ns st m)"
| "matchAnyConditionNode pf view [] st m = (False, m)"
| "matchAnyConditionNode pf view (n # ns) st m =
     (let (ok, m) = matchCompiledConditionNode pf view n st m
      in if ok then (True, m) else matchAnyConditionNode pf view ns st m)"

text \<open>
  \<^verbatim>\<open>matchCompiledConditions(...) && matchCompiledConditionNode(...)\<close>, as the three kinds of rules
  write it: a nil group matches, and the group is read only if the conditions hold.
\<close>

definition matchConditionsAndGroup ::
  "(string \<Rightarrow> float64 option) \<Rightarrow> eventView \<Rightarrow> compiledCondition list \<Rightarrow> compiledConditionNode option \<Rightarrow> cepGroupState option \<Rightarrow> Metrics \<Rightarrow> bool \<times> Metrics" where
  "matchConditionsAndGroup pf view conds grp st m =
     (let (ok, m) = matchCompiledConditions pf view conds st m
      in if \<not> ok then (False, m)
         else (case grp of None \<Rightarrow> (True, m) | Some n \<Rightarrow> matchCompiledConditionNode pf view n st m))"

section \<open>The uncompiled interpreter\<close>

definition contentValues :: "ContentSnapshot \<Rightarrow> string \<Rightarrow> string list" where
  "contentValues refs ref =
     (case map_of (ct_ContextRefs refs) ref of
        Some item \<Rightarrow> rr_Values item
      | None \<Rightarrow> (case map_of (ct_IOCRefs refs) ref of Some item \<Rightarrow> rr_Values item | None \<Rightarrow> []))"

definition containsString :: "string list \<Rightarrow> string \<Rightarrow> bool" where
  "containsString values actual = list_ex (\<lambda>value. actual = value) values"

definition matchCondition ::
  "(string \<Rightarrow> float64 option) \<Rightarrow> ContentSnapshot \<Rightarrow> CanonicalEvent option \<Rightarrow> ConditionSpec \<Rightarrow> cepGroupState option \<Rightarrow> Metrics \<Rightarrow> bool \<times> Metrics" where
  "matchCondition pf refs ev cond st m =
     (let m = countRead m;
          actual = eventField ev (cs_Field cond);
          values = cs_Values cond @ (if cs_Value cond \<noteq> '''' then [cs_Value cond] else [])
                     @ (if cs_Ref cond \<noteq> '''' then contentValues refs (cs_Ref cond) else []);
          op = ToLower (TrimSpace (cs_Op cond));
          op = (if op = '''' then ''eq'' else op)
      in if op = ''eq'' \<or> op = ''equals'' then recordConditionResult (containsString values actual) m
         else if op = ''neq'' \<or> op = ''not_eq'' then recordConditionResult (\<not> containsString values actual) m
         else if op = ''contains'' then
           recordConditionResult (list_ex (\<lambda>value. value \<noteq> '''' \<and> Contains actual value) values) m
         else if op = ''prefix'' \<or> op = ''has_prefix'' then
           recordConditionResult (list_ex (\<lambda>value. value \<noteq> '''' \<and> HasPrefix actual value) values) m
         else if op = ''suffix'' \<or> op = ''has_suffix'' then
           recordConditionResult (list_ex (\<lambda>value. value \<noteq> '''' \<and> HasSuffix actual value) values) m
         else if op = ''in'' then recordConditionResult (containsString values actual) m
         else if op = ''not_in'' then recordConditionResult (\<not> containsString values actual) m
         else if op = ''same_as'' then
           recordConditionResult
             (sameAsStep st (cs_Step cond) (firstNonEmpty [cs_StepField cond, cs_Field cond]) actual) m
         else if op = ''exists'' then recordConditionResult (actual \<noteq> '''') m
         else if op = ''gt'' \<or> op = ''gte'' \<or> op = ''lt'' \<or> op = ''lte'' then
           recordConditionResult (compareNumber pf actual (firstValue values) op) m
         else recordConditionResult False m)"

fun matchConditions ::
  "(string \<Rightarrow> float64 option) \<Rightarrow> ContentSnapshot \<Rightarrow> CanonicalEvent option \<Rightarrow> ConditionSpec list \<Rightarrow> cepGroupState option \<Rightarrow> Metrics \<Rightarrow> bool \<times> Metrics" where
  "matchConditions pf refs ev [] st m = (True, m)"
| "matchConditions pf refs ev (cond # conds) st m =
     (let (ok, m) = matchCondition pf refs ev cond st m
      in if \<not> ok then (False, m) else matchConditions pf refs ev conds st m)"

definition matchStep ::
  "(string \<Rightarrow> float64 option) \<Rightarrow> ContentSnapshot \<Rightarrow> CanonicalEvent option \<Rightarrow> StepSpec \<Rightarrow> cepGroupState option \<Rightarrow> Metrics \<Rightarrow> bool \<times> Metrics" where
  "matchStep pf refs ev step st m =
     (let behavior = TrimSpace (st_Behavior step)
      in if behavior \<noteq> '''' \<and> eventBehavior ev \<noteq> NormalizeBehavior behavior then (False, m)
         else matchConditions pf refs ev (st_Conditions step) st m)"

section \<open>What a condition means\<close>

text \<open>
  A condition read as a statement about the event: no compilation, no matcher, no order. It is the
  specification of \<^const>\<open>compileConditions\<close> followed by \<^const>\<open>matchCompiledConditions\<close>.
\<close>

definition condition_holds ::
  "(string \<Rightarrow> float64 option) \<Rightarrow> ContentSnapshot \<Rightarrow> eventView \<Rightarrow> cepGroupState option \<Rightarrow> ConditionSpec \<Rightarrow> bool" where
  "condition_holds pf content view st cond =
     (let actual = view_field view (compileField (cs_Field cond));
          vs = conditionValues content cond;
          number = firstValue (map TrimSpace vs);
          op = compileOp (cs_Op cond)
      in if op \<in> {opEq, opIn} then actual \<noteq> '''' \<and> actual \<in> set vs
         else if op \<in> {opNeq, opNotIn} then \<not> (actual \<noteq> '''' \<and> actual \<in> set vs)
         else if op = opContains then \<exists>p\<in>set vs. p \<noteq> '''' \<and> (\<exists>a b. actual = a @ p @ b)
         else if op = opPrefix then \<exists>p\<in>set vs. p \<noteq> '''' \<and> (\<exists>b. actual = p @ b)
         else if op = opSuffix then \<exists>p\<in>set vs. p \<noteq> '''' \<and> (\<exists>a. actual = a @ p)
         else if op = opSameAs then
           sameAsStep st (TrimSpace (cs_Step cond))
             (fieldName (compileField (firstNonEmpty [cs_StepField cond, cs_Field cond]))) actual
         else if op = opExists then actual \<noteq> ''''
         else if op \<in> {opGT, opGTE, opLT, opLTE} then compareNumber pf actual number (opString op)
         else False)"

text \<open>The same for compiled conditions and trees, without the metrics.\<close>

definition ccond_holds :: "(string \<Rightarrow> float64 option) \<Rightarrow> eventView \<Rightarrow> cepGroupState option \<Rightarrow> compiledCondition \<Rightarrow> bool" where
  "ccond_holds pf view st cond =
     (let actual = view_field view (cc_field cond);
          accepts = matcherAccepts (cc_matcher cond) actual
      in if cc_op cond \<in> {opEq, opIn, opContains, opPrefix, opSuffix} then accepts
         else if cc_op cond \<in> {opNeq, opNotIn} then \<not> accepts
         else if cc_op cond = opSameAs then sameAsStep st (cc_step cond) (fieldName (cc_stepField cond)) actual
         else if cc_op cond = opExists then actual \<noteq> ''''
         else if cc_op cond = opUnknown then False
         else compareNumber pf actual (firstValue (cc_values cond)) (opString (cc_op cond)))"

fun cnode_holds :: "(string \<Rightarrow> float64 option) \<Rightarrow> eventView \<Rightarrow> cepGroupState option \<Rightarrow> compiledConditionNode \<Rightarrow> bool" where
  "cnode_holds pf view st (conditionNodeLeaf cond) = ccond_holds pf view st cond"
| "cnode_holds pf view st (conditionNodeNot child) = (\<not> cnode_holds pf view st child)"
| "cnode_holds pf view st (conditionNodeAll children) = list_all (cnode_holds pf view st) children"
| "cnode_holds pf view st (conditionNodeAny children) = list_ex (cnode_holds pf view st) children"
| "cnode_holds pf view st conditionNodeZero = False"

definition group_holds ::
  "(string \<Rightarrow> float64 option) \<Rightarrow> eventView \<Rightarrow> cepGroupState option \<Rightarrow> compiledCondition list \<Rightarrow> compiledConditionNode option \<Rightarrow> bool" where
  "group_holds pf view st conds grp =
     (list_all (ccond_holds pf view st) conds \<and> (case grp of None \<Rightarrow> True | Some n \<Rightarrow> cnode_holds pf view st n))"

text \<open>
  What evaluating conditions does to the metrics: \<open>k\<close> conditions were evaluated, each reading one
  field, and \<open>j\<close> of them matched.
\<close>

definition counted :: "nat \<Rightarrow> nat \<Rightarrow> Metrics \<Rightarrow> Metrics \<Rightarrow> bool" where
  "counted k j m m' \<longleftrightarrow> j \<le> k \<and>
     m' = m\<lparr> m_ConditionsEvaluated := m_ConditionsEvaluated m + of_nat k,
             m_FieldReads := m_FieldReads m + of_nat k,
             m_ConditionsMatched := m_ConditionsMatched m + of_nat j \<rparr>"

section \<open>Lemmas\<close>

lemma counted_refl [simp]: "counted 0 0 m m"
  by (simp add: counted_def)

lemma counted_trans: "counted k j m m' \<Longrightarrow> counted k' j' m' m'' \<Longrightarrow> counted (k + k') (j + j') m m''"
  by (auto simp: counted_def algebra_simps)

lemma matchCompiledCondition_fst [simp]:
  "fst (matchCompiledCondition pf view cond st m) = ccond_holds pf view st cond"
  by (cases "cc_op cond")
    (simp_all add: matchCompiledCondition_def ccond_holds_def recordConditionResult_def Let_def)

lemma matchCompiledCondition_counted:
  "counted 1 (if fst (matchCompiledCondition pf view cond st m) then 1 else 0) m (snd (matchCompiledCondition pf view cond st m))"
  by (cases "cc_op cond")
    (simp_all add: matchCompiledCondition_def recordConditionResult_def Let_def countRead_def counted_def)

lemma matchCompiledConditions_fst [simp]:
  "fst (matchCompiledConditions pf view conds st m) = list_all (ccond_holds pf view st) conds"
  by (induction conds arbitrary: m) (simp_all add: split_beta)

lemma matchCompiledConditions_counted:
  "\<exists>k j. k \<le> length conds \<and>
     counted k j m (snd (matchCompiledConditions pf view conds st m)) \<and>
     (fst (matchCompiledConditions pf view conds st m) \<longrightarrow> j = k \<and> k = length conds)"
proof (induction conds arbitrary: m)
  case Nil
  then show ?case by (auto intro: exI [of _ 0])
next
  case (Cons c conds)
  obtain ok m1 where e: "matchCompiledCondition pf view c st m = (ok, m1)" by fastforce
  have c1: "counted 1 (if ok then 1 else 0) m m1"
    using matchCompiledCondition_counted [of pf view c st m] by (simp add: e)
  show ?case
  proof (cases ok)
    case False
    with c1 have "counted 1 0 m m1" by simp
    with False show ?thesis by (intro exI [of _ 1] exI [of _ 0]) (simp add: e)
  next
    case True
    from Cons.IH [of m1] obtain k j where kj: "k \<le> length conds"
      "counted k j m1 (snd (matchCompiledConditions pf view conds st m1))"
      "fst (matchCompiledConditions pf view conds st m1) \<longrightarrow> j = k \<and> k = length conds" by blast
    from c1 True have "counted 1 1 m m1" by simp
    from counted_trans [OF this kj(2)] True kj show ?thesis
      by (intro exI [of _ "Suc k"] exI [of _ "Suc j"]) (simp add: e)
  qed
qed

lemma matchAllConditionNodes_fst_if:
  "(\<And>n m. n \<in> set ns \<Longrightarrow> fst (matchCompiledConditionNode pf view n st m) = cnode_holds pf view st n) \<Longrightarrow>
   fst (matchAllConditionNodes pf view ns st m) = list_all (cnode_holds pf view st) ns"
  by (induction ns arbitrary: m) (simp_all add: split_beta)

lemma matchAnyConditionNode_fst_if:
  "(\<And>n m. n \<in> set ns \<Longrightarrow> fst (matchCompiledConditionNode pf view n st m) = cnode_holds pf view st n) \<Longrightarrow>
   fst (matchAnyConditionNode pf view ns st m) = list_ex (cnode_holds pf view st) ns"
  by (induction ns arbitrary: m) (simp_all add: split_beta)

lemma matchCompiledConditionNode_fst [simp]:
  "fst (matchCompiledConditionNode pf view n st m) = cnode_holds pf view st n"
  by (induction n arbitrary: m)
    (simp_all add: split_beta matchAllConditionNodes_fst_if matchAnyConditionNode_fst_if)

lemma matchConditionsAndGroup_fst [simp]:
  "fst (matchConditionsAndGroup pf view conds grp st m) = group_holds pf view st conds grp"
  by (cases grp) (simp_all add: matchConditionsAndGroup_def group_holds_def split_beta)

lemma set_normalizeConditionValues_loop:
  "set (normalizeConditionValues_loop seen vs) = {v \<in> TrimSpace ` set vs. v \<noteq> '''' \<and> v \<notin> set seen}"
  by (induction seen vs rule: normalizeConditionValues_loop.induct) (auto simp: Let_def)

lemma firstValue_normalize_loop:
  "'''' \<notin> set seen \<Longrightarrow> (\<forall>v\<in>set vs. TrimSpace v \<notin> set seen) \<Longrightarrow>
   firstValue (normalizeConditionValues_loop seen vs) = firstValue (map TrimSpace vs)"
  by (induction seen vs rule: normalizeConditionValues_loop.induct) (auto simp: Let_def)

lemma firstValue_normalizeConditionValues:
  "firstValue (normalizeConditionValues vs) = firstValue (map TrimSpace vs)"
  by (simp add: normalizeConditionValues_def firstValue_normalize_loop)

lemma ccond_holds_compileCondition1:
  "ccond_holds pf view st (compileCondition1 strategy content c) = condition_holds pf content view st c"
  by (cases "compileOp (cs_Op c)")
    (auto simp: ccond_holds_def compileCondition1_def condition_holds_def Let_def compileMatcher_def
      matcherAccepts_def firstValue_normalizeConditionValues exact_matcher.match_new
      prefix_matcher.match_new suffix_matcher.match_new contains_matcher.match_new
      HasPrefix_append HasSuffix_append Contains_append)

lemma compileCondition_eq [simp]: "compileCondition strategy content c = compileCondition1 strategy content c"
  by (simp add: compileCondition_def compileConditions_def)

lemma set_compileConditions [simp]:
  "set (compileConditions strategy content conds) = compileCondition1 strategy content ` set conds"
  by (simp add: compileConditions_def)

lemma list_all_compileConditions:
  "list_all (ccond_holds pf view st) (compileConditions strategy content conds) =
   list_all (condition_holds pf content view st) conds"
  by (simp add: list_all_iff ccond_holds_compileCondition1)

text \<open>
  C20. Compiling a list of conditions and matching it decides the conjunction of what the conditions
  say, whatever the matcher strategy and although the compilation reorders them by cost. The
  metrics count the evaluated conditions, one field read each, and at most those as matched; when
  all hold, each was evaluated and matched once.
\<close>

theorem compiled_conditions_decide_conjunction:
  "fst (matchCompiledConditions pf view (compileConditions strategy content conds) st m) =
     list_all (condition_holds pf content view st) conds \<and>
   (\<exists>k j. k \<le> length conds \<and>
      counted k j m (snd (matchCompiledConditions pf view (compileConditions strategy content conds) st m)) \<and>
      j = (if list_all (condition_holds pf content view st) conds then length conds else j))"
proof -
  let ?cs = "compileConditions strategy content conds"
  have len: "length ?cs = length conds" by (simp add: compileConditions_def)
  have "fst (matchCompiledConditions pf view ?cs st m) = list_all (condition_holds pf content view st) conds"
    by (simp add: list_all_compileConditions)
  with matchCompiledConditions_counted [of ?cs m pf view st] len show ?thesis by fastforce
qed

section \<open>The compiled and the uncompiled interpreter\<close>

text \<open>
  The two read an event differently in a few places, so they agree on events and conditions
  that avoid these: the subject process is present and the behaviour is already in normal form; a
  condition is plain when the uncompiled interpreter knows its field, its values are not empty and
  carry no surrounding white space, and \<^verbatim>\<open>same_as\<close> names its step and field canonically.
\<close>

definition normal_event :: "CanonicalEvent \<Rightarrow> bool" where
  "normal_event ev \<longleftrightarrow> ev_subject_proc ev \<noteq> None \<and> eventBehavior (Some ev) = ev_behavior ev"

definition plain_condition :: "ContentSnapshot \<Rightarrow> ConditionSpec \<Rightarrow> bool" where
  "plain_condition content c \<longleftrightarrow>
     compileField (cs_Field c) \<noteq> fieldProcessBinaryName \<and>
     list_all (\<lambda>v. v \<noteq> '''' \<and> TrimSpace v = v) (conditionValues content c) \<and>
     TrimSpace (cs_Step c) = cs_Step c \<and>
     fieldName (compileField (firstNonEmpty [cs_StepField c, cs_Field c])) =
       firstNonEmpty [cs_StepField c, cs_Field c]"

lemma view_field_newEventView:
  assumes "ev_subject_proc ev = Some proc"
  shows
    "view_field (newEventView (Some ev)) fieldEventID = ev_id ev"
    "view_field (newEventView (Some ev)) fieldBehavior = eventBehavior (Some ev)"
    "view_field (newEventView (Some ev)) fieldLineageID = ev_lineage_id ev"
    "view_field (newEventView (Some ev)) fieldProcessStableID = pr_stable_id proc"
    "view_field (newEventView (Some ev)) fieldProcessBinary = pr_binary proc"
    "view_field (newEventView (Some ev)) fieldProcessArgv = Join (pr_argv proc) '' ''"
    "view_field (newEventView (Some ev)) fieldProcessSudoCommand =
       (if Base (pr_binary proc) \<noteq> ''sudo'' \<or> \<not> pr_argv_boundaries_trusted proc then ''''
        else sudoCommand (pr_argv proc))"
    "view_field (newEventView (Some ev)) fieldProcessUID = FormatUint (pr_uid proc)"
    "view_field (newEventView (Some ev)) fieldProcessPID =
       (if pr_pid proc = 0 then '''' else FormatUint (pr_pid proc))"
    "view_field (newEventView (Some ev)) fieldParentStableID = ev_parent_stable_id ev"
    "view_field (newEventView (Some ev)) fieldFilePath = obj_file_path (GetObject ev)"
    "view_field (newEventView (Some ev)) fieldSocketAddr =
       (let (addr, _, ok) = Cut (obj_socket_addr (GetObject ev)) '':''
        in if ok then addr else obj_socket_addr (GetObject ev))"
    "view_field (newEventView (Some ev)) fieldSocketPort =
       (let (_, port, ok) = Cut (obj_socket_addr (GetObject ev)) '':'' in if ok then port else '''')"
    "view_field (newEventView (Some ev)) fieldSocket = obj_socket_addr (GetObject ev)"
    "view_field (newEventView (Some ev)) fieldScopeType =
       (case ev_scope ev of None \<Rightarrow> '''' | Some sc \<Rightarrow> scope_type sc)"
    "view_field (newEventView (Some ev)) fieldScopeSelector =
       (case ev_scope ev of None \<Rightarrow> '''' | Some sc \<Rightarrow> scope_selector sc)"
    "view_field (newEventView (Some ev)) fieldContainerID = ev_container_id ev"
    "view_field (newEventView (Some ev)) fieldCgroup = ev_cgroup ev"
  using assms
  by (cases "ev_object ev"; cases "ev_scope ev"; auto simp: newEventView_def viewProcess_def viewObject_def
      viewScope_def eventView_zero_def GetObject_def ObjectRef_zero_def split_beta Let_def)+

lemma view_field_eventField:
  assumes "normal_event ev" and "compileField f \<noteq> fieldProcessBinaryName"
  shows "view_field (newEventView (Some ev)) (compileField f) = eventField (Some ev) f"
proof -
  obtain proc where proc: "ev_subject_proc ev = Some proc"
    using assms(1) by (auto simp: normal_event_def)
  have b: "eventBehavior (Some ev) = ev_behavior ev" using assms(1) by (simp add: normal_event_def)
  have sp: "GetSubjectProc ev = proc" by (simp add: GetSubjectProc_def proc)
  let ?t = "TrimSpace f"
  have n: "(?t = ''process.binary_name'' \<or> ?t = ''binary_name'') = False"
    using assms(2) by (auto simp: compileField_def Let_def)
  show ?thesis
    unfolding compileField_def eventField_def option.case Let_def n if_False
      if_distrib [of "view_field (newEventView (Some ev))"] view_field_newEventView [OF proc] b sp view_field.simps(20)
    by (rule refl)
qed

lemma list_all_nonempty_cong:
  "list_all (\<lambda>v. v \<noteq> '''' \<and> Q v) vs \<Longrightarrow> (\<exists>p\<in>set vs. p \<noteq> '''' \<and> P p) = list_ex (\<lambda>v. v \<noteq> '''' \<and> P v) vs"
  by (auto simp: list_ex_iff)

lemma map_TrimSpace_id:
  "list_all (\<lambda>v. v \<noteq> '''' \<and> TrimSpace v = v) vs \<Longrightarrow> map TrimSpace vs = vs"
  by (induction vs) auto

lemma containsString_plain:
  "list_all (\<lambda>v. v \<noteq> '''' \<and> TrimSpace v = v) vs \<Longrightarrow> containsString vs a = (a \<noteq> '''' \<and> a \<in> set vs)"
  by (auto simp: containsString_def list_ex_iff list_all_iff)

text \<open>The operators in the order of the switch, for both interpreters.\<close>

lemma fst_matchCondition:
  assumes "plain_condition content c" and "normal_event ev"
  shows "fst (matchCondition pf content (Some ev) c st m) = condition_holds pf content (newEventView (Some ev)) st c"
proof -
  let ?vs = "conditionValues content c" and ?t = "ToLower (TrimSpace (cs_Op c))"
  have vs: "list_all (\<lambda>v. v \<noteq> '''' \<and> TrimSpace v = v) ?vs"
    and f: "compileField (cs_Field c) \<noteq> fieldProcessBinaryName"
    and step: "TrimSpace (cs_Step c) = cs_Step c"
    and sf: "fieldName (compileField (firstNonEmpty [cs_StepField c, cs_Field c])) =
       firstNonEmpty [cs_StepField c, cs_Field c]"
    using assms(1) by (auto simp: plain_condition_def)
  have act: "eventField (Some ev) (cs_Field c) = view_field (newEventView (Some ev)) (compileField (cs_Field c))"
    using view_field_eventField [OF assms(2) f] by simp
  have vals: "cs_Values c @ (if cs_Value c \<noteq> '''' then [cs_Value c] else [])
      @ (if cs_Ref c \<noteq> '''' then contentValues content (cs_Ref c) else []) = ?vs"
    by (simp add: conditionValues_def contentValues_def contentValuesFromSnapshot_def)
  note defs = matchCondition_def condition_holds_def Let_def recordConditionResult_def fst_conv
    act vals step sf map_TrimSpace_id [OF vs] containsString_plain [OF vs] compileOp_def
  note texts = HasPrefix_append [symmetric] HasSuffix_append [symmetric] Contains_append [symmetric]
  consider "?t = ''''" | "?t = ''eq''" | "?t = ''equals''" | "?t = ''neq''" | "?t = ''not_eq''"
    | "?t = ''contains''" | "?t = ''prefix''" | "?t = ''has_prefix''" | "?t = ''suffix''"
    | "?t = ''has_suffix''" | "?t = ''in''" | "?t = ''not_in''" | "?t = ''same_as''" | "?t = ''exists''"
    | "?t = ''gt''" | "?t = ''gte''" | "?t = ''lt''" | "?t = ''lte''"
    | "?t \<notin> {'''', ''eq'', ''equals'', ''neq'', ''not_eq'', ''contains'', ''prefix'', ''has_prefix'',
         ''suffix'', ''has_suffix'', ''in'', ''not_in'', ''same_as'', ''exists'', ''gt'', ''gte'', ''lt'', ''lte''}"
    by blast
  then show ?thesis
    by cases (simp_all add: defs texts list_ex_iff del: firstNonEmpty.simps)
qed

lemma matchConditions_fst:
  assumes "normal_event ev"
  shows "list_all (plain_condition content) conds \<Longrightarrow>
    fst (matchConditions pf content (Some ev) conds st m) =
      list_all (condition_holds pf content (newEventView (Some ev)) st) conds"
  by (induction conds arbitrary: m) (simp_all add: split_beta fst_matchCondition assms)

text \<open>
  On events in normal form and plain conditions, matching the compiled conditions gives the
  result of interpreting the specification condition by condition.
\<close>

theorem compiled_agrees_with_interpreter:
  assumes "normal_event ev" and "list_all (plain_condition content) conds"
  shows "fst (matchCompiledConditions pf (newEventView (Some ev)) (compileConditions strategy content conds) st m) =
         fst (matchConditions pf content (Some ev) conds st m')"
  using assms by (simp add: list_all_compileConditions matchConditions_fst)

theorem compiled_agrees_with_interpreter_witness:
  defines "ev \<equiv> CanonicalEvent_zero\<lparr> ev_subject_proc := Some (ProcessRef_zero\<lparr> pr_binary := ''/bin/nc'' \<rparr>) \<rparr>"
    and "conds \<equiv> [\<lparr> cs_Field = ''process.binary'', cs_Op = ''suffix'', cs_Value = ''/nc'', cs_Values = [],
                    cs_Ref = '''', cs_Step = '''', cs_StepField = '''' \<rparr>]"
    and "content \<equiv> \<lparr> ct_ContextRefs = [], ct_IOCRefs = [], ct_Rules = [] \<rparr>"
  shows "normal_event ev \<and> list_all (plain_condition content) conds \<and>
     fst (matchCompiledConditions (\<lambda>_. None) (newEventView (Some ev)) (compileConditions StrategyLinear content conds) None undefined) =
     fst (matchConditions (\<lambda>_. None) content (Some ev) conds None undefined)"
proof -
  have n: "normal_event ev"
    by (simp add: ev_def normal_event_def eventBehavior_def CanonicalEvent_zero_def)
  have t: "TrimSpace ''process.binary'' = ''process.binary''" "TrimSpace ''/nc'' = ''/nc''"
    by code_simp+
  have p: "list_all (plain_condition content) conds"
    by (simp add: conds_def content_def plain_condition_def conditionValues_def compileField_def t)
  show ?thesis
    using n p compiled_agrees_with_interpreter [OF n p, of "\<lambda>_. None" StrategyLinear None undefined undefined]
    by simp
qed

end
