(* ===== verification/Detect_Engine.thy ===== *)
theory Detect_Engine
  imports Detect_Rules
begin

text \<open>
  The detection engine of \<^verbatim>\<open>internal/endpoint/detection\<close>: the compilation of the effective rules into
  the indexes by behaviour (\<^verbatim>\<open>compiled.go\<close>), the expression, sequence and correlation rules, the
  suppression table and the emitted signals (\<^verbatim>\<open>engine.go\<close>, \<^verbatim>\<open>correlate.go\<close>).

  The engine is a record that every operation returns updated. A rule state and a group state are
  Go pointers owned by the maps of the engine; the model reads a group from its map and writes it
  back where the source mutates it. What the engine asks of its surroundings is the record
  \<open>detectEnv\<close>: the number parser, the order in which Go ranges over a map, and the wall clock, which
  may depend on the state and so may answer differently each time it is read.
\<close>

section \<open>Compiled rules\<close>

record compiledSuppression =
  sp_within :: duration
  sp_by :: "fieldID list"

record compiledExpr =
  xp_conditions :: "compiledCondition list"
  xp_conditionGroup :: "compiledConditionNode option"
  xp_suppression :: compiledSuppression

record compiledStep =
  sk_id :: string
  sk_behavior :: string
  sk_conditions :: "compiledCondition list"
  sk_conditionGroup :: "compiledConditionNode option"
  sk_saveFields :: "fieldID list"

record compiledSequence =
  cq_within :: duration
  cq_by :: "fieldID list"
  cq_steps :: "compiledStep list"

datatype compiledRuleKind = compiledRuleNone | compiledRuleExpr | compiledRuleSequence

record compiledRule =
  ru_rule :: effectiveRule
  ru_kind :: compiledRuleKind
  ru_expr :: compiledExpr
  ru_sequence :: compiledSequence

record compiledSequenceCandidate =
  ca_rule :: compiledRule
  ca_stepIndex :: nat
  ca_firstStep :: bool

record compiledRuntime =
  rt_byBehavior :: "(string, compiledRule list) gomap"
  rt_behaviorAgnostic :: "compiledRule list"

record compiledSequenceRuntime =
  qt_firstByBehavior :: "(string, compiledSequenceCandidate list) gomap"
  qt_nextByBehavior :: "(string, compiledSequenceCandidate list) gomap"
  qt_behaviorAgnostic :: "compiledSequenceCandidate list"

text \<open>\<^verbatim>\<open>behaviors\<close> maps names to true: the list of its keys.\<close>

record compiledFact =
  fc_id :: string
  fc_behaviors :: "string list"
  fc_conditions :: "compiledCondition list"
  fc_conditionGroup :: "compiledConditionNode option"

record compiledCorrelateRule =
  cl_rule :: effectiveRule
  cl_within :: duration
  cl_by :: "fieldID list"
  cl_facts :: "compiledFact list"

type_synonym compiledCorrelateRuntime = "(string, compiledCorrelateRule list) gomap"

definition compiledExpr_zero :: compiledExpr where
  "compiledExpr_zero = \<lparr> xp_conditions = [], xp_conditionGroup = None,
     xp_suppression = \<lparr> sp_within = 0, sp_by = [] \<rparr> \<rparr>"

definition compiledSequence_zero :: compiledSequence where
  "compiledSequence_zero = \<lparr> cq_within = 0, cq_by = [], cq_steps = [] \<rparr>"

definition runtimeType :: "effectiveRule \<Rightarrow> string" where
  "runtimeType r =
     (if rs_RuntimeType (er_spec r) \<noteq> '''' then ToLower (TrimSpace (rs_RuntimeType (er_spec r)))
      else let t = ToLower (TrimSpace (rs_Runtime (er_spec r)))
           in if t = ''expr'' \<or> t = ''sequence'' \<or> t = ''correlate'' then t else '''')"

definition rule_terminal :: "effectiveRule \<Rightarrow> bool \<Rightarrow> bool" where
  "rule_terminal r defaultValue =
     (case rs_Terminal (er_spec r) of None \<Rightarrow> defaultValue | Some b \<Rightarrow> b)"

definition compileNodeOption :: "string \<Rightarrow> ContentSnapshot \<Rightarrow> ConditionNodeSpec option \<Rightarrow> compiledConditionNode option" where
  "compileNodeOption strategy content node = map_option (compileConditionNode strategy content) node"

definition compileStep :: "string \<Rightarrow> ContentSnapshot \<Rightarrow> StepSpec \<Rightarrow> compiledStep" where
  "compileStep strategy content step =
     \<lparr> sk_id = TrimSpace (st_ID step),
       sk_behavior = NormalizeBehavior (st_Behavior step),
       sk_conditions = compileConditions strategy content (st_Conditions step),
       sk_conditionGroup = compileNodeOption strategy content (st_ConditionGroup step),
       sk_saveFields = [] \<rparr>"

definition stepConditions :: "compiledStep \<Rightarrow> compiledCondition list" where
  "stepConditions step =
     (case sk_conditionGroup step of
        None \<Rightarrow> sk_conditions step
      | Some node \<Rightarrow> appendCompiledNodeConditions (sk_conditions step) node)"

text \<open>The step a name stands for: a later step with the same id replaces an earlier one.\<close>

definition stepIndexMap :: "compiledStep list \<Rightarrow> (string, nat) gomap" where
  "stepIndexMap steps =
     foldl (\<lambda>m (i, step). if sk_id step \<noteq> '''' then AList.update (sk_id step) i m else m) [] (List.enumerate 0 steps)"

text \<open>The fields the conditions of any step compare with those of step \<open>idx\<close>.\<close>

definition seenFields :: "compiledStep list \<Rightarrow> nat \<Rightarrow> fieldID list" where
  "seenFields steps idx =
     map cc_stepField
       (filter (\<lambda>cond. cc_op cond = opSameAs \<and> cc_step cond \<noteq> '''' \<and>
                       map_of (stepIndexMap steps) (cc_step cond) = Some idx)
          (concat (map stepConditions steps)))"

definition attachSequenceSaveFields :: "compiledStep list \<Rightarrow> compiledStep list" where
  "attachSequenceSaveFields steps =
     map (\<lambda>(i, step). step\<lparr> sk_saveFields := sk_saveFields step @ sort (remdups (seenFields steps i)) \<rparr>)
       (List.enumerate 0 steps)"

definition compileRule :: "string \<Rightarrow> ContentSnapshot \<Rightarrow> effectiveRule \<Rightarrow> compiledRule" where
  "compileRule strategy content rule =
     (let t = runtimeType rule; spec = er_spec rule in
      if t = ''expr'' then
        \<lparr> ru_rule = rule, ru_kind = compiledRuleExpr,
          ru_expr = \<lparr> xp_conditions = compileConditions strategy content (ex_Conditions (rs_Expr spec)),
                      xp_conditionGroup = compileNodeOption strategy content (ex_ConditionGroup (rs_Expr spec)),
                      xp_suppression = \<lparr> sp_within = su_Within (rs_Suppression spec),
                                         sp_by = compileFields (su_By (rs_Suppression spec)) \<rparr> \<rparr>,
          ru_sequence = compiledSequence_zero \<rparr>
      else if t = ''sequence'' then
        \<lparr> ru_rule = rule, ru_kind = compiledRuleSequence, ru_expr = compiledExpr_zero,
          ru_sequence = \<lparr> cq_within = sq_Within (rs_Sequence spec),
                          cq_by = compileFields (sq_By (rs_Sequence spec)),
                          cq_steps = attachSequenceSaveFields
                            (map (compileStep strategy content) (sq_Steps (rs_Sequence spec))) \<rparr> \<rparr>
      else \<lparr> ru_rule = rule, ru_kind = compiledRuleNone, ru_expr = compiledExpr_zero,
             ru_sequence = compiledSequence_zero \<rparr>)"

definition addBehavior :: "string list \<Rightarrow> string \<Rightarrow> string list" where
  "addBehavior out behavior =
     (let b = NormalizeBehavior behavior
      in if b = '''' \<or> b \<in> set out then out else out @ [b])"

definition rule_behaviors :: "compiledRule \<Rightarrow> string list" where
  "rule_behaviors r =
     (if ru_kind r = compiledRuleSequence
      then foldl addBehavior [] (map sk_behavior (cq_steps (ru_sequence r)))
      else foldl addBehavior
             (foldl addBehavior [] (rs_RequiredBehaviors (er_spec (ru_rule r))))
             (map re_Behavior (rs_RequiredEvents (er_spec (ru_rule r)))))"

text \<open>\<^verbatim>\<open>m[k] = append(m[k], x)\<close>.\<close>

definition appendAt :: "'k \<Rightarrow> 'v \<Rightarrow> ('k, 'v list) gomap \<Rightarrow> ('k, 'v list) gomap" where
  "appendAt k x m = AList.update k (get_or [] m k @ [x]) m"

definition addExprRule :: "string \<Rightarrow> ContentSnapshot \<Rightarrow> compiledRuntime \<Rightarrow> effectiveRule \<Rightarrow> compiledRuntime" where
  "addExprRule strategy content rt rule =
     (if \<not> er_enabled rule \<or> runtimeType rule \<noteq> ''expr'' then rt
      else let compiled = compileRule strategy content rule in
           if ru_kind compiled = compiledRuleNone then rt
           else let behaviors = rule_behaviors compiled in
                if length behaviors = 0
                then rt\<lparr> rt_behaviorAgnostic := rt_behaviorAgnostic rt @ [compiled] \<rparr>
                else rt\<lparr> rt_byBehavior := foldl (\<lambda>m b. appendAt b compiled m) (rt_byBehavior rt) behaviors \<rparr>)"

definition compileRuntime :: "string \<Rightarrow> effectiveRule list \<Rightarrow> ContentSnapshot \<Rightarrow> compiledRuntime" where
  "compileRuntime strategy rules content =
     foldl (addExprRule strategy content) \<lparr> rt_byBehavior = [], rt_behaviorAgnostic = [] \<rparr> rules"

definition addCandidate :: "compiledSequenceRuntime \<Rightarrow> compiledSequenceCandidate \<Rightarrow> string \<Rightarrow> compiledSequenceRuntime" where
  "addCandidate rt candidate behavior =
     (if behavior = '''' then rt\<lparr> qt_behaviorAgnostic := qt_behaviorAgnostic rt @ [candidate] \<rparr>
      else if ca_firstStep candidate
      then rt\<lparr> qt_firstByBehavior := appendAt behavior candidate (qt_firstByBehavior rt) \<rparr>
      else rt\<lparr> qt_nextByBehavior := appendAt behavior candidate (qt_nextByBehavior rt) \<rparr>)"

definition addSequenceRule :: "string \<Rightarrow> ContentSnapshot \<Rightarrow> compiledSequenceRuntime \<Rightarrow> effectiveRule \<Rightarrow> compiledSequenceRuntime" where
  "addSequenceRule strategy content rt rule =
     (if \<not> er_enabled rule \<or> runtimeType rule \<noteq> ''sequence'' then rt
      else let compiled = compileRule strategy content rule; steps = cq_steps (ru_sequence compiled) in
           if ru_kind compiled \<noteq> compiledRuleSequence \<or> length steps = 0 then rt
           else let rt = addCandidate rt \<lparr> ca_rule = compiled, ca_stepIndex = 0, ca_firstStep = True \<rparr>
                           (sk_behavior (steps ! 0))
                in foldl (\<lambda>rt i. addCandidate rt \<lparr> ca_rule = compiled, ca_stepIndex = i, ca_firstStep = False \<rparr>
                                  (sk_behavior (steps ! i))) rt [1..<length steps])"

definition compileSequenceRuntime :: "string \<Rightarrow> effectiveRule list \<Rightarrow> ContentSnapshot \<Rightarrow> compiledSequenceRuntime" where
  "compileSequenceRuntime strategy rules content =
     foldl (addSequenceRule strategy content)
       \<lparr> qt_firstByBehavior = [], qt_nextByBehavior = [], qt_behaviorAgnostic = [] \<rparr> rules"

definition compileFactBehaviors :: "FactSpec \<Rightarrow> string list" where
  "compileFactBehaviors f =
     (let behaviors = fa_Events f @ (if TrimSpace (fa_Event f) \<noteq> '''' then [fa_Event f] else [])
      in foldl addBehavior [] behaviors)"

definition compileCorrelateRule :: "string \<Rightarrow> ContentSnapshot \<Rightarrow> effectiveRule \<Rightarrow> compiledCorrelateRule" where
  "compileCorrelateRule strategy content rule =
     (let spec = rs_Correlate (er_spec rule) in
      \<lparr> cl_rule = rule, cl_within = co_Within spec, cl_by = compileFields (co_By spec),
        cl_facts = map (\<lambda>f. \<lparr> fc_id = TrimSpace (fa_ID f),
                          fc_behaviors = compileFactBehaviors f,
                          fc_conditions = compileConditions strategy content (fa_Conditions f),
                          fc_conditionGroup = compileNodeOption strategy content (fa_ConditionGroup f) \<rparr>)
                     (co_Facts spec) \<rparr>)"

definition addCorrelateRule :: "string \<Rightarrow> ContentSnapshot \<Rightarrow> compiledCorrelateRuntime \<Rightarrow> effectiveRule \<Rightarrow> compiledCorrelateRuntime" where
  "addCorrelateRule strategy content rt rule =
     (if \<not> er_enabled rule \<or> runtimeType rule \<noteq> ''correlate'' then rt
      else let compiled = compileCorrelateRule strategy content rule;
               behaviors = remdups (concat (map fc_behaviors (cl_facts compiled)))
           in foldl (\<lambda>m b. appendAt b compiled m) rt behaviors)"

definition compileCorrelateRuntime :: "string \<Rightarrow> effectiveRule list \<Rightarrow> ContentSnapshot \<Rightarrow> compiledCorrelateRuntime" where
  "compileCorrelateRuntime strategy rules content = foldl (addCorrelateRule strategy content) [] rules"

section \<open>The engine\<close>

record EngineLimits =
  MaxCEPGroups :: int
  MaxCEPRefs :: int

record correlateFactMatch =
  fm_EventID :: string
  fm_Entities :: "EntityRef list"

record correlateGroupState =
  cg_ExpiresAt :: uint64
  cg_Facts :: "(string, correlateFactMatch) gomap"

record Engine =
  e_nextID :: uint64
  e_rules :: "(string, effectiveRule) gomap"
  e_cep :: "(string, (string, cepGroupState) gomap) gomap"
  e_cepActive :: "(string, (string, nat) gomap) gomap"
  e_correlate :: "(string, (string, correlateGroupState) gomap) gomap"
  e_suppression :: "(string, time) gomap"
  e_limits :: EngineLimits
  e_metrics :: Metrics
  e_refs :: ContentSnapshot
  e_compiled :: compiledRuntime
  e_sequence :: compiledSequenceRuntime
  e_correlation :: compiledCorrelateRuntime

record detectEnv =
  env_parse :: "string \<Rightarrow> float64 option"
  env_pick :: "string list \<Rightarrow> nat"
  env_wall :: "Engine \<Rightarrow> time"

definition defaultMaxCEPGroups :: int where
  "defaultMaxCEPGroups = 4096"

definition defaultMaxCEPRefs :: int where
  "defaultMaxCEPRefs = 128"

definition maxSuppressionKeys :: nat where
  "maxSuppressionKeys = 8192"

definition normalizeLimits :: "EngineLimits \<Rightarrow> EngineLimits" where
  "normalizeLimits limits =
     (let limits = (if MaxCEPGroups limits \<le> 0 then limits\<lparr> MaxCEPGroups := defaultMaxCEPGroups \<rparr> else limits)
      in if MaxCEPRefs limits \<le> 0 then limits\<lparr> MaxCEPRefs := defaultMaxCEPRefs \<rparr> else limits)"

abbreviation on_metrics :: "(Metrics \<Rightarrow> Metrics) \<Rightarrow> Engine \<Rightarrow> Engine" where
  "on_metrics f e \<equiv> e\<lparr> e_metrics := f (e_metrics e) \<rparr>"

definition fieldRead :: "Engine \<Rightarrow> Engine" where
  "fieldRead e = on_metrics (\<lambda>m. m\<lparr> m_FieldReads := m_FieldReads m + 1 \<rparr>) e"

subsection \<open>Signals\<close>

definition appendUnique :: "string list \<Rightarrow> string \<Rightarrow> string list" where
  "appendUnique items item = (if item = '''' then items else if item \<in> set items then items else items @ [item])"

definition appendRefs :: "string list \<Rightarrow> string list \<Rightarrow> string list" where
  "appendRefs base refs = foldl appendUnique base refs"

definition appendUniqueEntity :: "EntityRef list \<Rightarrow> EntityRef \<Rightarrow> EntityRef list" where
  "appendUniqueEntity out value =
     (if list_ex (\<lambda>current. ent_kind current = ent_kind value \<and> ent_key current = ent_key value \<and>
                            ent_role current = ent_role value) out
      then out else out @ [value])"

definition appendUniqueEntities :: "EntityRef list \<Rightarrow> EntityRef list \<Rightarrow> EntityRef list" where
  "appendUniqueEntities out values = foldl appendUniqueEntity out values"

definition processEntity :: "CanonicalEvent option \<Rightarrow> EntityRef" where
  "processEntity ev = \<lparr> ent_kind = ''process'', ent_key = pr_stable_id (GetSubjectProc (GetEvent ev)), ent_role = ''subject'' \<rparr>"

definition fileEntity :: "string \<Rightarrow> string \<Rightarrow> EntityRef" where
  "fileEntity path role = \<lparr> ent_kind = ''file'', ent_key = path, ent_role = role \<rparr>"

definition socketEntity :: "CanonicalEvent option \<Rightarrow> EntityRef" where
  "socketEntity ev = \<lparr> ent_kind = ''socket'', ent_key = obj_socket_addr (GetObject (GetEvent ev)), ent_role = ''object'' \<rparr>"

definition eventEntities :: "CanonicalEvent option \<Rightarrow> EntityRef list" where
  "eventEntities ev =
     (let e = GetEvent ev; binary = pr_binary (GetSubjectProc e); obj = GetObject e in
      [processEntity ev]
      @ (if eventBehavior ev = ''process.exec'' \<and> binary \<noteq> '''' then [fileEntity binary ''subject''] else [])
      @ (if obj_file_path obj \<noteq> '''' then [fileEntity (obj_file_path obj) ''object''] else [])
      @ (if obj_socket_addr obj \<noteq> '''' then [socketEntity ev] else [])
      @ (if ev_container_id e \<noteq> ''''
         then [\<lparr> ent_kind = ''container'', ent_key = ev_container_id e, ent_role = ''scope'' \<rparr>] else []))"

definition riskForSeverity :: "string \<Rightarrow> uint32" where
  "riskForSeverity severity =
     (let s = ToLower severity in
      if s = ''critical'' then 80 else if s = ''high'' then 55 else if s = ''medium'' then 35
      else if s = ''low'' then 15 else 30)"

definition confidenceForRule :: "effectiveRule \<Rightarrow> uint32" where
  "confidenceForRule rule =
     (let bySeverity = (let s = ToLower (er_severity rule) in
            if s = ''critical'' then 80 else if s = ''high'' then 70 else if s = ''medium'' then 55 else 40);
          bySpec = (case rs_ResponseIntent (er_spec rule) of
              Some i \<Rightarrow> if rir_Confidence i > 0 then rir_Confidence i else bySeverity
            | None \<Rightarrow> bySeverity)
      in case er_intent rule of
           Some i \<Rightarrow> if rir_Confidence i > 0 then rir_Confidence i else bySpec
         | None \<Rightarrow> bySpec)"

text \<open>Two keys that differ in white space only collide; the later one of the range wins.\<close>

definition cloneLabels :: "(string, string) gomap \<Rightarrow> (string, string) gomap" where
  "cloneLabels labels =
     foldl (\<lambda>out (key, value). let key = TrimSpace key in
              if key = '''' then out else AList.update key value out) [] labels"

definition signalContentRefs :: "string list \<Rightarrow> (string, ResolvedRef) gomap \<Rightarrow> ContentRef list" where
  "signalContentRefs refs resolved =
     map (\<lambda>ref. case map_of resolved ref of
              None \<Rightarrow> \<lparr> cr_ref = '''', cr_version = '''', cr_digest = '''' \<rparr>
            | Some item \<Rightarrow> \<lparr> cr_ref = rr_Ref item, cr_version = rr_Version item, cr_digest = rr_Digest item \<rparr>)
       (filter (\<lambda>ref. TrimSpace ref \<noteq> '''') refs)"

definition signalIntent :: "effectiveRule \<Rightarrow> bool \<Rightarrow> ResponseIntent option" where
  "signalIntent rule terminal =
     (if terminal \<or> er_intent rule \<noteq> None then
        (case (if er_intent rule = None then rs_ResponseIntent (er_spec rule) else er_intent rule) of
           None \<Rightarrow> None
         | Some i \<Rightarrow> if rir_Action i = '''' then None
                    else Some \<lparr> ri_response_intent = rir_Action i, ri_recommended_action = rir_Action i,
                                ri_confidence = rir_Confidence i, ri_reason = rir_Reason i \<rparr>)
      else None)"

definition emitSignal ::
  "CanonicalEvent option \<Rightarrow> effectiveRule \<Rightarrow> string list \<Rightarrow> bool \<Rightarrow> EntityRef list \<Rightarrow> Engine \<Rightarrow> Signal \<times> Engine" where
  "emitSignal ev rule refs terminal entities e =
     (let refs = appendRefs [] refs;
          refs = (if length refs = 0 then [ev_id (GetEvent ev)] else refs);
          e = e\<lparr> e_nextID := e_nextID e + 1 \<rparr>;
          spec = er_spec rule;
          sid = counter_id ''sig-'' (e_nextID e);
          sig = \<lparr> sig_id = sid, sig_name = rs_RuleID spec, sig_where = WHERE_ENDPOINT,
             sig_base_risk = riskForSeverity (er_severity rule),
             sig_local_rarity = Finite 1, sig_global_rarity = Finite 1,
             sig_lineage_id = ev_lineage_id (GetEvent ev), sig_entities = entities, sig_event_refs = refs,
             sig_signal_refs = [], sig_terminal = terminal,
             sig_evidence = (if terminal
               then Some \<lparr> eb_id = ''evb-'' @ sid, eb_event_refs = refs,
                      eb_raw_refs = [ev_raw_ref (GetEvent ev)], eb_entities = entities,
                      eb_summary = ''rule='' @ rs_RuleID spec @ '' version='' @ digits (unat (rs_Version spec))
                        @ '' ruleset='' @ rs_RuleSetRef spec @ '' severity='' @ er_severity rule \<rparr>
               else None),
             sig_cross_lineage = False, sig_response_intent = signalIntent rule terminal,
             sig_rule_id = rs_RuleID spec, sig_rule_version = rs_Version spec,
             sig_ruleset_ref = rs_RuleSetRef spec,
             sig_context_refs = signalContentRefs (rs_ContextRefs spec) (ct_ContextRefs (e_refs e)),
             sig_ioc_refs = signalContentRefs (rs_IOCRefs spec) (ct_IOCRefs (e_refs e)),
             sig_severity = er_severity rule, sig_confidence = confidenceForRule rule, sig_mode = er_mode rule,
             sig_labels = cloneLabels (ev_labels (GetEvent ev)) \<rparr>
      in (sig, e))"

subsection \<open>Suppression and expression rules\<close>

text \<open>\<^verbatim>\<open>time.Unix(0, int64(ns))\<close>.\<close>

definition unixTime :: "uint64 \<Rightarrow> time" where
  "unixTime ns = sint ns + 62135596800 * 1000000000"

definition eventWallTime :: "detectEnv \<Rightarrow> CanonicalEvent option \<Rightarrow> Engine \<Rightarrow> time" where
  "eventWallTime env ev e =
     (let c = GetEvent ev in
      if ev_occurred_at_ns c > 0 then unixTime (ev_occurred_at_ns c)
      else if ev_mono_ns c > 0 then unixTime (ev_mono_ns c)
      else env_wall env e)"

text \<open>The loop that evicts arbitrary keys until there is room.\<close>

function evictSuppression_loop :: "(string list \<Rightarrow> nat) \<Rightarrow> (string, time) gomap \<Rightarrow> uint64 \<Rightarrow> (string, time) gomap \<times> uint64" where
  "evictSuppression_loop pick m evictions =
     (if length m \<ge> maxSuppressionKeys \<and> wf_map m
      then evictSuppression_loop pick (AList.delete (pick_key pick m) m) (evictions + 1)
      else (m, evictions))"
  by pat_completeness auto
termination
proof (relation "measure (\<lambda>(pick, m, n). length m)")
  fix pick :: "string list \<Rightarrow> nat" and m :: "(string, time) gomap" and n :: uint64
  assume "length m \<ge> maxSuppressionKeys \<and> wf_map m"
  then have "wf_map m" "m \<noteq> []" by (auto simp: maxSuppressionKeys_def)
  from length_delete_pick [OF this, of pick]
  show "((pick, AList.delete (pick_key pick m) m, n + 1), (pick, m, n)) \<in> measure (\<lambda>(pick, m, n). length m)" by simp
qed simp

declare evictSuppression_loop.simps [simp del]

definition suppressSignal :: "detectEnv \<Rightarrow> string \<Rightarrow> time \<Rightarrow> duration \<Rightarrow> Engine \<Rightarrow> bool \<times> Engine" where
  "suppressSignal env key now window e =
     (if key = '''' \<or> window \<le> 0 then (False, e)
      else if (case map_of (e_suppression e) key of None \<Rightarrow> False | Some expiresAt \<Rightarrow> now < expiresAt) then (True, e)
      else
        let m = (if length (e_suppression e) \<ge> maxSuppressionKeys
                 then filter (\<lambda>(_, expiresAt). expiresAt > now) (e_suppression e) else e_suppression e);
            (m, evictions) = evictSuppression_loop (env_pick env) m (m_SuppressionEvictions (e_metrics e))
        in (False, (on_metrics (\<lambda>ms. ms\<lparr> m_SuppressionEvictions := evictions \<rparr>) e)
                     \<lparr> e_suppression := AList.update key (now + window) m \<rparr>))"

definition fieldPart :: "eventView \<Rightarrow> fieldID \<Rightarrow> string" where
  "fieldPart view f = fieldName f @ ''='' @ view_field view f"

definition suppressCompiledRule :: "detectEnv \<Rightarrow> eventView \<Rightarrow> compiledRule \<Rightarrow> Engine \<Rightarrow> bool \<times> Engine" where
  "suppressCompiledRule env view rule e =
     (let suppression = xp_suppression (ru_expr rule) in
      if sp_within suppression \<le> 0 \<or> length (sp_by suppression) = 0 then (False, e)
      else let parts = (''rule='' @ rs_RuleID (er_spec (ru_rule rule))) # map (fieldPart view) (sp_by suppression);
               e = fold (\<lambda>_. fieldRead) (sp_by suppression) e
           in suppressSignal env (Join parts ''|'') (eventWallTime env (v_ev view) e) (sp_within suppression) e)"

definition rulesForBehavior :: "compiledRuntime \<Rightarrow> string \<Rightarrow> compiledRule list" where
  "rulesForBehavior rt behavior = get_or [] (rt_byBehavior rt) behavior @ rt_behaviorAgnostic rt"

definition countScan :: "Engine \<Rightarrow> Engine" where
  "countScan e = on_metrics (\<lambda>m. m\<lparr> m_CEPRulesScanned := m_CEPRulesScanned m + 1 \<rparr>) e"

definition countEvaluated :: "Engine \<Rightarrow> Engine" where
  "countEvaluated e = on_metrics (\<lambda>m. m\<lparr> m_CEPRulesEvaluated := m_CEPRulesEvaluated m + 1 \<rparr>) e"

text \<open>Matching changes the metrics of the engine only.\<close>

definition matchGroup ::
  "detectEnv \<Rightarrow> eventView \<Rightarrow> compiledCondition list \<Rightarrow> compiledConditionNode option \<Rightarrow> cepGroupState option \<Rightarrow> Engine \<Rightarrow> bool \<times> Engine" where
  "matchGroup env view conds grp st e =
     (let (ok, m) = matchConditionsAndGroup (env_parse env) view conds grp st (e_metrics e)
      in (ok, e\<lparr> e_metrics := m \<rparr>))"

definition detectExprRule :: "detectEnv \<Rightarrow> eventView \<Rightarrow> Signal list \<times> Engine \<Rightarrow> compiledRule \<Rightarrow> Signal list \<times> Engine" where
  "detectExprRule env view acc rule =
     (let (out, e) = acc; e = countScan e in
      if \<not> er_enabled (ru_rule rule) then (out, e)
      else let e = countEvaluated e in
      if ru_kind rule = compiledRuleExpr then
        (let (ok, e) = matchGroup env view (xp_conditions (ru_expr rule)) (xp_conditionGroup (ru_expr rule)) None e in
         if \<not> ok then (out, e)
         else let (suppressed, e) = suppressCompiledRule env view rule e in
              if suppressed then (out, e)
              else let (sig, e) = emitSignal (v_ev view) (ru_rule rule) [v_eventID view]
                                    (rule_terminal (ru_rule rule) False) (eventEntities (v_ev view)) e
                   in (out @ [sig], e))
      else (out, e))"

subsection \<open>Sequence rules\<close>

definition activateSequenceWait :: "string \<Rightarrow> string \<Rightarrow> Engine \<Rightarrow> Engine" where
  "activateSequenceWait ruleID behavior e =
     (if ruleID = '''' then e
      else let inner = get_or [] (e_cepActive e) behavior
           in e\<lparr> e_cepActive := AList.update behavior (AList.update ruleID (get_or 0 inner ruleID + 1) inner) (e_cepActive e) \<rparr>)"

definition deactivateSequenceWait :: "string \<Rightarrow> string \<Rightarrow> Engine \<Rightarrow> Engine" where
  "deactivateSequenceWait ruleID behavior e =
     (if ruleID = '''' then e
      else case map_of (e_cepActive e) behavior of
        None \<Rightarrow> e
      | Some inner \<Rightarrow>
          if get_or 0 inner ruleID \<le> 1
          then (let inner = AList.delete ruleID inner in
                if length inner = 0 then e\<lparr> e_cepActive := AList.delete behavior (e_cepActive e) \<rparr>
                else e\<lparr> e_cepActive := AList.update behavior inner (e_cepActive e) \<rparr>)
          else e\<lparr> e_cepActive := AList.update behavior (AList.update ruleID (get_or 0 inner ruleID - 1) inner) (e_cepActive e) \<rparr>)"

definition cepGroups :: "string \<Rightarrow> Engine \<Rightarrow> (string, cepGroupState) gomap" where
  "cepGroups ruleID e = get_or [] (e_cep e) ruleID"

definition setCepGroups :: "string \<Rightarrow> (string, cepGroupState) gomap \<Rightarrow> Engine \<Rightarrow> Engine" where
  "setCepGroups ruleID groups e = e\<lparr> e_cep := AList.update ruleID groups (e_cep e) \<rparr>"

definition storeGroup :: "string \<Rightarrow> string \<Rightarrow> cepGroupState \<Rightarrow> Engine \<Rightarrow> Engine" where
  "storeGroup ruleID key st e = setCepGroups ruleID (AList.update key st (cepGroups ruleID e)) e"

text \<open>Stop waiting and delete: the two statements that end a group.\<close>

definition dropGroup :: "string \<Rightarrow> string \<Rightarrow> Engine \<Rightarrow> Engine" where
  "dropGroup ruleID key e =
     (let behavior = (case map_of (cepGroups ruleID e) key of None \<Rightarrow> '''' | Some g \<Rightarrow> gs_WaitingBehavior g);
          e = deactivateSequenceWait ruleID behavior e
      in setCepGroups ruleID (AList.delete key (cepGroups ruleID e)) e)"

definition cepGroupState_new :: cepGroupState where
  "cepGroupState_new = \<lparr> gs_StepIndex = 0, gs_Refs = [], gs_Entities = [], gs_Values = [],
     gs_ExpiresAt = 0, gs_WaitingBehavior = '''' \<rparr>"

definition resetGroup :: "cepGroupState \<Rightarrow> cepGroupState" where
  "resetGroup st = st\<lparr> gs_StepIndex := 0, gs_Refs := [], gs_Entities := [], gs_Values := [], gs_WaitingBehavior := '''' \<rparr>"

definition countExpired :: "Engine \<Rightarrow> Engine" where
  "countExpired e = on_metrics (\<lambda>m. m\<lparr> m_ExpiredCEPGroups := m_ExpiredCEPGroups m + 1 \<rparr>) e"

definition countEvicted :: "Engine \<Rightarrow> Engine" where
  "countEvicted e = on_metrics (\<lambda>m. m\<lparr> m_EvictedCEPGroups := m_EvictedCEPGroups m + 1 \<rparr>) e"

definition expired :: "uint64 \<Rightarrow> uint64 \<Rightarrow> bool" where
  "expired now expiresAt \<longleftrightarrow> expiresAt > 0 \<and> now > expiresAt"

definition evictExpired :: "string \<Rightarrow> uint64 \<Rightarrow> (string \<times> cepGroupState) list \<Rightarrow> Engine \<Rightarrow> Engine" where
  "evictExpired ruleID now groups e =
     fold (\<lambda>(key, grp) e. if expired now (gs_ExpiresAt grp) then countExpired (dropGroup ruleID key e) else e) groups e"

text \<open>The loop stops at an empty map: \<^verbatim>\<open>MaxCEPGroups\<close> is positive after \<^const>\<open>normalizeLimits\<close>.\<close>

fun evictGroups_loop :: "(string list \<Rightarrow> nat) \<Rightarrow> string \<Rightarrow> nat \<Rightarrow> Engine \<Rightarrow> Engine" where
  "evictGroups_loop pick ruleID 0 e = e"
| "evictGroups_loop pick ruleID (Suc fuel) e =
     (if int (length (cepGroups ruleID e)) \<ge> MaxCEPGroups (e_limits e) \<and> cepGroups ruleID e \<noteq> []
      then evictGroups_loop pick ruleID fuel (countEvicted (dropGroup ruleID (pick_key pick (cepGroups ruleID e)) e))
      else e)"

definition evictCEPGroups :: "detectEnv \<Rightarrow> string \<Rightarrow> uint64 \<Rightarrow> Engine \<Rightarrow> Engine" where
  "evictCEPGroups env ruleID now e =
     (if int (length (cepGroups ruleID e)) < MaxCEPGroups (e_limits e) then e
      else let e = evictExpired ruleID now (cepGroups ruleID e) e
           in evictGroups_loop (env_pick env) ruleID (length (cepGroups ruleID e)) e)"

definition compiledSequenceGroupKey :: "eventView \<Rightarrow> fieldID list \<Rightarrow> Engine \<Rightarrow> string \<times> Engine" where
  "compiledSequenceGroupKey view fs e =
     (let fs = (if length fs = 0 then [fieldLineageID] else fs)
      in (Join (map (fieldPart view) fs) ''|'', fold (\<lambda>_. fieldRead) fs e))"

definition eventFieldMapFromView :: "eventView \<Rightarrow> fieldID list \<Rightarrow> (string, string) gomap" where
  "eventFieldMapFromView view fs = foldl (\<lambda>m f. AList.update (fieldName f) (view_field view f) m) [] fs"

definition matchCompiledStep :: "detectEnv \<Rightarrow> eventView \<Rightarrow> compiledStep \<Rightarrow> cepGroupState \<Rightarrow> Engine \<Rightarrow> bool \<times> Engine" where
  "matchCompiledStep env view step st e =
     (if sk_behavior step \<noteq> '''' \<and> v_behavior view \<noteq> sk_behavior step then (False, e)
      else matchGroup env view (sk_conditions step) (sk_conditionGroup step) (Some st) e)"

text \<open>
  What a matching step does to its group: remember the event, its entities and saved fields, bound
  the references, start the window at the first step, move on.
\<close>

definition keepRefs :: "cepGroupState \<Rightarrow> Engine \<Rightarrow> cepGroupState \<times> Engine" where
  "keepRefs st e =
     (let limit = MaxCEPRefs (e_limits e) in
      if int (length (gs_Refs st)) > limit
      then (st\<lparr> gs_Refs := last_n (nat limit) (gs_Refs st) \<rparr>,
            on_metrics (\<lambda>m. m\<lparr> m_DroppedEventRefs := m_DroppedEventRefs m + of_int (int (length (gs_Refs st)) - limit) \<rparr>) e)
      else (st, e))"

definition advanceGroup :: "compiledSequence \<Rightarrow> compiledStep \<Rightarrow> eventView \<Rightarrow> cepGroupState \<Rightarrow> Engine \<Rightarrow> cepGroupState \<times> Engine" where
  "advanceGroup seq step view st e =
     (let st = st\<lparr> gs_Refs := appendUnique (gs_Refs st) (v_eventID view) \<rparr>;
          st = st\<lparr> gs_Entities := appendUniqueEntities (gs_Entities st) (eventEntities (v_ev view)) \<rparr>;
          (st, e) = keepRefs st e;
          saved = eventFieldMapFromView view (sk_saveFields step);
          st = (if length saved > 0 then st\<lparr> gs_Values := AList.update (sk_id step) saved (gs_Values st) \<rparr> else st);
          st = (if gs_StepIndex st = 0 \<and> cq_within seq > 0
                then st\<lparr> gs_ExpiresAt := view_eventTime view + of_int (cq_within seq) \<rparr> else st)
      in (st\<lparr> gs_StepIndex := gs_StepIndex st + 1 \<rparr>, e))"

text \<open>From the group to advance to the signal, if the rule is complete.\<close>

definition stepGroup ::
  "detectEnv \<Rightarrow> eventView \<Rightarrow> compiledRule \<Rightarrow> string \<Rightarrow> cepGroupState \<Rightarrow> Engine \<Rightarrow> Signal option \<times> Engine" where
  "stepGroup env view rule groupKey st e =
     (let seq = ru_sequence rule; ruleID = rs_RuleID (er_spec (ru_rule rule));
          (st, e) = (if gs_StepIndex st \<ge> length (cq_steps seq)
                     then (resetGroup st, deactivateSequenceWait ruleID (gs_WaitingBehavior st) e) else (st, e));
          e = storeGroup ruleID groupKey st e;
          step = cq_steps seq ! gs_StepIndex st;
          (ok, e) = matchCompiledStep env view step st e
      in if \<not> ok then (None, e)
         else let (st, e) = advanceGroup seq step view st e in
              if gs_StepIndex st < length (cq_steps seq) then
                (let e = deactivateSequenceWait ruleID (gs_WaitingBehavior st) e;
                     st = st\<lparr> gs_WaitingBehavior := sk_behavior (cq_steps seq ! gs_StepIndex st) \<rparr>
                 in (None, activateSequenceWait ruleID (gs_WaitingBehavior st) (storeGroup ruleID groupKey st e)))
              else
                (let e = deactivateSequenceWait ruleID (gs_WaitingBehavior st) e;
                     e = setCepGroups ruleID (AList.delete groupKey (cepGroups ruleID e)) e;
                     (sig, e) = emitSignal (v_ev view) (ru_rule rule) (appendRefs [] (gs_Refs st))
                                  (rule_terminal (ru_rule rule) True) (gs_Entities st) e
                 in (Some sig, e)))"

definition expireGroup :: "string \<Rightarrow> string \<Rightarrow> uint64 \<Rightarrow> Engine \<Rightarrow> Engine" where
  "expireGroup ruleID groupKey now e =
     (case map_of (cepGroups ruleID e) groupKey of
        None \<Rightarrow> e
      | Some st \<Rightarrow> if expired now (gs_ExpiresAt st) then countExpired (dropGroup ruleID groupKey e) else e)"

definition detectSequenceCandidate ::
  "detectEnv \<Rightarrow> eventView \<Rightarrow> compiledSequenceCandidate \<Rightarrow> Engine \<Rightarrow> Signal option \<times> Engine" where
  "detectSequenceCandidate env view candidate e =
     (let rule = ca_rule candidate; seq = ru_sequence rule; ruleID = rs_RuleID (er_spec (ru_rule rule)) in
      if length (cq_steps seq) = 0 then (None, e)
      else
        let e = setCepGroups ruleID (cepGroups ruleID e) e;
            (groupKey, e) = compiledSequenceGroupKey view (cq_by seq) e;
            now = view_eventTime view;
            e = expireGroup ruleID groupKey now e
        in case map_of (cepGroups ruleID e) groupKey of
             None \<Rightarrow>
               if \<not> ca_firstStep candidate then (None, e)
               else let e = evictCEPGroups env ruleID now e
                    in stepGroup env view rule groupKey cepGroupState_new e
           | Some st \<Rightarrow>
               if \<not> ca_firstStep candidate then
                 (if gs_StepIndex st \<noteq> ca_stepIndex candidate then (None, e)
                  else stepGroup env view rule groupKey st e)
               else if gs_StepIndex st > 0 then
                 (let (ok, e) = matchCompiledStep env view (cq_steps seq ! 0) cepGroupState_new e in
                  if \<not> ok then (None, e)
                  else stepGroup env view rule groupKey (resetGroup st)
                         (deactivateSequenceWait ruleID (gs_WaitingBehavior st) e))
               else stepGroup env view rule groupKey st e)"

definition candidatesForBehavior ::
  "compiledSequenceRuntime \<Rightarrow> string \<Rightarrow> (string, (string, nat) gomap) gomap \<Rightarrow> compiledSequenceCandidate list" where
  "candidatesForBehavior rt behavior active =
     (let activeRules = get_or [] active behavior in
      get_or [] (qt_firstByBehavior rt) behavior
      @ filter (\<lambda>candidate. get_or 0 activeRules (rs_RuleID (er_spec (ru_rule (ca_rule candidate)))) > 0)
          (get_or [] (qt_nextByBehavior rt) behavior)
      @ qt_behaviorAgnostic rt)"

definition detectSequence :: "detectEnv \<Rightarrow> eventView \<Rightarrow> Signal list \<times> Engine \<Rightarrow> compiledSequenceCandidate \<Rightarrow> Signal list \<times> Engine" where
  "detectSequence env view acc candidate =
     (let (out, e) = acc; e = countScan e in
      if \<not> er_enabled (ru_rule (ca_rule candidate)) then (out, e)
      else let e = countEvaluated e;
               (sig, e) = detectSequenceCandidate env view candidate e
           in case sig of None \<Rightarrow> (out, e) | Some s \<Rightarrow> (out @ [s], e))"

subsection \<open>Correlation rules\<close>

definition correlateGroups :: "string \<Rightarrow> Engine \<Rightarrow> (string, correlateGroupState) gomap" where
  "correlateGroups ruleID e = get_or [] (e_correlate e) ruleID"

definition setCorrelateGroups :: "string \<Rightarrow> (string, correlateGroupState) gomap \<Rightarrow> Engine \<Rightarrow> Engine" where
  "setCorrelateGroups ruleID groups e = e\<lparr> e_correlate := AList.update ruleID groups (e_correlate e) \<rparr>"

fun matchCorrelateFacts :: "detectEnv \<Rightarrow> eventView \<Rightarrow> compiledFact list \<Rightarrow> Engine \<Rightarrow> compiledFact list \<times> Engine" where
  "matchCorrelateFacts env view [] e = ([], e)"
| "matchCorrelateFacts env view (f # fs) e =
     (if v_behavior view \<notin> set (fc_behaviors f) then matchCorrelateFacts env view fs e
      else let (ok, e) = matchGroup env view (fc_conditions f) (fc_conditionGroup f) None e;
               (out, e) = matchCorrelateFacts env view fs e
           in (if ok then f # out else out, e))"

definition factMatch_zero :: correlateFactMatch where
  "factMatch_zero = \<lparr> fm_EventID = '''', fm_Entities = [] \<rparr>"

definition correlateEvidence :: "correlateGroupState \<Rightarrow> compiledFact list \<Rightarrow> Engine \<Rightarrow> (string list \<times> EntityRef list) \<times> Engine" where
  "correlateEvidence grp facts e =
     (let matches = map (\<lambda>f. get_or factMatch_zero (cg_Facts grp) (fc_id f)) facts;
          refs = foldl (\<lambda>refs mt. appendUnique refs (fm_EventID mt)) [] matches;
          entities = foldl (\<lambda>es mt. appendUniqueEntities es (fm_Entities mt)) [] matches;
          limit = MaxCEPRefs (e_limits e)
      in if int (length refs) > limit
         then ((last_n (nat limit) refs, entities),
               on_metrics (\<lambda>m. m\<lparr> m_DroppedEventRefs := m_DroppedEventRefs m + of_int (int (length refs) - limit) \<rparr>) e)
         else ((refs, entities), e))"

fun evictCorrelate_loop :: "(string list \<Rightarrow> nat) \<Rightarrow> string \<Rightarrow> nat \<Rightarrow> Engine \<Rightarrow> Engine" where
  "evictCorrelate_loop pick ruleID 0 e = e"
| "evictCorrelate_loop pick ruleID (Suc fuel) e =
     (let groups = correlateGroups ruleID e in
      if int (length groups) \<ge> MaxCEPGroups (e_limits e) \<and> groups \<noteq> []
      then evictCorrelate_loop pick ruleID fuel
             (countEvicted (setCorrelateGroups ruleID (AList.delete (pick_key pick groups) groups) e))
      else e)"

definition evictCorrelateGroups :: "detectEnv \<Rightarrow> string \<Rightarrow> uint64 \<Rightarrow> Engine \<Rightarrow> Engine" where
  "evictCorrelateGroups env ruleID now e =
     (let groups = correlateGroups ruleID e in
      if int (length groups) < MaxCEPGroups (e_limits e) then e
      else let live = filter (\<lambda>(_, g). \<not> expired now (cg_ExpiresAt g)) groups;
               e = (countExpired ^^ (length groups - length live)) (setCorrelateGroups ruleID live e)
           in evictCorrelate_loop (env_pick env) ruleID (length live) e)"

definition detectCorrelateRule :: "detectEnv \<Rightarrow> eventView \<Rightarrow> compiledCorrelateRule \<Rightarrow> Engine \<Rightarrow> Signal option \<times> Engine" where
  "detectCorrelateRule env view rule e =
     (let ruleID = rs_RuleID (er_spec (cl_rule rule));
          e = setCorrelateGroups ruleID (correlateGroups ruleID e) e;
          (groupKey, e) = compiledSequenceGroupKey view (cl_by rule) e;
          now = view_eventTime view;
          e = (case map_of (correlateGroups ruleID e) groupKey of
                 Some g \<Rightarrow> if expired now (cg_ExpiresAt g)
                           then countExpired (setCorrelateGroups ruleID (AList.delete groupKey (correlateGroups ruleID e)) e)
                           else e
               | None \<Rightarrow> e);
          (matched, e) = matchCorrelateFacts env view (cl_facts rule) e
      in if length matched = 0 then (None, e)
         else
           let (grp, e) = (case map_of (correlateGroups ruleID e) groupKey of
                  Some g \<Rightarrow> (g, e)
                | None \<Rightarrow> (\<lparr> cg_ExpiresAt = now + of_int (cl_within rule), cg_Facts = [] \<rparr>,
                           evictCorrelateGroups env ruleID now e));
               grp = grp\<lparr> cg_Facts := foldl (\<lambda>m f. AList.update (fc_id f)
                        \<lparr> fm_EventID = v_eventID view, fm_Entities = eventEntities (v_ev view) \<rparr> m) (cg_Facts grp) matched \<rparr>;
               e = setCorrelateGroups ruleID (AList.update groupKey grp (correlateGroups ruleID e)) e
           in if length (cg_Facts grp) < length (cl_facts rule) then (None, e)
              else let ((refs, entities), e) = correlateEvidence grp (cl_facts rule) e;
                       e = setCorrelateGroups ruleID (AList.delete groupKey (correlateGroups ruleID e)) e;
                       (sig, e) = emitSignal (v_ev view) (cl_rule rule) refs (rule_terminal (cl_rule rule) False) entities e
                   in (Some sig, e))"

definition detectCorrelate :: "detectEnv \<Rightarrow> eventView \<Rightarrow> Signal list \<times> Engine \<Rightarrow> compiledCorrelateRule \<Rightarrow> Signal list \<times> Engine" where
  "detectCorrelate env view acc rule =
     (let (out, e) = acc;
          (sig, e) = detectCorrelateRule env view rule (countEvaluated (countScan e))
      in case sig of None \<Rightarrow> (out, e) | Some s \<Rightarrow> (out @ [s], e))"

subsection \<open>Processing an event\<close>

definition detectCEPRules :: "detectEnv \<Rightarrow> eventView \<Rightarrow> Engine \<Rightarrow> Signal list \<times> Engine" where
  "detectCEPRules env view e =
     (let acc = foldl (detectExprRule env view) ([], e) (rulesForBehavior (e_compiled e) (v_behavior view));
          acc = foldl (detectSequence env view) acc
                  (candidatesForBehavior (e_sequence (snd acc)) (v_behavior view) (e_cepActive (snd acc)))
      in foldl (detectCorrelate env view) acc (get_or [] (e_correlation (snd acc)) (v_behavior view)))"

text \<open>
  \<^verbatim>\<open>compact\<close> removes nil signals; the lists of the model hold none. The nanoseconds the call took
  are the argument \<open>elapsed\<close>.
\<close>

definition Process :: "detectEnv \<Rightarrow> uint64 \<Rightarrow> CanonicalEvent option \<Rightarrow> Engine \<Rightarrow> Signal list \<times> Engine" where
  "Process env elapsed ev e =
     (case ev of None \<Rightarrow> ([], e)
      | Some c \<Rightarrow>
          if ev_subject_proc c = None then ([], e)
          else
            let view = newEventView ev; behavior = v_behavior view;
                e = on_metrics (\<lambda>m. m\<lparr> m_EventsProcessed := m_EventsProcessed m + 1,
                       m_EventsByBehavior := AList.update behavior (get_or 0 (m_EventsByBehavior m) behavior + 1) (m_EventsByBehavior m) \<rparr>) e;
                (out, e) = detectCEPRules env view e
            in (out, on_metrics (\<lambda>m. m\<lparr> m_EmittedSignals := m_EmittedSignals m + of_nat (length out),
                       m_ProcessNanosTotal := m_ProcessNanosTotal m + elapsed \<rparr>) e))"

definition Metrics_read :: "Engine \<Rightarrow> Metrics" where
  "Metrics_read e =
     (e_metrics e)\<lparr> m_ActiveCEPGroups :=
        of_nat (sum_list (map (\<lambda>(_, groups). length groups) (e_cep e)) +
                sum_list (map (\<lambda>(_, groups). length groups) (e_correlate e))) \<rparr>"

end
