(* ===== verification/Detect_Invariant.thy ===== *)
theory Detect_Invariant
  imports Detect_Engine
begin

text \<open>
  The invariant of the detection engine: the groups of sequence and correlation rules stay within
  their limits, the references of a group are distinct and bounded, the suppression table is
  bounded, and \<^verbatim>\<open>cepActive\<close>, the index that decides which sequence rules an event is shown to, counts
  for every behaviour and rule exactly the groups that wait for that behaviour.
\<close>

section \<open>The invariant\<close>

definition active_count :: "Engine \<Rightarrow> string \<Rightarrow> string \<Rightarrow> nat" where
  "active_count e b r = get_or 0 (get_or [] (e_cepActive e) b) r"

definition waits :: "(string, cepGroupState) gomap \<Rightarrow> string \<Rightarrow> nat" where
  "waits gs b = length (filter (\<lambda>(k, g). gs_WaitingBehavior g = b) gs)"

definition index_ok :: "Engine \<Rightarrow> bool" where
  "index_ok e \<longleftrightarrow>
     (\<forall>b r. active_count e b r = (if b = '''' \<or> r = '''' then 0 else waits (cepGroups r e) b))"

definition group_ok :: "EngineLimits \<Rightarrow> cepGroupState \<Rightarrow> bool" where
  "group_ok limits g \<longleftrightarrow>
     int (length (gs_Refs g)) \<le> MaxCEPRefs limits \<and> distinct (gs_Refs g) \<and>
     (gs_StepIndex g = 0 \<longleftrightarrow> gs_WaitingBehavior g = '''')"

definition cep_ok :: "Engine \<Rightarrow> bool" where
  "cep_ok e \<longleftrightarrow> index_ok e \<and>
     (\<forall>r. wf_map (cepGroups r e) \<and> int (length (cepGroups r e)) \<le> MaxCEPGroups (e_limits e) \<and>
          (\<forall>k g. map_of (cepGroups r e) k = Some g \<longrightarrow> group_ok (e_limits e) g))"

definition correlate_ok :: "Engine \<Rightarrow> bool" where
  "correlate_ok e \<longleftrightarrow>
     (\<forall>r. wf_map (correlateGroups r e) \<and> int (length (correlateGroups r e)) \<le> MaxCEPGroups (e_limits e))"

definition suppression_ok :: "Engine \<Rightarrow> bool" where
  "suppression_ok e \<longleftrightarrow> wf_map (e_suppression e) \<and> length (e_suppression e) \<le> maxSuppressionKeys"

definition limits_ok :: "EngineLimits \<Rightarrow> bool" where
  "limits_ok limits \<longleftrightarrow> MaxCEPGroups limits \<ge> 1 \<and> MaxCEPRefs limits \<ge> 1"

text \<open>What the validation of sequence rules guarantees of their compiled form.\<close>

definition rule_steps_ok :: "compiledRule \<Rightarrow> bool" where
  "rule_steps_ok rule \<longleftrightarrow> list_all (\<lambda>step. sk_behavior step \<noteq> '''') (cq_steps (ru_sequence rule))"

definition runtime_ok :: "compiledSequenceRuntime \<Rightarrow> bool" where
  "runtime_ok rt \<longleftrightarrow>
     (\<forall>c. (\<exists>b. c \<in> set (get_or [] (qt_firstByBehavior rt) b) \<or> c \<in> set (get_or [] (qt_nextByBehavior rt) b)) \<or>
          c \<in> set (qt_behaviorAgnostic rt) \<longrightarrow> rule_steps_ok (ca_rule c))"

definition engine_ok :: "Engine \<Rightarrow> bool" where
  "engine_ok e \<longleftrightarrow> limits_ok (e_limits e) \<and> runtime_ok (e_sequence e) \<and>
     cep_ok e \<and> correlate_ok e \<and> suppression_ok e"

section \<open>Operations that change the metrics only\<close>

definition static :: "Engine \<Rightarrow> EngineLimits \<times> ContentSnapshot \<times> compiledRuntime \<times> compiledSequenceRuntime \<times> compiledCorrelateRuntime \<times> (string, effectiveRule) gomap" where
  "static e = (e_limits e, e_refs e, e_compiled e, e_sequence e, e_correlation e, e_rules e)"

text \<open>The parts of the state that the invariants read.\<close>

definition dynamic :: "Engine \<Rightarrow> (string, (string, cepGroupState) gomap) gomap \<times> (string, (string, nat) gomap) gomap
    \<times> (string, (string, correlateGroupState) gomap) gomap \<times> (string, time) gomap \<times> uint64" where
  "dynamic e = (e_cep e, e_cepActive e, e_correlate e, e_suppression e, e_nextID e)"

definition metrics_only :: "Engine \<Rightarrow> Engine \<Rightarrow> bool" where
  "metrics_only e e' \<longleftrightarrow> e' = e\<lparr> e_metrics := e_metrics e' \<rparr>"

lemma metrics_only_refl [simp]: "metrics_only e e"
  by (simp add: metrics_only_def)

lemma metrics_only_trans: "metrics_only a b \<Longrightarrow> metrics_only b c \<Longrightarrow> metrics_only a c"
  unfolding metrics_only_def by (metis Engine.update_convs(8) Engine.surjective Engine.ext_inject)

lemma metrics_only_set [simp]: "metrics_only e (e\<lparr> e_metrics := m \<rparr>)"
  by (simp add: metrics_only_def)

lemma metrics_only_simps:
  assumes "metrics_only e e'"
  shows "e_cep e' = e_cep e" "e_cepActive e' = e_cepActive e" "e_correlate e' = e_correlate e"
    "e_suppression e' = e_suppression e" "e_nextID e' = e_nextID e" "e_limits e' = e_limits e"
    "e_sequence e' = e_sequence e" "e_compiled e' = e_compiled e" "e_correlation e' = e_correlation e"
    "e_refs e' = e_refs e" "e_rules e' = e_rules e"
  by (subst assms [unfolded metrics_only_def], simp)+

lemma metrics_only_ops [simp]:
  "metrics_only e (fieldRead e)" "metrics_only e (countScan e)" "metrics_only e (countEvaluated e)"
  "metrics_only e (countExpired e)" "metrics_only e (countEvicted e)"
  by (simp_all add: fieldRead_def countScan_def countEvaluated_def countExpired_def countEvicted_def)

lemma metrics_only_fieldReads: "metrics_only e (fold (\<lambda>_. fieldRead) fs e)"
proof (induction fs arbitrary: e)
  case Nil
  then show ?case by simp
next
  case (Cons f fs)
  then show ?case by (simp add: metrics_only_trans [OF metrics_only_ops(1)])
qed

lemma metrics_only_groupKey [simp]: "metrics_only e (snd (compiledSequenceGroupKey view fs e))"
  by (simp add: compiledSequenceGroupKey_def Let_def metrics_only_fieldReads)

lemma metrics_only_matchGroup [simp]: "metrics_only e (snd (matchGroup env view conds grp st e))"
  by (simp add: matchGroup_def split_beta)

lemma metrics_only_matchCompiledStep [simp]: "metrics_only e (snd (matchCompiledStep env view step st e))"
  by (simp add: matchCompiledStep_def)

lemma metrics_only_keepRefs [simp]: "metrics_only e (snd (keepRefs st e))"
  by (simp add: keepRefs_def Let_def)

lemma metrics_only_advanceGroup [simp]: "metrics_only e (snd (advanceGroup seq step view st e))"
  by (simp add: advanceGroup_def Let_def split_beta)

lemma metrics_only_countExpired_pow: "metrics_only e ((countExpired ^^ n) e)"
proof (induction n)
  case (Suc n)
  then show ?case by (simp add: metrics_only_trans [OF _ metrics_only_ops(4)])
qed simp

lemma metrics_only_matchCorrelateFacts [simp]: "metrics_only e (snd (matchCorrelateFacts env view fs e))"
proof (induction fs arbitrary: e)
  case (Cons f fs)
  have "metrics_only e (snd (matchGroup env view (fc_conditions f) (fc_conditionGroup f) None e))" by simp
  from metrics_only_trans [OF this Cons.IH] Cons.IH show ?case by (auto simp: split_beta)
qed simp

lemma metrics_only_correlateEvidence [simp]: "metrics_only e (snd (correlateEvidence grp facts e))"
  by (simp add: correlateEvidence_def Let_def)

text \<open>Each invariant reads a part of the state only.\<close>

lemma cep_ok_cong:
  "e_cep e' = e_cep e \<Longrightarrow> e_cepActive e' = e_cepActive e \<Longrightarrow> e_limits e' = e_limits e \<Longrightarrow> cep_ok e' = cep_ok e"
  by (simp add: cep_ok_def index_ok_def active_count_def cepGroups_def)

lemma correlate_ok_cong:
  "e_correlate e' = e_correlate e \<Longrightarrow> e_limits e' = e_limits e \<Longrightarrow> correlate_ok e' = correlate_ok e"
  by (simp add: correlate_ok_def correlateGroups_def)

lemma suppression_ok_cong: "e_suppression e' = e_suppression e \<Longrightarrow> suppression_ok e' = suppression_ok e"
  by (simp add: suppression_ok_def)

lemma cep_ok_metrics: "metrics_only e e' \<Longrightarrow> cep_ok e' = cep_ok e"
  by (rule cep_ok_cong) (simp_all add: metrics_only_simps)

lemma cepGroups_metrics: "metrics_only e e' \<Longrightarrow> cepGroups r e' = cepGroups r e"
  by (simp add: cepGroups_def metrics_only_simps)

lemma correlate_ok_metrics: "metrics_only e e' \<Longrightarrow> correlate_ok e' = correlate_ok e"
  by (rule correlate_ok_cong) (simp_all add: metrics_only_simps)

lemma correlateGroups_metrics: "metrics_only e e' \<Longrightarrow> correlateGroups r e' = correlateGroups r e"
  by (simp add: correlateGroups_def metrics_only_simps)

section \<open>The waiting index\<close>

lemma get_or_Nil [simp]: "get_or d [] k = d"
  by (simp add: get_or_def)

lemma active_count_activate [simp]:
  "active_count (activateSequenceWait r b e) b' r' =
     (if r \<noteq> '''' \<and> b' = b \<and> r' = r then Suc (active_count e b r) else active_count e b' r')"
  by (simp add: active_count_def activateSequenceWait_def Let_def)

lemma active_count_deactivate [simp]:
  "active_count (deactivateSequenceWait r b e) b' r' =
     (if r \<noteq> '''' \<and> b' = b \<and> r' = r then active_count e b r - 1 else active_count e b' r')"
proof (cases "map_of (e_cepActive e) b")
  case None
  then show ?thesis by (simp add: active_count_def deactivateSequenceWait_def get_or_def)
next
  case (Some inner)
  have i: "get_or [] (e_cepActive e) b = inner" using Some by (simp add: get_or_def)
  have del: "get_or 0 inner r' = 0" if "AList.delete r inner = []" "r' \<noteq> r"
    using that get_or_delete [of 0 r inner r'] by simp
  show ?thesis
    using Some i del by (auto simp: active_count_def deactivateSequenceWait_def Let_def)
qed

lemma deactivate_frame [simp]:
  "e_cep (deactivateSequenceWait r b e) = e_cep e"
  "e_correlate (deactivateSequenceWait r b e) = e_correlate e"
  "e_suppression (deactivateSequenceWait r b e) = e_suppression e"
  "e_limits (deactivateSequenceWait r b e) = e_limits e"
  "e_sequence (deactivateSequenceWait r b e) = e_sequence e"
  "e_nextID (deactivateSequenceWait r b e) = e_nextID e"
  "e_metrics (deactivateSequenceWait r b e) = e_metrics e"
  "e_compiled (deactivateSequenceWait r b e) = e_compiled e"
  "e_correlation (deactivateSequenceWait r b e) = e_correlation e"
  by (simp_all add: deactivateSequenceWait_def Let_def split: option.splits)

lemma activate_frame [simp]:
  "e_cep (activateSequenceWait r b e) = e_cep e"
  "e_correlate (activateSequenceWait r b e) = e_correlate e"
  "e_suppression (activateSequenceWait r b e) = e_suppression e"
  "e_limits (activateSequenceWait r b e) = e_limits e"
  "e_sequence (activateSequenceWait r b e) = e_sequence e"
  "e_nextID (activateSequenceWait r b e) = e_nextID e"
  "e_metrics (activateSequenceWait r b e) = e_metrics e"
  "e_compiled (activateSequenceWait r b e) = e_compiled e"
  "e_correlation (activateSequenceWait r b e) = e_correlation e"
  by (simp_all add: activateSequenceWait_def Let_def)

lemma cepGroups_wait [simp]:
  "cepGroups r' (deactivateSequenceWait r b e) = cepGroups r' e"
  "cepGroups r' (activateSequenceWait r b e) = cepGroups r' e"
  by (simp_all add: cepGroups_def)

lemma setCepGroups_frame [simp]:
  "e_cepActive (setCepGroups r gs e) = e_cepActive e"
  "e_correlate (setCepGroups r gs e) = e_correlate e"
  "e_suppression (setCepGroups r gs e) = e_suppression e"
  "e_limits (setCepGroups r gs e) = e_limits e"
  "e_sequence (setCepGroups r gs e) = e_sequence e"
  "e_nextID (setCepGroups r gs e) = e_nextID e"
  "e_metrics (setCepGroups r gs e) = e_metrics e"
  "e_compiled (setCepGroups r gs e) = e_compiled e"
  "e_correlation (setCepGroups r gs e) = e_correlation e"
  by (simp_all add: setCepGroups_def)

lemma cepGroups_set [simp]: "cepGroups r' (setCepGroups r gs e) = (if r' = r then gs else cepGroups r' e)"
  by (simp add: cepGroups_def setCepGroups_def)

lemma active_count_set [simp]: "active_count (setCepGroups r gs e) = active_count e"
  by (simp add: active_count_def fun_eq_iff)

lemma waits_update:
  "wf_map gs \<Longrightarrow> waits (AList.update k g gs) b + (if map_option gs_WaitingBehavior (map_of gs k) = Some b then 1 else 0) =
     waits gs b + (if gs_WaitingBehavior g = b then 1 else 0)"
  by (induction gs) (auto simp: waits_def wf_map_def map_of_eq_None_iff image_iff split: if_splits)

lemma waits_pos:
  assumes "map_of gs k = Some g"
  shows "waits gs (gs_WaitingBehavior g) \<ge> 1"
proof -
  have "(k, g) \<in> set (filter (\<lambda>(k, h). gs_WaitingBehavior h = gs_WaitingBehavior g) gs)"
    using assms by (auto dest: map_of_SomeD)
  then show ?thesis unfolding waits_def by (metis Suc_leI length_pos_if_in_set One_nat_def)
qed

lemma waits_delete:
  "wf_map gs \<Longrightarrow> waits (AList.delete k gs) b =
     waits gs b - (if map_option gs_WaitingBehavior (map_of gs k) = Some b then 1 else 0)"
proof (induction gs)
  case Nil
  then show ?case by (simp add: waits_def)
next
  case (Cons p gs)
  have "AList.delete k gs = gs" if "fst p = k"
    using Cons.prems that by (intro alist_delete_None) (auto simp: wf_map_def map_of_eq_None_iff)
  moreover have "wf_map gs" using Cons.prems by (simp add: wf_map_def)
  moreover have "waits gs b \<ge> 1" if "map_option gs_WaitingBehavior (map_of gs k) = Some b"
    using that waits_pos by fastforce
  ultimately show ?case using Cons.IH by (cases p) (auto simp: waits_def)
qed

section \<open>Sequence rules keep the invariant\<close>

text \<open>Ending a group and stopping to wait for its behaviour belong together.\<close>

lemma cepGroups_dropGroup [simp]:
  "cepGroups r' (dropGroup r k e) = (if r' = r then AList.delete k (cepGroups r e) else cepGroups r' e)"
  by (simp add: dropGroup_def Let_def)

lemma dropGroup_frame [simp]:
  "e_correlate (dropGroup r k e) = e_correlate e"
  "e_suppression (dropGroup r k e) = e_suppression e"
  "e_limits (dropGroup r k e) = e_limits e"
  "e_sequence (dropGroup r k e) = e_sequence e"
  "e_nextID (dropGroup r k e) = e_nextID e"
  "e_compiled (dropGroup r k e) = e_compiled e"
  "e_correlation (dropGroup r k e) = e_correlation e"
  by (simp_all add: dropGroup_def Let_def)

lemma index_ok_countD:
  assumes "index_ok e"
  shows "active_count e b r = (if b = '''' \<or> r = '''' then 0 else waits (cepGroups r e) b)"
  using assms by (simp add: index_ok_def)

lemma index_ok_dropGroup:
  assumes "index_ok e" and "wf_map (cepGroups r e)"
  shows "index_ok (dropGroup r k e)"
  unfolding index_ok_def
proof (intro allI)
  fix b r'
  let ?w = "case map_of (cepGroups r e) k of None \<Rightarrow> '''' | Some g \<Rightarrow> gs_WaitingBehavior g"
  have "active_count (dropGroup r k e) b r' =
      (if r \<noteq> '''' \<and> b = ?w \<and> r' = r then active_count e ?w r - 1 else active_count e b r')"
    by (simp add: dropGroup_def Let_def)
  with assms waits_delete [OF assms(2), of k b]
  show "active_count (dropGroup r k e) b r' = (if b = '''' \<or> r' = '''' then 0 else waits (cepGroups r' (dropGroup r k e)) b)"
    by (auto simp: index_ok_countD split: option.splits)
qed

lemma map_of_delete_SomeD: "map_of (AList.delete k m) j = Some v \<Longrightarrow> map_of m j = Some v"
  by (simp split: if_splits)

lemma length_delete_le: "length (AList.delete k m) \<le> length m"
  by (simp add: AList.delete_eq)

lemma cep_ok_dropGroup [inv_intros]:
  assumes "cep_ok e"
  shows "cep_ok (dropGroup r k e)"
proof -
  have "int (length (AList.delete k (cepGroups r e))) \<le> int (length (cepGroups r e))"
    by (simp add: length_delete_le)
  also have "\<dots> \<le> MaxCEPGroups (e_limits e)" using assms by (simp add: cep_ok_def)
  finally have "int (length (AList.delete k (cepGroups r e))) \<le> MaxCEPGroups (e_limits e)" .
  with assms show ?thesis
    by (auto simp: cep_ok_def index_ok_dropGroup dest: map_of_delete_SomeD)
qed

lemma cep_ok_countExpired [simp]: "cep_ok (countExpired e) = cep_ok e"
  by (rule cep_ok_metrics) simp

lemma cep_ok_countEvicted [simp]: "cep_ok (countEvicted e) = cep_ok e"
  by (rule cep_ok_metrics) simp

lemma cep_ok_expireGroup [inv_intros]: "cep_ok e \<Longrightarrow> cep_ok (expireGroup r k now e)"
  by (simp add: expireGroup_def cep_ok_dropGroup split: option.split)

lemma cep_ok_evictExpired [inv_intros]: "cep_ok e \<Longrightarrow> cep_ok (evictExpired r now gs e)"
  unfolding evictExpired_def by (induction gs arbitrary: e) (auto simp: cep_ok_dropGroup split: prod.split)

lemma cep_ok_evictGroups_loop [inv_intros]: "cep_ok e \<Longrightarrow> cep_ok (evictGroups_loop pick r n e)"
  by (induction n arbitrary: e) (simp_all add: cep_ok_dropGroup)

lemma cep_ok_evictCEPGroups [inv_intros]: "cep_ok e \<Longrightarrow> cep_ok (evictCEPGroups env r now e)"
  by (simp add: evictCEPGroups_def Let_def cep_ok_evictGroups_loop cep_ok_evictExpired)

lemma cepGroups_count [simp]:
  "cepGroups r (countExpired e) = cepGroups r e" "cepGroups r (countEvicted e) = cepGroups r e"
  "e_limits (countExpired e) = e_limits e" "e_limits (countEvicted e) = e_limits e"
  by (simp_all add: cepGroups_metrics metrics_only_simps [OF metrics_only_ops(4)] metrics_only_simps [OF metrics_only_ops(5)])

lemma evictExpired_limits [simp]: "e_limits (evictExpired r now gs e) = e_limits e"
  unfolding evictExpired_def by (induction gs arbitrary: e) (auto split: prod.split)

lemma evictGroups_loop_frame [simp]: "e_limits (evictGroups_loop pick r n e) = e_limits e"
  by (induction n arbitrary: e) simp_all

lemma evictCEPGroups_limits [simp]: "e_limits (evictCEPGroups env r now e) = e_limits e"
  by (simp add: evictCEPGroups_def Let_def)

text \<open>After the eviction loop there is room for a group.\<close>

lemma evictGroups_loop_room:
  assumes "MaxCEPGroups (e_limits e) \<ge> 1" and "wf_map (cepGroups r e)" and "length (cepGroups r e) \<le> n"
  shows "int (length (cepGroups r (evictGroups_loop pick r n e))) < MaxCEPGroups (e_limits e)"
  using assms
proof (induction n arbitrary: e)
  case 0
  then show ?case by simp
next
  case (Suc n)
  let ?k = "pick_key pick (cepGroups r e)" and ?e' = "countEvicted (dropGroup r (pick_key pick (cepGroups r e)) e)"
  show ?case
  proof (cases "int (length (cepGroups r e)) \<ge> MaxCEPGroups (e_limits e) \<and> cepGroups r e \<noteq> []")
    case True
    then have "Suc (length (AList.delete ?k (cepGroups r e))) = length (cepGroups r e)"
      using Suc.prems(2) by (intro length_delete_pick) simp_all
    then have "length (cepGroups r ?e') \<le> n" using Suc.prems(3) by simp
    with Suc.IH [of ?e'] Suc.prems True show ?thesis by simp
  next
    case False
    with Suc.prems(1) show ?thesis by auto
  qed
qed

lemma evictCEPGroups_room:
  assumes "limits_ok (e_limits e)" and "cep_ok e"
  shows "int (length (cepGroups r (evictCEPGroups env r now e))) < MaxCEPGroups (e_limits e)"
proof (cases "int (length (cepGroups r e)) < MaxCEPGroups (e_limits e)")
  case True
  then show ?thesis by (simp add: evictCEPGroups_def)
next
  case False
  let ?e1 = "evictExpired r now (cepGroups r e) e"
  have "wf_map (cepGroups r ?e1)" using cep_ok_evictExpired [OF assms(2)] by (simp add: cep_ok_def)
  with evictGroups_loop_room [of ?e1 r "length (cepGroups r ?e1)" "env_pick env"] assms(1) False
  show ?thesis by (simp add: evictCEPGroups_def limits_ok_def Let_def)
qed

text \<open>No eviction creates a group.\<close>

lemma cepGroups_expire_subset:
  "map_of (cepGroups r' (expireGroup r k now e)) j = Some g \<Longrightarrow> map_of (cepGroups r' e) j = Some g"
  by (auto simp: expireGroup_def split: option.splits if_splits)

lemma cepGroups_evictExpired_subset:
  "map_of (cepGroups r' (evictExpired r now gs e)) j = Some g \<Longrightarrow> map_of (cepGroups r' e) j = Some g"
  unfolding evictExpired_def
  by (induction gs arbitrary: e) (fastforce split: prod.splits if_splits)+

lemma cepGroups_evictGroups_loop_subset:
  "map_of (cepGroups r' (evictGroups_loop pick r n e)) j = Some g \<Longrightarrow> map_of (cepGroups r' e) j = Some g"
  by (induction n arbitrary: e) (fastforce split: if_splits)+

lemma cepGroups_evict_subset:
  "map_of (cepGroups r' (evictCEPGroups env r now e)) j = Some g \<Longrightarrow> map_of (cepGroups r' e) j = Some g"
  by (auto simp: evictCEPGroups_def Let_def split: if_splits
      dest!: cepGroups_evictGroups_loop_subset cepGroups_evictExpired_subset)

text \<open>Storing a group is allowed when the index already agrees with it.\<close>

lemma cepGroups_storeGroup [simp]:
  "cepGroups r' (storeGroup r k g e) = (if r' = r then AList.update k g (cepGroups r e) else cepGroups r' e)"
  by (simp add: storeGroup_def)

lemma storeGroup_frame [simp]:
  "e_cepActive (storeGroup r k g e) = e_cepActive e"
  "e_correlate (storeGroup r k g e) = e_correlate e"
  "e_suppression (storeGroup r k g e) = e_suppression e"
  "e_limits (storeGroup r k g e) = e_limits e"
  "e_sequence (storeGroup r k g e) = e_sequence e"
  "e_nextID (storeGroup r k g e) = e_nextID e"
  "e_compiled (storeGroup r k g e) = e_compiled e"
  "e_correlation (storeGroup r k g e) = e_correlation e"
  by (simp_all add: storeGroup_def)

lemma active_count_storeGroup [simp]: "active_count (storeGroup r k g e) = active_count e"
  by (simp add: storeGroup_def)

definition rewait :: "string \<Rightarrow> string \<Rightarrow> cepGroupState \<Rightarrow> cepGroupState \<Rightarrow> Engine \<Rightarrow> Engine" where
  "rewait r k g g' e =
     (let e = storeGroup r k g' (deactivateSequenceWait r (gs_WaitingBehavior g) e)
      in if gs_WaitingBehavior g' = '''' then e else activateSequenceWait r (gs_WaitingBehavior g') e)"

lemma cep_ok_rewait:
  assumes ok: "cep_ok e" and g: "map_of (cepGroups r e) k = Some g" and g': "group_ok (e_limits e) g'"
  shows "cep_ok (rewait r k g g' e)"
proof -
  have wf: "wf_map (cepGroups r e)" and idx: "index_ok e" using ok by (simp_all add: cep_ok_def)
  have "index_ok (rewait r k g g' e)"
    unfolding index_ok_def
  proof (intro allI)
    fix b r'
    have w: "waits (AList.update k g' (cepGroups r e)) b + (if gs_WaitingBehavior g = b then 1 else 0) =
        waits (cepGroups r e) b + (if gs_WaitingBehavior g' = b then 1 else 0)"
      using waits_update [OF wf, of k g' b] g by simp
    show "active_count (rewait r k g g' e) b r' = (if b = '''' \<or> r' = '''' then 0 else waits (cepGroups r' (rewait r k g g' e)) b)"
      using w waits_pos [OF g] by (auto simp: rewait_def Let_def index_ok_countD [OF idx] split: if_splits)
  qed
  with ok g g' show ?thesis
    by (auto simp: cep_ok_def rewait_def Let_def length_alist_update split: if_splits)
qed

lemma cep_ok_new:
  assumes ok: "cep_ok e" and none: "map_of (cepGroups r e) k = None" and g': "group_ok (e_limits e) g'"
    and w: "gs_WaitingBehavior g' = ''''" and room: "int (length (cepGroups r e)) < MaxCEPGroups (e_limits e)"
  shows "cep_ok (storeGroup r k g' e)"
proof -
  have wf: "wf_map (cepGroups r e)" and idx: "index_ok e" using ok by (simp_all add: cep_ok_def)
  have "index_ok (storeGroup r k g' e)"
    unfolding index_ok_def
  proof (intro allI)
    fix b r'
    show "active_count (storeGroup r k g' e) b r' = (if b = '''' \<or> r' = '''' then 0 else waits (cepGroups r' (storeGroup r k g' e)) b)"
      using waits_update [OF wf, of k g' b] none w by (auto simp: index_ok_countD [OF idx])
  qed
  with ok none g' room show ?thesis
    by (auto simp: cep_ok_def length_alist_update split: if_splits)
qed

lemma storeGroup_twice [simp]: "storeGroup r k g' (storeGroup r k g e) = storeGroup r k g' e"
  by (simp add: storeGroup_def setCepGroups_def cepGroups_def AList.update_Some_unfold)

lemma deactivate_storeGroup:
  "deactivateSequenceWait r b (storeGroup r' k g e) = storeGroup r' k g (deactivateSequenceWait r b e)"
  by (simp add: deactivateSequenceWait_def storeGroup_def setCepGroups_def cepGroups_def Let_def split: option.split)

lemma emitSignal_frame [simp]:
  "e_cep (snd (emitSignal ev rule refs t es e)) = e_cep e"
  "e_cepActive (snd (emitSignal ev rule refs t es e)) = e_cepActive e"
  "e_correlate (snd (emitSignal ev rule refs t es e)) = e_correlate e"
  "e_suppression (snd (emitSignal ev rule refs t es e)) = e_suppression e"
  "e_limits (snd (emitSignal ev rule refs t es e)) = e_limits e"
  "e_sequence (snd (emitSignal ev rule refs t es e)) = e_sequence e"
  "e_compiled (snd (emitSignal ev rule refs t es e)) = e_compiled e"
  "e_correlation (snd (emitSignal ev rule refs t es e)) = e_correlation e"
  "e_nextID (snd (emitSignal ev rule refs t es e)) = e_nextID e + 1"
  "sig_id (fst (emitSignal ev rule refs t es e)) = counter_id ''sig-'' (e_nextID e + 1)"
  by (simp_all add: emitSignal_def Let_def)

lemma cep_ok_emitSignal [simp]: "cep_ok (snd (emitSignal ev rule refs t es e)) = cep_ok e"
  by (rule cep_ok_cong) simp_all

lemma distinct_appendUnique: "distinct xs \<Longrightarrow> distinct (appendUnique xs x)"
  by (simp add: appendUnique_def)

lemma advanceGroup_simps [simp]:
  "gs_StepIndex (fst (advanceGroup seq step view st e)) = gs_StepIndex st + 1"
  "gs_WaitingBehavior (fst (advanceGroup seq step view st e)) = gs_WaitingBehavior st"
  by (simp_all add: advanceGroup_def keepRefs_def Let_def)

lemma advanceGroup_refs:
  "gs_Refs (fst (advanceGroup seq step view st e)) =
     (if int (length (appendUnique (gs_Refs st) (v_eventID view))) > MaxCEPRefs (e_limits e)
      then last_n (nat (MaxCEPRefs (e_limits e))) (appendUnique (gs_Refs st) (v_eventID view))
      else appendUnique (gs_Refs st) (v_eventID view))"
  by (simp add: advanceGroup_def keepRefs_def Let_def)

lemma advanceGroup_refs_ok:
  assumes "limits_ok (e_limits e)" and "distinct (gs_Refs st)"
  shows "distinct (gs_Refs (fst (advanceGroup seq step view st e)))"
    "int (length (gs_Refs (fst (advanceGroup seq step view st e)))) \<le> MaxCEPRefs (e_limits e)"
  using assms by (auto simp: advanceGroup_refs distinct_last_n distinct_appendUnique length_last_n limits_ok_def)

lemma group_ok_reset: "limits_ok limits \<Longrightarrow> group_ok limits (resetGroup st)"
  by (simp add: group_ok_def resetGroup_def limits_ok_def)

lemma group_ok_new: "limits_ok limits \<Longrightarrow> group_ok limits cepGroupState_new"
  by (simp add: group_ok_def cepGroupState_new_def limits_ok_def)

text \<open>
  The end of \<^const>\<open>stepGroup\<close> after the group has been stored and, where it was complete,
  restarted.
\<close>

definition stepStored :: "detectEnv \<Rightarrow> eventView \<Rightarrow> compiledRule \<Rightarrow> string \<Rightarrow> cepGroupState \<Rightarrow> Engine \<Rightarrow> Signal option \<times> Engine" where
  "stepStored env view rule groupKey st e =
     (let seq = ru_sequence rule; ruleID = rs_RuleID (er_spec (ru_rule rule));
          step = cq_steps seq ! gs_StepIndex st;
          (ok, e) = matchCompiledStep env view step st e
      in if \<not> ok then (None, e)
         else let (st', e) = advanceGroup seq step view st e in
              if gs_StepIndex st' < length (cq_steps seq) then
                (None, rewait ruleID groupKey st (st'\<lparr> gs_WaitingBehavior := sk_behavior (cq_steps seq ! gs_StepIndex st') \<rparr>) e)
              else
                (let (sig, e) = emitSignal (v_ev view) (ru_rule rule) (appendRefs [] (gs_Refs st'))
                                  (rule_terminal (ru_rule rule) True) (gs_Entities st') (dropGroup ruleID groupKey e)
                 in (Some sig, e)))"

lemma stepGroup_stepStored:
  assumes "rule_steps_ok rule" and "r = rs_RuleID (er_spec (ru_rule rule))"
  shows "stepGroup env view rule k st e =
    (if gs_StepIndex st \<ge> length (cq_steps (ru_sequence rule))
     then stepStored env view rule k (resetGroup st) (rewait r k st (resetGroup st) (storeGroup r k st e))
     else stepStored env view rule k st (storeGroup r k st e))"
proof -
  let ?seq = "ru_sequence rule"
  have main: "(let step = cq_steps ?seq ! gs_StepIndex s; (ok, e) = matchCompiledStep env view step s d
      in if \<not> ok then (None, e)
         else let (s, e) = advanceGroup ?seq step view s e in
              if gs_StepIndex s < length (cq_steps ?seq) then
                (let e = deactivateSequenceWait r (gs_WaitingBehavior s) e;
                     s = s\<lparr> gs_WaitingBehavior := sk_behavior (cq_steps ?seq ! gs_StepIndex s) \<rparr>
                 in (None, activateSequenceWait r (gs_WaitingBehavior s) (storeGroup r k s e)))
              else
                (let e = deactivateSequenceWait r (gs_WaitingBehavior s) e;
                     e = setCepGroups r (AList.delete k (cepGroups r e)) e;
                     (sig, e) = emitSignal (v_ev view) (ru_rule rule) (appendRefs [] (gs_Refs s))
                                  (rule_terminal (ru_rule rule) True) (gs_Entities s) e
                 in (Some sig, e))) = stepStored env view rule k s d"
    if st: "map_of (cepGroups r d) k = Some s" for s d
  proof -
    define w where "w = matchCompiledStep env view (cq_steps ?seq ! gs_StepIndex s) s d"
    define a where "a = advanceGroup ?seq (cq_steps ?seq ! gs_StepIndex s) view s (snd w)"
    have "metrics_only d (snd w)" by (simp add: w_def)
    moreover have "metrics_only (snd w) (snd a)" by (simp add: a_def)
    ultimately have g: "map_of (cepGroups r (snd a)) k = Some s"
      using st cepGroups_metrics metrics_only_trans by metis
    have i: "gs_WaitingBehavior (fst a) = gs_WaitingBehavior s" "gs_StepIndex (fst a) = gs_StepIndex s + 1"
      by (simp_all add: a_def)
    have b: "sk_behavior (cq_steps ?seq ! gs_StepIndex (fst a)) \<noteq> ''''" if "gs_StepIndex (fst a) < length (cq_steps ?seq)"
      using assms(1) that by (simp add: rule_steps_ok_def list_all_length)
    show ?thesis
      using g i b
      by (simp add: stepStored_def assms(2) w_def [symmetric] a_def [symmetric] split_beta Let_def rewait_def dropGroup_def)
  qed
  have r1: "storeGroup r k (resetGroup st) (deactivateSequenceWait r (gs_WaitingBehavior st) e) =
      rewait r k st (resetGroup st) (storeGroup r k st e)"
    by (simp add: rewait_def Let_def deactivate_storeGroup resetGroup_def)
  have m1: "map_of (cepGroups r (rewait r k st (resetGroup st) (storeGroup r k st e))) k = Some (resetGroup st)"
    by (simp add: r1 [symmetric])
  have m2: "map_of (cepGroups r (storeGroup r k st e)) k = Some st" by simp
  show ?thesis
    using main [OF m1] main [OF m2] r1 by (simp add: stepGroup_def assms(2) [symmetric] Let_def)
qed

lemma cep_ok_stepStored:
  assumes ok: "cep_ok e" and lim: "limits_ok (e_limits e)" and steps: "rule_steps_ok rule"
    and r: "r = rs_RuleID (er_spec (ru_rule rule))" and g: "map_of (cepGroups r e) k = Some st"
  shows "cep_ok (snd (stepStored env view rule k st e))"
proof -
  let ?seq = "ru_sequence rule"
  define w where "w = matchCompiledStep env view (cq_steps ?seq ! gs_StepIndex st) st e"
  define a where "a = advanceGroup ?seq (cq_steps ?seq ! gs_StepIndex st) view st (snd w)"
  have mw: "metrics_only e (snd w)" by (simp add: w_def)
  have "metrics_only (snd w) (snd a)" by (simp add: a_def)
  with mw have ma: "metrics_only e (snd a)" by (rule metrics_only_trans)
  have ok2: "cep_ok (snd w)" "cep_ok (snd a)" using cep_ok_metrics [OF mw] cep_ok_metrics [OF ma] ok by simp_all
  have lim2: "e_limits (snd a) = e_limits e" "e_limits (snd w) = e_limits e"
    using metrics_only_simps(6) [OF ma] metrics_only_simps(6) [OF mw] by simp_all
  have g2: "map_of (cepGroups r (snd a)) k = Some st" using g cepGroups_metrics [OF ma] by simp
  have "distinct (gs_Refs st)" using ok g by (auto simp: cep_ok_def group_ok_def)
  then have refs: "distinct (gs_Refs (fst a))" "int (length (gs_Refs (fst a))) \<le> MaxCEPRefs (e_limits e)"
    using advanceGroup_refs_ok [of "snd w" st ?seq _ view] lim lim2(2) unfolding a_def by simp_all
  have i: "gs_StepIndex (fst a) = gs_StepIndex st + 1" by (simp add: a_def)
  have b: "sk_behavior (cq_steps ?seq ! gs_StepIndex (fst a)) \<noteq> ''''" if "gs_StepIndex (fst a) < length (cq_steps ?seq)"
    using steps that by (simp add: rule_steps_ok_def list_all_length)
  have "cep_ok (rewait r k st ((fst a)\<lparr> gs_WaitingBehavior := sk_behavior (cq_steps ?seq ! gs_StepIndex (fst a)) \<rparr>) (snd a))"
    if "gs_StepIndex (fst a) < length (cq_steps ?seq)"
    using ok2(2) g2 refs i b [OF that] lim2(1) by (intro cep_ok_rewait) (simp_all add: group_ok_def)
  then show ?thesis
    using ok2 by (simp add: stepStored_def r [symmetric] w_def [symmetric] a_def [symmetric] split_beta Let_def cep_ok_dropGroup)
qed

lemma rewait_frame [simp]:
  "e_correlate (rewait r k g g' e) = e_correlate e"
  "e_suppression (rewait r k g g' e) = e_suppression e"
  "e_limits (rewait r k g g' e) = e_limits e"
  "e_sequence (rewait r k g g' e) = e_sequence e"
  "e_nextID (rewait r k g g' e) = e_nextID e"
  "e_compiled (rewait r k g g' e) = e_compiled e"
  "e_correlation (rewait r k g g' e) = e_correlation e"
  by (simp_all add: rewait_def Let_def)

lemma cepGroups_rewait [simp]:
  "cepGroups r' (rewait r k g g' e) = (if r' = r then AList.update k g' (cepGroups r e) else cepGroups r' e)"
  by (simp add: rewait_def Let_def)

lemma cep_ok_stepGroup:
  assumes ok: "cep_ok (storeGroup r k st e)" and lim: "limits_ok (e_limits e)" and steps: "rule_steps_ok rule"
    and r: "r = rs_RuleID (er_spec (ru_rule rule))"
  shows "cep_ok (snd (stepGroup env view rule k st e))"
proof -
  have m: "map_of (cepGroups r (storeGroup r k st e)) k = Some st" by simp
  have "cep_ok (rewait r k st (resetGroup st) (storeGroup r k st e))"
    using lim by (intro cep_ok_rewait [OF ok m]) (simp add: group_ok_reset)
  with ok lim steps r show ?thesis
    by (simp add: stepGroup_stepStored [OF steps r] cep_ok_stepStored [OF _ _ steps r])
qed

lemma cep_ok_storeSame:
  assumes "cep_ok e" and "map_of (cepGroups r e) k = Some st"
  shows "cep_ok (storeGroup r k st e)"
proof -
  have "cepGroups r' (storeGroup r k st e) = cepGroups r' e" for r'
    using assms(2) by (simp add: update_triv)
  then show ?thesis using assms by (simp add: cep_ok_def index_ok_def)
qed

lemma setCepGroups_self: "cep_ok (setCepGroups r (cepGroups r e) e) = cep_ok e"
proof -
  have "cepGroups r' (setCepGroups r (cepGroups r e) e) = cepGroups r' e" for r' by simp
  then show ?thesis by (simp add: cep_ok_def index_ok_def)
qed

lemma expireGroup_frame [simp]:
  "e_correlate (expireGroup r k now e) = e_correlate e"
  "e_suppression (expireGroup r k now e) = e_suppression e"
  "e_limits (expireGroup r k now e) = e_limits e"
  "e_sequence (expireGroup r k now e) = e_sequence e"
  "e_nextID (expireGroup r k now e) = e_nextID e"
  "e_compiled (expireGroup r k now e) = e_compiled e"
  "e_correlation (expireGroup r k now e) = e_correlation e"
  by (simp_all add: expireGroup_def metrics_only_simps [OF metrics_only_ops(4)] split: option.split)

lemma cep_ok_detectSequenceCandidate:
  assumes ok: "cep_ok e" and lim: "limits_ok (e_limits e)" and steps: "rule_steps_ok (ca_rule c)"
  shows "cep_ok (snd (detectSequenceCandidate env view c e))"
proof -
  let ?rule = "ca_rule c" and ?seq = "ru_sequence (ca_rule c)" and ?now = "view_eventTime view"
  define r where "r = rs_RuleID (er_spec (ru_rule ?rule))"
  define ke where "ke = compiledSequenceGroupKey view (cq_by ?seq) (setCepGroups r (cepGroups r e) e)"
  define e1 where "e1 = expireGroup r (fst ke) ?now (snd ke)"
  have mk: "metrics_only (setCepGroups r (cepGroups r e) e) (snd ke)" by (simp add: ke_def)
  have "cep_ok (snd ke)" using cep_ok_metrics [OF mk] ok by (simp add: setCepGroups_self)
  then have ok1: "cep_ok e1" by (simp add: e1_def cep_ok_expireGroup)
  have lim1: "e_limits e1 = e_limits e" using metrics_only_simps(6) [OF mk] by (simp add: e1_def)
  show ?thesis
  proof (cases "map_of (cepGroups r e1) (fst ke)")
    case None
    let ?e2 = "evictCEPGroups env r ?now e1"
    have "map_of (cepGroups r ?e2) (fst ke) = None"
      using None cepGroups_evict_subset [of r env r ?now e1 "fst ke"] by (cases "map_of (cepGroups r ?e2) (fst ke)") auto
    then have "cep_ok (storeGroup r (fst ke) cepGroupState_new ?e2)"
      using ok1 lim lim1 evictCEPGroups_room [of e1 r env ?now]
      by (intro cep_ok_new) (simp_all add: cep_ok_evictCEPGroups group_ok_new, simp add: cepGroupState_new_def)
    then have "cep_ok (snd (stepGroup env view ?rule (fst ke) cepGroupState_new ?e2))"
      using lim lim1 by (intro cep_ok_stepGroup [OF _ _ steps r_def]) simp_all
    with None ok ok1 show ?thesis
      by (simp add: detectSequenceCandidate_def r_def [symmetric] ke_def [symmetric] e1_def [symmetric] split_beta Let_def)
  next
    case (Some st)
    have same: "cep_ok (snd (stepGroup env view ?rule (fst ke) st e1))"
      using lim lim1 by (intro cep_ok_stepGroup [OF _ _ steps r_def] cep_ok_storeSame ok1 Some) simp_all
    define m where "m = matchCompiledStep env view (cq_steps ?seq ! 0) cepGroupState_new e1"
    have mm: "metrics_only e1 (snd m)" by (simp add: m_def)
    have okm: "cep_ok (snd m)" using cep_ok_metrics [OF mm] ok1 by simp
    have gm: "map_of (cepGroups r (snd m)) (fst ke) = Some st" using cepGroups_metrics [OF mm] Some by simp
    have limm: "e_limits (snd m) = e_limits e" using metrics_only_simps(6) [OF mm] lim1 by simp
    have "cep_ok (rewait r (fst ke) st (resetGroup st) (snd m))"
      using lim limm by (intro cep_ok_rewait [OF okm gm]) (simp add: group_ok_reset)
    then have "cep_ok (storeGroup r (fst ke) (resetGroup st) (deactivateSequenceWait r (gs_WaitingBehavior st) (snd m)))"
      by (simp add: rewait_def Let_def resetGroup_def)
    then have "cep_ok (snd (stepGroup env view ?rule (fst ke) (resetGroup st)
        (deactivateSequenceWait r (gs_WaitingBehavior st) (snd m))))"
      using lim limm by (intro cep_ok_stepGroup [OF _ _ steps r_def]) simp_all
    with Some ok ok1 same okm show ?thesis
      by (simp add: detectSequenceCandidate_def r_def [symmetric] ke_def [symmetric] e1_def [symmetric] m_def [symmetric] split_beta Let_def)
  qed
qed

section \<open>What sequence rules leave alone\<close>

text \<open>
  A sequence candidate changes the sequence state, the metrics and the signal counter; the same
  holds for the other two kinds of rules, so the invariants of the three parts are independent.
\<close>

definition outside_cep :: "Engine \<Rightarrow> Engine \<Rightarrow> bool" where
  "outside_cep e e' \<longleftrightarrow> e_correlate e' = e_correlate e \<and> e_suppression e' = e_suppression e \<and>
     e_limits e' = e_limits e \<and> e_sequence e' = e_sequence e \<and> e_compiled e' = e_compiled e \<and>
     e_correlation e' = e_correlation e"

lemma outside_cep_refl [simp]: "outside_cep e e"
  by (simp add: outside_cep_def)

lemma outside_cep_trans: "outside_cep a b \<Longrightarrow> outside_cep b c \<Longrightarrow> outside_cep a c"
  by (simp add: outside_cep_def)

lemma outside_cep_metrics: "metrics_only e e' \<Longrightarrow> outside_cep e e'"
  by (simp add: outside_cep_def metrics_only_simps)

lemma outside_cep_ops [simp]:
  "outside_cep e (setCepGroups r gs e)" "outside_cep e (storeGroup r k g e)" "outside_cep e (dropGroup r k e)"
  "outside_cep e (rewait r k g g' e)" "outside_cep e (expireGroup r k now e)"
  "outside_cep e (deactivateSequenceWait r b e)" "outside_cep e (snd (emitSignal ev rule refs t es e))"
  by (simp_all add: outside_cep_def)

lemma outside_cep_evictExpired [simp]: "outside_cep e (evictExpired r now gs e)"
  unfolding evictExpired_def
proof (induction gs arbitrary: e)
  case (Cons p gs)
  have "outside_cep e (countExpired (dropGroup r (fst p) e))"
    by (rule outside_cep_trans [of _ "dropGroup r (fst p) e"]) (simp_all add: outside_cep_metrics)
  from outside_cep_trans [OF this Cons.IH] Cons.IH show ?case by (cases p) auto
qed simp

lemma outside_cep_evictGroups_loop [simp]: "outside_cep e (evictGroups_loop pick r n e)"
proof (induction n arbitrary: e)
  case (Suc n)
  let ?k = "pick_key pick (cepGroups r e)"
  have "outside_cep e (countEvicted (dropGroup r ?k e))"
    by (rule outside_cep_trans [of _ "dropGroup r ?k e"]) (simp_all add: outside_cep_metrics)
  from outside_cep_trans [OF this Suc.IH] show ?case by simp
qed simp

lemma outside_cep_evict [simp]: "outside_cep e (evictCEPGroups env r now e)"
  by (simp add: evictCEPGroups_def Let_def outside_cep_trans [OF outside_cep_evictExpired outside_cep_evictGroups_loop])

lemma outside_cep_stepStored [simp]: "outside_cep e (snd (stepStored env view rule k st e))"
proof -
  let ?seq = "ru_sequence rule" and ?r = "rs_RuleID (er_spec (ru_rule rule))"
  define w where "w = matchCompiledStep env view (cq_steps ?seq ! gs_StepIndex st) st e"
  define a where "a = advanceGroup ?seq (cq_steps ?seq ! gs_StepIndex st) view st (snd w)"
  have w1: "outside_cep e (snd w)" by (simp add: w_def outside_cep_metrics)
  have "outside_cep (snd w) (snd a)" by (simp add: a_def outside_cep_metrics)
  with w1 have a1: "outside_cep e (snd a)" by (rule outside_cep_trans)
  have "outside_cep (snd a) (snd (emitSignal ev rl refs t es (dropGroup ?r k (snd a))))" for ev rl refs t es
    by (rule outside_cep_trans [of _ "dropGroup ?r k (snd a)"]) simp_all
  with a1 have "outside_cep e (snd (emitSignal ev rl refs t es (dropGroup ?r k (snd a))))" for ev rl refs t es
    using outside_cep_trans by blast
  moreover have "outside_cep e (rewait ?r k st g (snd a))" for g
    using a1 outside_cep_ops(4) outside_cep_trans by blast
  ultimately show ?thesis
    using w1 by (simp add: stepStored_def w_def [symmetric] a_def [symmetric] split_beta Let_def)
qed

lemma outside_cep_stepGroup [simp]:
  assumes "rule_steps_ok rule"
  shows "outside_cep e (snd (stepGroup env view rule k st e))"
proof -
  have "outside_cep e (rewait r k st g (storeGroup r k st e))" for r g
    by (rule outside_cep_trans [OF outside_cep_ops(2) outside_cep_ops(4)])
  from outside_cep_trans [OF this outside_cep_stepStored]
    outside_cep_trans [OF outside_cep_ops(2) outside_cep_stepStored]
  show ?thesis by (simp add: stepGroup_stepStored [OF assms refl])
qed

lemma outside_cep_detectSequenceCandidate:
  assumes "rule_steps_ok (ca_rule c)"
  shows "outside_cep e (snd (detectSequenceCandidate env view c e))"
proof -
  let ?rule = "ca_rule c" and ?seq = "ru_sequence (ca_rule c)" and ?now = "view_eventTime view"
  define r where "r = rs_RuleID (er_spec (ru_rule ?rule))"
  define ke where "ke = compiledSequenceGroupKey view (cq_by ?seq) (setCepGroups r (cepGroups r e) e)"
  define e1 where "e1 = expireGroup r (fst ke) ?now (snd ke)"
  note trans = outside_cep_trans and step = outside_cep_stepGroup [OF assms]
  have "outside_cep (setCepGroups r (cepGroups r e) e) (snd ke)" by (simp add: ke_def outside_cep_metrics)
  from trans [OF outside_cep_ops(1) this] have "outside_cep e (snd ke)" .
  from trans [OF this outside_cep_ops(5)] have o1: "outside_cep e e1" by (simp add: e1_def)
  have o2: "outside_cep e (snd (stepGroup env view ?rule (fst ke) st e1))" for st
    using trans [OF o1 step] .
  have o3: "outside_cep e (snd (stepGroup env view ?rule (fst ke) st (evictCEPGroups env r ?now e1)))" for st
    using trans [OF trans [OF o1 outside_cep_evict] step] .
  define m where "m = matchCompiledStep env view (cq_steps ?seq ! 0) cepGroupState_new e1"
  have "outside_cep e1 (snd m)" by (simp add: m_def outside_cep_metrics)
  from trans [OF o1 this] have o4: "outside_cep e (snd m)" .
  have o5: "outside_cep e (snd (stepGroup env view ?rule (fst ke) st (deactivateSequenceWait r b (snd m))))" for st b
    using trans [OF trans [OF o4 outside_cep_ops(6)] step] .
  show ?thesis
    using o1 o2 o3 o4 o5
    by (simp add: detectSequenceCandidate_def r_def [symmetric] ke_def [symmetric] e1_def [symmetric] m_def [symmetric]
        split_beta Let_def split: option.split)
qed

section \<open>Suppression and correlation\<close>

lemma evictSuppression_loop_wf:
  "wf_map m \<Longrightarrow> wf_map (fst (evictSuppression_loop pick m n)) \<and>
     length (fst (evictSuppression_loop pick m n)) < maxSuppressionKeys"
proof (induction pick m n rule: evictSuppression_loop.induct)
  case (1 pick m n)
  then show ?case
    by (cases "length m \<ge> maxSuppressionKeys") (simp_all add: evictSuppression_loop.simps [of pick m n])
qed

lemma evictSuppression_loop_subset:
  "map_of (fst (evictSuppression_loop pick m n)) k = Some t \<Longrightarrow> map_of m k = Some t"
proof (induction pick m n rule: evictSuppression_loop.induct)
  case (1 pick m n)
  then show ?case
    by (cases "length m \<ge> maxSuppressionKeys \<and> wf_map m")
      (auto simp: evictSuppression_loop.simps [of pick m n] dest: map_of_delete_SomeD split: if_splits)
qed

lemma suppressSignal_frame [simp]:
  "e_cep (snd (suppressSignal env key now w e)) = e_cep e"
  "e_cepActive (snd (suppressSignal env key now w e)) = e_cepActive e"
  "e_correlate (snd (suppressSignal env key now w e)) = e_correlate e"
  "e_limits (snd (suppressSignal env key now w e)) = e_limits e"
  "e_sequence (snd (suppressSignal env key now w e)) = e_sequence e"
  "e_nextID (snd (suppressSignal env key now w e)) = e_nextID e"
  "e_compiled (snd (suppressSignal env key now w e)) = e_compiled e"
  "e_correlation (snd (suppressSignal env key now w e)) = e_correlation e"
  by (simp_all add: suppressSignal_def Let_def split_beta)

lemma suppression_ok_suppressSignal [inv_intros]:
  assumes "suppression_ok e"
  shows "suppression_ok (snd (suppressSignal env key now w e))"
proof -
  define m where "m = (if length (e_suppression e) \<ge> maxSuppressionKeys
      then filter (\<lambda>(_, expiresAt). expiresAt > now) (e_suppression e) else e_suppression e)"
  have "wf_map m" using assms by (simp add: m_def suppression_ok_def)
  from evictSuppression_loop_wf [OF this, of "env_pick env" "m_SuppressionEvictions (e_metrics e)"] assms
  show ?thesis
    by (auto simp: suppressSignal_def m_def [symmetric] suppression_ok_def split_beta Let_def length_alist_update)
qed

text \<open>What expression and correlation rules leave of the sequence state.\<close>

definition outside_expr :: "Engine \<Rightarrow> Engine \<Rightarrow> bool" where
  "outside_expr e e' \<longleftrightarrow> e_correlate e' = e_correlate e \<and> e_cep e' = e_cep e \<and> e_cepActive e' = e_cepActive e \<and>
     e_limits e' = e_limits e \<and> e_sequence e' = e_sequence e \<and> e_compiled e' = e_compiled e \<and>
     e_correlation e' = e_correlation e"

definition outside_correlate :: "Engine \<Rightarrow> Engine \<Rightarrow> bool" where
  "outside_correlate e e' \<longleftrightarrow> e_suppression e' = e_suppression e \<and> e_cep e' = e_cep e \<and> e_cepActive e' = e_cepActive e \<and>
     e_limits e' = e_limits e \<and> e_sequence e' = e_sequence e \<and> e_compiled e' = e_compiled e \<and>
     e_correlation e' = e_correlation e"

lemma outside_correlate_trans: "outside_correlate a b \<Longrightarrow> outside_correlate b c \<Longrightarrow> outside_correlate a c"
  by (simp add: outside_correlate_def)

lemma outside_correlate_metrics: "metrics_only e e' \<Longrightarrow> outside_correlate e e'"
  by (simp add: outside_correlate_def metrics_only_simps)

lemma setCorrelateGroups_frame [simp]:
  "e_cep (setCorrelateGroups r gs e) = e_cep e" "e_cepActive (setCorrelateGroups r gs e) = e_cepActive e"
  "e_suppression (setCorrelateGroups r gs e) = e_suppression e" "e_limits (setCorrelateGroups r gs e) = e_limits e"
  "e_sequence (setCorrelateGroups r gs e) = e_sequence e" "e_compiled (setCorrelateGroups r gs e) = e_compiled e"
  "e_correlation (setCorrelateGroups r gs e) = e_correlation e" "e_nextID (setCorrelateGroups r gs e) = e_nextID e"
  "e_metrics (setCorrelateGroups r gs e) = e_metrics e"
  by (simp_all add: setCorrelateGroups_def)

lemma correlateGroups_set [simp]:
  "correlateGroups r' (setCorrelateGroups r gs e) = (if r' = r then gs else correlateGroups r' e)"
  by (simp add: correlateGroups_def setCorrelateGroups_def)

lemma outside_correlate_set [simp]: "outside_correlate e (setCorrelateGroups r gs e)"
  by (simp add: outside_correlate_def)

lemma detectExprRule_outside:
  "outside_expr e (snd (detectExprRule env view (out, e) rule))"
proof -
  let ?x = "ru_expr rule"
  define e1 where "e1 = countEvaluated (countScan e)"
  define w where "w = matchGroup env view (xp_conditions ?x) (xp_conditionGroup ?x) None e1"
  have "metrics_only (countScan e) e1" by (simp add: e1_def)
  from metrics_only_trans [OF metrics_only_ops(2) this] have m1: "metrics_only e e1" .
  have "metrics_only e1 (snd w)" by (simp add: w_def)
  from metrics_only_trans [OF m1 this] have m2: "metrics_only e (snd w)" .
  have s: "outside_expr d (snd (suppressCompiledRule env view rule d))" for d
    using metrics_only_fieldReads [of d "sp_by (xp_suppression ?x)"]
    by (simp add: suppressCompiledRule_def Let_def outside_expr_def metrics_only_simps)
  have m0: "metrics_only e (countScan e)" by simp
  have "outside_expr e (snd w)" using m2 by (simp add: outside_expr_def metrics_only_simps)
  moreover have "outside_expr e e1" "outside_expr e (countScan e)"
    using m1 m0 by (simp_all add: outside_expr_def metrics_only_simps)
  ultimately show ?thesis
    using s [of "snd w"]
    by (simp add: detectExprRule_def e1_def [symmetric] w_def [symmetric] split_beta Let_def outside_expr_def)
qed

lemma suppression_ok_detectExprRule:
  assumes "suppression_ok e"
  shows "suppression_ok (snd (detectExprRule env view (out, e) rule))"
proof -
  let ?x = "ru_expr rule"
  define e1 where "e1 = countEvaluated (countScan e)"
  define w where "w = matchGroup env view (xp_conditions ?x) (xp_conditionGroup ?x) None e1"
  have "metrics_only (countScan e) e1" by (simp add: e1_def)
  from metrics_only_trans [OF metrics_only_ops(2) this] have m1: "metrics_only e e1" .
  have "metrics_only e1 (snd w)" by (simp add: w_def)
  from metrics_only_trans [OF m1 this] have m2: "metrics_only e (snd w)" .
  have m0: "metrics_only e (countScan e)" by simp
  have w1: "suppression_ok (snd w)" "suppression_ok e1" "suppression_ok (countScan e)"
    using assms metrics_only_simps(4) [OF m2] metrics_only_simps(4) [OF m1] metrics_only_simps(4) [OF m0]
    by (simp_all add: suppression_ok_def)
  have "suppression_ok (fold (\<lambda>_. fieldRead) fs (snd w))" for fs :: "fieldID list"
    using w1 by (simp add: suppression_ok_def metrics_only_simps(4) [OF metrics_only_fieldReads])
  then have s: "suppression_ok (snd (suppressCompiledRule env view rule (snd w)))"
    using w1 by (simp add: suppressCompiledRule_def Let_def suppression_ok_suppressSignal)
  then have "suppression_ok (snd (emitSignal ev rl refs t es (snd (suppressCompiledRule env view rule (snd w)))))"
    for ev rl refs t es by (simp add: suppression_ok_def)
  with w1 s show ?thesis
    by (simp add: detectExprRule_def e1_def [symmetric] w_def [symmetric] split_beta Let_def)
qed

lemma evictCorrelate_loop_room:
  assumes "MaxCEPGroups (e_limits e) \<ge> 1" and "wf_map (correlateGroups r e)" and "length (correlateGroups r e) \<le> n"
  shows "int (length (correlateGroups r (evictCorrelate_loop pick r n e))) < MaxCEPGroups (e_limits e) \<and>
     wf_map (correlateGroups r (evictCorrelate_loop pick r n e))"
  using assms
proof (induction n arbitrary: e)
  case 0
  then show ?case by simp
next
  case (Suc n)
  let ?gs = "correlateGroups r e"
  let ?e' = "countEvicted (setCorrelateGroups r (AList.delete (pick_key pick ?gs) ?gs) e)"
  have g': "correlateGroups r ?e' = AList.delete (pick_key pick ?gs) ?gs"
    by (simp add: correlateGroups_metrics [OF metrics_only_ops(5)])
  have l': "e_limits ?e' = e_limits e" by simp
  show ?case
  proof (cases "int (length ?gs) \<ge> MaxCEPGroups (e_limits e) \<and> ?gs \<noteq> []")
    case True
    then have "Suc (length (correlateGroups r ?e')) = length ?gs"
      unfolding g' using Suc.prems(2) by (intro length_delete_pick) simp_all
    then have "length (correlateGroups r ?e') \<le> n" using Suc.prems(3) by simp
    moreover have "wf_map (correlateGroups r ?e')" unfolding g' using Suc.prems(2) by simp
    ultimately show ?thesis using Suc.IH [of ?e'] Suc.prems(1) True l' by (simp add: Let_def)
  next
    case False
    with Suc.prems show ?thesis by (auto simp: Let_def)
  qed
qed

lemma evictCorrelate_loop_other:
  "r' \<noteq> r \<Longrightarrow> correlateGroups r' (evictCorrelate_loop pick r n e) = correlateGroups r' e"
  by (induction n arbitrary: e) (simp_all add: Let_def correlateGroups_metrics [OF metrics_only_ops(5)])

lemma outside_correlate_evict_loop [simp]: "outside_correlate e (evictCorrelate_loop pick r n e)"
proof (induction n arbitrary: e)
  case 0
  then show ?case by (simp add: outside_correlate_def)
next
  case (Suc n)
  let ?gs = "correlateGroups r e"
  let ?d = "setCorrelateGroups r (AList.delete (pick_key pick ?gs) ?gs) e"
  have "outside_correlate e (countEvicted ?d)"
    by (rule outside_correlate_trans [of _ ?d]) (simp_all add: outside_correlate_metrics)
  from outside_correlate_trans [OF this Suc.IH] show ?case by (simp add: Let_def outside_correlate_def)
qed

lemma evictCorrelateGroups_spec:
  assumes "limits_ok (e_limits e)" and "correlate_ok e"
  shows "int (length (correlateGroups r (evictCorrelateGroups env r now e))) < MaxCEPGroups (e_limits e)"
    "correlate_ok (evictCorrelateGroups env r now e)"
    "outside_correlate e (evictCorrelateGroups env r now e)"
proof -
  let ?gs = "correlateGroups r e"
  define live where "live = filter (\<lambda>(_, g). \<not> expired now (cg_ExpiresAt g)) ?gs"
  define d where "d = (countExpired ^^ (length ?gs - length live)) (setCorrelateGroups r live e)"
  have md: "metrics_only (setCorrelateGroups r live e) d" by (simp add: d_def metrics_only_countExpired_pow)
  have gd: "correlateGroups r' d = (if r' = r then live else correlateGroups r' e)" for r'
    using correlateGroups_metrics [OF md] by simp
  have ld: "e_limits d = e_limits e" using metrics_only_simps(6) [OF md] by simp
  have wf: "wf_map live" using assms(2) by (simp add: live_def correlate_ok_def)
  have room: "int (length (correlateGroups r (evictCorrelate_loop (env_pick env) r (length live) d))) < MaxCEPGroups (e_limits e)"
    "wf_map (correlateGroups r (evictCorrelate_loop (env_pick env) r (length live) d))"
    using evictCorrelate_loop_room [of d r "length live" "env_pick env"] assms(1) wf ld by (simp_all add: gd limits_ok_def)
  have od: "outside_correlate e d"
    by (rule outside_correlate_trans [OF outside_correlate_set outside_correlate_metrics [OF md]])
  from outside_correlate_trans [OF od outside_correlate_evict_loop]
  have o: "outside_correlate e (evictCorrelate_loop (env_pick env) r (length live) d)" .
  have ll: "e_limits (evictCorrelate_loop (env_pick env) r (length live) d) = e_limits e"
    using o by (simp add: outside_correlate_def)
  have ok: "correlate_ok (evictCorrelate_loop (env_pick env) r (length live) d)"
    unfolding correlate_ok_def ll
  proof (intro allI)
    fix r'
    show "wf_map (correlateGroups r' (evictCorrelate_loop (env_pick env) r (length live) d)) \<and>
      int (length (correlateGroups r' (evictCorrelate_loop (env_pick env) r (length live) d))) \<le> MaxCEPGroups (e_limits e)"
      using room assms(2) by (cases "r' = r") (auto simp: evictCorrelate_loop_other gd correlate_ok_def)
  qed
  note defs = evictCorrelateGroups_def live_def [symmetric] d_def [symmetric] Let_def
  show "int (length (correlateGroups r (evictCorrelateGroups env r now e))) < MaxCEPGroups (e_limits e)"
    using room by (simp add: defs)
  show "correlate_ok (evictCorrelateGroups env r now e)" using ok assms(2) by (simp add: defs)
  show "outside_correlate e (evictCorrelateGroups env r now e)" using o by (simp add: defs outside_correlate_def)
qed

text \<open>
  A correlation rule in three parts: find the group, match the facts, store and fire. The lemmas
  below follow the code of \<^const>\<open>detectCorrelateRule\<close> with these names.
\<close>

definition correlateEntry :: "eventView \<Rightarrow> compiledCorrelateRule \<Rightarrow> Engine \<Rightarrow> string \<times> Engine" where
  "correlateEntry view rule e =
     (let r = rs_RuleID (er_spec (cl_rule rule));
          (key, e) = compiledSequenceGroupKey view (cl_by rule) (setCorrelateGroups r (correlateGroups r e) e)
      in (key, case map_of (correlateGroups r e) key of
                 Some g \<Rightarrow> if expired (view_eventTime view) (cg_ExpiresAt g)
                           then countExpired (setCorrelateGroups r (AList.delete key (correlateGroups r e)) e) else e
               | None \<Rightarrow> e))"

definition correlateGroup :: "detectEnv \<Rightarrow> eventView \<Rightarrow> compiledCorrelateRule \<Rightarrow> string \<Rightarrow> Engine \<Rightarrow> correlateGroupState \<times> Engine" where
  "correlateGroup env view rule key e =
     (let r = rs_RuleID (er_spec (cl_rule rule)) in
      case map_of (correlateGroups r e) key of
        Some g \<Rightarrow> (g, e)
      | None \<Rightarrow> (\<lparr> cg_ExpiresAt = view_eventTime view + of_int (cl_within rule), cg_Facts = [] \<rparr>,
                 evictCorrelateGroups env r (view_eventTime view) e))"

definition recordFacts :: "eventView \<Rightarrow> compiledFact list \<Rightarrow> correlateGroupState \<Rightarrow> correlateGroupState" where
  "recordFacts view matched g = g\<lparr> cg_Facts := foldl (\<lambda>m f. AList.update (fc_id f)
     \<lparr> fm_EventID = v_eventID view, fm_Entities = eventEntities (v_ev view) \<rparr> m) (cg_Facts g) matched \<rparr>"

lemma detectCorrelateRule_parts:
  "detectCorrelateRule env view rule e =
     (let r = rs_RuleID (er_spec (cl_rule rule));
          (key, e) = correlateEntry view rule e;
          (matched, e) = matchCorrelateFacts env view (cl_facts rule) e
      in if length matched = 0 then (None, e)
         else let (g, e) = correlateGroup env view rule key e;
                  g = recordFacts view matched g;
                  e = setCorrelateGroups r (AList.update key g (correlateGroups r e)) e
              in if length (cg_Facts g) < length (cl_facts rule) then (None, e)
                 else let ((refs, entities), e) = correlateEvidence g (cl_facts rule) e;
                          e = setCorrelateGroups r (AList.delete key (correlateGroups r e)) e;
                          (sig, e) = emitSignal (v_ev view) (cl_rule rule) refs (rule_terminal (cl_rule rule) False) entities e
                      in (Some sig, e))"
  by (simp add: detectCorrelateRule_def correlateEntry_def correlateGroup_def recordFacts_def split_beta Let_def
      split: option.split)

lemma correlate_ok_set:
  assumes "correlate_ok e" and "wf_map gs" and "int (length gs) \<le> MaxCEPGroups (e_limits e)"
  shows "correlate_ok (setCorrelateGroups r gs e)"
  using assms by (simp add: correlate_ok_def)

lemma correlate_ok_delete:
  assumes "correlate_ok e"
  shows "correlate_ok (setCorrelateGroups r (AList.delete k (correlateGroups r e)) e)"
proof (rule correlate_ok_set [OF assms])
  show "wf_map (AList.delete k (correlateGroups r e))" using assms by (simp add: correlate_ok_def)
  have "int (length (AList.delete k (correlateGroups r e))) \<le> int (length (correlateGroups r e))"
    by (simp add: length_delete_le)
  also have "\<dots> \<le> MaxCEPGroups (e_limits e)" using assms by (simp add: correlate_ok_def)
  finally show "int (length (AList.delete k (correlateGroups r e))) \<le> MaxCEPGroups (e_limits e)" .
qed

lemma correlateEntry_spec:
  "outside_correlate e (snd (correlateEntry view rule e))"
  "correlate_ok e \<Longrightarrow> correlate_ok (snd (correlateEntry view rule e))"
proof -
  define r where "r = rs_RuleID (er_spec (cl_rule rule))"
  define ke where "ke = compiledSequenceGroupKey view (cl_by rule) (setCorrelateGroups r (correlateGroups r e) e)"
  let ?d = "setCorrelateGroups r (AList.delete (fst ke) (correlateGroups r (snd ke))) (snd ke)"
  have mk: "metrics_only (setCorrelateGroups r (correlateGroups r e) e) (snd ke)" by (simp add: ke_def)
  have md: "metrics_only ?d (countExpired ?d)" by simp
  have o1: "outside_correlate e (snd ke)"
    by (rule outside_correlate_trans [OF outside_correlate_set outside_correlate_metrics [OF mk]])
  have o2: "outside_correlate e (countExpired ?d)"
    by (rule outside_correlate_trans [OF outside_correlate_trans [OF o1 outside_correlate_set] outside_correlate_metrics [OF md]])
  have eq: "snd (correlateEntry view rule e) =
      (case map_of (correlateGroups r (snd ke)) (fst ke) of
         Some g \<Rightarrow> if expired (view_eventTime view) (cg_ExpiresAt g) then countExpired ?d else snd ke | None \<Rightarrow> snd ke)"
    by (simp add: correlateEntry_def r_def [symmetric] ke_def [symmetric] split_beta Let_def split: option.split)
  show "outside_correlate e (snd (correlateEntry view rule e))"
    using o1 o2 by (simp add: eq split: option.split)
  assume ok: "correlate_ok e"
  have "correlate_ok (setCorrelateGroups r (correlateGroups r e) e)"
    by (rule correlate_ok_set [OF ok]) (use ok in \<open>simp_all add: correlate_ok_def\<close>)
  then have k1: "correlate_ok (snd ke)" using correlate_ok_metrics [OF mk] by simp
  then have "correlate_ok ?d" by (rule correlate_ok_delete)
  then have "correlate_ok (countExpired ?d)" using correlate_ok_metrics [OF md] by simp
  with k1 show "correlate_ok (snd (correlateEntry view rule e))" by (simp add: eq split: option.split)
qed

lemma correlateGroup_spec:
  assumes "limits_ok (e_limits e)" and "correlate_ok e" and "r = rs_RuleID (er_spec (cl_rule rule))"
  shows "outside_correlate e (snd (correlateGroup env view rule key e))"
    "correlate_ok (setCorrelateGroups r (AList.update key g (correlateGroups r (snd (correlateGroup env view rule key e))))
        (snd (correlateGroup env view rule key e)))"
proof -
  let ?now = "view_eventTime view" and ?e' = "evictCorrelateGroups env r (view_eventTime view) e"
  note ev = evictCorrelateGroups_spec [OF assms(1,2), where r = r and env = env and now = ?now]
  show "outside_correlate e (snd (correlateGroup env view rule key e))"
    using ev(3) by (simp add: correlateGroup_def assms(3) [symmetric] Let_def outside_correlate_def split: option.split)
  have lim: "e_limits ?e' = e_limits e" using ev(3) by (simp add: outside_correlate_def)
  show "correlate_ok (setCorrelateGroups r (AList.update key g (correlateGroups r (snd (correlateGroup env view rule key e))))
        (snd (correlateGroup env view rule key e)))"
  proof (cases "map_of (correlateGroups r e) key")
    case None
    then have s: "snd (correlateGroup env view rule key e) = ?e'" by (simp add: correlateGroup_def assms(3) [symmetric])
    show ?thesis
      unfolding s using ev lim
      by (intro correlate_ok_set) (auto simp: correlate_ok_def length_alist_update)
  next
    case (Some h)
    then have s: "snd (correlateGroup env view rule key e) = e" by (simp add: correlateGroup_def assms(3) [symmetric])
    show ?thesis
      unfolding s using assms(2) Some
      by (intro correlate_ok_set) (auto simp: correlate_ok_def length_alist_update)
  qed
qed

lemma detectCorrelateRule_spec:
  assumes lim: "limits_ok (e_limits e)" and ok: "correlate_ok e"
  shows "outside_correlate e (snd (detectCorrelateRule env view rule e))"
    "correlate_ok (snd (detectCorrelateRule env view rule e))"
proof -
  define r where "r = rs_RuleID (er_spec (cl_rule rule))"
  define en where "en = correlateEntry view rule e"
  define ma where "ma = matchCorrelateFacts env view (cl_facts rule) (snd en)"
  define gr where "gr = correlateGroup env view rule (fst en) (snd ma)"
  define g where "g = recordFacts view (fst ma) (fst gr)"
  define st where "st = setCorrelateGroups r (AList.update (fst en) g (correlateGroups r (snd gr))) (snd gr)"
  define ce where "ce = correlateEvidence g (cl_facts rule) st"
  define de where "de = setCorrelateGroups r (AList.delete (fst en) (correlateGroups r (snd ce))) (snd ce)"
  note trans = outside_correlate_trans
  have oe: "outside_correlate e (snd en)" and ke: "correlate_ok (snd en)"
    using correlateEntry_spec ok by (simp_all add: en_def)
  have mm: "metrics_only (snd en) (snd ma)" by (simp add: ma_def)
  have om: "outside_correlate e (snd ma)" by (rule trans [OF oe outside_correlate_metrics [OF mm]])
  have km: "correlate_ok (snd ma)" using ke correlate_ok_metrics [OF mm] by simp
  have lm: "limits_ok (e_limits (snd ma))" using om lim by (simp add: outside_correlate_def)
  have og: "outside_correlate e (snd gr)" unfolding gr_def by (rule trans [OF om correlateGroup_spec(1) [OF lm km refl]])
  have os: "outside_correlate e st" unfolding st_def by (rule trans [OF og outside_correlate_set])
  have ks: "correlate_ok st" unfolding st_def gr_def by (rule correlateGroup_spec(2) [OF lm km r_def])
  have mc: "metrics_only st (snd ce)" by (simp add: ce_def)
  have oc: "outside_correlate e (snd ce)" by (rule trans [OF os outside_correlate_metrics [OF mc]])
  have kc: "correlate_ok (snd ce)" using ks correlate_ok_metrics [OF mc] by simp
  have od: "outside_correlate e de" unfolding de_def by (rule trans [OF oc outside_correlate_set])
  have kd: "correlate_ok de" unfolding de_def by (rule correlate_ok_delete [OF kc])
  have "outside_correlate e (snd (emitSignal ev rl refs t es de))" for ev rl refs t es
    using od by (simp add: outside_correlate_def)
  moreover have "correlate_ok (snd (emitSignal ev rl refs t es de))" for ev rl refs t es
    using kd correlate_ok_cong by (metis emitSignal_frame(3,5))
  moreover have "snd (detectCorrelateRule env view rule e) =
     (if length (fst ma) = 0 then snd ma
      else if length (cg_Facts g) < length (cl_facts rule) then st
      else snd (emitSignal (v_ev view) (cl_rule rule) (fst (fst ce)) (rule_terminal (cl_rule rule) False) (snd (fst ce)) de))"
    by (simp add: detectCorrelateRule_parts r_def [symmetric] en_def [symmetric] ma_def [symmetric] gr_def [symmetric]
        g_def [symmetric] st_def [symmetric] ce_def [symmetric] de_def [symmetric] split_beta Let_def)
  ultimately show "outside_correlate e (snd (detectCorrelateRule env view rule e))"
    "correlate_ok (snd (detectCorrelateRule env view rule e))"
    using om km os ks by simp_all
qed

section \<open>The engine\<close>

lemma engine_ok_metrics: "metrics_only e e' \<Longrightarrow> engine_ok e' = engine_ok e"
  by (simp add: engine_ok_def cep_ok_metrics correlate_ok_metrics suppression_ok_def metrics_only_simps)

lemma engine_ok_detectExprRule [inv_intros]:
  assumes "engine_ok (snd acc)"
  shows "engine_ok (snd (detectExprRule env view acc rule)) \<and>
    e_sequence (snd (detectExprRule env view acc rule)) = e_sequence (snd acc)"
proof -
  obtain out e where acc: "acc = (out, e)" by fastforce
  have o: "outside_expr e (snd (detectExprRule env view (out, e) rule))" by (rule detectExprRule_outside)
  have "cep_ok (snd (detectExprRule env view (out, e) rule)) = cep_ok e"
    by (rule cep_ok_cong) (use o in \<open>simp_all add: outside_expr_def\<close>)
  moreover have "correlate_ok (snd (detectExprRule env view (out, e) rule)) = correlate_ok e"
    by (rule correlate_ok_cong) (use o in \<open>simp_all add: outside_expr_def\<close>)
  ultimately show ?thesis
    using assms acc o by (simp add: engine_ok_def outside_expr_def suppression_ok_detectExprRule)
qed

lemma engine_ok_detectSequence [inv_intros]:
  assumes "engine_ok (snd acc)" and "rule_steps_ok (ca_rule c)"
  shows "engine_ok (snd (detectSequence env view acc c)) \<and> e_sequence (snd (detectSequence env view acc c)) = e_sequence (snd acc)"
proof -
  obtain out e where acc: "acc = (out, e)" by fastforce
  define e1 where "e1 = countEvaluated (countScan e)"
  have "metrics_only (countScan e) e1" by (simp add: e1_def)
  from metrics_only_trans [OF metrics_only_ops(2) this] have m1: "metrics_only e e1" .
  have m0: "metrics_only e (countScan e)" by simp
  have ok: "engine_ok e1" "engine_ok (countScan e)"
    using assms acc engine_ok_metrics [OF m1] engine_ok_metrics [OF m0] by simp_all
  have o: "outside_cep e1 (snd (detectSequenceCandidate env view c e1))"
    by (rule outside_cep_detectSequenceCandidate [OF assms(2)])
  have "correlate_ok (snd (detectSequenceCandidate env view c e1)) = correlate_ok e1"
    by (rule correlate_ok_cong) (use o in \<open>simp_all add: outside_cep_def\<close>)
  with o have "engine_ok (snd (detectSequenceCandidate env view c e1)) \<and>
      e_sequence (snd (detectSequenceCandidate env view c e1)) = e_sequence e"
    using ok(1) assms(2) metrics_only_simps(7) [OF m1]
    by (simp add: engine_ok_def outside_cep_def cep_ok_detectSequenceCandidate suppression_ok_def)
  with ok acc metrics_only_simps(7) [OF m0] show ?thesis
    by (simp add: detectSequence_def e1_def [symmetric] split_beta Let_def split: option.split)
qed

lemma engine_ok_detectCorrelate [inv_intros]:
  assumes "engine_ok (snd acc)"
  shows "engine_ok (snd (detectCorrelate env view acc rule))"
proof -
  obtain out e where acc: "acc = (out, e)" by fastforce
  define e1 where "e1 = countEvaluated (countScan e)"
  have "metrics_only (countScan e) e1" by (simp add: e1_def)
  from metrics_only_trans [OF metrics_only_ops(2) this] have m1: "metrics_only e e1" .
  have ok: "engine_ok e1" using assms acc engine_ok_metrics [OF m1] by simp
  then have "limits_ok (e_limits e1)" "correlate_ok e1" by (simp_all add: engine_ok_def)
  note spec = detectCorrelateRule_spec [OF this, of env view rule]
  have "cep_ok (snd (detectCorrelateRule env view rule e1)) = cep_ok e1"
    by (rule cep_ok_cong) (use spec(1) in \<open>simp_all add: outside_correlate_def\<close>)
  with spec ok have "engine_ok (snd (detectCorrelateRule env view rule e1))"
    by (simp add: engine_ok_def outside_correlate_def suppression_ok_def)
  with acc show ?thesis by (simp add: detectCorrelate_def e1_def [symmetric] split_beta Let_def split: option.split)
qed

lemma foldl_invariant: "P a \<Longrightarrow> (\<And>a x. x \<in> set xs \<Longrightarrow> P a \<Longrightarrow> P (f a x)) \<Longrightarrow> P (foldl f a xs)"
  by (induction xs arbitrary: a) auto

lemma candidate_steps_ok:
  "runtime_ok rt \<Longrightarrow> c \<in> set (candidatesForBehavior rt b active) \<Longrightarrow> rule_steps_ok (ca_rule c)"
  by (auto simp: runtime_ok_def candidatesForBehavior_def Let_def)

lemma engine_ok_detectCEPRules:
  assumes "engine_ok e"
  shows "engine_ok (snd (detectCEPRules env view e))"
proof -
  define a1 where "a1 = foldl (detectExprRule env view) ([], e) (rulesForBehavior (e_compiled e) (v_behavior view))"
  define a2 where "a2 = foldl (detectSequence env view) a1
      (candidatesForBehavior (e_sequence (snd a1)) (v_behavior view) (e_cepActive (snd a1)))"
  have 1: "engine_ok (snd a1)"
    unfolding a1_def by (rule foldl_invariant [where P = "\<lambda>a. engine_ok (snd a)"]) (simp_all add: assms engine_ok_detectExprRule)
  have rt: "runtime_ok (e_sequence (snd a1))" using 1 by (simp add: engine_ok_def)
  have 2: "engine_ok (snd a2)"
    unfolding a2_def
    by (rule foldl_invariant [where P = "\<lambda>a. engine_ok (snd a)"])
      (use 1 candidate_steps_ok [OF rt] in \<open>auto simp: engine_ok_detectSequence\<close>)
  have "engine_ok (snd (foldl (detectCorrelate env view) a2 rs))" for rs
    by (rule foldl_invariant [where P = "\<lambda>a. engine_ok (snd a)"]) (simp_all add: 2 engine_ok_detectCorrelate)
  then show ?thesis by (simp add: detectCEPRules_def a1_def [symmetric] a2_def [symmetric] Let_def)
qed

lemma engine_ok_Process [inv_intros]:
  assumes "engine_ok e"
  shows "engine_ok (snd (Process env elapsed ev e))"
proof -
  have m: "engine_ok (d\<lparr> e_metrics := ms \<rparr>) = engine_ok d" for d ms by (rule engine_ok_metrics) simp
  have "engine_ok (snd (detectCEPRules env view (e\<lparr> e_metrics := ms \<rparr>)))" for view ms
    by (rule engine_ok_detectCEPRules) (simp add: m assms)
  with assms show ?thesis by (auto simp: Process_def m split_beta Let_def split: option.split)
qed

text \<open>The calls of one engine: events with the environment and the duration of each call.\<close>

definition engine_step :: "Engine \<Rightarrow> detectEnv \<times> uint64 \<times> CanonicalEvent option \<Rightarrow> Engine" where
  "engine_step e c = (case c of (env, elapsed, ev) \<Rightarrow> snd (Process env elapsed ev e))"

interpretation detector: machine engine_step engine_ok
  by unfold_locales (auto simp: engine_step_def engine_ok_Process split: prod.split)

end
