(* ===== verification/Detect_Policy.thy ===== *)
theory Detect_Policy
  imports Detect_Invariant
begin

text \<open>
  From a detection policy to an engine: the policy types of \<^verbatim>\<open>internal/policy/model.go\<close>, the
  resolution of rule sets and overrides and the coverage report (\<^verbatim>\<open>engine.go\<close>), and the validation
  of rules (\<^verbatim>\<open>validation.go\<close>). An error message is a value of \<open>ruleError\<close>, one constructor for each
  format string with its arguments. Whether \<^verbatim>\<open>time.ParseDuration\<close> accepts a text is the argument
  \<open>durationOk\<close>. The invariant of the engine holds of every engine this construction returns.
\<close>

section \<open>Policies\<close>

record ScopeSelector =
  sel_Type :: string
  sel_Selector :: string

record RuleSetRef =
  rsr_Ref :: string
  rsr_Version :: string
  rsr_Enabled :: "bool option"
  rsr_IOCRefs :: "string list"

record RuleOverride =
  ov_RuleID :: string
  ov_Enabled :: "bool option"
  ov_Mode :: string
  ov_Severity :: string
  ov_Scope :: ScopeSelector
  ov_ResponseIntent :: "ResponseIntentRef option"
  ov_Params :: "(string, string) gomap"
  ov_Reason :: string

record PolicyContentRef =
  pcr_Ref :: string
  pcr_Version :: string

record DetectionPolicy =
  dp_PolicyID :: string
  dp_Version :: uint64
  dp_Mode :: string
  dp_Scope :: ScopeSelector
  dp_RuleSets :: "RuleSetRef list"
  dp_RuleOverrides :: "RuleOverride list"
  dp_ContextRefs :: "PolicyContentRef list"
  dp_IOCRefs :: "PolicyContentRef list"

definition DefaultDetectionPolicy :: DetectionPolicy where
  "DefaultDetectionPolicy = \<lparr> dp_PolicyID = ''default-endpoint-detection'', dp_Version = 1, dp_Mode = ''observe'',
     dp_Scope = \<lparr> sel_Type = '''', sel_Selector = '''' \<rparr>, dp_RuleSets = [], dp_RuleOverrides = [],
     dp_ContextRefs = [], dp_IOCRefs = [] \<rparr>"

definition NormalizeDetectionPolicy :: "DetectionPolicy \<Rightarrow> DetectionPolicy" where
  "NormalizeDetectionPolicy policy =
     (let policy = (if dp_PolicyID policy = '''' then policy\<lparr> dp_PolicyID := ''default-endpoint-detection'' \<rparr> else policy);
          policy = (if dp_Version policy = 0 then policy\<lparr> dp_Version := 1 \<rparr> else policy);
          policy = (if dp_Mode policy = '''' then policy\<lparr> dp_Mode := ''observe'' \<rparr> else policy)
      in policy\<lparr> dp_RuleSets := map (\<lambda>ref. if rsr_Version ref = '''' then ref\<lparr> rsr_Version := ''latest'' \<rparr> else ref)
                                  (dp_RuleSets policy) \<rparr>)"

record BehaviorCapability =
  cap_Behavior :: string
  cap_Fields :: "string list"

text \<open>The two fields of \<^verbatim>\<open>contract.CollectionIntent\<close> that the coverage check reads.\<close>

record CollectionInputs =
  ci_Behaviors :: "string list"
  ci_Capabilities :: "BehaviorCapability list"

section \<open>Resolving rules\<close>

definition enabledRuleSets :: "DetectionPolicy \<Rightarrow> (string, bool) gomap" where
  "enabledRuleSets policy =
     foldl (\<lambda>m ref. if rsr_Ref ref = '''' then m
                    else AList.update (rsr_Ref ref) (case rsr_Enabled ref of None \<Rightarrow> True | Some b \<Rightarrow> b) m)
       [] (dp_RuleSets policy)"

definition ruleOverrides :: "DetectionPolicy \<Rightarrow> (string, RuleOverride) gomap" where
  "ruleOverrides policy =
     foldl (\<lambda>m ov. if ov_RuleID ov \<noteq> '''' then AList.update (ov_RuleID ov) ov m else m) [] (dp_RuleOverrides policy)"

definition applyOverride :: "RuleOverride \<Rightarrow> effectiveRule \<Rightarrow> effectiveRule" where
  "applyOverride ov rule =
     (let rule = (case ov_Enabled ov of None \<Rightarrow> rule | Some b \<Rightarrow> rule\<lparr> er_enabled := b \<rparr>);
          rule = (if ov_Mode ov \<noteq> '''' then rule\<lparr> er_mode := ov_Mode ov \<rparr> else rule);
          rule = (if ov_Severity ov \<noteq> '''' then rule\<lparr> er_severity := ov_Severity ov \<rparr> else rule);
          rule = (if ov_ResponseIntent ov \<noteq> None then rule\<lparr> er_intent := ov_ResponseIntent ov \<rparr> else rule)
      in rule\<lparr> er_params := ov_Params ov \<rparr>)"

definition resolveRule :: "DetectionPolicy \<Rightarrow> RuleSpec \<Rightarrow> effectiveRule list" where
  "resolveRule policy spec =
     (if \<not> get_or False (enabledRuleSets policy) (rs_RuleSetRef spec) then []
      else let rule = \<lparr> er_spec = spec, er_enabled = True, er_mode = firstNonEmpty [dp_Mode policy, ''observe''],
                  er_severity = rs_Severity spec, er_intent = rs_ResponseIntent spec, er_params = [] \<rparr>;
               rule = (case map_of (ruleOverrides policy) (rs_RuleID spec) of
                         None \<Rightarrow> rule | Some ov \<Rightarrow> applyOverride ov rule)
           in if er_enabled rule then [rule] else [])"

definition resolveRules :: "DetectionPolicy \<Rightarrow> ContentSnapshot \<Rightarrow> effectiveRule list" where
  "resolveRules policy content = concat (map (resolveRule policy) (ct_Rules content))"

section \<open>Validation\<close>

datatype ruleError =
    RulesetRequired
  | RulesetUnavailable string
  | DuplicateRule string
  | MissingContextRef string string
  | MissingIOCRef string string
  | UnsupportedRuntime string string
  | ExprWithoutConditions string
  | SequenceWithoutSteps string
  | SequenceStepIDRequired string
  | SequenceStepBehaviorRequired string string
  | CorrelateWithoutFacts string
  | InvalidCorrelateWindow string string
  | CorrelateWindowRange string
  | CorrelateByRequired string
  | CorrelateByUnsupported string string
  | CorrelateTwoFacts string
  | FactIDRequired string
  | DuplicateFact string string
  | FactEventExclusive string string
  | FactBehaviorRequired string string
  | SuppressionRequiresExpr string
  | SuppressionWindowRange string
  | SuppressionByRequired string
  | SuppressionByUnsupported string string
  | SequenceByUnsupported string string
  | DuplicateStep string string
  | TreeTooDeep string string
  | NodeKindCount string string
  | TooManyLeaves string string
  | GroupWithoutChildren string string string
  | UnsupportedField string string string
  | UnsupportedOperator string string string
  | UnknownPriorStep string string string
  | UnsupportedStepField string string string
  | MissingInputs string "string list"

definition maxSuppressionWindow :: duration where
  "maxSuppressionWindow = 24 * 60 * 60 * 1000000000"

definition maxConditionTreeDepth :: nat where
  "maxConditionTreeDepth = 8"

definition maxConditionTreeLeaves :: nat where
  "maxConditionTreeLeaves = 256"

text \<open>\<open>prior\<close> is the map of earlier steps, nil outside sequences; its keys are enough.\<close>

definition validateCondition :: "string \<Rightarrow> string \<Rightarrow> string list option \<Rightarrow> ConditionSpec \<Rightarrow> ruleError list" where
  "validateCondition ruleID location prior c =
     (if compileField (cs_Field c) = fieldUnknown then [UnsupportedField ruleID location (cs_Field c)] else []) @
     (if compileOp (cs_Op c) = opUnknown then [UnsupportedOperator ruleID location (cs_Op c)]
      else if compileOp (cs_Op c) \<noteq> opSameAs then []
      else let step = TrimSpace (cs_Step c) in
        (if (case prior of None \<Rightarrow> True | Some ids \<Rightarrow> step = '''' \<or> step \<notin> set ids)
         then [UnknownPriorStep ruleID location step] else []) @
        (if compileField (firstNonEmpty [cs_StepField c, cs_Field c]) = fieldUnknown
         then [UnsupportedStepField ruleID location (cs_StepField c)] else []))"

definition validateConditions :: "string \<Rightarrow> string \<Rightarrow> string list option \<Rightarrow> ConditionSpec list \<Rightarrow> ruleError list" where
  "validateConditions ruleID location prior conditions = concat (map (validateCondition ruleID location prior) conditions)"

definition boolCount :: "bool list \<Rightarrow> nat" where
  "boolCount values = length (filter (\<lambda>b. b) values)"

text \<open>The leaf counter behind the pointer is returned with the errors.\<close>

fun validateConditionNode ::
    "string \<Rightarrow> string \<Rightarrow> string list option \<Rightarrow> ConditionNodeSpec \<Rightarrow> nat \<Rightarrow> nat \<Rightarrow> ruleError list \<times> nat"
  and validateConditionNodes ::
    "string \<Rightarrow> string \<Rightarrow> string list option \<Rightarrow> ConditionNodeSpec list \<Rightarrow> nat \<Rightarrow> nat \<Rightarrow> ruleError list \<times> nat"
where
  "validateConditionNode ruleID location prior (ConditionNodeSpec allNodes anyNodes notNode cond) depth leaves =
     (if depth > maxConditionTreeDepth then ([TreeTooDeep ruleID location], leaves)
      else if boolCount [cond \<noteq> None, notNode \<noteq> None, allNodes \<noteq> None, anyNodes \<noteq> None] \<noteq> 1
      then ([NodeKindCount ruleID location], leaves)
      else case cond of
        Some c \<Rightarrow>
          (let leaves = leaves + 1 in
           if leaves > maxConditionTreeLeaves then ([TooManyLeaves ruleID location], leaves)
           else (validateConditions ruleID location prior [c], leaves))
      | None \<Rightarrow>
         (case notNode of
            Some n \<Rightarrow> validateConditionNode ruleID location prior n (depth + 1) leaves
          | None \<Rightarrow>
             (case anyNodes of
                Some ns \<Rightarrow> if length ns = 0 then ([GroupWithoutChildren ruleID location ''any''], leaves)
                          else validateConditionNodes ruleID location prior ns (depth + 1) leaves
              | None \<Rightarrow>
                 (case allNodes of
                    Some ns \<Rightarrow> if length ns = 0 then ([GroupWithoutChildren ruleID location ''all''], leaves)
                              else validateConditionNodes ruleID location prior ns (depth + 1) leaves
                  | None \<Rightarrow> ([GroupWithoutChildren ruleID location ''all''], leaves)))))"
| "validateConditionNodes ruleID location prior [] depth leaves = ([], leaves)"
| "validateConditionNodes ruleID location prior (n # ns) depth leaves =
     (let (errs, leaves) = validateConditionNode ruleID location prior n depth leaves;
          (rest, leaves) = validateConditionNodes ruleID location prior ns depth leaves
      in (errs @ rest, leaves))"

definition validateConditionTree :: "string \<Rightarrow> string \<Rightarrow> string list option \<Rightarrow> ConditionNodeSpec option \<Rightarrow> ruleError list" where
  "validateConditionTree ruleID location prior node =
     (case node of None \<Rightarrow> [] | Some n \<Rightarrow> fst (validateConditionNode ruleID location prior n 1 0))"

fun validateSequence_loop :: "string \<Rightarrow> string list \<Rightarrow> StepSpec list \<Rightarrow> ruleError list" where
  "validateSequence_loop ruleID prior [] = []"
| "validateSequence_loop ruleID prior (step # steps) =
     (let sid = TrimSpace (st_ID step) in
      (if sid \<in> set prior then [DuplicateStep ruleID sid] else []) @
      validateConditions ruleID (''step '' @ sid) (Some prior) (st_Conditions step) @
      validateConditionTree ruleID (''step '' @ sid) (Some prior) (st_ConditionGroup step) @
      validateSequence_loop ruleID (sid # prior) steps)"

definition validateSequence :: "RuleSpec \<Rightarrow> ruleError list" where
  "validateSequence rule =
     concat (map (\<lambda>f. if compileField f = fieldUnknown then [SequenceByUnsupported (rs_RuleID rule) f] else [])
               (sq_By (rs_Sequence rule))) @
     validateSequence_loop (rs_RuleID rule) [] (sq_Steps (rs_Sequence rule))"

fun validateCorrelateFacts_loop :: "string \<Rightarrow> string list \<Rightarrow> FactSpec list \<Rightarrow> ruleError list" where
  "validateCorrelateFacts_loop ruleID seen [] = []"
| "validateCorrelateFacts_loop ruleID seen (f # fs) =
     (let fid = TrimSpace (fa_ID f) in
      (if fid = '''' then [FactIDRequired ruleID] else if fid \<in> set seen then [DuplicateFact ruleID fid] else []) @
      (if (TrimSpace (fa_Event f) \<noteq> '''') = (length (fa_Events f) > 0) then [FactEventExclusive ruleID fid] else []) @
      concat (map (\<lambda>b. if TrimSpace b = '''' then [FactBehaviorRequired ruleID fid] else []) (fa_Events f)) @
      validateConditions ruleID (''fact '' @ fid) None (fa_Conditions f) @
      validateConditionTree ruleID (''fact '' @ fid) None (fa_ConditionGroup f) @
      validateCorrelateFacts_loop ruleID (fid # seen) fs)"

definition validateCorrelate :: "(string \<Rightarrow> bool) \<Rightarrow> RuleSpec \<Rightarrow> ruleError list" where
  "validateCorrelate durationOk rule =
     (let spec = rs_Correlate rule; r = rs_RuleID rule in
      (if co_WithinText spec \<noteq> '''' \<and> \<not> durationOk (co_WithinText spec)
       then [InvalidCorrelateWindow r (co_WithinText spec)] else []) @
      (if co_Within spec \<le> 0 \<or> co_Within spec > maxSuppressionWindow then [CorrelateWindowRange r] else []) @
      (if length (co_By spec) = 0 then [CorrelateByRequired r] else []) @
      concat (map (\<lambda>f. if compileField f = fieldUnknown then [CorrelateByUnsupported r f] else []) (co_By spec)) @
      (if length (co_Facts spec) < 2 then [CorrelateTwoFacts r] else []) @
      validateCorrelateFacts_loop r [] (co_Facts spec))"

definition ruleRuntimeType :: "RuleSpec \<Rightarrow> string" where
  "ruleRuntimeType rule =
     (if rs_RuntimeType rule \<noteq> '''' then ToLower (TrimSpace (rs_RuntimeType rule))
      else ToLower (TrimSpace (rs_Runtime rule)))"

definition validateSuppression :: "RuleSpec \<Rightarrow> ruleError list" where
  "validateSuppression rule =
     (let s = rs_Suppression rule; r = rs_RuleID rule in
      if su_Within s = 0 \<and> length (su_By s) = 0 then []
      else (if ruleRuntimeType rule \<noteq> ''expr'' then [SuppressionRequiresExpr r] else []) @
           (if su_Within s \<le> 0 \<or> su_Within s > maxSuppressionWindow then [SuppressionWindowRange r] else []) @
           (if length (su_By s) = 0 then [SuppressionByRequired r] else []) @
           concat (map (\<lambda>f. if compileField f = fieldUnknown then [SuppressionByUnsupported r f] else []) (su_By s)))"

definition validateRuleSpec :: "(string \<Rightarrow> bool) \<Rightarrow> RuleSpec \<Rightarrow> ruleError list" where
  "validateRuleSpec durationOk rule =
     validateSuppression rule @
     (let t = ruleRuntimeType rule in
      if t = ''expr'' then
        validateConditions (rs_RuleID rule) ''expr'' None (ex_Conditions (rs_Expr rule)) @
        validateConditionTree (rs_RuleID rule) ''expr'' None (ex_ConditionGroup (rs_Expr rule))
      else if t = ''sequence'' then validateSequence rule
      else if t = ''correlate'' then validateCorrelate durationOk rule
      else [])"

definition validateRuleSpecs :: "(string \<Rightarrow> bool) \<Rightarrow> effectiveRule list \<Rightarrow> ruleError list" where
  "validateRuleSpecs durationOk rules = concat (map (\<lambda>rule. validateRuleSpec durationOk (er_spec rule)) rules)"

definition validateContentRefs :: "effectiveRule list \<Rightarrow> ContentSnapshot \<Rightarrow> ruleError list" where
  "validateContentRefs rules content =
     concat (map (\<lambda>rule.
        concat (map (\<lambda>ref. if map_of (ct_ContextRefs content) ref = None
                           then [MissingContextRef (rs_RuleID (er_spec rule)) ref] else []) (rs_ContextRefs (er_spec rule))) @
        concat (map (\<lambda>ref. if map_of (ct_IOCRefs content) ref = None
                           then [MissingIOCRef (rs_RuleID (er_spec rule)) ref] else []) (rs_IOCRefs (er_spec rule)))) rules)"

fun duplicateRules :: "string list \<Rightarrow> effectiveRule list \<Rightarrow> ruleError list" where
  "duplicateRules seen [] = []"
| "duplicateRules seen (rule # rules) =
     (let rid = rs_RuleID (er_spec rule) in
      (if rid \<in> set seen then [DuplicateRule rid] else []) @ duplicateRules (rid # seen) rules)"

definition validateRuleSelection :: "DetectionPolicy \<Rightarrow> ContentSnapshot \<Rightarrow> ruleError list" where
  "validateRuleSelection policy content =
     concat (map (\<lambda>ref. if rsr_Ref ref \<noteq> '''' \<and> rsr_Enabled ref \<noteq> Some False \<and>
                          rsr_Ref ref \<notin> rs_RuleSetRef ` set (ct_Rules content)
                       then [RulesetUnavailable (rsr_Ref ref)] else []) (dp_RuleSets policy)) @
     duplicateRules [] (resolveRules policy content)"

definition validateEffectiveRule :: "effectiveRule \<Rightarrow> ruleError list" where
  "validateEffectiveRule rule =
     (let t = runtimeType rule; spec = er_spec rule; r = rs_RuleID (er_spec rule) in
      (if t \<notin> set ['''', ''expr'', ''sequence'', ''correlate''] then [UnsupportedRuntime r t] else []) @
      (if t = ''expr'' \<and> length (ex_Conditions (rs_Expr spec)) = 0 \<and> ex_ConditionGroup (rs_Expr spec) = None
       then [ExprWithoutConditions r] else []) @
      (if t = ''sequence'' then
         (if length (sq_Steps (rs_Sequence spec)) = 0 then [SequenceWithoutSteps r] else []) @
         concat (map (\<lambda>step.
            (if TrimSpace (st_ID step) = '''' then [SequenceStepIDRequired r] else []) @
            (if TrimSpace (st_Behavior step) = '''' then [SequenceStepBehaviorRequired r (st_ID step)] else []))
          (sq_Steps (rs_Sequence spec)))
       else []) @
      (if t = ''correlate'' \<and> length (co_Facts (rs_Correlate spec)) = 0 then [CorrelateWithoutFacts r] else []))"

definition validateEffectiveRules :: "(string, effectiveRule) gomap \<Rightarrow> ruleError list" where
  "validateEffectiveRules rules = concat (map (\<lambda>(_, rule). validateEffectiveRule rule) rules)"

section \<open>Coverage of the collection\<close>

record RuleCoverage =
  rc_RuleID :: string
  rc_Status :: string
  rc_RequiredBehaviors :: "string list"
  rc_RequiredFields :: "string list"
  rc_MissingBehaviors :: "string list"
  rc_MissingFields :: "string list"

record CoverageReport =
  cov_Status :: string
  cov_Rules :: "RuleCoverage list"
  cov_Warnings :: "ruleError list"

definition availableFieldsFromCapabilities :: "CollectionInputs \<Rightarrow> string list" where
  "availableFieldsFromCapabilities collection =
     (let behaviors = filter (\<lambda>b. b \<noteq> '''') (map NormalizeBehavior (ci_Behaviors collection)) in
      concat (map (\<lambda>cap. if behaviors \<noteq> [] \<and> NormalizeBehavior (cap_Behavior cap) \<notin> set behaviors then []
                         else filter (\<lambda>f. f \<noteq> '''') (cap_Fields cap)) (ci_Capabilities collection)))"

definition processFields :: "string list" where
  "processFields = [''process.stable_id'', ''process.id'', ''process.binary'', ''process.argv'', ''process.uid'',
     ''process.pid'', ''pid'', ''parent.stable_id'', ''parent.id'']"

text \<open>The names that the map of the source holds; it maps each of them to true.\<close>

definition availableFieldsForCollection :: "CollectionInputs \<Rightarrow> string list" where
  "availableFieldsForCollection collection =
     (if length (ci_Capabilities collection) > 0 then availableFieldsFromCapabilities collection
      else let base = [''event.id'', ''event.behavior'', ''lineage_id'', ''scope.type'', ''scope.selector'',
                       ''container.id'', ''container_id'', ''cgroup''] in
           if length (ci_Behaviors collection) = 0
           then base @ [''file.path'', ''object.file_path'', ''socket.addr'', ''object.socket_addr'', ''socket.port'', ''socket''] @ processFields
           else let has = (\<lambda>b. b \<in> set (map NormalizeBehavior (ci_Behaviors collection))) in
             base @
             (if has ''process.exec'' \<or> has ''process.fork'' \<or> has ''process.exit'' then processFields else []) @
             (if has ''file.open'' \<or> has ''file.read'' \<or> has ''file.write'' \<or> has ''file.chmod''
              then processFields @ [''file.path'', ''object.file_path''] else []) @
             (if has ''network.connect''
              then processFields @ [''socket.addr'', ''object.socket_addr'', ''socket.port'', ''socket''] else []))"

definition coverBehavior :: "string list \<Rightarrow> RuleCoverage \<Rightarrow> string \<Rightarrow> RuleCoverage" where
  "coverBehavior collected coverage behavior =
     (let b = NormalizeBehavior behavior in
      if b = '''' then coverage
      else let coverage = coverage\<lparr> rc_RequiredBehaviors := appendUnique (rc_RequiredBehaviors coverage) b \<rparr>
           in if b \<notin> set collected
              then coverage\<lparr> rc_MissingBehaviors := appendUnique (rc_MissingBehaviors coverage) b \<rparr> else coverage)"

definition coverEvent :: "string list \<Rightarrow> string list \<Rightarrow> RuleCoverage \<Rightarrow> RequiredEventSpec \<Rightarrow> RuleCoverage" where
  "coverEvent collected available coverage req =
     (let b = NormalizeBehavior (re_Behavior req) in
      foldl (\<lambda>coverage f.
          if f = '''' then coverage
          else let requiredField = firstNonEmpty [b, re_Behavior req, ''event''] @ '':'' @ f;
                   coverage = coverage\<lparr> rc_RequiredFields := appendUnique (rc_RequiredFields coverage) requiredField \<rparr>
               in if f \<notin> set available
                  then coverage\<lparr> rc_MissingFields := appendUnique (rc_MissingFields coverage) requiredField \<rparr> else coverage)
        (coverBehavior collected coverage (re_Behavior req)) (re_Fields req))"

definition coverRule :: "string list \<Rightarrow> string list \<Rightarrow> effectiveRule \<Rightarrow> RuleCoverage" where
  "coverRule collected available rule =
     (let spec = er_spec rule;
          coverage = \<lparr> rc_RuleID = rs_RuleID spec, rc_Status = ''covered'', rc_RequiredBehaviors = [],
             rc_RequiredFields = [], rc_MissingBehaviors = [], rc_MissingFields = [] \<rparr>;
          coverage = foldl (coverBehavior collected) coverage (rs_RequiredBehaviors spec);
          coverage = foldl (coverEvent collected available) coverage (rs_RequiredEvents spec)
      in if rc_MissingBehaviors coverage \<noteq> [] \<or> rc_MissingFields coverage \<noteq> []
         then coverage\<lparr> rc_Status := ''missing_inputs'' \<rparr> else coverage)"

definition CheckCoverageWithContent :: "DetectionPolicy option \<Rightarrow> CollectionInputs \<Rightarrow> ContentSnapshot \<Rightarrow> CoverageReport" where
  "CheckCoverageWithContent policy collection content =
     (let policy = (case policy of None \<Rightarrow> DefaultDetectionPolicy | Some p \<Rightarrow> p);
          collected = filter (\<lambda>b. b \<noteq> '''') (map NormalizeBehavior (ci_Behaviors collection))
      in if collected = [] then \<lparr> cov_Status = ''unknown'', cov_Rules = [], cov_Warnings = [] \<rparr>
         else let rules = map (coverRule collected (availableFieldsForCollection collection)) (resolveRules policy content);
                  missing = filter (\<lambda>c. rc_Status c = ''missing_inputs'') rules
              in \<lparr> cov_Status = (if missing \<noteq> [] then ''degraded'' else ''covered''), cov_Rules = rules,
                   cov_Warnings = map (\<lambda>c. MissingInputs (rc_RuleID c) (rc_MissingBehaviors c @ rc_MissingFields c)) missing \<rparr>)"

section \<open>Building the engine\<close>

record ApplyReport =
  ar_Status :: string
  ar_Message :: string
  ar_Details :: "ruleError list"
  ar_RuleIDs :: "string list"
  ar_Warnings :: "ruleError list"
  ar_Coverage :: CoverageReport

definition CoverageReport_zero :: CoverageReport where
  "CoverageReport_zero = \<lparr> cov_Status = '''', cov_Rules = [], cov_Warnings = [] \<rparr>"

definition Metrics_zero :: Metrics where
  "Metrics_zero = \<lparr> m_EventsProcessed = 0, m_EventsByBehavior = [], m_CEPRulesScanned = 0, m_CEPRulesEvaluated = 0,
     m_ConditionsEvaluated = 0, m_ConditionsMatched = 0, m_FieldReads = 0, m_ProcessNanosTotal = 0,
     m_ActiveCEPGroups = 0, m_EvictedCEPGroups = 0, m_ExpiredCEPGroups = 0, m_DroppedEventRefs = 0,
     m_SuppressionEvictions = 0, m_CEPEvalErrors = 0, m_EmittedSignals = 0 \<rparr>"

definition emptyEngine :: "EngineLimits \<Rightarrow> ContentSnapshot \<Rightarrow> Engine" where
  "emptyEngine limits content = \<lparr> e_nextID = 0, e_rules = [], e_cep = [], e_cepActive = [], e_correlate = [],
     e_suppression = [], e_limits = limits, e_metrics = Metrics_zero, e_refs = content,
     e_compiled = \<lparr> rt_byBehavior = [], rt_behaviorAgnostic = [] \<rparr>,
     e_sequence = \<lparr> qt_firstByBehavior = [], qt_nextByBehavior = [], qt_behaviorAgnostic = [] \<rparr>,
     e_correlation = [] \<rparr>"

definition NewWithRuntimeLimits ::
  "string \<Rightarrow> (string \<Rightarrow> bool) \<Rightarrow> DetectionPolicy option \<Rightarrow> CollectionInputs \<Rightarrow> ContentSnapshot \<Rightarrow> EngineLimits \<Rightarrow> Engine \<times> ApplyReport" where
  "NewWithRuntimeLimits strategy durationOk policy collection content limits =
     (let normalized = (case policy of None \<Rightarrow> DefaultDetectionPolicy | Some p \<Rightarrow> NormalizeDetectionPolicy p);
          engine = emptyEngine (normalizeLimits limits) content;
          report = \<lparr> ar_Status = ''applied'', ar_Message = ''detection policy applied'', ar_Details = [],
             ar_RuleIDs = [], ar_Warnings = [], ar_Coverage = CoverageReport_zero \<rparr>
      in if length (dp_RuleSets normalized) = 0
         then (engine, report\<lparr> ar_Status := ''rejected'',
                 ar_Message := ''detection policy rejected: explicit ruleset is required'', ar_Details := [RulesetRequired] \<rparr>)
         else let errs = validateRuleSelection normalized content in
         if length errs > 0
         then (engine, report\<lparr> ar_Status := ''rejected'', ar_Message := ''detection policy rejected'', ar_Details := errs \<rparr>)
         else
           let rules = resolveRules normalized content;
               engine = engine\<lparr> e_rules := foldl (\<lambda>m rule. AList.update (rs_RuleID (er_spec rule)) rule m) [] rules \<rparr>;
               report = report\<lparr> ar_RuleIDs := map (\<lambda>rule. rs_RuleID (er_spec rule)) rules \<rparr>;
               errs = validateEffectiveRules (e_rules engine) @ validateRuleSpecs durationOk rules @ validateContentRefs rules content
           in if length errs > 0
              then (engine, report\<lparr> ar_Status := ''rejected'', ar_Message := ''detection policy rejected'',
                      ar_Details := errs, ar_Warnings := errs \<rparr>)
              else
                let engine = engine\<lparr> e_compiled := compileRuntime strategy rules content,
                       e_sequence := compileSequenceRuntime strategy rules content,
                       e_correlation := compileCorrelateRuntime strategy rules content \<rparr>;
                    coverage = CheckCoverageWithContent (Some normalized) collection content;
                    report = report\<lparr> ar_Coverage := coverage, ar_Warnings := cov_Warnings coverage \<rparr>
                in if length (ar_Warnings report) > 0
                   then (engine, report\<lparr> ar_Status := ''degraded'',
                           ar_Message := ''detection policy applied with missing collection inputs'',
                           ar_Details := ar_Warnings report \<rparr>)
                   else (engine, report))"

section \<open>Validated rules\<close>

definition caseless :: "char \<Rightarrow> bool" where
  "caseless c \<longleftrightarrow> (\<forall>d. lower_char d = c \<longleftrightarrow> d = c)"

lemma caselessI:
  assumes nl: "\<not> (97 \<le> (of_char c :: nat) \<and> (of_char c :: nat) \<le> 122)"
    and nu: "\<not> (65 \<le> (of_char c :: nat) \<and> (of_char c :: nat) \<le> 90)"
  shows "caseless c"
proof -
  have fix_c: "lower_char c = c" using nu by (auto simp: lower_char_def Let_def)
  have "d = c" if "lower_char d = c" for d
  proof (cases "65 \<le> (of_char d :: nat) \<and> (of_char d :: nat) \<le> 90")
    case True
    then have "c = char_of ((of_char d :: nat) + 32)" using that by (simp add: lower_char_def Let_def)
    then have "(of_char c :: nat) = (of_char d + 32) mod 256" by simp
    with True nl show ?thesis by auto
  next
    case False
    with that show ?thesis by (auto simp: lower_char_def Let_def)
  qed
  with fix_c show ?thesis by (auto simp: caseless_def)
qed

lemma caseless_space_seqs: "list_all (list_all caseless) space_seqs"
  by (simp add: space_seqs_def caselessI)

lemma map_lower_char_caseless: "list_all caseless q \<Longrightarrow> map lower_char t = q \<longleftrightarrow> t = q"
proof (induction q arbitrary: t)
  case (Cons c q)
  then show ?case by (cases t) (simp_all add: caseless_def)
qed simp

lemma HasPrefix_ToLower: "list_all caseless q \<Longrightarrow> HasPrefix (ToLower s) q = HasPrefix s q"
  by (simp add: HasPrefix_def ToLower_def take_map map_lower_char_caseless)

lemma strip_one_ToLower:
  "list_all (list_all caseless) qs \<Longrightarrow> strip_one qs (ToLower s) = map_option ToLower (strip_one qs s)"
proof (induction qs)
  case (Cons q qs)
  have "drop (length q) (ToLower s) = ToLower (drop (length q) s)" by (simp add: ToLower_def drop_map)
  with Cons show ?case by (simp add: HasPrefix_ToLower)
qed simp

lemma trim_left_ToLower:
  "list_all (list_all caseless) qs \<Longrightarrow> trim_left qs (ToLower s) = ToLower (trim_left qs s)"
proof (induction qs s rule: trim_left.induct)
  case (1 qs s)
  then show ?case
    using strip_one_ToLower [of qs s]
    by (cases "strip_one qs s") (simp_all add: trim_left.simps [of qs "ToLower s"] trim_left.simps [of qs s])
qed

lemma rev_ToLower: "rev (ToLower s) = ToLower (rev s)"
  by (simp add: ToLower_def rev_map)

lemma TrimSpace_ToLower: "TrimSpace (ToLower s) = ToLower (TrimSpace s)"
proof -
  have "list_all (list_all caseless) (map rev space_seqs)"
    using caseless_space_seqs by (simp add: list_all_iff)
  then show ?thesis
    by (simp add: TrimSpace_def trim_left_ToLower caseless_space_seqs rev_ToLower)
qed

lemma NormalizeBehavior_empty: "NormalizeBehavior s = '''' \<longleftrightarrow> TrimSpace s = ''''"
  by (simp add: NormalizeBehavior_def TrimSpace_ToLower)

lemma sk_behavior_attach:
  "map sk_behavior (attachSequenceSaveFields steps) = map sk_behavior steps"
proof -
  have "map (\<lambda>p. sk_behavior (snd p)) (List.enumerate 0 steps) = map sk_behavior (map snd (List.enumerate 0 steps))"
    by (simp del: map_snd_enumerate)
  then show ?thesis by (simp add: attachSequenceSaveFields_def split_beta comp_def)
qed

lemma compileRule_steps_ok:
  assumes "runtimeType rule = ''sequence''" and "validateEffectiveRule rule = []"
  shows "rule_steps_ok (compileRule strategy content rule)"
proof -
  have "TrimSpace (st_Behavior step) \<noteq> ''''" if "step \<in> set (sq_Steps (rs_Sequence (er_spec rule)))" for step
    using assms that by (auto simp: validateEffectiveRule_def Let_def split: if_splits)
  then have "list_all (\<lambda>b. b \<noteq> '''') (map sk_behavior (map (compileStep strategy content) (sq_Steps (rs_Sequence (er_spec rule)))))"
    by (simp add: list_all_iff compileStep_def NormalizeBehavior_empty)
  then have "list_all (\<lambda>b. b \<noteq> '''') (map sk_behavior (attachSequenceSaveFields
      (map (compileStep strategy content) (sq_Steps (rs_Sequence (er_spec rule))))))"
    by (simp only: sk_behavior_attach)
  with assms(1) show ?thesis
    by (simp add: rule_steps_ok_def compileRule_def Let_def list_all_iff)
qed


text \<open>
  Where the compilation puts the steps of a rule: the first step under its behaviour among the first
  candidates, the others under theirs among the next ones.
\<close>

abbreviation rule_steps :: "compiledRule \<Rightarrow> compiledStep list" where
  "rule_steps rule \<equiv> cq_steps (ru_sequence rule)"

definition placed :: "(compiledRule \<Rightarrow> bool) \<Rightarrow> compiledSequenceRuntime \<Rightarrow> bool" where
  "placed P rt \<longleftrightarrow>
     (\<forall>b c. c \<in> set (get_or [] (qt_firstByBehavior rt) b) \<longrightarrow>
        P (ca_rule c) \<and> ca_firstStep c \<and> rule_steps (ca_rule c) \<noteq> [] \<and> sk_behavior (rule_steps (ca_rule c) ! 0) = b) \<and>
     (\<forall>b c. c \<in> set (get_or [] (qt_nextByBehavior rt) b) \<longrightarrow>
        P (ca_rule c) \<and> \<not> ca_firstStep c \<and> 0 < ca_stepIndex c \<and> ca_stepIndex c < length (rule_steps (ca_rule c)) \<and>
        sk_behavior (rule_steps (ca_rule c) ! ca_stepIndex c) = b) \<and>
     qt_behaviorAgnostic rt = []"

lemma get_or_appendAt [simp]: "get_or [] (appendAt k x m) j = (if j = k then get_or [] m k @ [x] else get_or [] m j)"
  by (simp add: appendAt_def)

lemma placed_first:
  "placed P rt \<Longrightarrow> P rule \<Longrightarrow> rule_steps rule \<noteq> [] \<Longrightarrow> sk_behavior (rule_steps rule ! 0) \<noteq> '''' \<Longrightarrow>
   placed P (addCandidate rt \<lparr> ca_rule = rule, ca_stepIndex = 0, ca_firstStep = True \<rparr> (sk_behavior (rule_steps rule ! 0)))"
  by (auto simp: placed_def addCandidate_def split: if_splits)

lemma placed_next:
  "placed P rt \<Longrightarrow> P rule \<Longrightarrow> 0 < i \<Longrightarrow> i < length (rule_steps rule) \<Longrightarrow> sk_behavior (rule_steps rule ! i) \<noteq> '''' \<Longrightarrow>
   placed P (addCandidate rt \<lparr> ca_rule = rule, ca_stepIndex = i, ca_firstStep = False \<rparr> (sk_behavior (rule_steps rule ! i)))"
  by (auto simp: placed_def addCandidate_def split: if_splits)

lemma placed_addSequenceRule:
  assumes rt: "placed P rt"
    and rule: "er_enabled rule \<Longrightarrow> runtimeType rule = ''sequence'' \<Longrightarrow>
      P (compileRule strategy content rule) \<and> rule_steps_ok (compileRule strategy content rule)"
  shows "placed P (addSequenceRule strategy content rt rule)"
proof -
  let ?c = "compileRule strategy content rule"
  define rt1 where "rt1 = addCandidate rt \<lparr> ca_rule = ?c, ca_stepIndex = 0, ca_firstStep = True \<rparr> (sk_behavior (rule_steps ?c ! 0))"
  show ?thesis
  proof (cases "\<not> er_enabled rule \<or> runtimeType rule \<noteq> ''sequence'' \<or> length (rule_steps ?c) = 0")
    case True
    with rt show ?thesis by (auto simp: addSequenceRule_def Let_def)
  next
    case False
    then have c: "P ?c" "\<And>i. i < length (rule_steps ?c) \<Longrightarrow> sk_behavior (rule_steps ?c ! i) \<noteq> ''''"
      using rule by (auto simp: rule_steps_ok_def list_all_length)
    have "placed P rt1" using rt c False by (auto simp: rt1_def intro!: placed_first)
    then have "placed P (foldl (\<lambda>rt i. addCandidate rt \<lparr> ca_rule = ?c, ca_stepIndex = i, ca_firstStep = False \<rparr>
        (sk_behavior (rule_steps ?c ! i))) rt1 [1..<length (rule_steps ?c)])"
      by (rule foldl_invariant) (auto intro!: placed_next c)
    with False rt show ?thesis by (auto simp: addSequenceRule_def Let_def rt1_def)
  qed
qed

lemma placed_compileSequenceRuntime:
  assumes "\<And>rule. rule \<in> set rules \<Longrightarrow> er_enabled rule \<Longrightarrow> runtimeType rule = ''sequence'' \<Longrightarrow>
      P (compileRule strategy content rule) \<and> rule_steps_ok (compileRule strategy content rule)"
  shows "placed P (compileSequenceRuntime strategy rules content)"
  unfolding compileSequenceRuntime_def
proof (rule foldl_invariant)
  show "placed P \<lparr> qt_firstByBehavior = [], qt_nextByBehavior = [], qt_behaviorAgnostic = [] \<rparr>"
    by (simp add: placed_def)
qed (rule placed_addSequenceRule, use assms in auto)

text \<open>The rules an engine was compiled from.\<close>

definition compiled_sequence :: "string \<Rightarrow> ContentSnapshot \<Rightarrow> effectiveRule list \<Rightarrow> compiledRule \<Rightarrow> bool" where
  "compiled_sequence strategy content rules rule \<longleftrightarrow>
     (\<exists>r \<in> set rules. er_enabled r \<and> runtimeType r = ''sequence'' \<and> rule = compileRule strategy content r \<and> rule_steps_ok rule)"

lemma runtime_ok_placed: "placed (\<lambda>rule. P rule \<and> rule_steps_ok rule) rt \<Longrightarrow> runtime_ok rt"
  by (auto simp: placed_def runtime_ok_def)

lemma duplicateRules_distinct:
  "duplicateRules seen rules = [] \<Longrightarrow>
     distinct (map (\<lambda>r. rs_RuleID (er_spec r)) rules) \<and> set (map (\<lambda>r. rs_RuleID (er_spec r)) rules) \<inter> set seen = {}"
  by (induction seen rules rule: duplicateRules.induct) (auto simp: Let_def split: if_splits)

lemma foldl_update_distinct:
  "distinct (map f xs) \<Longrightarrow> (\<And>x. x \<in> set xs \<Longrightarrow> f x \<notin> fst ` set m) \<Longrightarrow>
   foldl (\<lambda>m x. AList.update (f x) x m) m xs = m @ map (\<lambda>x. (f x, x)) xs"
proof (induction xs arbitrary: m)
  case (Cons x xs)
  have new: "AList.update (f x) x m = m @ [(f x, x)]"
    using Cons.prems(2) [of x] by (induction m) auto
  have "foldl (\<lambda>m x. AList.update (f x) x m) (m @ [(f x, x)]) xs = (m @ [(f x, x)]) @ map (\<lambda>x. (f x, x)) xs"
    using Cons.prems by (intro Cons.IH) (auto simp: image_iff)
  then show ?case by (simp add: new)
qed simp

text \<open>What an engine with sequence rules knows of its rules after it was built.\<close>

lemma NewWithRuntimeLimits_rules:
  fixes policy :: "DetectionPolicy option" and content :: ContentSnapshot
  defines "rules \<equiv> resolveRules (case policy of None \<Rightarrow> DefaultDetectionPolicy | Some p \<Rightarrow> NormalizeDetectionPolicy p) content"
  shows "(\<exists>m. fst (NewWithRuntimeLimits strategy durationOk policy collection content limits) =
            (emptyEngine (normalizeLimits limits) content)\<lparr> e_rules := m \<rparr>) \<or>
         (distinct (map (\<lambda>r. rs_RuleID (er_spec r)) rules) \<and>
          (\<forall>r \<in> set rules. validateEffectiveRule r = [] \<and> validateRuleSpec durationOk (er_spec r) = []) \<and>
          (\<exists>m. fst (NewWithRuntimeLimits strategy durationOk policy collection content limits) =
            (emptyEngine (normalizeLimits limits) content)\<lparr> e_rules := m,
               e_compiled := compileRuntime strategy rules content,
               e_sequence := compileSequenceRuntime strategy rules content,
               e_correlation := compileCorrelateRuntime strategy rules content \<rparr>))"
proof -
  define normalized where "normalized = (case policy of None \<Rightarrow> DefaultDetectionPolicy | Some p \<Rightarrow> NormalizeDetectionPolicy p)"
  let ?m = "foldl (\<lambda>m rule. AList.update (rs_RuleID (er_spec rule)) rule m) [] rules"
  let ?errs = "validateEffectiveRules ?m @ validateRuleSpecs durationOk rules @ validateContentRefs rules content"
  have rules: "rules = resolveRules normalized content" by (simp add: rules_def normalized_def)
  have self: "emptyEngine l c = (emptyEngine l c)\<lparr> e_rules := [] \<rparr>" for l c by (simp add: emptyEngine_def)
  consider "dp_RuleSets normalized = [] \<or> validateRuleSelection normalized content \<noteq> []"
    | "dp_RuleSets normalized \<noteq> []" "validateRuleSelection normalized content = []" "?errs \<noteq> []"
    | "dp_RuleSets normalized \<noteq> []" "validateRuleSelection normalized content = []" "?errs = []"
    by blast
  then show ?thesis
  proof cases
    case 1
    then have "fst (NewWithRuntimeLimits strategy durationOk policy collection content limits) = emptyEngine (normalizeLimits limits) content"
      by (auto simp: NewWithRuntimeLimits_def normalized_def [symmetric] Let_def)
    then show ?thesis using self [of "normalizeLimits limits" content] by (intro disjI1 exI [of _ "[]"]) simp
  next
    case 2
    then have "fst (NewWithRuntimeLimits strategy durationOk policy collection content limits) =
        (emptyEngine (normalizeLimits limits) content)\<lparr> e_rules := ?m \<rparr>"
      by (auto simp: NewWithRuntimeLimits_def normalized_def [symmetric] rules [symmetric] Let_def)
    then show ?thesis by blast
  next
    case 3
    have d: "distinct (map (\<lambda>r. rs_RuleID (er_spec r)) rules)"
      using 3(2) duplicateRules_distinct [of "[]" rules] by (simp add: validateRuleSelection_def rules)
    have "?m = map (\<lambda>r. (rs_RuleID (er_spec r), r)) rules" using foldl_update_distinct [OF d, of "[]"] by simp
    then have "validateEffectiveRule r = []" "validateRuleSpec durationOk (er_spec r) = []" if "r \<in> set rules" for r
      using 3(3) that by (auto simp: validateEffectiveRules_def validateRuleSpecs_def)
    moreover have "fst (NewWithRuntimeLimits strategy durationOk policy collection content limits) =
        (emptyEngine (normalizeLimits limits) content)\<lparr> e_rules := ?m,
           e_compiled := compileRuntime strategy rules content,
           e_sequence := compileSequenceRuntime strategy rules content,
           e_correlation := compileCorrelateRuntime strategy rules content \<rparr>"
      using 3 by (simp add: NewWithRuntimeLimits_def normalized_def [symmetric] rules [symmetric] Let_def)
    ultimately show ?thesis using d by blast
  qed
qed

lemma limits_ok_normalize: "limits_ok (normalizeLimits limits)"
  by (simp add: limits_ok_def normalizeLimits_def defaultMaxCEPGroups_def defaultMaxCEPRefs_def Let_def)

lemma engine_ok_empty:
  assumes "runtime_ok rt" and "limits_ok limits"
  shows "engine_ok ((emptyEngine limits content)\<lparr> e_rules := m, e_compiled := c, e_sequence := rt, e_correlation := k \<rparr>)"
  using assms
  by (simp add: engine_ok_def emptyEngine_def cep_ok_def index_ok_def active_count_def cepGroups_def waits_def
      correlate_ok_def correlateGroups_def suppression_ok_def limits_ok_def)

lemma engine_ok_New:
  "engine_ok (fst (NewWithRuntimeLimits strategy durationOk policy collection content limits))"
proof -
  define rules where "rules = resolveRules (case policy of None \<Rightarrow> DefaultDetectionPolicy | Some p \<Rightarrow> NormalizeDetectionPolicy p) content"
  have empty: "runtime_ok \<lparr> qt_firstByBehavior = [], qt_nextByBehavior = [], qt_behaviorAgnostic = [] \<rparr>"
    by (simp add: runtime_ok_def)
  from NewWithRuntimeLimits_rules [of strategy durationOk policy collection content limits, folded rules_def]
  show ?thesis
  proof (elim disjE)
    assume "\<exists>m. fst (NewWithRuntimeLimits strategy durationOk policy collection content limits) =
      (emptyEngine (normalizeLimits limits) content)\<lparr> e_rules := m \<rparr>"
    then obtain m where "fst (NewWithRuntimeLimits strategy durationOk policy collection content limits) =
        (emptyEngine (normalizeLimits limits) content)\<lparr> e_rules := m \<rparr>" by blast
    then show ?thesis using engine_ok_empty [OF empty limits_ok_normalize, where m = m] by (simp add: emptyEngine_def)
  next
    assume r: "distinct (map (\<lambda>r. rs_RuleID (er_spec r)) rules) \<and>
      (\<forall>r \<in> set rules. validateEffectiveRule r = [] \<and> validateRuleSpec durationOk (er_spec r) = []) \<and>
      (\<exists>m. fst (NewWithRuntimeLimits strategy durationOk policy collection content limits) =
        (emptyEngine (normalizeLimits limits) content)\<lparr> e_rules := m, e_compiled := compileRuntime strategy rules content,
           e_sequence := compileSequenceRuntime strategy rules content,
           e_correlation := compileCorrelateRuntime strategy rules content \<rparr>)"
    have "placed (\<lambda>rule. True \<and> rule_steps_ok rule) (compileSequenceRuntime strategy rules content)"
      using r by (intro placed_compileSequenceRuntime) (auto simp: compileRule_steps_ok)
    then have "runtime_ok (compileSequenceRuntime strategy rules content)" by (rule runtime_ok_placed)
    from engine_ok_empty [OF this limits_ok_normalize] r show ?thesis by (auto simp del: Engine.update_convs)
  qed
qed


text \<open>
  C5. The engine that \<^verbatim>\<open>NewWithRuntimeLimits\<close> returns, for any policy and content, and every state it
  reaches by processing events, satisfies the invariant \<^const>\<open>engine_ok\<close>: at most \<^verbatim>\<open>MaxCEPGroups\<close>
  groups per sequence or correlation rule, at most \<^verbatim>\<open>MaxCEPRefs\<close> distinct references per group, at
  most 8192 suppression keys, and a waiting index that agrees with the groups.
\<close>

theorem engine_invariant:
  "engine_ok (foldl engine_step (fst (NewWithRuntimeLimits strategy durationOk policy collection content limits)) calls)"
  by (rule detector.run_invar [OF engine_ok_New])

section \<open>Condition trees\<close>

text \<open>
  The meaning of a tree: whichever of its parts are present hold. The compiled tree looks at the
  first part present only, so the two agree when exactly one is.
\<close>

fun tree_holds :: "(string \<Rightarrow> float64 option) \<Rightarrow> ContentSnapshot \<Rightarrow> eventView \<Rightarrow> cepGroupState option \<Rightarrow> ConditionNodeSpec \<Rightarrow> bool" where
  "tree_holds pf content view st (ConditionNodeSpec allNodes anyNodes notNode cond) \<longleftrightarrow>
     (case cond of None \<Rightarrow> True | Some c \<Rightarrow> condition_holds pf content view st c) \<and>
     (case notNode of None \<Rightarrow> True | Some n \<Rightarrow> \<not> tree_holds pf content view st n) \<and>
     (case allNodes of None \<Rightarrow> True | Some ns \<Rightarrow> list_all (tree_holds pf content view st) ns) \<and>
     (case anyNodes of None \<Rightarrow> True | Some ns \<Rightarrow> list_ex (tree_holds pf content view st) ns)"

fun tree_depth :: "ConditionNodeSpec \<Rightarrow> nat" where
  "tree_depth (ConditionNodeSpec allNodes anyNodes notNode cond) =
     Suc (fold max ((case notNode of None \<Rightarrow> [] | Some n \<Rightarrow> [tree_depth n]) @
                    (case allNodes of None \<Rightarrow> [] | Some ns \<Rightarrow> map tree_depth ns) @
                    (case anyNodes of None \<Rightarrow> [] | Some ns \<Rightarrow> map tree_depth ns)) 0)"

fun tree_leaves :: "ConditionNodeSpec \<Rightarrow> nat" where
  "tree_leaves (ConditionNodeSpec allNodes anyNodes notNode cond) =
     (if cond = None then 0 else 1) +
     (case notNode of None \<Rightarrow> 0 | Some n \<Rightarrow> tree_leaves n) +
     (case allNodes of None \<Rightarrow> 0 | Some ns \<Rightarrow> sum_list (map tree_leaves ns)) +
     (case anyNodes of None \<Rightarrow> 0 | Some ns \<Rightarrow> sum_list (map tree_leaves ns))"

fun one_kind :: "ConditionNodeSpec \<Rightarrow> bool" where
  "one_kind (ConditionNodeSpec allNodes anyNodes notNode cond) \<longleftrightarrow>
     boolCount [cond \<noteq> None, notNode \<noteq> None, allNodes \<noteq> None, anyNodes \<noteq> None] = 1 \<and>
     (case notNode of None \<Rightarrow> True | Some n \<Rightarrow> one_kind n) \<and>
     (case allNodes of None \<Rightarrow> True | Some ns \<Rightarrow> list_all one_kind ns) \<and>
     (case anyNodes of None \<Rightarrow> True | Some ns \<Rightarrow> list_all one_kind ns)"

lemma fold_max_le: "fold max xs (a :: nat) \<le> b \<longleftrightarrow> a \<le> b \<and> (\<forall>x\<in>set xs. x \<le> b)"
  by (induction xs arbitrary: a) auto

lemma add_fold_max_le: "d \<le> (b :: nat) \<Longrightarrow> d + fold max (map f xs) 0 \<le> b \<longleftrightarrow> (\<forall>x\<in>set xs. d + f x \<le> b)"
  using fold_max_le [of "map f xs" 0 "b - d"] by (auto simp: le_diff_conv2 add.commute)

lemma boolCount4:
  "boolCount [a, b, c, d] = 1 \<longleftrightarrow>
     (a \<and> \<not> b \<and> \<not> c \<and> \<not> d) \<or> (\<not> a \<and> b \<and> \<not> c \<and> \<not> d) \<or> (\<not> a \<and> \<not> b \<and> c \<and> \<not> d) \<or> (\<not> a \<and> \<not> b \<and> \<not> c \<and> d)"
  by (auto simp: boolCount_def)

lemma validateConditionNode_sound:
  "leaves \<le> maxConditionTreeLeaves \<Longrightarrow> validateConditionNode ruleID location prior n depth leaves = ([], leaves') \<Longrightarrow>
     leaves' = leaves + tree_leaves n \<and> leaves' \<le> maxConditionTreeLeaves \<and>
     depth + tree_depth n \<le> Suc maxConditionTreeDepth \<and> one_kind n"
  "leaves \<le> maxConditionTreeLeaves \<Longrightarrow> validateConditionNodes ruleID location prior ns depth leaves = ([], leaves') \<Longrightarrow>
     leaves' = leaves + sum_list (map tree_leaves ns) \<and> leaves' \<le> maxConditionTreeLeaves \<and>
     (\<forall>n\<in>set ns. depth + tree_depth n \<le> Suc maxConditionTreeDepth) \<and> list_all one_kind ns"
proof (induction ruleID location prior n depth leaves and ruleID location prior ns depth leaves arbitrary: leaves' and leaves'
    rule: validateConditionNode_validateConditionNodes.induct)
  case (1 ruleID location prior allNodes anyNodes notNode cond depth leaves)
  have depth: "depth \<le> maxConditionTreeDepth"
    and one: "boolCount [cond \<noteq> None, notNode \<noteq> None, allNodes \<noteq> None, anyNodes \<noteq> None] = 1"
    using "1.prems"(2) by (auto split: if_splits)
  from one consider (leaf) c where "cond = Some c" "notNode = None" "allNodes = None" "anyNodes = None"
    | (neg) n where "cond = None" "notNode = Some n" "allNodes = None" "anyNodes = None"
    | (all) ns where "cond = None" "notNode = None" "allNodes = Some ns" "anyNodes = None"
    | (any) ns where "cond = None" "notNode = None" "allNodes = None" "anyNodes = Some ns"
    unfolding boolCount4 by auto
  then show ?case
  proof cases
    case leaf
    then show ?thesis using "1.prems" depth one by (auto simp: Let_def split: if_splits)
  next
    case neg
    have "validateConditionNode ruleID location prior n (depth + 1) leaves = ([], leaves')"
      using "1.prems"(2) neg depth one by simp
    from "1.IH"(3) [OF _ _ neg(1,2) "1.prems"(1) this] depth one neg show ?thesis by simp
  next
    case all
    have ne: "length ns \<noteq> 0" and v: "validateConditionNodes ruleID location prior ns (depth + 1) leaves = ([], leaves')"
      using "1.prems"(2) all depth one by (auto split: if_splits)
    from "1.IH"(1) [OF _ _ all(1,2,4,3) ne "1.prems"(1) v] depth one all show ?thesis
      by (simp add: add_fold_max_le)
  next
    case any
    have ne: "length ns \<noteq> 0" and v: "validateConditionNodes ruleID location prior ns (depth + 1) leaves = ([], leaves')"
      using "1.prems"(2) any depth one by (auto split: if_splits)
    from "1.IH"(2) [OF _ _ any(1,2,4) ne "1.prems"(1) v] depth one any show ?thesis
      by (simp add: add_fold_max_le)
  qed
next
  case (2 ruleID location prior depth leaves)
  then show ?case by simp
next
  case (3 ruleID location prior n ns depth leaves)
  obtain l1 where n: "validateConditionNode ruleID location prior n depth leaves = ([], l1)"
    and ns: "validateConditionNodes ruleID location prior ns depth l1 = ([], leaves')"
    using "3.prems"(2) by (auto simp: split_beta prod_eq_iff)
  from "3.IH"(1) [OF "3.prems"(1) n] have 1: "l1 = leaves + tree_leaves n" "l1 \<le> maxConditionTreeLeaves"
    "depth + tree_depth n \<le> Suc maxConditionTreeDepth" "one_kind n" by simp_all
  from "3.IH"(2) [OF n [symmetric] refl 1(2) ns] 1 show ?case by simp
qed

lemma cnode_holds_compile:
  "one_kind n \<Longrightarrow> cnode_holds pf view st (compileConditionNode strategy content n) = tree_holds pf content view st n"
proof (induction n)
  case (ConditionNodeSpec allNodes anyNodes notNode cond)
  have one: "boolCount [cond \<noteq> None, notNode \<noteq> None, allNodes \<noteq> None, anyNodes \<noteq> None] = 1"
    using ConditionNodeSpec.prems by simp
  from one consider (leaf) c where "cond = Some c" "notNode = None" "allNodes = None" "anyNodes = None"
    | (neg) n where "cond = None" "notNode = Some n" "allNodes = None" "anyNodes = None"
    | (all) ns where "cond = None" "notNode = None" "allNodes = Some ns" "anyNodes = None"
    | (any) ns where "cond = None" "notNode = None" "allNodes = None" "anyNodes = Some ns"
    unfolding boolCount4 by auto
  then show ?case
    using ConditionNodeSpec
    by cases (auto simp: ccond_holds_compileCondition1 list_all_iff list_ex_iff)
qed

text \<open>
  C13. A condition tree that passes the validation is at most 8 levels deep and has at most 256
  leaves, and matching its compiled form decides what the tree says: a leaf its condition, \<^verbatim>\<open>not\<close> the
  negation, \<^verbatim>\<open>all\<close> the conjunction and \<^verbatim>\<open>any\<close> the disjunction of the children.
\<close>

theorem validated_tree_means_what_it_says:
  assumes "validateConditionTree ruleID location prior (Some n) = []"
  shows "tree_depth n \<le> 8 \<and> tree_leaves n \<le> 256 \<and>
     fst (matchCompiledConditionNode pf view (compileConditionNode strategy content n) st m) = tree_holds pf content view st n"
proof -
  obtain leaves' where "validateConditionNode ruleID location prior n 1 0 = ([], leaves')"
    using assms by (auto simp: validateConditionTree_def prod_eq_iff)
  from validateConditionNode_sound(1) [OF _ this]
  have "leaves' = tree_leaves n" "leaves' \<le> maxConditionTreeLeaves" "1 + tree_depth n \<le> Suc maxConditionTreeDepth" "one_kind n"
    by simp_all
  then show ?thesis by (simp add: cnode_holds_compile maxConditionTreeLeaves_def maxConditionTreeDepth_def)
qed

theorem validated_tree_means_what_it_says_witness:
  defines "n \<equiv> ConditionNodeSpec None None (Some (ConditionNodeSpec None None None (Some
                 \<lparr> cs_Field = ''binary'', cs_Op = ''exists'', cs_Value = '''', cs_Values = [], cs_Ref = '''',
                 cs_Step = '''', cs_StepField = '''' \<rparr>))) None"
  shows "validateConditionTree ''r1'' ''expr'' None (Some n) = [] \<and> tree_depth n \<le> 8 \<and> tree_leaves n \<le> 256"
proof -
  have "compileField ''binary'' = fieldProcessBinary" "compileOp ''exists'' = opExists" by code_simp+
  then have v: "validateConditionTree ''r1'' ''expr'' None (Some n) = []"
    by (simp add: n_def validateConditionTree_def maxConditionTreeDepth_def maxConditionTreeLeaves_def boolCount_def
        validateConditions_def validateCondition_def)
  from v validated_tree_means_what_it_says [OF v] show ?thesis by blast
qed

end
