(* ===== verification/Detect_Trace.thy ===== *)
theory Detect_Trace
  imports Detect_Policy
begin

text \<open>
  What a signal of a sequence rule is evidence of. A history is the list of the views of the events
  an engine has processed. The invariant below ties every group of a sequence rule to events of the
  history that matched its steps one after the other; so a signal is emitted only for a complete
  chain of matching events, in the order of the steps, with one group key and within the window.

  The order is that of the history, and one event may serve two consecutive steps: the last theorem
  shows that this happens.
\<close>

section \<open>Chains of events\<close>

definition view_key :: "compiledSequence \<Rightarrow> eventView \<Rightarrow> string" where
  "view_key seq view = Join (map (fieldPart view) (if length (cq_by seq) = 0 then [fieldLineageID] else cq_by seq)) ''|''"

definition save_step :: "(string, (string, string) gomap) gomap \<Rightarrow> compiledStep \<times> eventView \<Rightarrow> (string, (string, string) gomap) gomap" where
  "save_step vals p =
     (let saved = eventFieldMapFromView (snd p) (sk_saveFields (fst p))
      in if length saved > 0 then AList.update (sk_id (fst p)) saved vals else vals)"

definition saved_after :: "compiledStep list \<Rightarrow> eventView list \<Rightarrow> (string, (string, string) gomap) gomap" where
  "saved_after steps vs = foldl save_step [] (zip steps vs)"

definition keep_ref :: "int \<Rightarrow> string list \<Rightarrow> string \<Rightarrow> string list" where
  "keep_ref limit refs x =
     (let refs = appendUnique refs x in if int (length refs) > limit then last_n (nat limit) refs else refs)"

definition refs_after :: "int \<Rightarrow> eventView list \<Rightarrow> string list" where
  "refs_after limit vs = foldl (keep_ref limit) [] (map v_eventID vs)"

definition step_matches ::
  "(string \<Rightarrow> float64 option) \<Rightarrow> (string, (string, string) gomap) gomap \<Rightarrow> eventView \<Rightarrow> compiledStep \<Rightarrow> bool" where
  "step_matches pf vals view step \<longleftrightarrow>
     (sk_behavior step = '''' \<or> v_behavior view = sk_behavior step) \<and>
     group_holds pf view (Some (cepGroupState_new\<lparr> gs_Values := vals \<rparr>)) (sk_conditions step) (sk_conditionGroup step)"

text \<open>
  The events \<open>vs\<close> match the first steps of a rule: each has the group key and satisfies its step,
  given the fields saved from the events before it, and none comes after the window that the first
  one opened.
\<close>

definition chain :: "(string \<Rightarrow> float64 option) \<Rightarrow> compiledRule \<Rightarrow> string \<Rightarrow> eventView list \<Rightarrow> bool" where
  "chain pf rule key vs \<longleftrightarrow>
     length vs \<le> length (rule_steps rule) \<and>
     (\<forall>i < length vs. view_key (ru_sequence rule) (vs ! i) = key \<and>
        step_matches pf (saved_after (rule_steps rule) (take i vs)) (vs ! i) (rule_steps rule ! i)) \<and>
     (cq_within (ru_sequence rule) > 0 \<longrightarrow>
        (\<forall>v \<in> set (tl vs). \<not> expired (view_eventTime v) (view_eventTime (hd vs) + of_int (cq_within (ru_sequence rule)))))"

definition in_order :: "eventView list \<Rightarrow> eventView list \<Rightarrow> bool" where
  "in_order H vs \<longleftrightarrow> (\<exists>idx. sorted idx \<and> (\<forall>i \<in> set idx. i < length H) \<and> vs = map ((!) H) idx)"

definition just_by ::
  "(string \<Rightarrow> float64 option) \<Rightarrow> int \<Rightarrow> eventView list \<Rightarrow> string \<Rightarrow> cepGroupState \<Rightarrow> compiledRule \<Rightarrow> eventView list \<Rightarrow> bool" where
  "just_by pf limit H k g rule vs \<longleftrightarrow>
     gs_StepIndex g < length (rule_steps rule) \<and> length vs = gs_StepIndex g \<and>
     gs_WaitingBehavior g = sk_behavior (rule_steps rule ! gs_StepIndex g) \<and>
     chain pf rule k vs \<and> in_order H vs \<and>
     gs_Values g = saved_after (rule_steps rule) vs \<and> gs_Refs g = refs_after limit vs \<and>
     (cq_within (ru_sequence rule) > 0 \<longrightarrow>
        gs_ExpiresAt g = view_eventTime (hd vs) + of_int (cq_within (ru_sequence rule)))"

abbreviation rule_id :: "compiledRule \<Rightarrow> string" where
  "rule_id rule \<equiv> rs_RuleID (er_spec (ru_rule rule))"

definition group_just ::
  "(string \<Rightarrow> float64 option) \<Rightarrow> (compiledRule \<Rightarrow> bool) \<Rightarrow> int \<Rightarrow> eventView list \<Rightarrow> string \<Rightarrow> string \<Rightarrow> cepGroupState \<Rightarrow> bool" where
  "group_just pf P limit H r k g \<longleftrightarrow>
     (if gs_StepIndex g = 0 then gs_Values g = [] \<and> gs_Refs g = []
      else \<exists>rule vs. P rule \<and> rule_id rule = r \<and> just_by pf limit H k g rule vs)"

definition trace_ok ::
  "(string \<Rightarrow> float64 option) \<Rightarrow> (compiledRule \<Rightarrow> bool) \<Rightarrow> eventView list \<Rightarrow> Engine \<Rightarrow> bool" where
  "trace_ok pf P H e \<longleftrightarrow>
     (\<forall>r k g. map_of (cepGroups r e) k = Some g \<longrightarrow> group_just pf P (MaxCEPRefs (e_limits e)) H r k g)"

definition signal_just ::
  "(string \<Rightarrow> float64 option) \<Rightarrow> int \<Rightarrow> eventView list \<Rightarrow> compiledRule \<Rightarrow> Signal \<Rightarrow> bool" where
  "signal_just pf limit H rule s \<longleftrightarrow>
     (\<exists>key vs. length vs = length (rule_steps rule) \<and> chain pf rule key vs \<and> in_order H vs \<and> last vs = last H \<and>
        sig_event_refs s = (if refs_after limit vs = [] then [v_eventID (last H)] else refs_after limit vs))"

section \<open>Lemmas on chains\<close>

lemma group_holds_values:
  "gs_Values g = gs_Values g' \<Longrightarrow> group_holds pf view (Some g) conds grp = group_holds pf view (Some g') conds grp"
proof -
  assume v: "gs_Values g = gs_Values g'"
  have c: "ccond_holds pf view (Some g) cond = ccond_holds pf view (Some g') cond" for cond
    by (simp add: ccond_holds_def sameAsStep_def v)
  have "cnode_holds pf view (Some g) n = cnode_holds pf view (Some g') n" for n
    by (induction n) (simp_all add: c list_all_iff list_ex_iff)
  then show ?thesis by (simp add: group_holds_def c [abs_def] cong: option.case_cong)
qed

lemma matchCompiledStep_fst:
  "fst (matchCompiledStep env view step st e) = step_matches (env_parse env) (gs_Values st) view step"
proof -
  have "group_holds pf view (Some st) conds grp = group_holds pf view (Some (cepGroupState_new\<lparr> gs_Values := gs_Values st \<rparr>)) conds grp"
    for pf conds grp by (rule group_holds_values) simp
  then show ?thesis
    by (auto simp: matchCompiledStep_def step_matches_def matchGroup_def split_beta)
qed

lemma saved_after_snoc:
  "length vs < length steps \<Longrightarrow> saved_after steps (vs @ [v]) = save_step (saved_after steps vs) (steps ! length vs, v)"
proof -
  assume l: "length vs < length steps"
  have d: "drop (length vs) steps = steps ! length vs # drop (Suc (length vs)) steps"
    using l by (simp add: Cons_nth_drop_Suc)
  have split: "zip steps ws = zip (take (length vs) steps @ drop (length vs) steps) ws" for ws :: "eventView list"
    by simp
  have "zip steps (vs @ [v]) = zip (take (length vs) steps) vs @ [(steps ! length vs, v)]"
    unfolding split [of "vs @ [v]"] using l d by (subst zip_append) simp_all
  moreover have "zip steps vs = zip (take (length vs) steps) vs"
    unfolding split [of vs] using l zip_append [of "take (length vs) steps" vs "drop (length vs) steps" "[]"] by simp
  ultimately have s: "zip steps (vs @ [v]) = zip steps vs @ [(steps ! length vs, v)]" by simp
  show ?thesis by (simp add: saved_after_def s)
qed

lemma refs_after_snoc: "refs_after limit (vs @ [v]) = keep_ref limit (refs_after limit vs) (v_eventID v)"
  by (simp add: refs_after_def)

lemma refs_after_ok: "distinct (refs_after limit vs) \<and> '''' \<notin> set (refs_after limit vs)"
proof (induction vs rule: rev_induct)
  case Nil
  then show ?case by (simp add: refs_after_def)
next
  case (snoc v vs)
  let ?refs = "appendUnique (refs_after limit vs) (v_eventID v)"
  have "distinct ?refs" "'''' \<notin> set ?refs" using snoc by (auto simp: appendUnique_def)
  moreover have "'''' \<notin> set (last_n (nat limit) ?refs)"
    using calculation(2) set_last_n [of "nat limit" ?refs] by blast
  ultimately show ?case by (simp add: refs_after_snoc keep_ref_def Let_def distinct_last_n)
qed

lemma appendRefs_id: "distinct (base @ refs) \<Longrightarrow> '''' \<notin> set refs \<Longrightarrow> appendRefs base refs = base @ refs"
  unfolding appendRefs_def
  by (induction refs arbitrary: base) (auto simp: appendUnique_def)

lemma appendRefs_refs_after [simp]: "appendRefs [] (refs_after limit vs) = refs_after limit vs"
  using refs_after_ok [of limit vs] by (intro appendRefs_id [of "[]", simplified]) auto

lemma in_order_Nil: "in_order H []"
  by (auto simp: in_order_def intro: exI [of _ "[]"])

lemma in_order_snoc:
  assumes "in_order H vs" and "H \<noteq> []"
  shows "in_order H (vs @ [last H])"
proof -
  obtain idx where idx: "sorted idx" "\<forall>i \<in> set idx. i < length H" "vs = map ((!) H) idx"
    using assms(1) by (auto simp: in_order_def)
  have "sorted (idx @ [length H - 1])" using idx(1,2) by (auto simp: sorted_append)
  moreover have "\<forall>i \<in> set (idx @ [length H - 1]). i < length H" using idx(2) assms(2) by auto
  moreover have "vs @ [last H] = map ((!) H) (idx @ [length H - 1])" using idx(3) assms(2) by (simp add: last_conv_nth)
  ultimately show ?thesis unfolding in_order_def by blast
qed

lemma in_order_extend:
  assumes "in_order H vs"
  shows "in_order (H @ H') vs"
proof -
  obtain idx where idx: "sorted idx" "\<forall>i \<in> set idx. i < length H" "vs = map ((!) H) idx"
    using assms by (auto simp: in_order_def)
  have "vs = map ((!) (H @ H')) idx" unfolding idx(3) using idx(2) by (simp add: nth_append)
  moreover have "\<forall>i \<in> set idx. i < length (H @ H')" using idx(2) by auto
  ultimately show ?thesis unfolding in_order_def using idx(1) by blast
qed

lemma group_just_extend: "group_just pf P limit H r k g \<Longrightarrow> group_just pf P limit (H @ H') r k g"
  unfolding group_just_def just_by_def using in_order_extend by (cases "gs_StepIndex g = 0") (simp, simp, blast)

lemma trace_ok_extend: "trace_ok pf P H e \<Longrightarrow> trace_ok pf P (H @ H') e"
  by (simp add: trace_ok_def group_just_extend)

lemma chain_snoc:
  assumes "chain pf rule key vs" and "length vs < length (rule_steps rule)"
    and "view_key (ru_sequence rule) v = key"
    and "step_matches pf (saved_after (rule_steps rule) vs) v (rule_steps rule ! length vs)"
    and "vs \<noteq> [] \<Longrightarrow> cq_within (ru_sequence rule) > 0 \<Longrightarrow>
           \<not> expired (view_eventTime v) (view_eventTime (hd vs) + of_int (cq_within (ru_sequence rule)))"
  shows "chain pf rule key (vs @ [v])"
proof -
  have "view_key (ru_sequence rule) ((vs @ [v]) ! i) = key \<and>
      step_matches pf (saved_after (rule_steps rule) (take i (vs @ [v]))) ((vs @ [v]) ! i) (rule_steps rule ! i)"
    if "i < length (vs @ [v])" for i
    using that assms(1,3,4) by (cases "i = length vs") (auto simp: chain_def nth_append)
  moreover have "\<not> expired (view_eventTime w) (view_eventTime (hd (vs @ [v])) + of_int (cq_within (ru_sequence rule)))"
    if "w \<in> set (tl (vs @ [v]))" "cq_within (ru_sequence rule) > 0" for w
    using that assms(1,5) by (cases vs) (auto simp: chain_def)
  ultimately show ?thesis using assms(2) by (auto simp: chain_def)
qed

lemma chain_Nil: "chain pf rule key []"
  by (simp add: chain_def)

lemma chain_single:
  assumes "rule_steps rule \<noteq> []" and "view_key (ru_sequence rule) v = key" and "step_matches pf [] v (rule_steps rule ! 0)"
  shows "chain pf rule key [v]"
  using chain_snoc [OF chain_Nil, of rule v key pf] assms by (simp add: saved_after_def)

section \<open>The engine keeps its groups justified\<close>

definition unique_rules :: "(compiledRule \<Rightarrow> bool) \<Rightarrow> bool" where
  "unique_rules P \<longleftrightarrow> (\<forall>a b. P a \<and> P b \<and> rule_id a = rule_id b \<longrightarrow> a = b)"

lemma advanceGroup_values:
  "gs_Values (fst (advanceGroup seq step view st e)) = save_step (gs_Values st) (step, view)"
  "gs_ExpiresAt (fst (advanceGroup seq step view st e)) =
     (if gs_StepIndex st = 0 \<and> cq_within seq > 0 then view_eventTime view + of_int (cq_within seq) else gs_ExpiresAt st)"
  "gs_Refs (fst (advanceGroup seq step view st e)) = keep_ref (MaxCEPRefs (e_limits e)) (gs_Refs st) (v_eventID view)"
  by (simp_all add: advanceGroup_def keepRefs_def save_step_def keep_ref_def Let_def)

lemma trace_ok_subset:
  assumes "trace_ok pf P H e" and "e_limits e' = e_limits e"
    and "\<And>r k g. map_of (cepGroups r e') k = Some g \<Longrightarrow> map_of (cepGroups r e) k = Some g"
  shows "trace_ok pf P H e'"
  using assms by (auto simp: trace_ok_def)

lemma trace_ok_metrics: "metrics_only e e' \<Longrightarrow> trace_ok pf P H e' = trace_ok pf P H e"
  by (simp add: trace_ok_def cepGroups_metrics metrics_only_simps)

lemma trace_ok_cong:
  "e_cep e' = e_cep e \<Longrightarrow> e_limits e' = e_limits e \<Longrightarrow> trace_ok pf P H e' = trace_ok pf P H e"
  by (simp add: trace_ok_def cepGroups_def)

lemma trace_ok_put:
  assumes "trace_ok pf P H e" and "e_limits e' = e_limits e"
    and "\<And>r'. cepGroups r' e' = (if r' = r then AList.update k g (cepGroups r e) else cepGroups r' e)"
    and "group_just pf P (MaxCEPRefs (e_limits e)) H r k g"
  shows "trace_ok pf P H e'"
  using assms by (auto simp: trace_ok_def split: if_splits)

lemma group_just_idle: "gs_StepIndex g = 0 \<Longrightarrow> gs_Values g = [] \<Longrightarrow> gs_Refs g = [] \<Longrightarrow> group_just pf P limit H r k g"
  by (simp add: group_just_def)

text \<open>The events behind a group, also for one at its first step.\<close>

lemma group_just_events:
  assumes "group_just pf P limit H (rule_id rule) k st" and "P rule" and "unique_rules P"
  obtains vs where "length vs = gs_StepIndex st" "chain pf rule k vs" "in_order H vs"
    "gs_Values st = saved_after (rule_steps rule) vs" "gs_Refs st = refs_after limit vs"
    "vs \<noteq> [] \<Longrightarrow> cq_within (ru_sequence rule) > 0 \<Longrightarrow>
       gs_ExpiresAt st = view_eventTime (hd vs) + of_int (cq_within (ru_sequence rule))"
    "vs \<noteq> [] \<Longrightarrow> gs_StepIndex st < length (rule_steps rule)"
proof (cases "gs_StepIndex st = 0")
  case True
  with assms(1) have "gs_Values st = saved_after (rule_steps rule) []" "gs_Refs st = refs_after limit []"
    by (simp_all add: group_just_def saved_after_def refs_after_def)
  with True show ?thesis by (intro that [of "[]"]) (simp_all add: chain_Nil in_order_Nil)
next
  case False
  with assms(1) obtain rule' vs where "P rule'" "rule_id rule' = rule_id rule" "just_by pf limit H k st rule' vs"
    by (auto simp: group_just_def)
  with assms(2,3) have "just_by pf limit H k st rule vs" unfolding unique_rules_def by metis
  then show ?thesis by (intro that [of vs]) (simp_all add: just_by_def)
qed

lemma sig_event_refs_emitSignal:
  "sig_event_refs (fst (emitSignal ev rule refs t es e)) = (if appendRefs [] refs = [] then [ev_id (GetEvent ev)] else appendRefs [] refs)"
  "sig_rule_id (fst (emitSignal ev rule refs t es e)) = rs_RuleID (er_spec rule)"
  by (simp_all add: emitSignal_def Let_def)

lemma cepGroups_emitSignal [simp]: "cepGroups r (snd (emitSignal ev rule refs t es e)) = cepGroups r e"
  by (simp add: cepGroups_def)

lemma trace_ok_stepStored:
  fixes rule :: compiledRule
  assumes tr: "trace_ok pf P H e" and P: "P rule" and u: "unique_rules P" and pf: "env_parse env = pf"
    and g: "map_of (cepGroups (rule_id rule) e) k = Some st"
    and H: "H \<noteq> []" "view = last H" "k = view_key (ru_sequence rule) view" "v_eventID view = ev_id (GetEvent (v_ev view))"
    and i: "gs_StepIndex st < length (rule_steps rule)"
    and ex: "gs_StepIndex st > 0 \<Longrightarrow> \<not> expired (view_eventTime view) (gs_ExpiresAt st)"
  shows "trace_ok pf P H (snd (stepStored env view rule k st e))"
    "fst (stepStored env view rule k st e) = Some s \<Longrightarrow>
       sig_rule_id s = rule_id rule \<and> signal_just pf (MaxCEPRefs (e_limits e)) H rule s"
proof -
  let ?step = "rule_steps rule ! gs_StepIndex st" and ?limit = "MaxCEPRefs (e_limits e)" and ?r = "rule_id rule"
  define w where "w = matchCompiledStep env view ?step st e"
  define a where "a = advanceGroup (ru_sequence rule) ?step view st (snd w)"
  have mw: "metrics_only e (snd w)" by (simp add: w_def)
  have "metrics_only (snd w) (snd a)" by (simp add: a_def)
  with mw have ma: "metrics_only e (snd a)" by (rule metrics_only_trans)
  have lim: "e_limits (snd w) = e_limits e" "e_limits (snd a) = e_limits e"
    using metrics_only_simps(6) [OF mw] metrics_only_simps(6) [OF ma] by simp_all
  have tw: "trace_ok pf P H (snd w)" and ta: "trace_ok pf P H (snd a)"
    using tr trace_ok_metrics [OF mw] trace_ok_metrics [OF ma] by simp_all
  have "group_just pf P ?limit H ?r k st" using tr g by (auto simp: trace_ok_def)
  then obtain vs where vs: "length vs = gs_StepIndex st" "chain pf rule k vs" "in_order H vs"
    "gs_Values st = saved_after (rule_steps rule) vs" "gs_Refs st = refs_after ?limit vs"
    "vs \<noteq> [] \<Longrightarrow> cq_within (ru_sequence rule) > 0 \<Longrightarrow> gs_ExpiresAt st = view_eventTime (hd vs) + of_int (cq_within (ru_sequence rule))"
    using group_just_events [OF _ P u] by metis
  let ?vs = "vs @ [view]"
  have ok: "fst w = step_matches pf (saved_after (rule_steps rule) vs) view ?step"
    by (simp add: w_def matchCompiledStep_fst pf vs(4))
  have win: "\<not> expired (view_eventTime view) (view_eventTime (hd vs) + of_int (cq_within (ru_sequence rule)))"
    if "vs \<noteq> []" "cq_within (ru_sequence rule) > 0"
  proof -
    from that(1) have "gs_StepIndex st > 0" using vs(1) by (cases vs) simp_all
    with ex vs(6) [OF that] show ?thesis by simp
  qed
  have ch: "chain pf rule k ?vs" if "fst w"
    using that vs(1,2) i win H(3) ok by (intro chain_snoc) auto
  have ord: "in_order H ?vs" using in_order_snoc [OF vs(3) H(1)] H(2) by simp
  have st': "gs_StepIndex (fst a) = length ?vs" "gs_Values (fst a) = saved_after (rule_steps rule) ?vs"
    "gs_Refs (fst a) = refs_after ?limit ?vs"
    using vs(1,4,5) i lim(1) by (simp_all add: a_def advanceGroup_values saved_after_snoc refs_after_snoc)
  have st'e: "gs_ExpiresAt (fst a) = view_eventTime (hd ?vs) + of_int (cq_within (ru_sequence rule))" if "cq_within (ru_sequence rule) > 0"
    using that vs(1,6) by (cases "vs = []") (auto simp: a_def advanceGroup_values)
  let ?st' = "(fst a)\<lparr> gs_WaitingBehavior := sk_behavior (rule_steps rule ! gs_StepIndex (fst a)) \<rparr>"
  have "trace_ok pf P H (rewait ?r k st ?st' (snd a))" if w: "fst w" and less: "gs_StepIndex (fst a) < length (rule_steps rule)"
  proof (rule trace_ok_put [OF ta, of _ ?r k ?st'])
    have "just_by pf ?limit H k ?st' rule ?vs"
      using ch [OF w] ord st' st'e less by (simp add: just_by_def)
    then show "group_just pf P (MaxCEPRefs (e_limits (snd a))) H ?r k ?st'"
      using P lim(2) st'(1) by (auto simp: group_just_def)
  qed simp_all
  moreover have "trace_ok pf P H (snd (emitSignal ev rl refs t es (dropGroup ?r k (snd a))))" for ev rl refs t es
    by (rule trace_ok_subset [OF ta]) (auto split: if_splits)
  ultimately show "trace_ok pf P H (snd (stepStored env view rule k st e))"
    using tw by (simp add: stepStored_def w_def [symmetric] a_def [symmetric] split_beta Let_def)
  assume s: "fst (stepStored env view rule k st e) = Some s"
  then have w: "fst w" and ge: "\<not> gs_StepIndex (fst a) < length (rule_steps rule)"
    and sig: "s = fst (emitSignal (v_ev view) (ru_rule rule) (appendRefs [] (gs_Refs (fst a)))
        (rule_terminal (ru_rule rule) True) (gs_Entities (fst a)) (dropGroup ?r k (snd a)))"
    by (auto simp: stepStored_def w_def [symmetric] a_def [symmetric] split_beta Let_def split: if_splits)
  have "length ?vs = length (rule_steps rule)" using ge st'(1) i vs(1) by simp
  then show "sig_rule_id s = ?r \<and> signal_just pf ?limit H rule s"
    using ch [OF w] ord H st'(3) unfolding signal_just_def sig
    by (auto simp: sig_event_refs_emitSignal intro!: exI [of _ k] exI [of _ ?vs])
qed

lemma trace_ok_stepGroup:
  fixes rule :: compiledRule
  assumes tr: "trace_ok pf P H (storeGroup (rule_id rule) k st e)" and P: "P rule" and u: "unique_rules P"
    and steps: "rule_steps_ok rule" "rule_steps rule \<noteq> []" and pf: "env_parse env = pf"
    and H: "H \<noteq> []" "view = last H" "k = view_key (ru_sequence rule) view" "v_eventID view = ev_id (GetEvent (v_ev view))"
    and ex: "gs_StepIndex st > 0 \<Longrightarrow> \<not> expired (view_eventTime view) (gs_ExpiresAt st)"
  shows "trace_ok pf P H (snd (stepGroup env view rule k st e))"
    "fst (stepGroup env view rule k st e) = Some s \<Longrightarrow>
       sig_rule_id s = rule_id rule \<and> signal_just pf (MaxCEPRefs (e_limits e)) H rule s"
proof -
  let ?r = "rule_id rule" and ?e1 = "storeGroup (rule_id rule) k st e"
  let ?e2 = "rewait ?r k st (resetGroup st) ?e1"
  have tr2: "trace_ok pf P H ?e2"
    by (rule trace_ok_put [OF tr, of _ ?r k "resetGroup st"]) (simp_all add: group_just_def resetGroup_def)
  have g1: "map_of (cepGroups ?r ?e1) k = Some st" and g2: "map_of (cepGroups ?r ?e2) k = Some (resetGroup st)" by simp_all
  note step1 = trace_ok_stepStored [OF tr P u pf g1 H] and step2 = trace_ok_stepStored [OF tr2 P u pf g2 H]
  have r0: "gs_StepIndex (resetGroup st) = 0" by (simp add: resetGroup_def)
  show "trace_ok pf P H (snd (stepGroup env view rule k st e))"
    using step1(1) step2(1) ex steps(2) r0 by (simp add: stepGroup_stepStored [OF steps(1) refl])
  show "fst (stepGroup env view rule k st e) = Some s \<Longrightarrow>
       sig_rule_id s = ?r \<and> signal_just pf (MaxCEPRefs (e_limits e)) H rule s"
    using step1(2) [of s] step2(2) [of s] ex steps(2) r0 by (simp add: stepGroup_stepStored [OF steps(1) refl] split: if_splits)
qed

lemma view_key_groupKey: "fst (compiledSequenceGroupKey view (cq_by seq) e) = view_key seq view"
  by (simp add: compiledSequenceGroupKey_def view_key_def Let_def)

lemma expireGroup_live:
  "map_of (cepGroups r (expireGroup r k now e)) k = Some st \<Longrightarrow> \<not> expired now (gs_ExpiresAt st)"
  by (auto simp: expireGroup_def split: option.splits if_splits)

lemma trace_ok_detectSequenceCandidate:
  assumes tr: "trace_ok pf P H e" and P: "P (ca_rule c)" and u: "unique_rules P" and pf: "env_parse env = pf"
    and steps: "rule_steps_ok (ca_rule c)" "rule_steps (ca_rule c) \<noteq> []"
    and H: "H \<noteq> []" "view = last H" "v_eventID view = ev_id (GetEvent (v_ev view))"
  shows "trace_ok pf P H (snd (detectSequenceCandidate env view c e))"
    "fst (detectSequenceCandidate env view c e) = Some s \<Longrightarrow>
       sig_rule_id s = rule_id (ca_rule c) \<and> signal_just pf (MaxCEPRefs (e_limits e)) H (ca_rule c) s"
proof -
  let ?rule = "ca_rule c" and ?seq = "ru_sequence (ca_rule c)" and ?now = "view_eventTime view"
  define r where "r = rule_id ?rule"
  define ke where "ke = compiledSequenceGroupKey view (cq_by ?seq) (setCepGroups r (cepGroups r e) e)"
  define e1 where "e1 = expireGroup r (fst ke) ?now (snd ke)"
  have key: "fst ke = view_key ?seq view" by (simp add: ke_def view_key_groupKey)
  have mk: "metrics_only (setCepGroups r (cepGroups r e) e) (snd ke)" by (simp add: ke_def)
  have "trace_ok pf P H (setCepGroups r (cepGroups r e) e)"
    by (rule trace_ok_subset [OF tr]) (auto split: if_splits)
  then have "trace_ok pf P H (snd ke)" using trace_ok_metrics [OF mk] by simp
  then have tr1: "trace_ok pf P H e1"
    by (rule trace_ok_subset) (auto simp: e1_def dest: cepGroups_expire_subset)
  have lim1: "e_limits e1 = e_limits e" using metrics_only_simps(6) [OF mk] by (simp add: e1_def)
  note step = trace_ok_stepGroup [OF _ P u steps pf H(1,2) key H(3), folded r_def]
  show "trace_ok pf P H (snd (detectSequenceCandidate env view c e))"
    and "fst (detectSequenceCandidate env view c e) = Some s \<Longrightarrow>
       sig_rule_id s = rule_id ?rule \<and> signal_just pf (MaxCEPRefs (e_limits e)) H ?rule s"
  proof -
    let ?e2 = "evictCEPGroups env r ?now e1"
    have "trace_ok pf P H ?e2" by (rule trace_ok_subset [OF tr1]) (auto dest: cepGroups_evict_subset)
    then have new: "trace_ok pf P H (storeGroup r (fst ke) cepGroupState_new ?e2)"
      by (rule trace_ok_put [where r = r and k = "fst ke" and g = cepGroupState_new])
        (simp_all add: group_just_def cepGroupState_new_def)
    define m where "m = matchCompiledStep env view (cq_steps ?seq ! 0) cepGroupState_new e1"
    have mm: "metrics_only e1 (snd m)" by (simp add: m_def)
    have trm: "trace_ok pf P H (snd m)" using tr1 trace_ok_metrics [OF mm] by simp
    have limm: "e_limits (snd m) = e_limits e" using metrics_only_simps(6) [OF mm] lim1 by simp
    have reset: "trace_ok pf P H (storeGroup r (fst ke) (resetGroup st) (deactivateSequenceWait r b (snd m)))" for st b
      by (rule trace_ok_put [OF trm, of _ r "fst ke" "resetGroup st"]) (simp_all add: group_just_def resetGroup_def)
    have same: "trace_ok pf P H (storeGroup r (fst ke) st e1)" if "map_of (cepGroups r e1) (fst ke) = Some st" for st
      by (rule trace_ok_subset [OF tr1]) (use that in \<open>auto split: if_splits\<close>)
    have live: "\<not> expired ?now (gs_ExpiresAt st)" if "map_of (cepGroups r e1) (fst ke) = Some st" for st
      using expireGroup_live that unfolding e1_def by blast
    have idle: "gs_StepIndex cepGroupState_new = 0" "\<And>st. gs_StepIndex (resetGroup st) = 0"
      by (simp_all add: cepGroupState_new_def resetGroup_def)
    note s1 = step [OF new] and s2 = step [OF reset] and s3 = step [OF same]
    note unf = detectSequenceCandidate_def r_def [symmetric] ke_def [symmetric] e1_def [symmetric] m_def [symmetric] split_beta Let_def
    show "trace_ok pf P H (snd (detectSequenceCandidate env view c e))"
      using tr tr1 trm s1(1) s2(1) s3(1) live idle by (simp add: unf split: option.split)
    show "fst (detectSequenceCandidate env view c e) = Some s \<Longrightarrow>
       sig_rule_id s = rule_id ?rule \<and> signal_just pf (MaxCEPRefs (e_limits e)) H ?rule s"
      using s1(2) [of s] s2(2) [of _ _ s] s3(2) [of _ s] live idle lim1 limm
      by (simp add: unf split: option.splits if_splits)
  qed
qed

section \<open>Signals of an accepted policy\<close>

definition same_rules :: "Engine \<Rightarrow> Engine \<Rightarrow> bool" where
  "same_rules e e' \<longleftrightarrow> e_limits e' = e_limits e \<and> e_sequence e' = e_sequence e \<and>
     e_compiled e' = e_compiled e \<and> e_correlation e' = e_correlation e"

lemma same_rules_refl [simp]: "same_rules e e"
  by (simp add: same_rules_def)

lemma same_rules_trans: "same_rules a b \<Longrightarrow> same_rules b c \<Longrightarrow> same_rules a c"
  by (simp add: same_rules_def)

lemma same_rules_metrics: "metrics_only e e' \<Longrightarrow> same_rules e e'"
  by (simp add: same_rules_def metrics_only_simps)

text \<open>
  The accumulator of the three loops over rules: the engine keeps its groups justified, and every
  signal that carries the id of a sequence rule has its chain of events.
\<close>

definition signals_just ::
  "(string \<Rightarrow> float64 option) \<Rightarrow> (compiledRule \<Rightarrow> bool) \<Rightarrow> int \<Rightarrow> eventView list \<Rightarrow> Signal list \<Rightarrow> bool" where
  "signals_just pf P limit H out \<longleftrightarrow>
     (\<forall>s \<in> set out. \<forall>rule. P rule \<and> rule_id rule = sig_rule_id s \<longrightarrow> signal_just pf limit H rule s)"

definition acc_ok ::
  "(string \<Rightarrow> float64 option) \<Rightarrow> (compiledRule \<Rightarrow> bool) \<Rightarrow> eventView list \<Rightarrow> Engine \<Rightarrow> Signal list \<times> Engine \<Rightarrow> bool" where
  "acc_ok pf P H e0 acc \<longleftrightarrow> trace_ok pf P H (snd acc) \<and> same_rules e0 (snd acc) \<and>
     signals_just pf P (MaxCEPRefs (e_limits e0)) H (fst acc)"

lemma detectExprRule_signals:
  "fst (detectExprRule env view (out, e) rule) = out \<or>
   (\<exists>s. fst (detectExprRule env view (out, e) rule) = out @ [s] \<and> sig_rule_id s = rule_id rule)"
  by (simp add: detectExprRule_def split_beta Let_def sig_event_refs_emitSignal)

lemma detectCorrelateRule_signal:
  "fst (detectCorrelateRule env view rule e) = Some s \<Longrightarrow> sig_rule_id s = rs_RuleID (er_spec (cl_rule rule))"
  by (auto simp: detectCorrelateRule_parts split_beta Let_def sig_event_refs_emitSignal split: if_splits)

lemma acc_ok_expr:
  assumes "acc_ok pf P H e0 acc" and "\<And>r. P r \<Longrightarrow> rule_id r \<noteq> rule_id rule"
  shows "acc_ok pf P H e0 (detectExprRule env view acc rule)"
proof -
  obtain out e where acc: "acc = (out, e)" by fastforce
  have o: "outside_expr e (snd (detectExprRule env view (out, e) rule))" by (rule detectExprRule_outside)
  then have "trace_ok pf P H (snd (detectExprRule env view (out, e) rule)) = trace_ok pf P H e"
    by (intro trace_ok_cong) (simp_all add: outside_expr_def)
  moreover have "same_rules e (snd (detectExprRule env view (out, e) rule))"
    using o by (simp add: outside_expr_def same_rules_def)
  moreover have "signals_just pf P (MaxCEPRefs (e_limits e0)) H (fst (detectExprRule env view (out, e) rule))"
    using detectExprRule_signals [of env view out e rule] assms acc by (auto simp: acc_ok_def signals_just_def)
  ultimately show ?thesis using assms(1) acc by (auto simp: acc_ok_def intro: same_rules_trans)
qed

lemma acc_ok_correlate:
  assumes a: "acc_ok pf P H e0 acc" and n: "\<And>r. P r \<Longrightarrow> rule_id r \<noteq> rs_RuleID (er_spec (cl_rule rule))"
    and ok: "engine_ok (snd acc)"
  shows "acc_ok pf P H e0 (detectCorrelate env view acc rule)"
proof -
  obtain out e where acc: "acc = (out, e)" by fastforce
  define e1 where "e1 = countEvaluated (countScan e)"
  have "metrics_only (countScan e) e1" by (simp add: e1_def)
  from metrics_only_trans [OF metrics_only_ops(2) this] have m1: "metrics_only e e1" .
  have ok1: "engine_ok e1" using ok acc engine_ok_metrics [OF m1] by simp
  have o: "outside_correlate e1 (snd (detectCorrelateRule env view rule e1))"
    using ok1 by (intro detectCorrelateRule_spec) (simp_all add: engine_ok_def)
  then have "trace_ok pf P H (snd (detectCorrelateRule env view rule e1)) = trace_ok pf P H e1"
    by (intro trace_ok_cong) (simp_all add: outside_correlate_def)
  then have t: "trace_ok pf P H (snd (detectCorrelateRule env view rule e1))"
    using a acc trace_ok_metrics [OF m1] by (simp add: acc_ok_def)
  have "same_rules e1 (snd (detectCorrelateRule env view rule e1))"
    using o by (simp add: outside_correlate_def same_rules_def)
  from same_rules_trans [OF same_rules_metrics [OF m1] this]
  have r: "same_rules e0 (snd (detectCorrelateRule env view rule e1))"
    using a acc by (auto simp: acc_ok_def intro: same_rules_trans)
  have eq: "detectCorrelate env view acc rule =
      (case fst (detectCorrelateRule env view rule e1) of None \<Rightarrow> out | Some s \<Rightarrow> out @ [s], snd (detectCorrelateRule env view rule e1))"
    by (simp add: detectCorrelate_def acc e1_def [symmetric] split_beta Let_def split: option.split)
  show ?thesis
    using a acc t r n detectCorrelateRule_signal
    unfolding eq acc_ok_def signals_just_def
    by (auto split: option.splits)
qed

lemma acc_ok_sequence:
  assumes a: "acc_ok pf P H e0 acc" and P: "P (ca_rule c)" and u: "unique_rules P" and pf: "env_parse env = pf"
    and steps: "rule_steps_ok (ca_rule c)" "rule_steps (ca_rule c) \<noteq> []"
    and H: "H \<noteq> []" "view = last H" "v_eventID view = ev_id (GetEvent (v_ev view))"
  shows "acc_ok pf P H e0 (detectSequence env view acc c)"
proof -
  obtain out e where acc: "acc = (out, e)" by fastforce
  define e1 where "e1 = countEvaluated (countScan e)"
  have "metrics_only (countScan e) e1" by (simp add: e1_def)
  from metrics_only_trans [OF metrics_only_ops(2) this] have m1: "metrics_only e e1" .
  have m0: "metrics_only e (countScan e)" by simp
  have tr: "trace_ok pf P H e1" "trace_ok pf P H (countScan e)"
    using a acc trace_ok_metrics [OF m1] trace_ok_metrics [OF m0] by (simp_all add: acc_ok_def)
  have l: "e_limits e1 = e_limits e0" using a acc metrics_only_simps(6) [OF m1] by (simp add: acc_ok_def same_rules_def)
  note d = trace_ok_detectSequenceCandidate [OF tr(1) P u pf steps H]
  have o: "outside_cep e1 (snd (detectSequenceCandidate env view c e1))"
    by (rule outside_cep_detectSequenceCandidate [OF steps(1)])
  then have "same_rules e1 (snd (detectSequenceCandidate env view c e1))" by (simp add: outside_cep_def same_rules_def)
  from same_rules_trans [OF same_rules_metrics [OF m1] this]
  have r: "same_rules e0 (snd (detectSequenceCandidate env view c e1))" "same_rules e0 (countScan e)"
    using a acc same_rules_metrics [OF m0] by (auto simp: acc_ok_def intro: same_rules_trans)
  have j: "signal_just pf (MaxCEPRefs (e_limits e0)) H rule s"
    if "fst (detectSequenceCandidate env view c e1) = Some s" "P rule" "rule_id rule = sig_rule_id s" for rule s
    using d(2) [OF that(1)] that(2,3) P u l unfolding unique_rules_def by metis
  have eq: "detectSequence env view acc c =
      (if \<not> er_enabled (ru_rule (ca_rule c)) then (out, countScan e)
       else (case fst (detectSequenceCandidate env view c e1) of None \<Rightarrow> out | Some s \<Rightarrow> out @ [s],
             snd (detectSequenceCandidate env view c e1)))"
    by (simp add: detectSequence_def acc e1_def [symmetric] split_beta Let_def split: option.split)
  show ?thesis
    using a acc tr(2) d(1) r j unfolding eq acc_ok_def signals_just_def by (auto split: option.splits)
qed

text \<open>Which rules the compiled indexes hold.\<close>

lemma compileRuntime_rules:
  assumes "c \<in> set (rulesForBehavior (compileRuntime strategy rules content) b)"
  shows "\<exists>r \<in> set rules. ru_rule c = r \<and> runtimeType r = ''expr''"
proof -
  define Q where "Q rt \<longleftrightarrow> (\<forall>b c. c \<in> set (rulesForBehavior rt b) \<longrightarrow> (\<exists>r \<in> set rules. ru_rule c = r \<and> runtimeType r = ''expr''))" for rt
  have add: "Q (addExprRule strategy content rt r)" if "Q rt" "r \<in> set rules" for rt r
  proof -
    let ?c = "compileRule strategy content r"
    have c: "ru_rule ?c = r" by (simp add: compileRule_def Let_def)
    have "set (get_or [] (foldl (\<lambda>m b. appendAt b ?c m) m bs) b) \<subseteq> set (get_or [] m b) \<union> {?c}" for m bs b
      by (induction bs arbitrary: m) (fastforce split: if_splits)+
    with that c show ?thesis by (fastforce simp: Q_def addExprRule_def rulesForBehavior_def Let_def)
  qed
  have "Q (compileRuntime strategy rules content)"
    unfolding compileRuntime_def by (rule foldl_invariant) (auto simp: add, simp add: Q_def rulesForBehavior_def)
  with assms show ?thesis by (auto simp: Q_def)
qed

lemma compileCorrelateRuntime_rules:
  assumes "c \<in> set (get_or [] (compileCorrelateRuntime strategy rules content) b)"
  shows "\<exists>r \<in> set rules. cl_rule c = r \<and> runtimeType r = ''correlate''"
proof -
  define Q where "Q rt \<longleftrightarrow> (\<forall>b c. c \<in> set (get_or [] rt b) \<longrightarrow> (\<exists>r \<in> set rules. cl_rule c = r \<and> runtimeType r = ''correlate''))"
    for rt :: compiledCorrelateRuntime
  have add: "Q (addCorrelateRule strategy content rt r)" if "Q rt" "r \<in> set rules" for rt r
  proof -
    let ?c = "compileCorrelateRule strategy content r"
    have c: "cl_rule ?c = r" by (simp add: compileCorrelateRule_def Let_def)
    have "set (get_or [] (foldl (\<lambda>m b. appendAt b ?c m) m bs) b) \<subseteq> set (get_or [] m b) \<union> {?c}" for m bs b
      by (induction bs arbitrary: m) (fastforce split: if_splits)+
    with that c show ?thesis by (fastforce simp: Q_def addCorrelateRule_def Let_def)
  qed
  have "Q (compileCorrelateRuntime strategy rules content)"
    unfolding compileCorrelateRuntime_def by (rule foldl_invariant) (auto simp: add, simp add: Q_def)
  with assms show ?thesis by (auto simp: Q_def)
qed

lemma New_accepted:
  fixes policy :: "DetectionPolicy option" and content :: ContentSnapshot
  defines "rules \<equiv> resolveRules (case policy of None \<Rightarrow> DefaultDetectionPolicy | Some p \<Rightarrow> NormalizeDetectionPolicy p) content"
  assumes "ar_Status (snd (NewWithRuntimeLimits strategy durationOk policy collection content limits)) \<noteq> ''rejected''"
  shows "distinct (map (\<lambda>r. rs_RuleID (er_spec r)) rules)"
    "r \<in> set rules \<Longrightarrow> validateEffectiveRule r = []"
    "r \<in> set rules \<Longrightarrow> validateRuleSpec durationOk (er_spec r) = []"
    "\<exists>m. fst (NewWithRuntimeLimits strategy durationOk policy collection content limits) =
       (emptyEngine (normalizeLimits limits) content)\<lparr> e_rules := m, e_compiled := compileRuntime strategy rules content,
          e_sequence := compileSequenceRuntime strategy rules content,
          e_correlation := compileCorrelateRuntime strategy rules content \<rparr>"
proof -
  define normalized where "normalized = (case policy of None \<Rightarrow> DefaultDetectionPolicy | Some p \<Rightarrow> NormalizeDetectionPolicy p)"
  let ?m = "foldl (\<lambda>m rule. AList.update (rs_RuleID (er_spec rule)) rule m) [] rules"
  let ?errs = "validateEffectiveRules ?m @ validateRuleSpecs durationOk rules @ validateContentRefs rules content"
  have rules: "rules = resolveRules normalized content" by (simp add: rules_def normalized_def)
  have 1: "dp_RuleSets normalized \<noteq> []" "validateRuleSelection normalized content = []" "?errs = []"
    using assms(2) by (auto simp: NewWithRuntimeLimits_def normalized_def [symmetric] rules [symmetric] Let_def split: if_splits)
  show d: "distinct (map (\<lambda>r. rs_RuleID (er_spec r)) rules)"
    using 1(2) duplicateRules_distinct [of "[]" rules] by (simp add: validateRuleSelection_def rules)
  have "?m = map (\<lambda>r. (rs_RuleID (er_spec r), r)) rules" using foldl_update_distinct [OF d, of "[]"] by simp
  then show "r \<in> set rules \<Longrightarrow> validateEffectiveRule r = []" "r \<in> set rules \<Longrightarrow> validateRuleSpec durationOk (er_spec r) = []"
    using 1(3) by (auto simp: validateEffectiveRules_def validateRuleSpecs_def)
  show "\<exists>m. fst (NewWithRuntimeLimits strategy durationOk policy collection content limits) =
       (emptyEngine (normalizeLimits limits) content)\<lparr> e_rules := m, e_compiled := compileRuntime strategy rules content,
          e_sequence := compileSequenceRuntime strategy rules content,
          e_correlation := compileCorrelateRuntime strategy rules content \<rparr>"
    using 1 by (intro exI [of _ ?m]) (simp add: NewWithRuntimeLimits_def normalized_def [symmetric] rules [symmetric] Let_def)
qed

text \<open>The views of the events that calls of \<^const>\<open>Process\<close> look at.\<close>

definition seen_view :: "CanonicalEvent option \<Rightarrow> eventView list" where
  "seen_view ev = (case ev of None \<Rightarrow> [] | Some c \<Rightarrow> if ev_subject_proc c = None then [] else [newEventView ev])"

definition history :: "(detectEnv \<times> uint64 \<times> CanonicalEvent option) list \<Rightarrow> eventView list" where
  "history calls = concat (map (\<lambda>(env, elapsed, ev). seen_view ev) calls)"

text \<open>An engine compiled from rules whose sequence rules are those of \<open>P\<close>.\<close>

definition compiled_for :: "effectiveRule list \<Rightarrow> (compiledRule \<Rightarrow> bool) \<Rightarrow> Engine \<Rightarrow> bool" where
  "compiled_for rules P e \<longleftrightarrow> unique_rules P \<and> placed (\<lambda>r. P r \<and> rule_steps_ok r) (e_sequence e) \<and>
     (\<forall>b c. c \<in> set (rulesForBehavior (e_compiled e) b) \<longrightarrow> (\<forall>r. P r \<longrightarrow> rule_id r \<noteq> rule_id c)) \<and>
     (\<forall>b c. c \<in> set (get_or [] (e_correlation e) b) \<longrightarrow> (\<forall>r. P r \<longrightarrow> rule_id r \<noteq> rs_RuleID (er_spec (cl_rule c))))"

lemma compiled_for_New:
  fixes policy :: "DetectionPolicy option" and content :: ContentSnapshot
  defines "rules \<equiv> resolveRules (case policy of None \<Rightarrow> DefaultDetectionPolicy | Some p \<Rightarrow> NormalizeDetectionPolicy p) content"
  assumes acc: "ar_Status (snd (NewWithRuntimeLimits strategy durationOk policy collection content limits)) \<noteq> ''rejected''"
  shows "compiled_for rules (compiled_sequence strategy content rules)
     (fst (NewWithRuntimeLimits strategy durationOk policy collection content limits))"
proof -
  let ?P = "compiled_sequence strategy content rules"
  note new = New_accepted [OF acc, folded rules_def]
  have c: "ru_rule (compileRule strategy content r) = r" for r by (simp add: compileRule_def Let_def)
  have inj: "r = r'" if "r \<in> set rules" "r' \<in> set rules" "rs_RuleID (er_spec r) = rs_RuleID (er_spec r')" for r r'
    using new(1) that by (auto simp: distinct_map inj_on_def)
  have P: "\<exists>r' \<in> set rules. rule = compileRule strategy content r' \<and> runtimeType r' = ''sequence'' \<and> rule_id rule = rs_RuleID (er_spec r')"
    if "?P rule" for rule using that c by (auto simp: compiled_sequence_def)
  have u: "unique_rules ?P" unfolding unique_rules_def using P inj by metis
  have other: "rule_id rule \<noteq> rs_RuleID (er_spec r)" if "?P rule" "r \<in> set rules" "runtimeType r \<noteq> ''sequence''" for rule r
    using P [OF that(1)] inj that(2,3) by metis
  have pl: "placed (\<lambda>r. ?P r \<and> rule_steps_ok r) (compileSequenceRuntime strategy rules content)"
  proof (rule placed_compileSequenceRuntime)
    fix rule assume r: "rule \<in> set rules" "er_enabled rule" "runtimeType rule = ''sequence''"
    then have "rule_steps_ok (compileRule strategy content rule)" using new(2) by (simp add: compileRule_steps_ok)
    with r show "(?P (compileRule strategy content rule) \<and> rule_steps_ok (compileRule strategy content rule)) \<and>
        rule_steps_ok (compileRule strategy content rule)"
      by (auto simp: compiled_sequence_def)
  qed
  have "\<forall>b c. c \<in> set (rulesForBehavior (compileRuntime strategy rules content) b) \<longrightarrow> (\<forall>r. ?P r \<longrightarrow> rule_id r \<noteq> rule_id c)"
    using compileRuntime_rules other by fastforce
  moreover have "\<forall>b c. c \<in> set (get_or [] (compileCorrelateRuntime strategy rules content) b) \<longrightarrow>
      (\<forall>r. ?P r \<longrightarrow> rule_id r \<noteq> rs_RuleID (er_spec (cl_rule c)))"
    using compileCorrelateRuntime_rules other by fastforce
  ultimately show ?thesis using new(4) u pl by (auto simp: compiled_for_def)
qed

lemma placed_candidate:
  assumes "placed (\<lambda>r. P r \<and> rule_steps_ok r) rt" and "c \<in> set (candidatesForBehavior rt b active)"
  shows "P (ca_rule c)" "rule_steps_ok (ca_rule c)" "rule_steps (ca_rule c) \<noteq> []"
proof -
  have "c \<in> set (get_or [] (qt_firstByBehavior rt) b) \<or> c \<in> set (get_or [] (qt_nextByBehavior rt) b)"
    using assms by (auto simp: placed_def candidatesForBehavior_def Let_def)
  then have "P (ca_rule c) \<and> rule_steps_ok (ca_rule c) \<and>
      (rule_steps (ca_rule c) \<noteq> [] \<or> ca_stepIndex c < length (rule_steps (ca_rule c)))"
    using assms(1) unfolding placed_def by blast
  then show "P (ca_rule c)" "rule_steps_ok (ca_rule c)" "rule_steps (ca_rule c) \<noteq> []" by auto
qed

lemma detectCEPRules_just:
  assumes ok: "engine_ok e" and tr: "trace_ok pf P H e" and comp: "compiled_for rules P e" and pf: "env_parse env = pf"
    and H: "H \<noteq> []" "view = last H" "v_eventID view = ev_id (GetEvent (v_ev view))"
  shows "acc_ok pf P H e (detectCEPRules env view e)"
proof -
  define a1 where "a1 = foldl (detectExprRule env view) ([], e) (rulesForBehavior (e_compiled e) (v_behavior view))"
  define a2 where "a2 = foldl (detectSequence env view) a1
      (candidatesForBehavior (e_sequence (snd a1)) (v_behavior view) (e_cepActive (snd a1)))"
  let ?Q = "\<lambda>a. acc_ok pf P H e a \<and> engine_ok (snd a)"
  have 1: "?Q a1"
    unfolding a1_def
  proof (rule foldl_invariant)
    show "?Q ([], e)" using ok tr by (simp add: acc_ok_def signals_just_def)
  next
    fix a x assume "x \<in> set (rulesForBehavior (e_compiled e) (v_behavior view))" "?Q a"
    with comp show "?Q (detectExprRule env view a x)"
      by (auto simp: compiled_for_def engine_ok_detectExprRule intro!: acc_ok_expr)
  qed
  then have s1: "e_sequence (snd a1) = e_sequence e" by (simp add: acc_ok_def same_rules_def)
  have pl: "placed (\<lambda>r. P r \<and> rule_steps_ok r) (e_sequence e)" and u: "unique_rules P"
    using comp by (simp_all add: compiled_for_def)
  have 2: "?Q a2"
    unfolding a2_def s1
  proof (rule foldl_invariant [where P = ?Q, OF 1])
    fix a x assume x: "x \<in> set (candidatesForBehavior (e_sequence e) (v_behavior view) (e_cepActive (snd a1)))" and a: "?Q a"
    note c = placed_candidate [OF pl x]
    show "?Q (detectSequence env view a x)"
      using a c acc_ok_sequence [OF _ c(1) u pf c(2,3) H] engine_ok_detectSequence by blast
  qed
  then have s2: "e_correlation (snd a2) = e_correlation e" by (simp add: acc_ok_def same_rules_def)
  have "?Q (foldl (detectCorrelate env view) a2 (get_or [] (e_correlation e) (v_behavior view)))"
  proof (rule foldl_invariant [where P = ?Q, OF 2])
    fix a x assume "x \<in> set (get_or [] (e_correlation e) (v_behavior view))" "?Q a"
    with comp show "?Q (detectCorrelate env view a x)"
      by (auto simp: compiled_for_def engine_ok_detectCorrelate intro!: acc_ok_correlate)
  qed
  then show ?thesis by (simp add: detectCEPRules_def a1_def [symmetric] a2_def [symmetric] s2 Let_def)
qed

lemma compiled_for_same: "same_rules e e' \<Longrightarrow> compiled_for rules P e' = compiled_for rules P e"
  by (simp add: compiled_for_def same_rules_def)

lemma newEventView_id: "v_eventID (newEventView (Some c)) = ev_id (GetEvent (v_ev (newEventView (Some c))))"
  by (simp add: newEventView_def viewProcess_def viewObject_def viewScope_def eventView_zero_def GetEvent_def split_beta Let_def split: option.split)

lemma Process_just:
  assumes ok: "engine_ok e" and tr: "trace_ok pf P H e" and comp: "compiled_for rules P e" and pf: "env_parse env = pf"
  shows "acc_ok pf P (H @ seen_view ev) e (Process env elapsed ev e)"
proof (cases "seen_view ev = []")
  case True
  then have "Process env elapsed ev e = ([], e)" by (auto simp: seen_view_def Process_def split: option.splits if_splits)
  with True tr show ?thesis by (simp add: acc_ok_def signals_just_def)
next
  case False
  then obtain c where c: "ev = Some c" "ev_subject_proc c \<noteq> None" and sv: "seen_view ev = [newEventView ev]"
    by (auto simp: seen_view_def split: option.splits if_splits)
  let ?view = "newEventView ev" and ?H = "H @ seen_view ev"
  define e1 where "e1 = on_metrics (\<lambda>m. m\<lparr> m_EventsProcessed := m_EventsProcessed m + 1,
      m_EventsByBehavior := AList.update (v_behavior ?view) (get_or 0 (m_EventsByBehavior m) (v_behavior ?view) + 1) (m_EventsByBehavior m) \<rparr>) e"
  have m1: "metrics_only e e1" by (simp add: e1_def)
  have "acc_ok pf P ?H e1 (detectCEPRules env ?view e1)"
  proof (rule detectCEPRules_just [OF _ _ _ pf])
    show "engine_ok e1" using ok engine_ok_metrics [OF m1] by simp
    show "trace_ok pf P ?H e1" using trace_ok_extend [OF tr] trace_ok_metrics [OF m1] by simp
    show "compiled_for rules P e1" using comp compiled_for_same [OF same_rules_metrics [OF m1]] by simp
    show "?H \<noteq> []" "?view = last ?H" "v_eventID ?view = ev_id (GetEvent (v_ev ?view))"
      using sv newEventView_id c(1) by simp_all
  qed
  moreover have "trace_ok pf P ?H (d\<lparr> e_metrics := ms \<rparr>) = trace_ok pf P ?H d" for d ms by (rule trace_ok_metrics) simp
  moreover have "Process env elapsed ev e = (fst (detectCEPRules env ?view e1),
      on_metrics (\<lambda>m. m\<lparr> m_EmittedSignals := m_EmittedSignals m + of_nat (length (fst (detectCEPRules env ?view e1))),
        m_ProcessNanosTotal := m_ProcessNanosTotal m + elapsed \<rparr>) (snd (detectCEPRules env ?view e1)))"
    using c by (auto simp: Process_def e1_def split_beta Let_def)
  ultimately show ?thesis
    using metrics_only_simps(6-9) [OF m1] by (simp add: acc_ok_def same_rules_def)
qed

lemma run_just:
  assumes "engine_ok e" and "trace_ok pf P [] e" and "compiled_for rules P e"
    and "list_all (\<lambda>(env, _). env_parse env = pf) calls"
  shows "engine_ok (foldl engine_step e calls) \<and> trace_ok pf P (history calls) (foldl engine_step e calls) \<and>
     same_rules e (foldl engine_step e calls)"
  using assms(4)
proof (induction calls rule: rev_induct)
  case Nil
  then show ?case using assms by (simp add: history_def)
next
  case (snoc c calls)
  obtain env elapsed ev where c: "c = (env, elapsed, ev)" by (cases c)
  let ?e = "foldl engine_step e calls"
  have IH: "engine_ok ?e" "trace_ok pf P (history calls) ?e" "same_rules e ?e" and pf: "env_parse env = pf"
    using snoc c by simp_all
  have "compiled_for rules P ?e" using assms(3) compiled_for_same [OF IH(3)] by simp
  from Process_just [OF IH(1,2) this pf, of ev elapsed] IH engine_ok_Process [OF IH(1)] c
  have "engine_ok (engine_step ?e c) \<and> trace_ok pf P (history calls @ seen_view ev) (engine_step ?e c) \<and> same_rules e (engine_step ?e c)"
    by (auto simp: engine_step_def acc_ok_def intro: same_rules_trans)
  with c show ?case by (simp add: history_def)
qed

text \<open>
  C1. Every signal of a sequence rule is backed by evidence: when an engine with an accepted policy
  has processed any events and now emits a signal that carries the id of a resolved sequence rule,
  there are processed events, one for each step, in an order that never goes back in the history and
  ending with the current event, that share the group key, satisfy the behaviour and the conditions
  of their steps with the values saved from the earlier ones, and lie within the window; and the
  references of the signal are the ids of these events, bounded by \<^verbatim>\<open>MaxCEPRefs\<close>.
\<close>

theorem sequence_signals_have_evidence:
  fixes policy :: "DetectionPolicy option" and content :: ContentSnapshot and strategy :: string
    and durationOk :: "string \<Rightarrow> bool" and collection :: CollectionInputs and limits :: EngineLimits
  defines "rules \<equiv> resolveRules (case policy of None \<Rightarrow> DefaultDetectionPolicy | Some p \<Rightarrow> NormalizeDetectionPolicy p) content"
    and "new \<equiv> NewWithRuntimeLimits strategy durationOk policy collection content limits"
  assumes accepted: "ar_Status (snd new) \<noteq> ''rejected''"
    and pf: "list_all (\<lambda>(env, _). env_parse env = pf) calls" "env_parse env = pf"
    and s: "s \<in> set (fst (Process env elapsed ev (foldl engine_step (fst new) calls)))"
    and r: "r \<in> set rules" "er_enabled r" "runtimeType r = ''sequence''" "sig_rule_id s = rs_RuleID (er_spec r)"
  shows "signal_just pf (MaxCEPRefs (normalizeLimits limits)) (history calls @ seen_view ev) (compileRule strategy content r) s"
proof -
  let ?P = "compiled_sequence strategy content rules" and ?e = "foldl engine_step (fst new) calls"
  have comp: "compiled_for rules ?P (fst new)"
    using compiled_for_New [of strategy durationOk policy collection content limits] accepted by (simp add: new_def rules_def)
  obtain m where e: "fst new = (emptyEngine (normalizeLimits limits) content)\<lparr> e_rules := m, e_compiled := compileRuntime strategy rules content,
          e_sequence := compileSequenceRuntime strategy rules content,
          e_correlation := compileCorrelateRuntime strategy rules content \<rparr>"
    using New_accepted(4) [of strategy durationOk policy collection content limits] accepted by (auto simp: new_def rules_def)
  have ok: "engine_ok (fst new)" unfolding new_def by (rule engine_ok_New)
  have tr: "trace_ok pf ?P [] (fst new)" by (simp add: e emptyEngine_def trace_ok_def cepGroups_def)
  note run = run_just [OF ok tr comp pf(1)]
  then have "compiled_for rules ?P ?e" using comp compiled_for_same by blast
  from Process_just [OF _ _ this pf(2), of "history calls" ev elapsed] run
  have "signals_just pf ?P (MaxCEPRefs (e_limits ?e)) (history calls @ seen_view ev) (fst (Process env elapsed ev ?e))"
    by (simp add: acc_ok_def)
  moreover have "e_limits ?e = normalizeLimits limits" using run by (simp add: same_rules_def e emptyEngine_def)
  moreover have "?P (compileRule strategy content r)" "rule_id (compileRule strategy content r) = sig_rule_id s"
  proof -
    have "validateEffectiveRule r = []"
      using New_accepted(2) [of strategy durationOk policy collection content limits r] accepted r(1) by (simp add: new_def rules_def)
    then show "?P (compileRule strategy content r)"
      using r compileRule_steps_ok by (auto simp: compiled_sequence_def)
    show "rule_id (compileRule strategy content r) = sig_rule_id s" using r(4) by (simp add: compileRule_def Let_def)
  qed
  ultimately show ?thesis using s unfolding signals_just_def by metis
qed

section \<open>A sequence of two executions\<close>

text \<open>A policy with one sequence rule: two executions with the same lineage.\<close>

definition sample_step :: "string \<Rightarrow> StepSpec" where
  "sample_step sid = \<lparr> st_ID = sid, st_Behavior = ''process.exec'', st_Conditions = [], st_ConditionGroup = None \<rparr>"

definition sample_rule :: RuleSpec where
  "sample_rule = \<lparr> rs_RuleID = ''two-execs'', rs_Version = 1, rs_RuleSetRef = ''base'', rs_Where = '''',
     rs_Severity = ''high'', rs_Runtime = ''sequence'', rs_RuntimeType = '''',
     rs_Expr = \<lparr> ex_Conditions = [], ex_ConditionGroup = None \<rparr>,
     rs_Sequence = \<lparr> sq_Within = 0, sq_By = [], sq_Steps = [sample_step ''a'', sample_step ''b''] \<rparr>,
     rs_Correlate = \<lparr> co_Within = 0, co_WithinText = '''', co_By = [], co_Facts = [] \<rparr>,
     rs_Suppression = \<lparr> su_Within = 0, su_By = [] \<rparr>, rs_RequiredEvents = [], rs_RequiredBehaviors = [],
     rs_ContextRefs = [], rs_IOCRefs = [], rs_ResponseIntent = None, rs_Terminal = None \<rparr>"

definition sample_content :: ContentSnapshot where
  "sample_content = \<lparr> ct_ContextRefs = [], ct_IOCRefs = [], ct_Rules = [sample_rule] \<rparr>"

definition sample_policy :: DetectionPolicy where
  "sample_policy = DefaultDetectionPolicy\<lparr> dp_RuleSets :=
     [\<lparr> rsr_Ref = ''base'', rsr_Version = '''', rsr_Enabled = None, rsr_IOCRefs = [] \<rparr>] \<rparr>"

definition sample_event :: "string \<Rightarrow> string \<Rightarrow> CanonicalEvent option" where
  "sample_event eid lineage = Some (CanonicalEvent_zero\<lparr> ev_id := eid, ev_lineage_id := lineage,
     ev_behavior := ''process.exec'', ev_subject_proc := Some ProcessRef_zero, ev_occurred_at_ns := 5 \<rparr>)"

definition sample_env :: detectEnv where
  "sample_env = \<lparr> env_parse = (\<lambda>_. None), env_pick = (\<lambda>_. 0), env_wall = (\<lambda>_. 0) \<rparr>"

definition sample_new :: "Engine \<times> ApplyReport" where
  "sample_new = NewWithRuntimeLimits ''linear'' (\<lambda>_. True) (Some sample_policy)
     \<lparr> ci_Behaviors = [], ci_Capabilities = [] \<rparr> sample_content \<lparr> MaxCEPGroups = 0, MaxCEPRefs = 0 \<rparr>"

definition sample_rules :: "effectiveRule list" where
  "sample_rules = resolveRules (NormalizeDetectionPolicy sample_policy) sample_content"

theorem sequence_signals_have_evidence_witness:
  "\<exists>s r. s \<in> set (fst (Process sample_env 0 (sample_event ''e2'' ''L'')
            (foldl engine_step (fst sample_new) [(sample_env, 0, sample_event ''e1'' ''L'')]))) \<and>
     r \<in> set sample_rules \<and> sig_rule_id s = rs_RuleID (er_spec r) \<and>
     signal_just (\<lambda>_. None) 128 (history [(sample_env, 0, sample_event ''e1'' ''L'')] @ seen_view (sample_event ''e2'' ''L''))
       (compileRule ''linear'' sample_content r) s"
proof -
  define out where "out = fst (Process sample_env 0 (sample_event ''e2'' ''L'')
            (foldl engine_step (fst sample_new) [(sample_env, 0, sample_event ''e1'' ''L'')]))"
  define rules where "rules = sample_rules"
  have acc: "ar_Status (snd sample_new) \<noteq> ''rejected''" by code_simp
  have o: "map sig_rule_id out = [''two-execs'']" unfolding out_def by code_simp
  have "map (\<lambda>r. (rs_RuleID (er_spec r), er_enabled r, runtimeType r)) rules = [(''two-execs'', True, ''sequence'')]"
    unfolding rules_def by code_simp
  then obtain r where r: "r \<in> set rules" "rs_RuleID (er_spec r) = ''two-execs''" "er_enabled r" "runtimeType r = ''sequence''"
    by (auto simp: map_eq_Cons_conv)
  from o obtain s where s: "s \<in> set out" "sig_rule_id s = ''two-execs''" by (auto simp: map_eq_Cons_conv)
  have lim: "MaxCEPRefs (normalizeLimits \<lparr> MaxCEPGroups = 0, MaxCEPRefs = 0 \<rparr>) = 128" by code_simp
  have pf: "list_all (\<lambda>(env, _). env_parse env = (\<lambda>_. None)) [(sample_env, 0 :: uint64, sample_event ''e1'' ''L'')]"
    "env_parse sample_env = (\<lambda>_. None)" by (simp_all add: sample_env_def)
  have r': "r \<in> set (resolveRules (case Some sample_policy of None \<Rightarrow> DefaultDetectionPolicy | Some p \<Rightarrow> NormalizeDetectionPolicy p) sample_content)"
    using r(1) by (simp add: rules_def sample_rules_def)
  have id: "sig_rule_id s = rs_RuleID (er_spec r)" using s r by simp
  have "signal_just (\<lambda>_. None) 128 (history [(sample_env, 0, sample_event ''e1'' ''L'')] @ seen_view (sample_event ''e2'' ''L''))
       (compileRule ''linear'' sample_content r) s"
    using sequence_signals_have_evidence [OF acc [unfolded sample_new_def] pf s(1) [unfolded out_def sample_new_def] r' r(3,4) id]
    unfolding lim .
  with s(1) r(1) id show ?thesis unfolding out_def rules_def by blast
qed

text \<open>
  One event can complete two steps. While a group of lineage L1 waits for the second execution,
  a single execution e2 in lineage L2 first starts a group of its own and then, because the index
  says the rule is active, is shown to the second step as well: the two-step rule fires with the one
  reference e2, although L2 has executed once.
\<close>

theorem one_event_completes_two_steps:
  "map (\<lambda>s. (sig_rule_id s, sig_event_refs s))
     (fst (Process sample_env 0 (sample_event ''e2'' ''L2'')
        (foldl engine_step (fst sample_new) [(sample_env, 0, sample_event ''e1'' ''L1'')]))) = [(''two-execs'', [''e2''])] \<and>
   fst (Process sample_env 0 (sample_event ''e2'' ''L2'') (fst sample_new)) = []"
proof
  show "map (\<lambda>s. (sig_rule_id s, sig_event_refs s))
     (fst (Process sample_env 0 (sample_event ''e2'' ''L2'')
        (foldl engine_step (fst sample_new) [(sample_env, 0, sample_event ''e1'' ''L1'')]))) = [(''two-execs'', [''e2''])]"
    by code_simp
  show "fst (Process sample_env 0 (sample_event ''e2'' ''L2'') (fst sample_new)) = []" by code_simp
qed

end
