(* ===== verification/Evidence_Graph.thy ===== *)
theory Evidence_Graph
  imports Data_Model
begin

text \<open>
  The evidence graph of \<^verbatim>\<open>internal/analytics/entity/entity.go\<close>,
  \<^verbatim>\<open>internal/analytics/graph/graph.go\<close> and \<^verbatim>\<open>internal/analytics/evidence/evidence.go\<close>:
  normalised entities, the graph built from signals, and the two queries on it. \<open>KHop\<close> is shown to
  return exactly the nodes within a number of hops, \<open>ShortestPath\<close> to return the nodes and edges of
  a walk no other walk is shorter than. The receivers are not nil. A \<^verbatim>\<open>map[string]bool\<close> that only
  ever holds \<^verbatim>\<open>true\<close> is the set of its keys.
\<close>

section \<open>Entities\<close>

definition ensurePrefix :: "string \<Rightarrow> string \<Rightarrow> string" where
  "ensurePrefix key prefix = (if key = '''' \<or> HasPrefix key prefix then key else prefix @ key)"

definition Normalize :: "EntityRef \<Rightarrow> EntityRef" where
  "Normalize ref =
     (let kind = TrimSpace (ToLower (ent_kind ref));
          key = TrimSpace (ent_key ref);
          role = TrimSpace (ToLower (ent_role ref));
          key = (if kind = ''file'' then ensurePrefix key ''file:''
                 else if kind = ''socket'' then ensurePrefix key ''socket:''
                 else if kind = ''process'' then ensurePrefix key ''process:''
                 else if kind = ''container'' then ensurePrefix key ''container:''
                 else if kind = ''user'' then ensurePrefix key ''user:''
                 else if kind = ''token'' then ensurePrefix key ''token:''
                 else key)
      in \<lparr> ent_kind = kind, ent_key = key, ent_role = role \<rparr>)"

definition entityKey :: "EntityRef \<Rightarrow> string" where
  "entityKey ref = ent_kind ref @ [CHR 0x00] @ ent_key ref @ [CHR 0x00] @ ent_role ref"

fun Unique_loop :: "EntityRef list \<Rightarrow> string list \<Rightarrow> EntityRef list \<Rightarrow> EntityRef list" where
  "Unique_loop [] seen out = out"
| "Unique_loop (ref # refs) seen out =
     (let normalized = Normalize ref in
      if ent_kind normalized = '''' \<or> ent_key normalized = '''' then Unique_loop refs seen out
      else let key = entityKey normalized in
        if key \<in> set seen then Unique_loop refs seen out
        else Unique_loop refs (key # seen) (out @ [normalized]))"

definition Unique :: "EntityRef list \<Rightarrow> EntityRef list" where
  "Unique refs = Unique_loop refs [] []"

section \<open>The graph\<close>

record GraphNode =
  gn_id :: string
  gn_kind :: string
  gn_label :: string
  gn_entities :: "EntityRef list"

record GraphEdge =
  ge_id :: string
  ge_from :: string
  ge_to :: string
  ge_kind :: string

record EvidenceSubgraph =
  sg_nodes :: "GraphNode list"
  sg_edges :: "GraphEdge list"

record Graph =
  g_nodes :: "(string, GraphNode) gomap"
  g_nodeOrder :: "string list"
  g_edges :: "(string, GraphEdge) gomap"
  g_edgeOrder :: "string list"

definition EvidenceSubgraph_zero :: EvidenceSubgraph where
  "EvidenceSubgraph_zero = \<lparr> sg_nodes = [], sg_edges = [] \<rparr>"

text \<open>The getters of a missing node or edge return the zero value.\<close>

definition nodeAt :: "Graph \<Rightarrow> string \<Rightarrow> GraphNode" where
  "nodeAt g key = get_or \<lparr> gn_id = '''', gn_kind = '''', gn_label = '''', gn_entities = [] \<rparr> (g_nodes g) key"

definition edgeAt :: "Graph \<Rightarrow> string \<Rightarrow> GraphEdge" where
  "edgeAt g key = get_or \<lparr> ge_id = '''', ge_from = '''', ge_to = '''', ge_kind = '''' \<rparr> (g_edges g) key"

definition newGraph :: Graph where
  "newGraph = \<lparr> g_nodes = [], g_nodeOrder = [], g_edges = [], g_edgeOrder = [] \<rparr>"

definition addNode :: "Graph \<Rightarrow> EntityRef \<Rightarrow> Graph" where
  "addNode g ref =
     (if ent_key ref = '''' then g
      else if map_of (g_nodes g) (ent_key ref) \<noteq> None then g
      else g\<lparr> g_nodes := AList.update (ent_key ref)
                 \<lparr> gn_id = ent_key ref, gn_kind = ent_kind ref, gn_label = ent_key ref, gn_entities = [ref] \<rparr> (g_nodes g),
              g_nodeOrder := g_nodeOrder g @ [ent_key ref] \<rparr>)"

definition edgeName :: "string \<Rightarrow> string \<Rightarrow> string \<Rightarrow> string" where
  "edgeName kind from to = kind @ '':'' @ from @ ''->'' @ to"

definition addEdge :: "string \<Rightarrow> string \<Rightarrow> string \<Rightarrow> Graph \<Rightarrow> Graph" where
  "addEdge from to kind g =
     (if from = '''' \<or> to = '''' \<or> from = to then g
      else let id = edgeName kind from to in
        if map_of (g_edges g) id \<noteq> None then g
        else g\<lparr> g_edges := AList.update id \<lparr> ge_id = id, ge_from = from, ge_to = to, ge_kind = kind \<rparr> (g_edges g),
                g_edgeOrder := g_edgeOrder g @ [id] \<rparr>)"

definition subjectEntity :: "EntityRef list \<Rightarrow> EntityRef option" where
  "subjectEntity refs =
     (case find (\<lambda>ref. ent_role ref = ''subject'') refs of
        Some ref \<Rightarrow> Some ref
      | None \<Rightarrow> find (\<lambda>ref. ent_kind ref = ''process'') refs)"

definition edgeKind :: "Signal \<Rightarrow> EntityRef \<Rightarrow> string" where
  "edgeKind sig to =
     (if ent_kind to = ''socket'' then ''connect''
      else if ent_kind to = ''file'' then (if sig_name sig = ''payload_dropped'' then ''write'' else ''load'')
      else if ent_kind to = ''process'' then ''exec''
      else ''relates_to'')"

fun subjectEdges :: "Signal \<Rightarrow> string \<Rightarrow> EntityRef list \<Rightarrow> Graph \<Rightarrow> Graph" where
  "subjectEdges sig subject [] g = g"
| "subjectEdges sig subject (ref # refs) g =
     subjectEdges sig subject refs
       (if ent_key ref = subject then g else addEdge subject (ent_key ref) (edgeKind sig ref) g)"

fun chainEdges :: "Signal \<Rightarrow> EntityRef list \<Rightarrow> Graph \<Rightarrow> Graph" where
  "chainEdges sig (a # b # refs) g = chainEdges sig (b # refs) (addEdge (ent_key a) (ent_key b) (edgeKind sig b) g)"
| "chainEdges sig refs g = g"

definition addSignalEdges :: "Signal \<Rightarrow> EntityRef list \<Rightarrow> Graph \<Rightarrow> Graph" where
  "addSignalEdges sig refs g =
     (if length refs < 2 then g
      else case subjectEntity refs of
        Some subject \<Rightarrow> subjectEdges sig (ent_key subject) refs g
      | None \<Rightarrow> chainEdges sig refs g)"

definition AddSignal :: "Graph \<Rightarrow> Signal \<Rightarrow> Graph" where
  "AddSignal g sig =
     (let refs = Unique (sig_entities sig) in addSignalEdges sig refs (foldl addNode g refs))"

definition FromSignals :: "Signal list \<Rightarrow> Graph" where
  "FromSignals signals = foldl AddSignal newGraph signals"

definition EvidenceSubgraph_all :: "Graph \<Rightarrow> EvidenceSubgraph" where
  "EvidenceSubgraph_all g =
     \<lparr> sg_nodes = map (nodeAt g) (g_nodeOrder g), sg_edges = map (edgeAt g) (g_edgeOrder g) \<rparr>"

definition evidence_FromSignals :: "Signal list \<Rightarrow> EvidenceSubgraph" where
  "evidence_FromSignals signals = EvidenceSubgraph_all (FromSignals signals)"

definition subgraph :: "Graph \<Rightarrow> string set \<Rightarrow> string set \<Rightarrow> EvidenceSubgraph" where
  "subgraph g seenNodes seenEdges =
     \<lparr> sg_nodes = map (nodeAt g) (filter (\<lambda>id. id \<in> seenNodes) (g_nodeOrder g)),
       sg_edges = map (edgeAt g) (filter (\<lambda>id. id \<in> seenEdges) (g_edgeOrder g)) \<rparr>"

subsection \<open>The neighbourhood of a node\<close>

definition touches :: "GraphEdge \<Rightarrow> string \<Rightarrow> bool" where
  "touches edge node \<longleftrightarrow> ge_from edge = node \<or> ge_to edge = node"

definition otherEnd :: "GraphEdge \<Rightarrow> string \<Rightarrow> string" where
  "otherEnd edge node = (if ge_to edge = node then ge_from edge else ge_to edge)"

fun khop_edges ::
  "Graph \<Rightarrow> string \<Rightarrow> string list \<Rightarrow> string set \<times> string set \<times> string list \<Rightarrow> string set \<times> string set \<times> string list" where
  "khop_edges g node [] st = st"
| "khop_edges g node (edgeID # ids) (seenNodes, seenEdges, nxt) =
     (let edge = edgeAt g edgeID in
      if \<not> touches edge node then khop_edges g node ids (seenNodes, seenEdges, nxt)
      else let other = otherEnd edge node in
        if other \<in> seenNodes then khop_edges g node ids (seenNodes, insert edgeID seenEdges, nxt)
        else khop_edges g node ids (insert other seenNodes, insert edgeID seenEdges, nxt @ [other]))"

fun khop_frontier ::
  "Graph \<Rightarrow> string list \<Rightarrow> string set \<times> string set \<times> string list \<Rightarrow> string set \<times> string set \<times> string list" where
  "khop_frontier g [] st = st"
| "khop_frontier g (node # nodes) st = khop_frontier g nodes (khop_edges g node (g_edgeOrder g) st)"

fun khop_loop :: "Graph \<Rightarrow> nat \<Rightarrow> string set \<Rightarrow> string set \<Rightarrow> string list \<Rightarrow> string set \<times> string set" where
  "khop_loop g 0 seenNodes seenEdges frontier = (seenNodes, seenEdges)"
| "khop_loop g (Suc n) seenNodes seenEdges frontier =
     (if frontier = [] then (seenNodes, seenEdges)
      else let (seenNodes, seenEdges, nxt) = khop_frontier g frontier (seenNodes, seenEdges, [])
           in khop_loop g n seenNodes seenEdges nxt)"

definition KHop :: "Graph \<Rightarrow> string \<Rightarrow> int \<Rightarrow> EvidenceSubgraph" where
  "KHop g seed hops =
     (if seed = '''' \<or> hops < 0 then EvidenceSubgraph_zero
      else if map_of (g_nodes g) seed = None then EvidenceSubgraph_zero
      else let (seenNodes, seenEdges) = khop_loop g (nat hops) {seed} {} [seed]
           in subgraph g seenNodes seenEdges)"

subsection \<open>The shortest path\<close>

record pathParent =
  pp_node :: string
  pp_edge :: string

record searchState =
  ss_seen :: "string set"
  ss_parents :: "(string, pathParent) gomap"
  ss_queue :: "string list"

text \<open>One pass over the edges of a node: the flag says that \<open>to\<close> was reached.\<close>

fun sp_edges :: "Graph \<Rightarrow> string \<Rightarrow> string \<Rightarrow> string list \<Rightarrow> searchState \<Rightarrow> bool \<times> searchState" where
  "sp_edges g to node [] st = (False, st)"
| "sp_edges g to node (edgeID # ids) st =
     (let edge = edgeAt g edgeID in
      if \<not> touches edge node then sp_edges g to node ids st
      else let other = otherEnd edge node in
        if other \<in> ss_seen st then sp_edges g to node ids st
        else let st = st\<lparr> ss_seen := insert other (ss_seen st),
                           ss_parents := AList.update other \<lparr> pp_node = node, pp_edge = edgeID \<rparr> (ss_parents st) \<rparr>
             in if other = to then (True, st)
                else sp_edges g to node ids (st\<lparr> ss_queue := ss_queue st @ [other] \<rparr>))"

definition endpoints :: "Graph \<Rightarrow> string set" where
  "endpoints g = set (concat (map (\<lambda>e. [ge_from (edgeAt g e), ge_to (edgeAt g e)]) (g_edgeOrder g)))"

lemma finite_endpoints [simp]: "finite (endpoints g)"
  by (simp add: endpoints_def)

lemma otherEnd_endpoints: "e \<in> set (g_edgeOrder g) \<Longrightarrow> otherEnd (edgeAt g e) node \<in> endpoints g"
  by (auto simp: endpoints_def otherEnd_def)

definition sp_size :: "Graph \<Rightarrow> searchState \<Rightarrow> nat" where
  "sp_size g st = card (endpoints g - ss_seen st) + length (ss_queue st)"

lemma sp_edges_size:
  assumes "set ids \<subseteq> set (g_edgeOrder g)"
  shows "sp_size g (snd (sp_edges g to node ids st)) \<le> sp_size g st"
  using assms
proof (induction ids arbitrary: st)
  case Nil
  then show ?case by simp
next
  case (Cons e ids)
  let ?o = "otherEnd (edgeAt g e) node"
  have "?o \<in> endpoints g" using Cons.prems by (simp add: otherEnd_endpoints)
  then have less: "card (endpoints g - insert ?o S) + 1 \<le> card (endpoints g - S)" if "?o \<notin> S" for S
    using that by (metis DiffI Diff_insert Suc_eq_plus1 Suc_leI card_Diff1_less finite_Diff finite_endpoints)
  show ?case
  proof (cases "touches (edgeAt g e) node \<and> ?o \<notin> ss_seen st")
    case True
    define st' where "st' = st\<lparr> ss_seen := insert ?o (ss_seen st),
      ss_parents := AList.update ?o \<lparr> pp_node = node, pp_edge = e \<rparr> (ss_parents st) \<rparr>"
    have "sp_size g (st'\<lparr> ss_queue := ss_queue st' @ [?o] \<rparr>) \<le> sp_size g st" "sp_size g st' \<le> sp_size g st"
      using less [of "ss_seen st"] True by (simp_all add: sp_size_def st'_def)
    then show ?thesis
      using True Cons.IH [of "st'\<lparr> ss_queue := ss_queue st' @ [?o] \<rparr>"] Cons.prems
      by (simp add: Let_def st'_def [symmetric])
  next
    case False
    then have "sp_edges g to node (e # ids) st = sp_edges g to node ids st" by (simp add: Let_def)
    then show ?thesis using Cons by simp
  qed
qed

function sp_loop :: "Graph \<Rightarrow> string \<Rightarrow> searchState \<Rightarrow> bool \<times> searchState" where
  "sp_loop g to st =
     (case ss_queue st of
        [] \<Rightarrow> (False, st)
      | node # queue \<Rightarrow>
          let (found, st) = sp_edges g to node (g_edgeOrder g) (st\<lparr> ss_queue := queue \<rparr>)
          in if found then (True, st) else sp_loop g to st)"
  by pat_completeness auto
termination
proof (relation "measure (\<lambda>(g, to, st). sp_size g st)", goal_cases)
  case (2 g to st node queue res found st')
  have "sp_size g st' \<le> sp_size g (st\<lparr> ss_queue := queue \<rparr>)"
    using sp_edges_size [of "g_edgeOrder g" g to node "st\<lparr> ss_queue := queue \<rparr>"] 2 by (metis order_refl snd_conv)
  also have "\<dots> < sp_size g st" using 2(1) by (simp add: sp_size_def)
  finally show ?case by simp
qed simp

declare sp_loop.simps [simp del]

text \<open>Following the parents back; the loop has no bound of its own, so not returning is \<open>None\<close>.\<close>

partial_function (option) path_loop ::
  "string \<Rightarrow> (string, pathParent) gomap \<Rightarrow> string \<Rightarrow> string set \<Rightarrow> string set \<Rightarrow> (string set \<times> string set) option option" where
  "path_loop from parents cur seenNodes seenEdges =
     (if cur = from then Some (Some (seenNodes, seenEdges))
      else case map_of parents cur of
        None \<Rightarrow> Some None
      | Some parent \<Rightarrow>
          path_loop from parents (pp_node parent) (insert (pp_node parent) seenNodes) (insert (pp_edge parent) seenEdges))"

declare path_loop.simps [code]

definition pathSubgraph :: "Graph \<Rightarrow> string \<Rightarrow> string \<Rightarrow> (string, pathParent) gomap \<Rightarrow> EvidenceSubgraph option" where
  "pathSubgraph g from to parents =
     (case path_loop from parents to {to} {} of
        None \<Rightarrow> None
      | Some None \<Rightarrow> Some EvidenceSubgraph_zero
      | Some (Some (seenNodes, seenEdges)) \<Rightarrow> Some (subgraph g seenNodes seenEdges))"

definition ShortestPath :: "Graph \<Rightarrow> string \<Rightarrow> string \<Rightarrow> EvidenceSubgraph option" where
  "ShortestPath g from to =
     (if from = '''' \<or> to = '''' then Some EvidenceSubgraph_zero
      else if map_of (g_nodes g) from = None then Some EvidenceSubgraph_zero
      else if map_of (g_nodes g) to = None then Some EvidenceSubgraph_zero
      else if from = to then Some (subgraph g {from} {})
      else let (found, st) = sp_loop g to \<lparr> ss_seen = {from}, ss_parents = [], ss_queue = [from] \<rparr>
           in if found then pathSubgraph g from to (ss_parents st) else Some EvidenceSubgraph_zero)"

section \<open>Walks\<close>

definition joins :: "Graph \<Rightarrow> string \<Rightarrow> string \<Rightarrow> string \<Rightarrow> bool" where
  "joins g e u v \<longleftrightarrow> e \<in> set (g_edgeOrder g) \<and>
     ((ge_from (edgeAt g e) = u \<and> ge_to (edgeAt g e) = v) \<or> (ge_from (edgeAt g e) = v \<and> ge_to (edgeAt g e) = u))"

text \<open>A walk lists the edges it takes, each with the node it leads to.\<close>

fun walk :: "Graph \<Rightarrow> string \<Rightarrow> (string \<times> string) list \<Rightarrow> string \<Rightarrow> bool" where
  "walk g u [] v \<longleftrightarrow> u = v"
| "walk g u ((e, w) # p) v \<longleftrightarrow> joins g e u w \<and> walk g w p v"

definition nearer :: "Graph \<Rightarrow> string \<Rightarrow> nat \<Rightarrow> string set" where
  "nearer g s k = {v. \<exists>p. walk g s p v \<and> length p < k}"

definition neighbours :: "Graph \<Rightarrow> string \<Rightarrow> string set" where
  "neighbours g u = {v. \<exists>e. joins g e u v}"

definition incident :: "Graph \<Rightarrow> string \<Rightarrow> string set" where
  "incident g u = {e. \<exists>v. joins g e u v}"

lemma walk_snoc: "walk g u (p @ [(e, w)]) v \<longleftrightarrow> (\<exists>x. walk g u p x \<and> joins g e x w) \<and> w = v"
  by (induction p arbitrary: u) auto

lemma joins_iff:
  "joins g e u v \<longleftrightarrow> e \<in> set (g_edgeOrder g) \<and> touches (edgeAt g e) u \<and> v = otherEnd (edgeAt g e) u"
  by (auto simp: joins_def touches_def otherEnd_def)

lemma neighbours_eq:
  "neighbours g u = {otherEnd (edgeAt g e) u | e. e \<in> set (g_edgeOrder g) \<and> touches (edgeAt g e) u}"
  by (auto simp: neighbours_def joins_iff)

lemma incident_eq: "incident g u = {e \<in> set (g_edgeOrder g). touches (edgeAt g e) u}"
  by (auto simp: incident_def joins_iff)

lemma nearer_0 [simp]: "nearer g s 0 = {}"
  by (simp add: nearer_def)

lemma nearer_Suc: "nearer g s (Suc k) = insert s (nearer g s k \<union> \<Union> (neighbours g ` nearer g s k))"
proof (intro set_eqI iffI)
  fix v assume "v \<in> nearer g s (Suc k)"
  then obtain p where p: "walk g s p v" "length p \<le> k" by (auto simp: nearer_def)
  show "v \<in> insert s (nearer g s k \<union> \<Union> (neighbours g ` nearer g s k))"
  proof (cases p rule: rev_cases)
    case Nil
    with p show ?thesis by simp
  next
    case (snoc q ew)
    obtain e w where ew: "ew = (e, w)" by (cases ew)
    with snoc p obtain x where "walk g s q x" "joins g e x v" by (auto simp: walk_snoc)
    moreover have "length q < k" using snoc p by simp
    ultimately have "x \<in> nearer g s k" "v \<in> neighbours g x" by (auto simp: nearer_def neighbours_def)
    then show ?thesis by blast
  qed
next
  fix v assume "v \<in> insert s (nearer g s k \<union> \<Union> (neighbours g ` nearer g s k))"
  then consider "v = s" | "v \<in> nearer g s k" | x e where "x \<in> nearer g s k" "joins g e x v"
    by (auto simp: neighbours_def)
  then show "v \<in> nearer g s (Suc k)"
  proof cases
    case 1
    then have "walk g s [] v" by simp
    then show ?thesis unfolding nearer_def by fastforce
  next
    case 2
    then show ?thesis unfolding nearer_def using less_SucI by blast
  next
    case (3 x e)
    then obtain p where "walk g s p x" "length p < k" by (auto simp: nearer_def)
    with 3 have "walk g s (p @ [(e, v)]) v" "length (p @ [(e, v)]) < Suc k" by (auto simp: walk_snoc)
    then show ?thesis unfolding nearer_def by blast
  qed
qed

lemma nearer_mono: "j \<le> k \<Longrightarrow> nearer g s j \<subseteq> nearer g s k"
  by (auto simp: nearer_def)

lemma nearer_start [simp]: "s \<in> nearer g s (Suc k)"
  by (simp add: nearer_Suc)

lemma nearer_neighbour: "u \<in> nearer g s k \<Longrightarrow> v \<in> neighbours g u \<Longrightarrow> v \<in> nearer g s (Suc k)"
  by (auto simp: nearer_Suc)

lemma nearer_stable: "nearer g s (Suc k) = nearer g s k \<Longrightarrow> nearer g s (k + n) = nearer g s k"
  by (induction n) (simp_all add: nearer_Suc [of g s "_ + _"] nearer_Suc [of g s k])

section \<open>The neighbourhood is the set of near nodes\<close>

lemma khop_edges_result:
  "khop_edges g node ids (N, E, X) = (N', E', X') \<Longrightarrow>
   N' = N \<union> {otherEnd (edgeAt g e) node | e. e \<in> set ids \<and> touches (edgeAt g e) node} \<and>
   E' = E \<union> {e \<in> set ids. touches (edgeAt g e) node} \<and> set X' = set X \<union> (N' - N)"
proof (induction ids arbitrary: N E X)
  case Nil
  then show ?case by simp
next
  case (Cons e ids)
  let ?o = "otherEnd (edgeAt g e) node"
  consider "\<not> touches (edgeAt g e) node" | "touches (edgeAt g e) node" "?o \<in> N" | "touches (edgeAt g e) node" "?o \<notin> N"
    by blast
  then show ?case
  proof cases
    case 1
    then have "khop_edges g node ids (N, E, X) = (N', E', X')" using Cons.prems by (simp add: Let_def)
    from Cons.IH [OF this] 1 show ?thesis by auto
  next
    case 2
    then have "khop_edges g node ids (N, insert e E, X) = (N', E', X')" using Cons.prems by (simp add: Let_def)
    from Cons.IH [OF this] 2 show ?thesis by auto
  next
    case 3
    then have "khop_edges g node ids (insert ?o N, insert e E, X @ [?o]) = (N', E', X')"
      using Cons.prems by (simp add: Let_def)
    from Cons.IH [OF this] 3 show ?thesis by auto
  qed
qed

lemma khop_frontier_result:
  "khop_frontier g F (N, E, X) = (N', E', X') \<Longrightarrow>
   N' = N \<union> \<Union> (neighbours g ` set F) \<and> E' = E \<union> \<Union> (incident g ` set F) \<and> set X' = set X \<union> (N' - N)"
proof (induction F arbitrary: N E X)
  case Nil
  then show ?case by simp
next
  case (Cons u F)
  obtain N1 E1 X1 where one: "khop_edges g u (g_edgeOrder g) (N, E, X) = (N1, E1, X1)" by (metis prod.exhaust)
  with Cons.prems have "khop_frontier g F (N1, E1, X1) = (N', E', X')" by simp
  from Cons.IH [OF this] khop_edges_result [OF one] show ?case
    unfolding neighbours_eq [symmetric] incident_eq [symmetric] by auto
qed

lemma khop_loop_result:
  "set F = nearer g s (Suc k) - nearer g s k \<Longrightarrow>
   khop_loop g n (nearer g s (Suc k)) (\<Union> (incident g ` nearer g s k)) F =
     (nearer g s (Suc (k + n)), \<Union> (incident g ` nearer g s (k + n)))"
proof (induction n arbitrary: k F)
  case 0
  then show ?case by simp
next
  case (Suc n)
  have sub: "nearer g s k \<subseteq> nearer g s (Suc k)" by (rule nearer_mono) simp
  show ?case
  proof (cases "F = []")
    case True
    with Suc.prems sub have st: "nearer g s (Suc k) = nearer g s k" by auto
    have "nearer g s (k + Suc n) = nearer g s k" "nearer g s (k + Suc (Suc n)) = nearer g s k"
      using nearer_stable [OF st] by blast+
    with st True show ?thesis by simp
  next
    case False
    obtain N' E' X' where f: "khop_frontier g F (nearer g s (Suc k), \<Union> (incident g ` nearer g s k), []) = (N', E', X')"
      by (metis prod.exhaust)
    note r = khop_frontier_result [OF f]
    have "N' = nearer g s (Suc (Suc k))"
      using r Suc.prems nearer_neighbour [of _ g s k] by (auto simp: nearer_Suc [of g s "Suc k"])
    moreover have "E' = \<Union> (incident g ` nearer g s (Suc k))" using r Suc.prems sub by auto
    moreover have "set X' = nearer g s (Suc (Suc k)) - nearer g s (Suc k)" using r calculation by simp
    ultimately show ?thesis using f False Suc.IH [of X' "Suc k"] by simp
  qed
qed

lemma KHop_result:
  assumes "seed \<noteq> ''''" and "map_of (g_nodes g) seed \<noteq> None"
  shows "KHop g seed (int k) = subgraph g (nearer g seed (Suc k)) (\<Union> (incident g ` nearer g seed k))"
  using assms khop_loop_result [of "[seed]" g seed 0 k] by (auto simp: KHop_def nearer_Suc [of g seed 0])

section \<open>The search finds a shortest walk\<close>

definition level :: "Graph \<Rightarrow> string \<Rightarrow> nat \<Rightarrow> string set" where
  "level g s k = nearer g s (Suc k) - nearer g s k"

lemma level_disjoint: "v \<in> level g s j \<Longrightarrow> v \<in> level g s k \<Longrightarrow> j = k"
  unfolding level_def by (metis DiffE Suc_leI linorder_neqE_nat subsetD nearer_mono)

lemma level_0: "level g s 0 = {s}"
  by (simp add: level_def nearer_Suc)

lemma level_Suc: "v \<in> level g s (Suc k) \<Longrightarrow> \<exists>u\<in>level g s k. v \<in> neighbours g u"
proof -
  assume v: "v \<in> level g s (Suc k)"
  then obtain u where u: "u \<in> nearer g s (Suc k)" "v \<in> neighbours g u"
    unfolding level_def by (auto simp: nearer_Suc [of g s "Suc k"])
  have "u \<notin> nearer g s k" using v u nearer_neighbour [of u g s k v] by (auto simp: level_def)
  with u show ?thesis by (auto simp: level_def)
qed

lemma neighbour_level: "u \<in> level g s k \<Longrightarrow> v \<in> neighbours g u \<Longrightarrow> v \<notin> nearer g s (Suc k) \<Longrightarrow> v \<in> level g s (Suc k)"
  using nearer_neighbour [of u g s "Suc k" v] by (simp add: level_def)

text \<open>The parents of the nodes seen lead one level up along an edge.\<close>

definition parents_ok :: "Graph \<Rightarrow> string \<Rightarrow> searchState \<Rightarrow> bool" where
  "parents_ok g s st \<longleftrightarrow>
     (\<forall>v \<in> ss_seen st - {s}. \<exists>u e k. map_of (ss_parents st) v = Some \<lparr> pp_node = u, pp_edge = e \<rparr> \<and>
        u \<in> ss_seen st \<and> joins g e u v \<and> u \<in> level g s k \<and> v \<in> level g s (Suc k))"

text \<open>The state of the search while nodes of level \<open>m\<close> are taken from the queue.\<close>

definition frontier_ok :: "Graph \<Rightarrow> string \<Rightarrow> string \<Rightarrow> nat \<Rightarrow> searchState \<Rightarrow> bool" where
  "frontier_ok g s to m st \<longleftrightarrow>
     s \<in> ss_seen st \<and> nearer g s (Suc m) \<subseteq> ss_seen st \<and> to \<notin> ss_seen st \<and> parents_ok g s st \<and>
     (\<exists>A B. ss_queue st = A @ B \<and> set A \<subseteq> level g s m \<and> set B \<subseteq> level g s (Suc m)) \<and>
     set (ss_queue st) \<subseteq> ss_seen st"

definition closed_except :: "Graph \<Rightarrow> string set \<Rightarrow> searchState \<Rightarrow> bool" where
  "closed_except g U st \<longleftrightarrow> (\<forall>u \<in> ss_seen st - U. neighbours g u \<subseteq> ss_seen st)"

definition searching :: "Graph \<Rightarrow> string \<Rightarrow> string \<Rightarrow> searchState \<Rightarrow> bool" where
  "searching g s to st \<longleftrightarrow> (\<exists>m. frontier_ok g s to m st) \<and> closed_except g (set (ss_queue st)) st"

lemma parents_okE:
  assumes "parents_ok g s st" "v \<in> ss_seen st" "v \<noteq> s"
  obtains u e k where "map_of (ss_parents st) v = Some \<lparr> pp_node = u, pp_edge = e \<rparr>" "u \<in> ss_seen st"
    "joins g e u v" "u \<in> level g s k" "v \<in> level g s (Suc k)"
  using assms unfolding parents_ok_def by (metis DiffI singletonD)

lemma parents_ok_add:
  assumes "parents_ok g s st" and "u \<in> ss_seen st" "u \<in> level g s k" "joins g e u v" "v \<in> level g s (Suc k)" "v \<notin> ss_seen st"
  shows "parents_ok g s (st\<lparr> ss_seen := insert v (ss_seen st), ss_parents := AList.update v \<lparr> pp_node = u, pp_edge = e \<rparr> (ss_parents st) \<rparr>)"
  unfolding parents_ok_def
proof
  fix w
  assume w: "w \<in> ss_seen (st\<lparr> ss_seen := insert v (ss_seen st), ss_parents := AList.update v \<lparr> pp_node = u, pp_edge = e \<rparr> (ss_parents st) \<rparr>) - {s}"
  show "\<exists>u' e' k. map_of (ss_parents (st\<lparr> ss_seen := insert v (ss_seen st), ss_parents := AList.update v \<lparr> pp_node = u, pp_edge = e \<rparr> (ss_parents st) \<rparr>)) w =
      Some \<lparr> pp_node = u', pp_edge = e' \<rparr> \<and>
      u' \<in> ss_seen (st\<lparr> ss_seen := insert v (ss_seen st), ss_parents := AList.update v \<lparr> pp_node = u, pp_edge = e \<rparr> (ss_parents st) \<rparr>) \<and>
      joins g e' u' w \<and> u' \<in> level g s k \<and> w \<in> level g s (Suc k)"
  proof (cases "w = v")
    case True
    with assms show ?thesis by auto
  next
    case False
    with w have "w \<in> ss_seen st" "w \<noteq> s" by simp_all
    then obtain u' e' k' where "map_of (ss_parents st) w = Some \<lparr> pp_node = u', pp_edge = e' \<rparr>" "u' \<in> ss_seen st"
        "joins g e' u' w" "u' \<in> level g s k'" "w \<in> level g s (Suc k')"
      by (rule parents_okE [OF assms(1)])
    with False show ?thesis by auto
  qed
qed

definition edges_post :: "Graph \<Rightarrow> string \<Rightarrow> string \<Rightarrow> nat \<Rightarrow> string \<Rightarrow> string list \<Rightarrow> searchState \<Rightarrow> bool \<times> searchState \<Rightarrow> bool" where
  "edges_post g s to m node ids st r \<longleftrightarrow>
     (if fst r then parents_ok g s (snd r) \<and> to \<in> ss_seen (snd r)
      else frontier_ok g s to m (snd r) \<and> ss_seen st \<subseteq> ss_seen (snd r) \<and>
        set (ss_queue (snd r)) = set (ss_queue st) \<union> (ss_seen (snd r) - ss_seen st) \<and>
        (\<forall>e\<in>set ids. touches (edgeAt g e) node \<longrightarrow> otherEnd (edgeAt g e) node \<in> ss_seen (snd r)))"

lemma frontier_ok_push:
  assumes "frontier_ok g s to m st" "v \<in> level g s (Suc m)" "v \<noteq> to" "parents_ok g s st'"
    and "ss_seen st' = insert v (ss_seen st)" "ss_queue st' = ss_queue st"
  shows "frontier_ok g s to m (st'\<lparr> ss_queue := ss_queue st' @ [v] \<rparr>)"
proof -
  obtain A B where AB: "ss_queue st = A @ B" "set A \<subseteq> level g s m" "set B \<subseteq> level g s (Suc m)"
    using assms(1) by (auto simp: frontier_ok_def)
  then have "ss_queue st' @ [v] = A @ (B @ [v]) \<and> set A \<subseteq> level g s m \<and> set (B @ [v]) \<subseteq> level g s (Suc m)"
    using assms by simp
  then have "\<exists>A B. ss_queue st' @ [v] = A @ B \<and> set A \<subseteq> level g s m \<and> set B \<subseteq> level g s (Suc m)" by blast
  moreover have "parents_ok g s (st'\<lparr> ss_queue := ss_queue st' @ [v] \<rparr>)" using assms(4) by (simp add: parents_ok_def)
  ultimately show ?thesis using assms by (auto simp: frontier_ok_def)
qed

lemma sp_edges_result:
  assumes "frontier_ok g s to m st" and "node \<in> ss_seen st" "node \<in> level g s m"
    and "set ids \<subseteq> set (g_edgeOrder g)"
  shows "edges_post g s to m node ids st (sp_edges g to node ids st)"
  using assms
proof (induction ids arbitrary: st)
  case Nil
  then show ?case by (simp add: edges_post_def)
next
  case (Cons e ids)
  let ?o = "otherEnd (edgeAt g e) node"
  show ?case
  proof (cases "touches (edgeAt g e) node \<and> ?o \<notin> ss_seen st")
    case False
    then have "sp_edges g to node (e # ids) st = sp_edges g to node ids st" by (auto simp: Let_def)
    moreover have "edges_post g s to m node ids st (sp_edges g to node ids st)" using Cons by simp
    ultimately show ?thesis using False by (auto simp: edges_post_def)
  next
    case True
    define st1 where "st1 = st\<lparr> ss_seen := insert ?o (ss_seen st),
      ss_parents := AList.update ?o \<lparr> pp_node = node, pp_edge = e \<rparr> (ss_parents st) \<rparr>"
    define st2 where "st2 = st1\<lparr> ss_queue := ss_queue st1 @ [?o] \<rparr>"
    have j: "joins g e node ?o" using True Cons.prems(4) by (simp add: joins_iff)
    have l: "?o \<in> level g s (Suc m)"
    proof (rule neighbour_level [OF Cons.prems(3)])
      show "?o \<in> neighbours g node" using j by (auto simp: neighbours_def)
      show "?o \<notin> nearer g s (Suc m)" using True Cons.prems(1) by (auto simp: frontier_ok_def)
    qed
    have p1: "parents_ok g s st1" unfolding st1_def
      by (rule parents_ok_add) (use Cons.prems(1-3) j l True in \<open>auto simp: frontier_ok_def\<close>)
    show ?thesis
    proof (cases "?o = to")
      case to: True
      then have "sp_edges g to node (e # ids) st = (True, st1)" using True by (simp add: Let_def st1_def)
      then show ?thesis using p1 to by (simp add: edges_post_def st1_def)
    next
      case nto: False
      then have "sp_edges g to node (e # ids) st = sp_edges g to node ids st2"
        using True by (simp add: Let_def st1_def [symmetric] st2_def [symmetric])
      moreover have "frontier_ok g s to m st2" unfolding st2_def
        by (rule frontier_ok_push [OF Cons.prems(1) l nto p1]) (simp_all add: st1_def)
      then have "edges_post g s to m node ids st2 (sp_edges g to node ids st2)"
        using Cons.IH [of st2] Cons.prems(2-4) by (simp add: st2_def st1_def)
      ultimately have "edges_post g s to m node ids st2 (sp_edges g to node (e # ids) st)" by simp
      moreover have "ss_seen st2 = insert ?o (ss_seen st)" "set (ss_queue st2) = insert ?o (set (ss_queue st))"
        by (simp_all add: st2_def st1_def)
      ultimately show ?thesis using True unfolding edges_post_def by (simp split: if_splits) blast
    qed
  qed
qed

lemma frontier_next_level:
  assumes "frontier_ok g s to m st" "closed_except g (set (ss_queue st)) st" "set (ss_queue st) \<subseteq> level g s (Suc m)"
  shows "frontier_ok g s to (Suc m) st"
proof -
  have "nearer g s (Suc (Suc m)) \<subseteq> ss_seen st"
  proof
    fix v assume v: "v \<in> nearer g s (Suc (Suc m))"
    show "v \<in> ss_seen st"
    proof (cases "v \<in> nearer g s (Suc m)")
      case True
      with assms(1) show ?thesis by (auto simp: frontier_ok_def)
    next
      case False
      with v have "v \<in> level g s (Suc m)" by (simp add: level_def)
      then obtain u where u: "u \<in> level g s m" "v \<in> neighbours g u" using level_Suc by blast
      have "u \<in> ss_seen st" using u(1) assms(1) by (auto simp: level_def frontier_ok_def)
      moreover have "u \<notin> set (ss_queue st)" using level_disjoint [OF u(1), of "Suc m"] assms(3) by auto
      ultimately show ?thesis using assms(2) u(2) by (auto simp: closed_except_def)
    qed
  qed
  then show ?thesis using assms(1,3) unfolding frontier_ok_def by (metis append_Nil2 empty_set empty_subsetI)
qed

lemma searching_head:
  assumes "searching g s to st" "ss_queue st = node # queue"
  shows "\<exists>m. frontier_ok g s to m st \<and> node \<in> level g s m"
proof -
  obtain m A B where f: "frontier_ok g s to m st" and AB: "ss_queue st = A @ B" "set A \<subseteq> level g s m" "set B \<subseteq> level g s (Suc m)"
    using assms(1) unfolding searching_def frontier_ok_def by blast
  show ?thesis
  proof (cases A)
    case Nil
    with f AB assms(1) have "frontier_ok g s to (Suc m) st"
      using frontier_next_level by (simp add: searching_def)
    with Nil AB assms(2) show ?thesis by auto
  next
    case (Cons a A')
    with f AB assms(2) show ?thesis by auto
  qed
qed

lemma searching_step:
  assumes "searching g s to st" "ss_queue st = node # queue"
    and r: "sp_edges g to node (g_edgeOrder g) (st\<lparr> ss_queue := queue \<rparr>) = (found, st')"
  shows "if found then parents_ok g s st' \<and> to \<in> ss_seen st' else searching g s to st'"
proof -
  obtain m where f: "frontier_ok g s to m st" and l: "node \<in> level g s m" using searching_head [OF assms(1,2)] by blast
  have seen: "node \<in> ss_seen st" using f assms(2) by (simp add: frontier_ok_def)
  obtain A B where AB: "ss_queue st = A @ B" "set A \<subseteq> level g s m" "set B \<subseteq> level g s (Suc m)"
    using f by (auto simp: frontier_ok_def)
  have "A \<noteq> []" using AB assms(2) l level_disjoint [of node g s m "Suc m"] by auto
  then have "queue = tl A @ B" "set (tl A) \<subseteq> level g s m" using AB assms(2) by (cases A; auto)+
  then have "frontier_ok g s to m (st\<lparr> ss_queue := queue \<rparr>)"
    using f AB(3) assms(2) unfolding frontier_ok_def by (auto simp: parents_ok_def)
  then have post: "edges_post g s to m node (g_edgeOrder g) (st\<lparr> ss_queue := queue \<rparr>) (found, st')"
    using sp_edges_result [of g s to m "st\<lparr> ss_queue := queue \<rparr>" node "g_edgeOrder g"] seen l r by simp
  show ?thesis
  proof (cases found)
    case True
    with post show ?thesis by (simp add: edges_post_def)
  next
    case False
    with post have "neighbours g node \<subseteq> ss_seen st'" by (auto simp: edges_post_def neighbours_eq)
    moreover have "closed_except g (set (ss_queue st)) st" using assms(1) by (simp add: searching_def)
    ultimately have "closed_except g (set (ss_queue st')) st'"
      using post False assms(2) by (auto simp: closed_except_def edges_post_def)
    with post False show ?thesis by (auto simp: edges_post_def searching_def)
  qed
qed

lemma closed_reaches:
  "closed_except g {} st \<Longrightarrow> u \<in> ss_seen st \<Longrightarrow> walk g u p v \<Longrightarrow> v \<in> ss_seen st"
  by (induction p arbitrary: u) (auto simp: closed_except_def neighbours_def, blast)

lemma sp_loop_result:
  "searching g s to st \<Longrightarrow> sp_loop g to st = (found, st') \<Longrightarrow>
   if found then parents_ok g s st' \<and> to \<in> ss_seen st' else (\<nexists>p. walk g s p to)"
proof (induction g to st rule: sp_loop.induct)
  case (1 g to st)
  show ?case
  proof (cases "ss_queue st")
    case Nil
    with 1(3) have "found = False" by (simp add: sp_loop.simps [of g to st])
    moreover have "closed_except g {} st" "s \<in> ss_seen st" "to \<notin> ss_seen st"
      using 1(2) Nil by (auto simp: searching_def frontier_ok_def)
    ultimately show ?thesis using closed_reaches by fastforce
  next
    case (Cons node queue)
    obtain f st1 where r: "sp_edges g to node (g_edgeOrder g) (st\<lparr> ss_queue := queue \<rparr>) = (f, st1)" by (metis prod.exhaust)
    note step = searching_step [OF 1(2) Cons r]
    show ?thesis
    proof (cases f)
      case True
      with 1(3) Cons r have "found = True" "st' = st1" by (simp_all add: sp_loop.simps [of g to st])
      with step True show ?thesis by simp
    next
      case False
      with 1(3) Cons r have "sp_loop g to st1 = (found, st')" by (simp add: sp_loop.simps [of g to st])
      with step False 1(1) [OF Cons r [symmetric] refl] show ?thesis by simp
    qed
  qed
qed

lemma walk_end: "walk g s p u \<Longrightarrow> u \<in> insert s (snd ` set p)"
  by (induction p arbitrary: s) auto

lemma path_loop_result:
  "parents_ok g s st \<Longrightarrow> v \<in> ss_seen st \<Longrightarrow> v \<in> level g s k \<Longrightarrow> v \<in> N \<Longrightarrow>
   \<exists>p. walk g s p v \<and> length p = k \<and>
     path_loop s (ss_parents st) v N E = Some (Some (N \<union> insert s (snd ` set p), E \<union> fst ` set p))"
proof (induction k arbitrary: v N E)
  case 0
  then have "v = s" by (simp add: level_0)
  then have "walk g s [] v \<and> length [] = 0 \<and>
      path_loop s (ss_parents st) v N E = Some (Some (N \<union> insert s (snd ` set []), E \<union> fst ` set []))"
    using 0(4) by (simp add: path_loop.simps [of s _ s] insert_absorb)
  then show ?case by (rule exI)
next
  case (Suc k)
  have "v \<noteq> s"
  proof
    assume "v = s"
    then have "s \<in> level g s 0" "s \<in> level g s (Suc k)" using Suc.prems(3) by (simp_all add: level_0)
    then show False using level_disjoint by blast
  qed
  then obtain u e j where u: "map_of (ss_parents st) v = Some \<lparr> pp_node = u, pp_edge = e \<rparr>" "u \<in> ss_seen st"
      "joins g e u v" "u \<in> level g s j" "v \<in> level g s (Suc j)"
    by (rule parents_okE [OF Suc.prems(1,2)])
  have "Suc j = Suc k" by (rule level_disjoint [OF u(5) Suc.prems(3)])
  with u(4) have "u \<in> level g s k" by simp
  from Suc.IH [OF Suc.prems(1) u(2) this insertI1, of N "insert e E"] obtain p where p: "walk g s p u" "length p = k"
      "path_loop s (ss_parents st) u (insert u N) (insert e E) =
         Some (Some (insert u N \<union> insert s (snd ` set p), insert e E \<union> fst ` set p))"
    by (elim exE conjE) (rule that)
  have "path_loop s (ss_parents st) v N E = path_loop s (ss_parents st) u (insert u N) (insert e E)"
    using \<open>v \<noteq> s\<close> u(1) by (simp add: path_loop.simps [of s _ v])
  also have "\<dots> = Some (Some (N \<union> insert s (snd ` set (p @ [(e, v)])), E \<union> fst ` set (p @ [(e, v)])))"
    using p(3) walk_end [OF p(1)] Suc.prems(4) by auto
  finally have "path_loop s (ss_parents st) v N E =
      Some (Some (N \<union> insert s (snd ` set (p @ [(e, v)])), E \<union> fst ` set (p @ [(e, v)])))" .
  moreover have "walk g s (p @ [(e, v)]) v" "length (p @ [(e, v)]) = Suc k" using p u by (auto simp: walk_snoc)
  ultimately show ?case by (intro exI [of _ "p @ [(e, v)]"] conjI)
qed

definition shortest :: "Graph \<Rightarrow> string \<Rightarrow> (string \<times> string) list \<Rightarrow> string \<Rightarrow> bool" where
  "shortest g u p v \<longleftrightarrow> walk g u p v \<and> (\<forall>q. walk g u q v \<longrightarrow> length p \<le> length q)"

lemma level_shortest: "v \<in> level g s k \<Longrightarrow> walk g s p v \<Longrightarrow> length p = k \<Longrightarrow> shortest g s p v"
  unfolding shortest_def level_def nearer_def by (auto simp: not_less)

lemma reachable_level: "walk g s p v \<Longrightarrow> \<exists>k. v \<in> level g s k"
proof -
  assume "walk g s p v"
  then have ex: "\<exists>n. v \<in> nearer g s (Suc n)" unfolding nearer_def by blast
  define k where "k = (LEAST n. v \<in> nearer g s (Suc n))"
  have "v \<in> nearer g s (Suc k)" unfolding k_def using ex by (rule LeastI_ex)
  moreover have "v \<notin> nearer g s k"
  proof (cases k)
    case (Suc j)
    then have "j < k" by simp
    then show ?thesis using not_less_Least [of j "\<lambda>n. v \<in> nearer g s (Suc n)"] Suc k_def by auto
  qed simp
  ultimately show ?thesis by (auto simp: level_def)
qed

lemma searching_start: "s \<noteq> to \<Longrightarrow> searching g s to \<lparr> ss_seen = {s}, ss_parents = [], ss_queue = [s] \<rparr>"
proof -
  assume "s \<noteq> to"
  moreover have "\<exists>A B. [s] = A @ B \<and> set A \<subseteq> level g s 0 \<and> set B \<subseteq> level g s (Suc 0)"
    by (rule exI [of _ "[s]"], rule exI [of _ "[]"]) (simp add: level_0)
  ultimately have "frontier_ok g s to 0 \<lparr> ss_seen = {s}, ss_parents = [], ss_queue = [s] \<rparr>"
    by (auto simp: frontier_ok_def parents_ok_def nearer_Suc)
  then show ?thesis by (auto simp: searching_def closed_except_def)
qed

lemma ShortestPath_result:
  assumes "u \<noteq> ''''" "v \<noteq> ''''" "map_of (g_nodes g) u \<noteq> None" "map_of (g_nodes g) v \<noteq> None"
  shows "if \<exists>p. walk g u p v
         then \<exists>p. shortest g u p v \<and> ShortestPath g u v = Some (subgraph g (insert u (snd ` set p)) (fst ` set p))
         else ShortestPath g u v = Some EvidenceSubgraph_zero"
proof (cases "u = v")
  case True
  then have "shortest g u [] v \<and> ShortestPath g u v = Some (subgraph g (insert u (snd ` set [])) (fst ` set []))"
    using assms by (auto simp: ShortestPath_def shortest_def)
  moreover have "walk g u [] v" using True by simp
  ultimately show ?thesis by (metis (no_types, lifting))
next
  case neq: False
  obtain found st where r: "sp_loop g v \<lparr> ss_seen = {u}, ss_parents = [], ss_queue = [u] \<rparr> = (found, st)" by (metis prod.exhaust)
  note res = sp_loop_result [OF searching_start [OF neq] r]
  have sp: "ShortestPath g u v = (if found then pathSubgraph g u v (ss_parents st) else Some EvidenceSubgraph_zero)"
    using assms neq r by (auto simp: ShortestPath_def)
  show ?thesis
  proof (cases found)
    case True
    then have ok: "parents_ok g u st" "v \<in> ss_seen st" using res by simp_all
    obtain k where k: "v \<in> level g u k" by (rule parents_okE [OF ok]) (use neq in auto)
    from path_loop_result [OF ok k singletonI, of "{}"] obtain p where p: "walk g u p v" "length p = k"
        "path_loop u (ss_parents st) v {v} {} = Some (Some ({v} \<union> insert u (snd ` set p), {} \<union> fst ` set p))"
      by (elim exE conjE) (rule that)
    moreover have "{v} \<union> insert u (snd ` set p) = insert u (snd ` set p)" using walk_end [OF p(1)] by auto
    ultimately have "ShortestPath g u v = Some (subgraph g (insert u (snd ` set p)) (fst ` set p))"
      using sp True by (simp add: pathSubgraph_def)
    with level_shortest [OF k p(1,2)] p(1) show ?thesis by auto
  next
    case False
    with res sp show ?thesis by simp
  qed
qed

section \<open>Graphs built from signals\<close>

definition graph_ok :: "Graph \<Rightarrow> bool" where
  "graph_ok g \<longleftrightarrow>
     distinct (g_nodeOrder g) \<and> (\<forall>k. k \<in> set (g_nodeOrder g) \<longleftrightarrow> map_of (g_nodes g) k \<noteq> None) \<and>
     (\<forall>k n. map_of (g_nodes g) k = Some n \<longrightarrow> gn_id n = k \<and> k \<noteq> '''') \<and>
     distinct (g_edgeOrder g) \<and> (\<forall>k. k \<in> set (g_edgeOrder g) \<longleftrightarrow> map_of (g_edges g) k \<noteq> None) \<and>
     (\<forall>k e. map_of (g_edges g) k = Some e \<longrightarrow>
        ge_id e = k \<and> k = edgeName (ge_kind e) (ge_from e) (ge_to e) \<and> ge_from e \<noteq> ge_to e \<and>
        ge_from e \<in> set (g_nodeOrder g) \<and> ge_to e \<in> set (g_nodeOrder g))"

lemma graph_ok_new [simp]: "graph_ok newGraph"
  by (simp add: graph_ok_def newGraph_def)

lemma graph_ok_addNode [inv_intros]: "graph_ok g \<Longrightarrow> graph_ok (addNode g ref)"
  by (auto simp: graph_ok_def addNode_def)

lemma graph_ok_addEdge [inv_intros]:
  "graph_ok g \<Longrightarrow> from \<in> set (g_nodeOrder g) \<Longrightarrow> to \<in> set (g_nodeOrder g) \<Longrightarrow> graph_ok (addEdge from to kind g)"
  unfolding graph_ok_def addEdge_def Let_def by (auto split: if_splits)

lemma addEdge_nodeOrder [simp]: "g_nodeOrder (addEdge from to kind g) = g_nodeOrder g"
  by (simp add: addEdge_def Let_def)

lemma addNode_nodeOrder: "graph_ok g \<Longrightarrow> ent_key ref \<noteq> '''' \<Longrightarrow> set (g_nodeOrder (addNode g ref)) = insert (ent_key ref) (set (g_nodeOrder g))"
  by (auto simp: addNode_def graph_ok_def)

lemma subjectEdges_nodeOrder [simp]: "g_nodeOrder (subjectEdges sig s refs g) = g_nodeOrder g"
  by (induction refs arbitrary: g) simp_all

lemma chainEdges_nodeOrder [simp]: "g_nodeOrder (chainEdges sig refs g) = g_nodeOrder g"
  by (induction sig refs g rule: chainEdges.induct) simp_all

lemma graph_ok_subjectEdges [inv_intros]:
  "graph_ok g \<Longrightarrow> s \<in> set (g_nodeOrder g) \<Longrightarrow> ent_key ` set refs \<subseteq> set (g_nodeOrder g) \<Longrightarrow> graph_ok (subjectEdges sig s refs g)"
  by (induction refs arbitrary: g) (auto simp: graph_ok_addEdge)

lemma graph_ok_chainEdges [inv_intros]:
  "graph_ok g \<Longrightarrow> ent_key ` set refs \<subseteq> set (g_nodeOrder g) \<Longrightarrow> graph_ok (chainEdges sig refs g)"
  by (induction sig refs g rule: chainEdges.induct) (auto intro: inv_intros)

lemma subjectEntity_in: "subjectEntity refs = Some s \<Longrightarrow> s \<in> set refs"
  by (auto simp: subjectEntity_def find_Some_iff split: option.splits)

lemma graph_ok_addSignalEdges [inv_intros]:
  "graph_ok g \<Longrightarrow> ent_key ` set refs \<subseteq> set (g_nodeOrder g) \<Longrightarrow> graph_ok (addSignalEdges sig refs g)"
  unfolding addSignalEdges_def by (auto intro!: inv_intros dest: subjectEntity_in split: option.splits)

lemma addSignalEdges_nodeOrder [simp]: "g_nodeOrder (addSignalEdges sig refs g) = g_nodeOrder g"
  by (simp add: addSignalEdges_def split: option.splits)

lemma Unique_loop_nonempty:
  "list_all (\<lambda>r. ent_key r \<noteq> '''' \<and> ent_kind r \<noteq> '''') out \<Longrightarrow>
   list_all (\<lambda>r. ent_key r \<noteq> '''' \<and> ent_kind r \<noteq> '''') (Unique_loop refs seen out)"
  by (induction refs seen out rule: Unique_loop.induct) (simp_all add: Let_def)

lemma Unique_nonempty: "ref \<in> set (Unique refs) \<Longrightarrow> ent_key ref \<noteq> ''''"
  using Unique_loop_nonempty [of "[]" refs "[]"] by (auto simp: Unique_def list_all_iff)

lemma addNodes_result:
  "graph_ok g \<Longrightarrow> (\<And>r. r \<in> set refs \<Longrightarrow> ent_key r \<noteq> '''') \<Longrightarrow>
   graph_ok (foldl addNode g refs) \<and> set (g_nodeOrder (foldl addNode g refs)) = set (g_nodeOrder g) \<union> ent_key ` set refs"
  by (induction refs arbitrary: g) (auto simp: addNode_nodeOrder graph_ok_addNode)

lemma AddSignal_result:
  assumes "graph_ok g"
  shows "graph_ok (AddSignal g sig)"
    and "set (g_nodeOrder (AddSignal g sig)) = set (g_nodeOrder g) \<union> ent_key ` set (Unique (sig_entities sig))"
  using addNodes_result [OF assms, of "Unique (sig_entities sig)"] Unique_nonempty
  by (auto simp: AddSignal_def Let_def intro!: inv_intros)

interpretation evidence: machine AddSignal graph_ok
  by unfold_locales (rule AddSignal_result)

lemma FromSignals_ok: "graph_ok (FromSignals signals)"
  unfolding FromSignals_def by (rule evidence.run_invar) simp

lemma FromSignals_nodes:
  "set (g_nodeOrder (FromSignals signals)) = ent_key ` set (concat (map (\<lambda>s. Unique (sig_entities s)) signals))"
proof (induction signals rule: rev_induct)
  case Nil
  then show ?case by (simp add: FromSignals_def newGraph_def)
next
  case (snoc sig signals)
  have "FromSignals (signals @ [sig]) = AddSignal (FromSignals signals) sig" by (simp add: FromSignals_def)
  then show ?case using snoc AddSignal_result(2) [OF FromSignals_ok] by (simp add: image_Un)
qed

lemma nodeAt_id: "graph_ok g \<Longrightarrow> k \<in> set (g_nodeOrder g) \<Longrightarrow> gn_id (nodeAt g k) = k"
  unfolding graph_ok_def nodeAt_def get_or_def by (metis not_None_eq option.simps(5))

lemma edgeAt_Some: "graph_ok g \<Longrightarrow> k \<in> set (g_edgeOrder g) \<Longrightarrow> map_of (g_edges g) k = Some (edgeAt g k)"
  unfolding graph_ok_def edgeAt_def get_or_def by (metis not_None_eq option.simps(5))

lemma edgeAt_id: "graph_ok g \<Longrightarrow> k \<in> set (g_edgeOrder g) \<Longrightarrow> ge_id (edgeAt g k) = k"
  using edgeAt_Some by (metis graph_ok_def)

lemma subgraph_ids:
  assumes "graph_ok g"
  shows "map gn_id (sg_nodes (subgraph g N E)) = filter (\<lambda>v. v \<in> N) (g_nodeOrder g)"
    and "map ge_id (sg_edges (subgraph g N E)) = filter (\<lambda>e. e \<in> E) (g_edgeOrder g)"
  using assms by (auto simp: subgraph_def nodeAt_id edgeAt_id intro!: map_idI)

text \<open>
  C34. The evidence graph of any signals is well formed: node and edge identifiers are distinct,
  its nodes are exactly the keys of the signals' normalised entities, and every edge joins two
  different nodes of the graph and is named after its kind and ends.
\<close>

theorem evidence_graph_well_formed:
  "distinct (map gn_id (sg_nodes (evidence_FromSignals signals))) \<and>
   set (map gn_id (sg_nodes (evidence_FromSignals signals))) =
     set (map ent_key (concat (map (\<lambda>s. Unique (sig_entities s)) signals))) \<and>
   distinct (map ge_id (sg_edges (evidence_FromSignals signals))) \<and>
   list_all (\<lambda>e. ge_from e \<in> set (map gn_id (sg_nodes (evidence_FromSignals signals))) \<and>
                 ge_to e \<in> set (map gn_id (sg_nodes (evidence_FromSignals signals))) \<and>
                 ge_from e \<noteq> ge_to e \<and> ge_id e = edgeName (ge_kind e) (ge_from e) (ge_to e))
     (sg_edges (evidence_FromSignals signals))"
proof -
  let ?g = "FromSignals signals"
  have ok: "graph_ok ?g" by (rule FromSignals_ok)
  have n: "map gn_id (sg_nodes (evidence_FromSignals signals)) = g_nodeOrder ?g"
    using ok by (simp add: evidence_FromSignals_def EvidenceSubgraph_all_def nodeAt_id map_idI)
  have e: "map ge_id (sg_edges (evidence_FromSignals signals)) = g_edgeOrder ?g"
    using ok by (simp add: evidence_FromSignals_def EvidenceSubgraph_all_def edgeAt_id map_idI)
  have "ge_from (edgeAt ?g k) \<in> set (g_nodeOrder ?g) \<and> ge_to (edgeAt ?g k) \<in> set (g_nodeOrder ?g) \<and>
      ge_from (edgeAt ?g k) \<noteq> ge_to (edgeAt ?g k) \<and>
      ge_id (edgeAt ?g k) = edgeName (ge_kind (edgeAt ?g k)) (ge_from (edgeAt ?g k)) (ge_to (edgeAt ?g k))"
    if "k \<in> set (g_edgeOrder ?g)" for k
    using edgeAt_Some [OF ok that] ok by (metis graph_ok_def)
  then have "list_all (\<lambda>e. ge_from e \<in> set (g_nodeOrder ?g) \<and> ge_to e \<in> set (g_nodeOrder ?g) \<and>
        ge_from e \<noteq> ge_to e \<and> ge_id e = edgeName (ge_kind e) (ge_from e) (ge_to e))
      (sg_edges (evidence_FromSignals signals))"
    by (simp add: evidence_FromSignals_def EvidenceSubgraph_all_def list_all_iff)
  moreover have "distinct (g_nodeOrder ?g)" "distinct (g_edgeOrder ?g)" using ok by (simp_all add: graph_ok_def)
  ultimately show ?thesis unfolding n e using FromSignals_nodes [of signals] by simp
qed

text \<open>
  C22. On the graph of any signals, \<^verbatim>\<open>KHop(seed, k)\<close> returns, in the order of the graph, exactly the
  nodes that a walk of at most \<open>k\<close> edges from the seed reaches, and exactly the edges at a node
  that a walk of fewer than \<open>k\<close> edges reaches.
\<close>

theorem KHop_is_neighbourhood:
  assumes "seed \<in> set (g_nodeOrder (FromSignals signals))"
  shows "map gn_id (sg_nodes (KHop (FromSignals signals) seed (int k))) =
           filter (\<lambda>v. \<exists>p. walk (FromSignals signals) seed p v \<and> length p \<le> k) (g_nodeOrder (FromSignals signals)) \<and>
         map ge_id (sg_edges (KHop (FromSignals signals) seed (int k))) =
           filter (\<lambda>e. \<exists>p u v. walk (FromSignals signals) seed p u \<and> length p < k \<and> joins (FromSignals signals) e u v)
             (g_edgeOrder (FromSignals signals))"
proof -
  let ?g = "FromSignals signals"
  have ok: "graph_ok ?g" by (rule FromSignals_ok)
  then have "seed \<noteq> ''''" "map_of (g_nodes ?g) seed \<noteq> None" using assms by (auto simp: graph_ok_def)
  note r = KHop_result [OF this, of k]
  show ?thesis unfolding r subgraph_ids [OF ok]
    by (intro conjI filter_cong) (auto simp: nearer_def incident_def less_Suc_eq_le)
qed

text \<open>
  C21. On the graph of any signals, \<^verbatim>\<open>ShortestPath\<close> between two nodes always returns. If they are
  connected it returns the nodes and the edges of a walk from one to the other, and no walk
  between them has fewer edges; if they are not connected it returns the empty subgraph.
\<close>

theorem ShortestPath_is_shortest:
  assumes "u \<in> set (g_nodeOrder (FromSignals signals))" and "v \<in> set (g_nodeOrder (FromSignals signals))"
  shows "if \<exists>p. walk (FromSignals signals) u p v
         then \<exists>p sg. walk (FromSignals signals) u p v \<and> (\<nexists>q. walk (FromSignals signals) u q v \<and> length q < length p) \<and>
                ShortestPath (FromSignals signals) u v = Some sg \<and>
                map gn_id (sg_nodes sg) = filter (\<lambda>n. n \<in> set (u # map snd p)) (g_nodeOrder (FromSignals signals)) \<and>
                map ge_id (sg_edges sg) = filter (\<lambda>e. e \<in> set (map fst p)) (g_edgeOrder (FromSignals signals))
         else ShortestPath (FromSignals signals) u v = Some EvidenceSubgraph_zero"
proof -
  let ?g = "FromSignals signals"
  have ok: "graph_ok ?g" by (rule FromSignals_ok)
  then have "u \<noteq> ''''" "v \<noteq> ''''" "map_of (g_nodes ?g) u \<noteq> None" "map_of (g_nodes ?g) v \<noteq> None"
    using assms by (auto simp: graph_ok_def)
  note r = ShortestPath_result [OF this]
  show ?thesis
  proof (cases "\<exists>p. walk ?g u p v")
    case True
    with r obtain p where p: "shortest ?g u p v" "ShortestPath ?g u v = Some (subgraph ?g (insert u (snd ` set p)) (fst ` set p))"
      by auto
    then have "walk ?g u p v \<and> (\<nexists>q. walk ?g u q v \<and> length q < length p)" by (auto simp: shortest_def not_less)
    then show ?thesis using True p(2) subgraph_ids [OF ok, of "insert u (snd ` set p)" "fst ` set p"] by auto
  next
    case False
    with r show ?thesis by simp
  qed
qed

subsection \<open>A small graph\<close>

definition bareSignal :: "string \<Rightarrow> EntityRef list \<Rightarrow> Signal" where
  "bareSignal name entities = Signal_zero\<lparr> sig_name := name, sig_where := WHERE_ENDPOINT, sig_entities := entities \<rparr>"

definition entityOf :: "string \<Rightarrow> string \<Rightarrow> EntityRef" where
  "entityOf kind key = \<lparr> ent_kind = kind, ent_key = key, ent_role = '''' \<rparr>"

definition chainSignals :: "Signal list" where
  "chainSignals = [bareSignal ''payload_dropped'' [entityOf ''process'' ''1'', entityOf ''file'' ''/p''],
     bareSignal ''exec'' [entityOf ''process'' ''2'', entityOf ''file'' ''/p'', entityOf ''socket'' ''h:1'']]"

lemma chainSignals_nodes: "g_nodeOrder (FromSignals chainSignals) = [''process:1'', ''file:/p'', ''process:2'', ''socket:h:1'']"
  by code_simp

theorem KHop_is_neighbourhood_witness:
  "''process:1'' \<in> set (g_nodeOrder (FromSignals chainSignals)) \<and>
   map gn_id (sg_nodes (KHop (FromSignals chainSignals) ''process:1'' (int 1))) = [''process:1'', ''file:/p''] \<and>
   map gn_id (sg_nodes (KHop (FromSignals chainSignals) ''process:1'' (int 1))) =
     filter (\<lambda>v. \<exists>p. walk (FromSignals chainSignals) ''process:1'' p v \<and> length p \<le> 1) (g_nodeOrder (FromSignals chainSignals))"
proof -
  have in_: "''process:1'' \<in> set (g_nodeOrder (FromSignals chainSignals))" by (simp add: chainSignals_nodes)
  have "map gn_id (sg_nodes (KHop (FromSignals chainSignals) ''process:1'' (int 1))) = [''process:1'', ''file:/p'']" by code_simp
  with in_ conjunct1 [OF KHop_is_neighbourhood [OF in_, of 1]] show ?thesis by simp
qed

theorem ShortestPath_is_shortest_witness:
  "''process:1'' \<in> set (g_nodeOrder (FromSignals chainSignals)) \<and> ''socket:h:1'' \<in> set (g_nodeOrder (FromSignals chainSignals)) \<and>
   (\<exists>p sg. walk (FromSignals chainSignals) ''process:1'' p ''socket:h:1'' \<and>
      (\<nexists>q. walk (FromSignals chainSignals) ''process:1'' q ''socket:h:1'' \<and> length q < length p) \<and>
      ShortestPath (FromSignals chainSignals) ''process:1'' ''socket:h:1'' = Some sg)"
proof -
  have in_: "''process:1'' \<in> set (g_nodeOrder (FromSignals chainSignals))" "''socket:h:1'' \<in> set (g_nodeOrder (FromSignals chainSignals))"
    by (simp_all add: chainSignals_nodes)
  have "walk (FromSignals chainSignals) ''process:1''
     [(''write:process:1->file:/p'', ''file:/p''), (''load:process:2->file:/p'', ''process:2''), (''connect:process:2->socket:h:1'', ''socket:h:1'')] ''socket:h:1''"
    by code_simp
  then have "\<exists>p. walk (FromSignals chainSignals) ''process:1'' p ''socket:h:1''" by blast
  with in_ ShortestPath_is_shortest [OF in_] show ?thesis by auto
qed

text \<open>
  Edge identifiers are not injective in their ends: a file name that contains the separator
  makes two different edges share a name, and the second one is lost. Below, the second signal
  relates two files, but the graph has no walk between them, and \<^verbatim>\<open>ShortestPath\<close> returns nothing.
\<close>

theorem evidence_edge_lost:
  "Unique [entityOf ''file'' ''/a->file:/b'', entityOf ''file'' ''/c''] =
     [entityOf ''file'' ''file:/a->file:/b'', entityOf ''file'' ''file:/c''] \<and>
   sg_edges (evidence_FromSignals [bareSignal ''s'' [entityOf ''file'' ''/a->file:/b'', entityOf ''file'' ''/c'']]) =
     [\<lparr> ge_id = ''load:file:/a->file:/b->file:/c'', ge_from = ''file:/a->file:/b'', ge_to = ''file:/c'', ge_kind = ''load'' \<rparr>] \<and>
   sg_edges (evidence_FromSignals
     [bareSignal ''s'' [entityOf ''file'' ''/a'', entityOf ''file'' ''/b->file:/c''],
      bareSignal ''s'' [entityOf ''file'' ''/a->file:/b'', entityOf ''file'' ''/c'']]) =
     [\<lparr> ge_id = ''load:file:/a->file:/b->file:/c'', ge_from = ''file:/a'', ge_to = ''file:/b->file:/c'', ge_kind = ''load'' \<rparr>] \<and>
   ShortestPath (FromSignals
     [bareSignal ''s'' [entityOf ''file'' ''/a'', entityOf ''file'' ''/b->file:/c''],
      bareSignal ''s'' [entityOf ''file'' ''/a->file:/b'', entityOf ''file'' ''/c'']]) ''file:/a->file:/b'' ''file:/c'' =
     Some EvidenceSubgraph_zero"
  by code_simp
end
