(* ===== verification/Analytics.thy ===== *)
theory Analytics
  imports Evidence_Graph
begin

text \<open>
  Cloud analysis: the view of correlated signals (\<^verbatim>\<open>internal/analytics/correlate/correlate.go\<close>),
  the convergence decision (\<^verbatim>\<open>internal/analytics/converge/converge.go\<close>), the baseline of signal
  counts (\<^verbatim>\<open>internal/analytics/rarity/rarity.go\<close>), the incident builder
  (\<^verbatim>\<open>internal/analytics/incident/incident.go\<close>) and the analysis engine
  (\<^verbatim>\<open>internal/analytics/ingest/engine.go\<close>). A scorer is a field of the builder, as in the source;
  the \<^verbatim>\<open>float32\<close> arithmetic of the three scorers is not modelled.
\<close>

section \<open>The detection policy on the wire\<close>

record ConvergeParams =
  cv_mode :: string
  cv_top_k :: uint32
  cv_max_path_hops :: uint32
  cv_additive_risk_threshold :: uint32
  cv_cross_lineage :: bool

record RarityParams =
  ra_cms_width :: uint32
  ra_cms_depth :: uint32
  ra_baseline_window_ns :: uint64

record policyv1_DetectionPolicy =
  pd_endpoint_rules :: "string list"
  pd_cloud_rules :: "string list"
  pd_converge :: "ConvergeParams option"
  pd_rarity :: "RarityParams option"

definition ConvergeParams_zero :: ConvergeParams where
  "ConvergeParams_zero = \<lparr> cv_mode = '''', cv_top_k = 0, cv_max_path_hops = 0, cv_additive_risk_threshold = 0,
     cv_cross_lineage = False \<rparr>"

definition GetConverge :: "policyv1_DetectionPolicy \<Rightarrow> ConvergeParams" where
  "GetConverge policy = (case pd_converge policy of None \<Rightarrow> ConvergeParams_zero | Some c \<Rightarrow> c)"

section \<open>Correlation\<close>

record View =
  vw_ByName :: "(string, Signal list) gomap"
  vw_Labels :: "(string, string) gomap"

definition EndpointRuleEnabled :: "policyv1_DetectionPolicy option \<Rightarrow> string \<Rightarrow> bool" where
  "EndpointRuleEnabled policy name =
     (case policy of None \<Rightarrow> True
      | Some p \<Rightarrow> if length (pd_endpoint_rules p) = 0 then True else list_ex (\<lambda>rule. rule = name) (pd_endpoint_rules p))"

text \<open>Keeping the labels on which a further message agrees; a missing label reads as the empty string.\<close>

definition agreeing :: "(string, string) gomap \<Rightarrow> (string, string) gomap \<Rightarrow> (string, string) gomap" where
  "agreeing common labels = filter (\<lambda>(key, value). get_or '''' labels key = value) common"

definition mergeLabels :: "bool \<times> (string, string) gomap \<Rightarrow> (string, string) gomap \<Rightarrow> bool \<times> (string, string) gomap" where
  "mergeLabels st labels =
     (if length labels = 0 then st else if \<not> fst st then (True, labels) else (True, agreeing (snd st) labels))"

definition commonLabels :: "CanonicalEvent list \<Rightarrow> Signal list \<Rightarrow> (string, string) gomap" where
  "commonLabels events signals =
     snd (foldl mergeLabels (foldl mergeLabels (False, []) (map ev_labels events)) (map sig_labels signals))"

definition addByName :: "policyv1_DetectionPolicy option \<Rightarrow> (string, Signal list) gomap \<Rightarrow> Signal \<Rightarrow> (string, Signal list) gomap" where
  "addByName policy byName sig =
     (if \<not> EndpointRuleEnabled policy (sig_name sig) then byName
      else AList.update (sig_name sig) (get_or [] byName (sig_name sig) @ [sig]) byName)"

definition Build_view :: "CanonicalEvent list \<Rightarrow> Signal list \<Rightarrow> policyv1_DetectionPolicy option \<Rightarrow> View" where
  "Build_view events signals policy =
     \<lparr> vw_ByName = foldl (addByName policy) [] signals, vw_Labels = commonLabels events signals \<rparr>"

definition Has :: "View \<Rightarrow> string \<Rightarrow> bool" where
  "Has v name \<longleftrightarrow> length (get_or [] (vw_ByName v) name) > 0"

definition HasTerminal :: "View \<Rightarrow> string \<Rightarrow> bool" where
  "HasTerminal v name \<longleftrightarrow> list_ex sig_terminal (get_or [] (vw_ByName v) name)"

definition CollectEntities :: "View \<Rightarrow> string list \<Rightarrow> EntityRef list" where
  "CollectEntities v names =
     Unique (concat (map (\<lambda>name. concat (map sig_entities (get_or [] (vw_ByName v) name))) names))"

section \<open>Convergence\<close>

record Decision =
  dc_Incident :: bool
  dc_Method :: string
  dc_Controls :: "string list"

definition hasTerminal :: "Signal list \<Rightarrow> bool" where
  "hasTerminal signals = list_ex sig_terminal signals"

text \<open>A sum over a Go map: addition on 32-bit words does not depend on the order of the range.\<close>

definition additiveRisk :: "(string, Signal list) gomap \<Rightarrow> uint32" where
  "additiveRisk byName = sum_list (map (\<lambda>(name, signals). sum_list (map sig_base_risk signals)) byName)"

definition Decide :: "(string, Signal list) gomap \<Rightarrow> Signal list \<Rightarrow> policyv1_DetectionPolicy option \<Rightarrow> Decision" where
  "Decide byName cloud policy =
     (case policy of
        Some p \<Rightarrow>
          if cv_mode (GetConverge p) = ''additive_threshold'' then
            let threshold = (if cv_additive_risk_threshold (GetConverge p) = 0 then 100 else cv_additive_risk_threshold (GetConverge p))
            in \<lparr> dc_Incident = (additiveRisk byName \<ge> threshold), dc_Method = ''additive_threshold'', dc_Controls = [''additive_threshold''] \<rparr>
          else if hasTerminal (get_or [] byName ''reverse_shell_pattern'') then
            \<lparr> dc_Incident = True, dc_Method = ''rarity+causal-topk'', dc_Controls = [''terminal_reverse_shell''] \<rparr>
          else if list_ex (\<lambda>sig. sig_name sig = ''dropped_payload_executed_and_connects'' \<and> sig_cross_lineage sig) cloud then
            \<lparr> dc_Incident = True, dc_Method = ''rarity+causal-topk'', dc_Controls = [''cross_lineage_payload_connect''] \<rparr>
          else \<lparr> dc_Incident = False, dc_Method = ''rarity+causal-topk'', dc_Controls = [] \<rparr>
      | None \<Rightarrow>
          if hasTerminal (get_or [] byName ''reverse_shell_pattern'') then
            \<lparr> dc_Incident = True, dc_Method = ''rarity+causal-topk'', dc_Controls = [''terminal_reverse_shell''] \<rparr>
          else if list_ex (\<lambda>sig. sig_name sig = ''dropped_payload_executed_and_connects'' \<and> sig_cross_lineage sig) cloud then
            \<lparr> dc_Incident = True, dc_Method = ''rarity+causal-topk'', dc_Controls = [''cross_lineage_payload_connect''] \<rparr>
          else \<lparr> dc_Incident = False, dc_Method = ''rarity+causal-topk'', dc_Controls = [] \<rparr>)"

section \<open>The rarity baseline\<close>

record Baseline =
  WorkloadCounts :: "(string, (string, uint64) gomap) gomap"

definition Baseline_Count :: "Baseline \<Rightarrow> string \<Rightarrow> string \<Rightarrow> uint64" where
  "Baseline_Count b workload signal =
     (if get_or 0 (get_or [] (WorkloadCounts b) workload) signal > 0
      then get_or 0 (get_or [] (WorkloadCounts b) workload) signal
      else get_or 0 (get_or [] (WorkloadCounts b) ''global'') signal)"

definition Baseline_Add :: "string \<Rightarrow> string \<Rightarrow> uint64 \<Rightarrow> Baseline \<Rightarrow> Baseline" where
  "Baseline_Add workload signal n b =
     (let workload = TrimSpace workload; signal = TrimSpace signal;
          workload = (if workload = '''' then ''global'' else workload)
      in if signal = '''' \<or> n = 0 then b
         else let counts = get_or [] (WorkloadCounts b) workload
              in b\<lparr> WorkloadCounts := AList.update workload (AList.update signal (get_or 0 counts signal + n) counts) (WorkloadCounts b) \<rparr>)"

definition signalKey :: "Signal \<Rightarrow> string" where
  "signalKey sig = (let key = TrimSpace (sig_name sig) in if key = '''' then TrimSpace (sig_id sig) else key)"

fun workloadEntity :: "string list \<Rightarrow> EntityRef list \<Rightarrow> string option" where
  "workloadEntity [] entities = None"
| "workloadEntity (kind # kinds) entities =
     (case find (\<lambda>ent. ent_kind ent = kind \<and> ent_key ent \<noteq> '''') entities of
        Some ent \<Rightarrow> Some (kind @ '':'' @ ent_key ent)
      | None \<Rightarrow> workloadEntity kinds entities)"

definition workloadKey :: "Signal \<Rightarrow> string" where
  "workloadKey sig =
     (case workloadEntity [''pod'', ''container'', ''host'', ''user''] (sig_entities sig) of
        Some key \<Rightarrow> key
      | None \<Rightarrow>
          if get_or '''' (sig_labels sig) ''workload'' \<noteq> '''' then ''workload:'' @ get_or '''' (sig_labels sig) ''workload''
          else if get_or '''' (sig_labels sig) ''scenario'' \<noteq> '''' then ''scenario:'' @ get_or '''' (sig_labels sig) ''scenario''
          else ''global'')"

definition Baseline_Observe1 :: "Baseline \<Rightarrow> Signal \<Rightarrow> Baseline" where
  "Baseline_Observe1 b sig =
     (let signal = signalKey sig in
      if signal = '''' then b
      else let workload = workloadKey sig; b = Baseline_Add workload signal 1 b
           in if workload \<noteq> ''global'' then Baseline_Add ''global'' signal 1 b else b)"

definition Baseline_Observe :: "Signal list \<Rightarrow> Baseline \<Rightarrow> Baseline" where
  "Baseline_Observe signals b = foldl Baseline_Observe1 b signals"

section \<open>Incidents\<close>

record ConvergeTrace =
  ct_method :: string
  ct_seed_ids :: "string list"
  ct_path_ids :: "string list"
  ct_score :: float64
  ct_controls :: "string list"

record Incident =
  inc_id :: string
  inc_summary :: string
  inc_severity :: uint32
  inc_mitre :: "string list"
  inc_lineage_ids :: "string list"
  inc_terminals :: "string list"
  inc_evidence :: "EvidenceSubgraph option"
  inc_converge :: "ConvergeTrace option"
  inc_contributing_signals :: "Signal list"
  inc_labels :: "(string, string) gomap"
  inc_tenant_id :: string
  inc_correlation_key :: string
  inc_analysis_version :: string
  inc_first_observed_at :: string
  inc_last_observed_at :: string

record Builder =
  bd_nextID :: uint64
  bd_Scorer :: "Signal list \<Rightarrow> float64"

fun lineageIDs_loop :: "Signal list \<Rightarrow> string list \<Rightarrow> string list" where
  "lineageIDs_loop [] out = out"
| "lineageIDs_loop (sig # signals) out =
     lineageIDs_loop signals (if sig_lineage_id sig \<noteq> '''' \<and> sig_lineage_id sig \<notin> set out then out @ [sig_lineage_id sig] else out)"

definition lineageIDs :: "Signal list \<Rightarrow> string list" where
  "lineageIDs signals = lineageIDs_loop signals []"

definition incidentLabels :: "Signal list \<Rightarrow> (string, string) gomap" where
  "incidentLabels signals =
     (case signals of [] \<Rightarrow> [] | sig # rest \<Rightarrow> foldl agreeing (sig_labels sig) (map sig_labels rest))"

definition terminalEntities :: "Signal list \<Rightarrow> string list" where
  "terminalEntities signals =
     concat (map (\<lambda>sig. map ent_key (filter (\<lambda>ent. ent_kind ent = ''process'') (sig_entities sig))) (filter sig_terminal signals))"

definition Build_incident :: "Signal list \<Rightarrow> Decision \<Rightarrow> Builder \<Rightarrow> Incident \<times> Builder" where
  "Build_incident signals decision b =
     (let b = b\<lparr> bd_nextID := bd_nextID b + 1 \<rparr>
      in (\<lparr> inc_id = counter_id ''inc-'' (bd_nextID b), inc_summary = ''SysArmor detected a causal attack chain'',
            inc_severity = 80, inc_mitre = [], inc_lineage_ids = lineageIDs signals, inc_terminals = terminalEntities signals,
            inc_evidence = Some (evidence_FromSignals signals),
            inc_converge = Some \<lparr> ct_method = dc_Method decision, ct_seed_ids = [], ct_path_ids = [], ct_score = bd_Scorer b signals, ct_controls = dc_Controls decision \<rparr>,
            inc_contributing_signals = signals, inc_labels = incidentLabels signals, inc_tenant_id = '''',
            inc_correlation_key = '''', inc_analysis_version = '''', inc_first_observed_at = '''', inc_last_observed_at = '''' \<rparr>, b))"

section \<open>The analysis engine\<close>

record AnalysisEngine =
  ae_nextSignalID :: uint64
  ae_incidents :: Builder

record AnalysisResult =
  ar_CloudSignals :: "Signal list"
  ar_Incidents :: "Incident list"

definition cloudRuleEnabled :: "policyv1_DetectionPolicy option \<Rightarrow> string \<Rightarrow> bool" where
  "cloudRuleEnabled policy name =
     (case policy of None \<Rightarrow> True
      | Some p \<Rightarrow> if length (pd_cloud_rules p) = 0 then True else list_ex (\<lambda>rule. rule = name) (pd_cloud_rules p))"

definition cloudSignal ::
  "string \<Rightarrow> (string, string) gomap \<Rightarrow> uint32 \<Rightarrow> EntityRef list \<Rightarrow> AnalysisEngine \<Rightarrow> Signal \<times> AnalysisEngine" where
  "cloudSignal name labels risk entities e =
     (let e = e\<lparr> ae_nextSignalID := ae_nextSignalID e + 1 \<rparr>
      in (Signal_zero\<lparr> sig_id := counter_id ''cloud-sig-'' (ae_nextSignalID e), sig_name := name, sig_where := WHERE_CLOUD,
            sig_base_risk := risk, sig_entities := Unique entities, sig_local_rarity := Finite 1, sig_global_rarity := Finite 1, sig_labels := labels \<rparr>, e))"

definition crossLineageEnabled :: "policyv1_DetectionPolicy option \<Rightarrow> bool" where
  "crossLineageEnabled policy =
     (let enabled = (case policy of None \<Rightarrow> True
                     | Some p \<Rightarrow> (case pd_converge p of None \<Rightarrow> True | Some c \<Rightarrow> cv_cross_lineage c))
      in case policy of None \<Rightarrow> enabled
         | Some p \<Rightarrow> (case pd_converge p of None \<Rightarrow> enabled | Some c \<Rightarrow> if cv_mode c = '''' then cv_cross_lineage c else enabled))"

definition payloadSignals :: "View \<Rightarrow> policyv1_DetectionPolicy option \<Rightarrow> AnalysisEngine \<Rightarrow> Signal list \<times> AnalysisEngine" where
  "payloadSignals view policy e =
     (if cloudRuleEnabled policy ''dropped_payload_executed_and_connects'' \<and> Has view ''payload_dropped'' \<and>
         (HasTerminal view ''reverse_shell_pattern'' \<or> (crossLineageEnabled policy \<and> Has view ''suspicious_exec_connect''))
      then let (cs, e) = cloudSignal ''dropped_payload_executed_and_connects'' (vw_Labels view) 80
                           (CollectEntities view [''payload_dropped'', ''reverse_shell_pattern'', ''suspicious_exec_connect'']) e
           in ([cs\<lparr> sig_cross_lineage := (Has view ''suspicious_exec_connect'' \<and> \<not> HasTerminal view ''reverse_shell_pattern'') \<rparr>], e)
      else ([], e))"

definition webShellSignals :: "View \<Rightarrow> policyv1_DetectionPolicy option \<Rightarrow> AnalysisEngine \<Rightarrow> Signal list \<times> AnalysisEngine" where
  "webShellSignals view policy e =
     (if cloudRuleEnabled policy ''web_shell_chain'' \<and> Has view ''web_runtime_spawns_shell'' \<and> HasTerminal view ''reverse_shell_pattern''
      then let (cs, e) = cloudSignal ''web_shell_chain'' (vw_Labels view) 85
                           (CollectEntities view [''web_runtime_spawns_shell'', ''reverse_shell_pattern'']) e
           in ([cs], e)
      else ([], e))"

definition AnalyzeWithPolicy ::
  "CanonicalEvent list \<Rightarrow> Signal list \<Rightarrow> policyv1_DetectionPolicy option \<Rightarrow> AnalysisEngine \<Rightarrow> AnalysisResult \<times> AnalysisEngine" where
  "AnalyzeWithPolicy events signals policy e =
     (let view = Build_view events signals policy;
          (payload, e) = payloadSignals view policy e;
          (webShell, e) = webShellSignals view policy e;
          cloud = payload @ webShell;
          decision = Decide (vw_ByName view) cloud policy
      in if dc_Incident decision
         then let (inc, b) = Build_incident (signals @ cloud) decision (ae_incidents e)
              in (\<lparr> ar_CloudSignals = cloud, ar_Incidents = [inc] \<rparr>, e\<lparr> ae_incidents := b \<rparr>)
         else (\<lparr> ar_CloudSignals = cloud, ar_Incidents = [] \<rparr>, e))"

definition Analyze :: "CanonicalEvent list \<Rightarrow> Signal list \<Rightarrow> AnalysisEngine \<Rightarrow> AnalysisResult \<times> AnalysisEngine" where
  "Analyze events signals e = AnalyzeWithPolicy events signals None e"

section \<open>What an analysis decides\<close>

definition enabledSignals :: "policyv1_DetectionPolicy option \<Rightarrow> Signal list \<Rightarrow> Signal list" where
  "enabledSignals policy signals = filter (\<lambda>s. EndpointRuleEnabled policy (sig_name s)) signals"

lemma byName_result:
  "get_or [] (foldl (addByName policy) m signals) name =
   get_or [] m name @ filter (\<lambda>s. sig_name s = name) (enabledSignals policy signals)"
  by (induction signals arbitrary: m) (auto simp: addByName_def enabledSignals_def)

lemma Build_view_byName:
  "get_or [] (vw_ByName (Build_view events signals policy)) name =
   filter (\<lambda>s. sig_name s = name) (enabledSignals policy signals)"
  by (simp add: Build_view_def byName_result) (simp add: get_or_def)

lemma Has_iff: "Has (Build_view events signals policy) name \<longleftrightarrow> name \<in> set (map sig_name (enabledSignals policy signals))"
  by (auto simp: Has_def Build_view_byName filter_empty_conv)

lemma HasTerminal_iff:
  "HasTerminal (Build_view events signals policy) name \<longleftrightarrow>
   name \<in> set (map sig_name (filter sig_terminal (enabledSignals policy signals)))"
  by (auto simp: HasTerminal_def Build_view_byName list_ex_iff)

lemma additiveRisk_update:
  "wf_map m \<Longrightarrow>
   additiveRisk (AList.update name (get_or [] m name @ [s]) m) = additiveRisk m + sig_base_risk s"
proof (induction m)
  case Nil
  then show ?case by (simp add: additiveRisk_def get_or_def)
next
  case (Cons p m)
  obtain k v where p: "p = (k, v)" by (cases p)
  show ?case
  proof (cases "k = name")
    case True
    with p show ?thesis by (simp add: additiveRisk_def get_or_def algebra_simps)
  next
    case False
    with p Cons show ?thesis by (simp add: additiveRisk_def get_or_def wf_map_def algebra_simps)
  qed
qed

lemma additiveRisk_view:
  "additiveRisk (vw_ByName (Build_view events signals policy)) = sum_list (map sig_base_risk (enabledSignals policy signals))"
proof -
  have "wf_map m \<Longrightarrow> additiveRisk (foldl (addByName policy) m signals) =
      additiveRisk m + sum_list (map sig_base_risk (enabledSignals policy signals))" for m
  proof (induction signals arbitrary: m)
    case Nil
    then show ?case by (simp add: enabledSignals_def)
  next
    case (Cons s signals)
    have "wf_map (addByName policy m s)" using Cons.prems by (simp add: addByName_def)
    from Cons.IH [OF this] Cons.prems show ?case
      by (auto simp: addByName_def enabledSignals_def additiveRisk_update algebra_simps)
  qed
  from this [of "[]"] show ?thesis by (simp add: Build_view_def additiveRisk_def)
qed

lemma unat_sum_list: "unat (sum_list (xs :: uint32 list)) = sum_list (map unat xs) mod 2 ^ 32"
  by (induction xs) (simp_all add: unat_word_ariths mod_add_right_eq)

definition additiveMode :: "policyv1_DetectionPolicy option \<Rightarrow> bool" where
  "additiveMode policy = (case policy of None \<Rightarrow> False | Some p \<Rightarrow> cv_mode (GetConverge p) = ''additive_threshold'')"

definition riskThreshold :: "policyv1_DetectionPolicy option \<Rightarrow> nat" where
  "riskThreshold policy =
     (case policy of None \<Rightarrow> 0
      | Some p \<Rightarrow> if cv_additive_risk_threshold (GetConverge p) = 0 then 100 else unat (cv_additive_risk_threshold (GetConverge p)))"

lemma Decide_incident:
  "dc_Incident (Decide (vw_ByName (Build_view events signals policy)) cloud policy) \<longleftrightarrow>
   (if additiveMode policy
    then riskThreshold policy \<le> sum_list (map (\<lambda>s. unat (sig_base_risk s)) (enabledSignals policy signals)) mod 2 ^ 32
    else HasTerminal (Build_view events signals policy) ''reverse_shell_pattern'' \<or>
      list_ex (\<lambda>sig. sig_name sig = ''dropped_payload_executed_and_connects'' \<and> sig_cross_lineage sig) cloud)"
proof -
  have "unat (additiveRisk (vw_ByName (Build_view events signals policy))) =
      sum_list (map (\<lambda>s. unat (sig_base_risk s)) (enabledSignals policy signals)) mod 2 ^ 32"
    by (simp add: additiveRisk_view unat_sum_list comp_def)
  moreover have "hasTerminal (get_or [] (vw_ByName v) name) = HasTerminal v name" for v name
    by (simp add: hasTerminal_def HasTerminal_def)
  ultimately show ?thesis
    by (cases policy) (simp_all add: Decide_def additiveMode_def riskThreshold_def Let_def word_le_nat_alt)
qed

lemma crossLineageEnabled_simp:
  "crossLineageEnabled policy = (case policy of None \<Rightarrow> True | Some p \<Rightarrow> (case pd_converge p of None \<Rightarrow> True | Some c \<Rightarrow> cv_cross_lineage c))"
  by (simp add: crossLineageEnabled_def Let_def split: option.splits)

definition payloadRule :: "View \<Rightarrow> policyv1_DetectionPolicy option \<Rightarrow> bool" where
  "payloadRule view policy \<longleftrightarrow>
     cloudRuleEnabled policy ''dropped_payload_executed_and_connects'' \<and> Has view ''payload_dropped'' \<and>
     (HasTerminal view ''reverse_shell_pattern'' \<or> (crossLineageEnabled policy \<and> Has view ''suspicious_exec_connect''))"

lemma payloadSignals_names:
  "map (\<lambda>s. (sig_name s, sig_cross_lineage s)) (fst (payloadSignals view policy e)) =
   (if payloadRule view policy
    then [(''dropped_payload_executed_and_connects'', Has view ''suspicious_exec_connect'' \<and> \<not> HasTerminal view ''reverse_shell_pattern'')]
    else [])"
  by (simp add: payloadSignals_def payloadRule_def cloudSignal_def Let_def)

lemma webShellSignals_names:
  "map (\<lambda>s. (sig_name s, sig_cross_lineage s)) (fst (webShellSignals view policy e)) =
   (if cloudRuleEnabled policy ''web_shell_chain'' \<and> Has view ''web_runtime_spawns_shell'' \<and> HasTerminal view ''reverse_shell_pattern''
    then [(''web_shell_chain'', False)] else [])"
  by (simp add: webShellSignals_def cloudSignal_def Let_def Signal_zero_def)

lemma AnalyzeWithPolicy_cloud:
  "map (\<lambda>s. (sig_name s, sig_cross_lineage s)) (ar_CloudSignals (fst (AnalyzeWithPolicy events signals policy e))) =
   (if payloadRule (Build_view events signals policy) policy
    then [(''dropped_payload_executed_and_connects'', Has (Build_view events signals policy) ''suspicious_exec_connect'' \<and>
             \<not> HasTerminal (Build_view events signals policy) ''reverse_shell_pattern'')] else []) @
   (if cloudRuleEnabled policy ''web_shell_chain'' \<and> Has (Build_view events signals policy) ''web_runtime_spawns_shell'' \<and>
       HasTerminal (Build_view events signals policy) ''reverse_shell_pattern''
    then [(''web_shell_chain'', False)] else [])"
  unfolding payloadSignals_names [where e = e, symmetric]
    webShellSignals_names [where e = "snd (payloadSignals (Build_view events signals policy) policy e)", symmetric]
  by (simp add: AnalyzeWithPolicy_def Let_def split_beta)

lemma AnalyzeWithPolicy_crossing:
  "list_ex (\<lambda>sig. sig_name sig = ''dropped_payload_executed_and_connects'' \<and> sig_cross_lineage sig)
     (ar_CloudSignals (fst (AnalyzeWithPolicy events signals policy e))) \<longleftrightarrow>
   payloadRule (Build_view events signals policy) policy \<and> Has (Build_view events signals policy) ''suspicious_exec_connect'' \<and>
   \<not> HasTerminal (Build_view events signals policy) ''reverse_shell_pattern''"
proof -
  have pair: "list_ex (\<lambda>sig. sig_name sig = n \<and> sig_cross_lineage sig) xs \<longleftrightarrow> (n, True) \<in> set (map (\<lambda>s. (sig_name s, sig_cross_lineage s)) xs)"
    for n and xs :: "Signal list"
    by (auto simp: list_ex_iff image_iff)
  show ?thesis unfolding pair AnalyzeWithPolicy_cloud by auto
qed

lemma AnalyzeWithPolicy_incidents:
  "map (\<lambda>inc. (inc_contributing_signals inc, inc_evidence inc)) (ar_Incidents (fst (AnalyzeWithPolicy events signals policy e))) =
   (if dc_Incident (Decide (vw_ByName (Build_view events signals policy))
         (ar_CloudSignals (fst (AnalyzeWithPolicy events signals policy e))) policy)
    then [(signals @ ar_CloudSignals (fst (AnalyzeWithPolicy events signals policy e)),
           Some (evidence_FromSignals (signals @ ar_CloudSignals (fst (AnalyzeWithPolicy events signals policy e)))))]
    else [])"
  by (simp add: AnalyzeWithPolicy_def Let_def split_beta Build_incident_def)

text \<open>
  C29. An analysis emits the cloud signals and incidents its rules name. With \<open>enabled\<close> the
  signals whose rule the policy enables: the payload signal is emitted iff its rule is enabled, a
  dropped payload was seen, and either a terminal reverse shell or, where crossing lineages is
  enabled, a suspicious connection; the chain signal iff a web shell and a terminal reverse shell
  were seen. There is exactly one incident, whose contributing signals are all signals followed by
  the cloud signals and whose evidence graph is built from them, iff: in additive mode, the sum of the
  risks, as a 32-bit number, reaches the threshold; otherwise, iff a terminal reverse shell was
  seen, or a dropped payload and a suspicious connection with both rules and crossing lineages enabled.
\<close>

theorem analysis_raises_incidents:
  "let enabled = enabledSignals policy signals;
       seen = set (map sig_name enabled);
       terminal = set (map sig_name (filter sig_terminal enabled));
       crossing = cloudRuleEnabled policy ''dropped_payload_executed_and_connects'' \<and> crossLineageEnabled policy \<and>
         ''payload_dropped'' \<in> seen \<and> ''suspicious_exec_connect'' \<in> seen;
       res = fst (AnalyzeWithPolicy events signals policy e);
       raised = (if additiveMode policy
                 then riskThreshold policy \<le> sum_list (map (\<lambda>s. unat (sig_base_risk s)) enabled) mod 2 ^ 32
                 else ''reverse_shell_pattern'' \<in> terminal \<or> crossing)
   in map sig_name (ar_CloudSignals res) =
        (if cloudRuleEnabled policy ''dropped_payload_executed_and_connects'' \<and> ''payload_dropped'' \<in> seen \<and>
            (''reverse_shell_pattern'' \<in> terminal \<or> crossing)
         then [''dropped_payload_executed_and_connects''] else []) @
        (if cloudRuleEnabled policy ''web_shell_chain'' \<and> ''web_runtime_spawns_shell'' \<in> seen \<and> ''reverse_shell_pattern'' \<in> terminal
         then [''web_shell_chain''] else []) \<and>
      map (\<lambda>inc. (inc_contributing_signals inc, inc_evidence inc)) (ar_Incidents res) =
        (if raised then [(signals @ ar_CloudSignals res, Some (evidence_FromSignals (signals @ ar_CloudSignals res)))] else [])"
proof -
  have names: "map sig_name xs = map fst (map (\<lambda>s. (sig_name s, sig_cross_lineage s)) xs)" for xs :: "Signal list" by simp
  show ?thesis
    unfolding Let_def AnalyzeWithPolicy_incidents Decide_incident AnalyzeWithPolicy_crossing
      names [of "ar_CloudSignals _"] AnalyzeWithPolicy_cloud payloadRule_def Has_iff HasTerminal_iff
    by auto
qed

lemma additive_incident:
  assumes "additiveMode policy"
  shows "(ar_Incidents (fst (AnalyzeWithPolicy events signals policy e)) \<noteq> []) =
      (riskThreshold policy \<le> sum_list (map (\<lambda>s. unat (sig_base_risk s)) (enabledSignals policy signals)) mod 2 ^ 32)"
  using AnalyzeWithPolicy_incidents [of events signals policy e] assms
  unfolding Decide_incident by (auto split: if_splits)

definition additivePolicy :: policyv1_DetectionPolicy where
  "additivePolicy = \<lparr> pd_endpoint_rules = [], pd_cloud_rules = [],
     pd_converge = Some (ConvergeParams_zero\<lparr> cv_mode := ''additive_threshold'' \<rparr>), pd_rarity = None \<rparr>"

lemma additivePolicy_mode:
  "additiveMode (Some additivePolicy)"
  "riskThreshold (Some additivePolicy) = 100"
  by (simp_all add: additivePolicy_def additiveMode_def riskThreshold_def GetConverge_def ConvergeParams_zero_def)

definition wrappingSignals :: "Signal list" where
  "wrappingSignals = [Signal_zero\<lparr> sig_base_risk := 2147483648 \<rparr>, Signal_zero\<lparr> sig_base_risk := 2147483648 \<rparr>]"

lemma wrappingSignals_risk:
  "sum_list (map (\<lambda>s. unat (sig_base_risk s)) (enabledSignals (Some additivePolicy) wrappingSignals)) = 4294967296"
  by (simp add: enabledSignals_def EndpointRuleEnabled_def additivePolicy_def wrappingSignals_def)

text \<open>
  The additive decision and its bound: while the true sum of the enabled risks is below
  \<open>2 ^ 32\<close> an analysis in additive mode raises an incident iff that sum reaches the threshold.
  Beyond the bound the sum wraps: two signals of risk \<open>2 ^ 31\<close> raise none at the default threshold of 100.
\<close>

theorem additive_decision_bound:
  assumes "additiveMode policy"
    and "sum_list (map (\<lambda>s. unat (sig_base_risk s)) (enabledSignals policy signals)) < 2 ^ 32"
  shows "(ar_Incidents (fst (AnalyzeWithPolicy events signals policy e)) \<noteq> []) =
         (riskThreshold policy \<le> sum_list (map (\<lambda>s. unat (sig_base_risk s)) (enabledSignals policy signals))) \<and>
         ar_Incidents (fst (AnalyzeWithPolicy [] wrappingSignals (Some additivePolicy) e)) = []"
proof
  show "(ar_Incidents (fst (AnalyzeWithPolicy events signals policy e)) \<noteq> []) =
         (riskThreshold policy \<le> sum_list (map (\<lambda>s. unat (sig_base_risk s)) (enabledSignals policy signals)))"
    using additive_incident [OF assms(1)] assms(2) by (metis mod_less)
  show "ar_Incidents (fst (AnalyzeWithPolicy [] wrappingSignals (Some additivePolicy) e)) = []"
    using additive_incident [OF additivePolicy_mode(1), of "[]" wrappingSignals e]
    by (simp add: additivePolicy_mode wrappingSignals_risk)
qed

theorem additive_decision_bound_witness:
  "additiveMode (Some additivePolicy) \<and>
   sum_list (map (\<lambda>s. unat (sig_base_risk s)) (enabledSignals (Some additivePolicy) [Signal_zero\<lparr> sig_base_risk := 120 \<rparr>])) < 2 ^ 32 \<and>
   ar_Incidents (fst (AnalyzeWithPolicy [] [Signal_zero\<lparr> sig_base_risk := 120 \<rparr>] (Some additivePolicy)
     \<lparr> ae_nextSignalID = 0, ae_incidents = \<lparr> bd_nextID = 0, bd_Scorer = (\<lambda>_. Finite 0) \<rparr> \<rparr>)) \<noteq> []"
proof -
  have "sum_list (map (\<lambda>s. unat (sig_base_risk s)) (enabledSignals (Some additivePolicy) [Signal_zero\<lparr> sig_base_risk := 120 \<rparr>])) = 120"
    by (simp add: enabledSignals_def EndpointRuleEnabled_def additivePolicy_def)
  then show ?thesis
    using additive_decision_bound [of "Some additivePolicy" "[Signal_zero\<lparr> sig_base_risk := 120 \<rparr>]" "[]"] additivePolicy_mode by simp
qed

section \<open>What a baseline counts\<close>

definition observedCount :: "Baseline \<Rightarrow> string \<Rightarrow> string \<Rightarrow> uint64" where
  "observedCount b workload signal = get_or 0 (get_or [] (WorkloadCounts b) workload) signal"

definition storedWorkload :: "Signal \<Rightarrow> string" where
  "storedWorkload sig = (let w = TrimSpace (workloadKey sig) in if w = '''' then ''global'' else w)"

lemma observedCount_Add:
  "TrimSpace signal = signal \<Longrightarrow> signal \<noteq> '''' \<Longrightarrow> n \<noteq> 0 \<Longrightarrow>
   observedCount (Baseline_Add workload signal n b) w k =
     observedCount b w k +
       (if w = (if TrimSpace workload = '''' then ''global'' else TrimSpace workload) \<and> k = signal then n else 0)"
  by (auto simp: observedCount_def Baseline_Add_def Let_def)

lemma signalKey_trimmed [simp]: "TrimSpace (signalKey sig) = signalKey sig"
  by (simp add: signalKey_def Let_def)

definition observations :: "string \<Rightarrow> string \<Rightarrow> Signal \<Rightarrow> nat" where
  "observations w k sig =
     (if signalKey sig = k \<and> k \<noteq> ''''
      then (if storedWorkload sig = w then 1 else 0) + (if workloadKey sig \<noteq> ''global'' \<and> w = ''global'' then 1 else 0)
      else 0)"

lemma TrimSpace_global: "TrimSpace ''global'' = ''global''"
  by code_simp

lemma observedCount_Observe1:
  "observedCount (Baseline_Observe1 b sig) w k = observedCount b w k + of_nat (observations w k sig)"
proof (cases "signalKey sig = ''''")
  case True
  then show ?thesis by (auto simp: Baseline_Observe1_def observations_def)
next
  case False
  then show ?thesis
    by (auto simp: Baseline_Observe1_def observations_def storedWorkload_def Let_def observedCount_Add TrimSpace_global)
qed

text \<open>
  Observing signals adds to the baseline, for each of them, one observation of its key under its
  workload and, unless the workload is the global one, one under the global workload; the counts
  are 64-bit numbers.
\<close>

theorem baseline_counts_observations:
  "observedCount (Baseline_Observe signals b) w k =
   observedCount b w k + of_nat (sum_list (map (observations w k) signals))"
  unfolding Baseline_Observe_def
  by (induction signals arbitrary: b) (simp_all add: observedCount_Observe1 algebra_simps)

end
