(* ===== verification/Store_Table.thy ===== *)
theory Store_Table
  imports Go_Prelude
begin

text \<open>
  The tables of the in-memory store (\<^verbatim>\<open>internal/store/store.go\<close>) are slices that every operation
  scans from the front: the first matching row is replaced, or a new row is appended. The two scans
  are functions here, and the interface of a table whose rows have a key is a locale: an
  upsert behaves as an update of the finite map from keys to rows, and keeps the keys distinct.
\<close>

section \<open>Scanning a table\<close>

text \<open>\<open>upsertBy P f x\<close> replaces the first row that satisfies \<open>P\<close> by \<open>f\<close> of it, or appends \<open>x\<close>.\<close>

fun upsertBy :: "('a \<Rightarrow> bool) \<Rightarrow> ('a \<Rightarrow> 'a) \<Rightarrow> 'a \<Rightarrow> 'a list \<Rightarrow> 'a list" where
  "upsertBy P f x [] = [x]"
| "upsertBy P f x (row # rows) = (if P row then f row # rows else row # upsertBy P f x rows)"

text \<open>\<open>updateFirst P f\<close> replaces the first row that satisfies \<open>P\<close>, if there is one.\<close>

fun updateFirst :: "('a \<Rightarrow> bool) \<Rightarrow> ('a \<Rightarrow> 'a) \<Rightarrow> 'a list \<Rightarrow> 'a list" where
  "updateFirst P f [] = []"
| "updateFirst P f (row # rows) = (if P row then f row # rows else row # updateFirst P f rows)"

lemma updateFirst_None: "find P rows = None \<Longrightarrow> updateFirst P f rows = rows"
  by (induction rows) (auto split: if_splits)

lemma upsertBy_Some: "find P rows = Some y \<Longrightarrow> upsertBy P f x rows = updateFirst P f rows"
  by (induction rows) (auto split: if_splits)

lemma upsertBy_None: "find P rows = None \<Longrightarrow> upsertBy P f x rows = rows @ [x]"
  by (induction rows) (auto split: if_splits)

lemma set_updateFirst: "set (updateFirst P f rows) \<subseteq> set rows \<union> {f y | y. find P rows = Some y}"
  by (induction rows) (auto split: if_splits)

lemma set_updateFirst_cases:
  "z \<in> set (updateFirst P f rows) \<Longrightarrow> (z \<in> set rows) \<or> (\<exists>y \<in> set rows. find P rows = Some y \<and> P y \<and> z = f y)"
  by (induction rows) (auto split: if_splits)

lemma set_upsertBy_cases:
  "z \<in> set (upsertBy P f x rows) \<Longrightarrow> z \<in> set rows \<or> z = x \<or> (\<exists>y \<in> set rows. P y \<and> z = f y)"
  by (induction rows) (auto split: if_splits)

lemma map_updateFirst: "(\<And>y. P y \<Longrightarrow> g (f y) = g y) \<Longrightarrow> map g (updateFirst P f rows) = map g rows"
  by (induction rows) auto

lemma length_updateFirst [simp]: "length (updateFirst P f rows) = length rows"
  by (induction rows) auto

lemma find_updateFirst_other:
  "(\<And>y. P y \<Longrightarrow> \<not> Q y) \<Longrightarrow> (\<And>y. P y \<Longrightarrow> \<not> Q (f y)) \<Longrightarrow> find Q (updateFirst P f rows) = find Q rows"
  by (induction rows) auto

lemma find_updateFirst_same:
  "(\<And>y. P y \<Longrightarrow> P (f y)) \<Longrightarrow> find P (updateFirst P f rows) = map_option f (find P rows)"
  by (induction rows) auto

lemma find_in: "find P rows = Some y \<Longrightarrow> y \<in> set rows \<and> P y"
  by (auto simp: find_Some_iff)

lemma find_updateFirst_keep:
  "find Q rows = Some e \<Longrightarrow> find P rows = Some y \<Longrightarrow> y \<noteq> e \<Longrightarrow> \<not> Q (f y) \<Longrightarrow> find Q (updateFirst P f rows) = Some e"
  by (induction rows) (auto split: if_splits)

lemma find_updateFirst_step:
  "find Q rows = Some e \<Longrightarrow> find P rows = Some y \<Longrightarrow> Q (f y) = Q y \<Longrightarrow>
   find Q (updateFirst P f rows) = Some e \<or> y = e \<and> find Q (updateFirst P f rows) = Some (f e)"
  by (induction rows) (auto split: if_splits)

lemma find_append_some: "find Q rows = Some e \<Longrightarrow> find Q (rows @ xs) = Some e"
  by (induction rows) (auto split: if_splits)

lemma find_snoc: "find P (xs @ [x]) = (case find P xs of Some y \<Rightarrow> Some y | None \<Rightarrow> if P x then Some x else None)"
  by (induction xs) auto

section \<open>Tables with keys\<close>

definition row :: "('a \<Rightarrow> 'k) \<Rightarrow> 'a list \<Rightarrow> 'k \<Rightarrow> 'a option" where
  "row key rows k = find (\<lambda>r. key r = k) rows"

lemma updateFirst_row:
  assumes "distinct (map key rows)" and "\<And>r. key (f r) = key r" and "\<And>r. P r \<Longrightarrow> key r = i"
  shows "row key (updateFirst P f rows) k = (if k = i then map_option (\<lambda>r. if P r then f r else r) (row key rows k) else row key rows k)"
  using assms(1)
proof (induction rows)
  case Nil
  then show ?case by (simp add: row_def)
next
  case (Cons r rows)
  have "row key rows (key r) = None" using Cons.prems by (auto simp: row_def find_None_iff) (metis image_eqI)
  then show ?case using Cons assms(2,3) by (auto simp: row_def)
qed

text \<open>
  \<open>merge new old\<close> is the row an upsert of \<open>new\<close> stores where \<open>old\<close> was; it has the key of both.
\<close>

locale keyed_table =
  fixes key :: "'a \<Rightarrow> 'k"
    and merge :: "'a \<Rightarrow> 'a \<Rightarrow> 'a"
  assumes merge_key: "key old = key new \<Longrightarrow> key (merge new old) = key new"
begin

lemma upsert_keys:
  "map key (upsertBy (\<lambda>r. key r = key x) (merge x) x rows) =
   (if key x \<in> set (map key rows) then map key rows else map key rows @ [key x])"
  by (induction rows) (auto simp: merge_key)

lemma upsert_distinct:
  "distinct (map key rows) \<Longrightarrow> distinct (map key (upsertBy (\<lambda>r. key r = key x) (merge x) x rows))"
  by (simp add: upsert_keys del: set_map)

lemma upsert_row:
  "row key (upsertBy (\<lambda>r. key r = key x) (merge x) x rows) =
   (row key rows)(key x \<mapsto> (case row key rows (key x) of None \<Rightarrow> x | Some old \<Rightarrow> merge x old))"
proof
  fix k
  show "row key (upsertBy (\<lambda>r. key r = key x) (merge x) x rows) k =
    ((row key rows)(key x \<mapsto> (case row key rows (key x) of None \<Rightarrow> x | Some old \<Rightarrow> merge x old))) k"
    by (induction rows) (auto simp: row_def merge_key)
qed

lemma row_key: "row key rows k = Some r \<Longrightarrow> key r = k \<and> r \<in> set rows"
  by (auto simp: row_def find_Some_iff)

lemma row_of_member: "distinct (map key rows) \<Longrightarrow> r \<in> set rows \<Longrightarrow> row key rows (key r) = Some r"
  by (induction rows) (auto simp: row_def)

end

end
