(* ===== verification/Response_Model.thy ===== *)
theory Response_Model
  imports Data_Model Store_Table
begin

text \<open>
  Response commands (\<^verbatim>\<open>internal/response/model.go\<close>): normalisation, validation against a response
  policy, the approval requirements of a policy and the counting of approvals, scopes, and the
  conversion to and from what a sensor enforces. What \<^verbatim>\<open>time.Now\<close> returns is an argument.
\<close>

record ResponsePolicy =
  rp_AllowedActions :: "string list"
  rp_AllowedModes :: "string list"
  rp_ApprovalRequired :: bool
  rp_ApprovalThreshold :: uint32
  rp_ApprovalRoles :: "string list"
  rp_AllowDestructive :: bool

record ResponseDecision =
  rd_Allowed :: bool
  rd_Reason :: string

record Scope =
  sc_Type :: string
  sc_Selector :: string

record Approval =
  ap_Actor :: string
  ap_Role :: string
  ap_Approved :: bool
  ap_Reason :: string
  ap_ObservedAt :: time

record Command =
  cmd_ResponseID :: string
  cmd_TenantID :: string
  cmd_AgentID :: string
  cmd_PolicyID :: string
  cmd_PolicyVersion :: uint64
  cmd_SignalID :: string
  cmd_Labels :: "(string, string) gomap"
  cmd_Scope :: Scope
  cmd_Action :: string
  cmd_Mode :: string
  cmd_Target :: string
  cmd_Reason :: string
  cmd_Status :: string
  cmd_Actor :: string
  cmd_ApprovalRequired :: bool
  cmd_ApprovalStatus :: string
  cmd_ApprovalThreshold :: uint32
  cmd_ApprovalRoles :: "string list"
  cmd_Approvals :: "Approval list"
  cmd_ApprovedBy :: string
  cmd_ApprovedAt :: time
  cmd_CreatedAt :: time
  cmd_UpdatedAt :: time

record Ack =
  rk_ResponseID :: string
  rk_TenantID :: string
  rk_AgentID :: string
  rk_Accepted :: bool
  rk_Unsupported :: bool
  rk_ObserveOnly :: bool
  rk_Executed :: bool
  rk_Message :: string
  rk_ObservedAt :: time

record EnforcementCmd =
  ec_ID :: string
  ec_Action :: string
  ec_Target :: string
  ec_ObserveOnly :: bool
  ec_Reason :: string

record EnforcementAck =
  ea_ID :: string
  ea_Accepted :: bool
  ea_Unsupported :: bool
  ea_ObserveOnly :: bool
  ea_Message :: string

definition DefaultMode :: string where
  "DefaultMode = ''observe''"

text \<open>\<^verbatim>\<open>fmt.Sprintf("%d", n)\<close> of a signed number.\<close>

definition fmt_d :: "int \<Rightarrow> string" where
  "fmt_d n = (if n < 0 then CHR ''-'' # digits (nat (- n)) else digits (nat n))"

definition NormalizeCommand :: "time \<Rightarrow> Command \<Rightarrow> Command" where
  "NormalizeCommand now cmd =
     (let cmd = (if cmd_TenantID cmd = '''' then cmd\<lparr> cmd_TenantID := ''default'' \<rparr> else cmd);
          cmd = (if cmd_Mode cmd = '''' then cmd\<lparr> cmd_Mode := DefaultMode \<rparr> else cmd);
          cmd = (if cmd_Action cmd = '''' then cmd\<lparr> cmd_Action := ''collect'' \<rparr> else cmd);
          cmd = (if cmd_Status cmd = '''' then cmd\<lparr> cmd_Status := ''pending'' \<rparr> else cmd);
          cmd = (if cmd_CreatedAt cmd = 0 then cmd\<lparr> cmd_CreatedAt := now \<rparr> else cmd);
          cmd = cmd\<lparr> cmd_UpdatedAt := now \<rparr>
      in if cmd_ResponseID cmd = '''' then cmd\<lparr> cmd_ResponseID := ''resp-'' @ fmt_d (UnixNano now) \<rparr> else cmd)"

definition DefaultPolicy_response :: ResponsePolicy where
  "DefaultPolicy_response =
     \<lparr> rp_AllowedActions = [''collect'', ''noop''], rp_AllowedModes = [DefaultMode], rp_ApprovalRequired = False,
       rp_ApprovalThreshold = 0, rp_ApprovalRoles = [], rp_AllowDestructive = False \<rparr>"

definition containsTrimmed :: "string list \<Rightarrow> string \<Rightarrow> bool" where
  "containsTrimmed vals want = list_ex (\<lambda>value. TrimSpace value = TrimSpace want) vals"

definition isDestructiveAction :: "string \<Rightarrow> bool" where
  "isDestructiveAction action = (TrimSpace action \<in> set [''kill'', ''block'', ''quarantine''])"

definition allowed :: ResponseDecision where
  "allowed = \<lparr> rd_Allowed = True, rd_Reason = '''' \<rparr>"

definition deniedFor :: "string \<Rightarrow> ResponseDecision" where
  "deniedFor reason = \<lparr> rd_Allowed = False, rd_Reason = reason \<rparr>"

definition ValidateCommandWithPolicy :: "Command \<Rightarrow> ResponsePolicy \<Rightarrow> ResponseDecision" where
  "ValidateCommandWithPolicy cmd policy =
     (let mode = TrimSpace (cmd_Mode cmd);
          mode = (if mode = '''' then DefaultMode else mode);
          modes = (if length (rp_AllowedModes policy) = 0 then [DefaultMode] else rp_AllowedModes policy)
      in if \<not> containsTrimmed modes mode then deniedFor ''response mode is not allowed by policy''
         else
           let action = TrimSpace (cmd_Action cmd);
               action = (if action = '''' then ''collect'' else action)
           in if isDestructiveAction action \<and> \<not> rp_AllowDestructive policy
              then deniedFor ''destructive response action requires explicit policy approval''
              else
                let actions = (if length (rp_AllowedActions policy) = 0 then [''collect'', ''noop''] else rp_AllowedActions policy)
                in if \<not> containsTrimmed actions action then deniedFor ''response action is not allowed by policy''
                   else allowed)"

definition ValidateCommand :: "Command \<Rightarrow> ResponseDecision" where
  "ValidateCommand cmd = ValidateCommandWithPolicy cmd DefaultPolicy_response"

definition ApplyPolicyRequirements :: "Command \<Rightarrow> ResponsePolicy \<Rightarrow> Command" where
  "ApplyPolicyRequirements cmd policy =
     (if rp_ApprovalRequired policy then
        let cmd = cmd\<lparr> cmd_ApprovalRequired := True \<rparr>;
            cmd = (if rp_ApprovalThreshold policy > 0 then cmd\<lparr> cmd_ApprovalThreshold := rp_ApprovalThreshold policy \<rparr> else cmd)
        in if length (rp_ApprovalRoles policy) > 0 then cmd\<lparr> cmd_ApprovalRoles := rp_ApprovalRoles policy \<rparr> else cmd
      else cmd)"

definition ApprovalThreshold :: "Command \<Rightarrow> uint32" where
  "ApprovalThreshold cmd = (if cmd_ApprovalThreshold cmd = 0 then 1 else cmd_ApprovalThreshold cmd)"

definition ApprovalRoleAllowed :: "Command \<Rightarrow> string \<Rightarrow> bool" where
  "ApprovalRoleAllowed cmd role =
     (if length (cmd_ApprovalRoles cmd) = 0 then True
      else let role = TrimSpace role in
        if role = ''admin'' then True else containsTrimmed (cmd_ApprovalRoles cmd) role)"

definition approvalKey :: "Approval \<Rightarrow> uint32 \<Rightarrow> string" where
  "approvalKey approval n =
     (let key = TrimSpace (ap_Actor approval);
          key = (if key = '''' then TrimSpace (ap_Role approval) else key)
      in if key = '''' then ''approval-'' @ digits (unat (n + 1)) else key)"

fun ApprovalCount_loop :: "Command \<Rightarrow> Approval list \<Rightarrow> string list \<Rightarrow> uint32 \<Rightarrow> uint32" where
  "ApprovalCount_loop cmd [] seen n = n"
| "ApprovalCount_loop cmd (approval # approvals) seen n =
     (if \<not> ap_Approved approval then ApprovalCount_loop cmd approvals seen n
      else if \<not> ApprovalRoleAllowed cmd (ap_Role approval) then ApprovalCount_loop cmd approvals seen n
      else let key = approvalKey approval n in
        if key \<in> set seen then ApprovalCount_loop cmd approvals seen n
        else ApprovalCount_loop cmd approvals (key # seen) (n + 1))"

definition ApprovalCount :: "Command \<Rightarrow> uint32" where
  "ApprovalCount cmd = ApprovalCount_loop cmd (cmd_Approvals cmd) [] 0"

definition ScopeDecision :: "Scope \<Rightarrow> Scope \<Rightarrow> bool \<Rightarrow> ResponseDecision" where
  "ScopeDecision command runtime runtimeKnown =
     (let ct = TrimSpace (sc_Type command); cs = TrimSpace (sc_Selector command);
          rt = TrimSpace (sc_Type runtime); rs = TrimSpace (sc_Selector runtime)
      in if ct = '''' \<and> cs = '''' then allowed
         else if \<not> runtimeKnown \<or> rt = '''' then deniedFor ''agent runtime scope is required for scoped response command''
         else if ct \<noteq> rt \<or> cs \<noteq> rs then deniedFor ''response command scope does not match agent runtime scope''
         else allowed)"

definition ToEnforcement :: "Command \<Rightarrow> EnforcementCmd" where
  "ToEnforcement cmd =
     \<lparr> ec_ID = cmd_ResponseID cmd, ec_Action = cmd_Action cmd, ec_Target = cmd_Target cmd,
       ec_ObserveOnly = (cmd_Mode cmd \<noteq> ''enforce''), ec_Reason = cmd_Reason cmd \<rparr>"

definition FromEnforcementAck :: "time \<Rightarrow> Command \<Rightarrow> EnforcementAck \<Rightarrow> Ack" where
  "FromEnforcementAck now cmd ack =
     \<lparr> rk_ResponseID = cmd_ResponseID cmd, rk_TenantID = cmd_TenantID cmd, rk_AgentID = cmd_AgentID cmd,
       rk_Accepted = ea_Accepted ack, rk_Unsupported = ea_Unsupported ack, rk_ObserveOnly = ea_ObserveOnly ack,
       rk_Executed = (ea_Accepted ack \<and> \<not> ea_ObserveOnly ack \<and> \<not> ea_Unsupported ack),
       rk_Message = ea_Message ack, rk_ObservedAt = now \<rparr>"

section \<open>What the approvals of a command add up to\<close>

definition approvers :: "Command \<Rightarrow> Approval list \<Rightarrow> string set" where
  "approvers cmd approvals =
     {TrimSpace (ap_Actor a) | a. a \<in> set approvals \<and> ap_Approved a \<and> ApprovalRoleAllowed cmd (ap_Role a)}"

definition named :: "Approval list \<Rightarrow> bool" where
  "named approvals = list_all (\<lambda>a. TrimSpace (ap_Actor a) \<noteq> '''') approvals"

lemma approvalKey_named: "TrimSpace (ap_Actor a) \<noteq> '''' \<Longrightarrow> approvalKey a n = TrimSpace (ap_Actor a)"
  by (simp add: approvalKey_def Let_def)

lemma finite_approvers [simp]: "finite (approvers cmd approvals)"
  by (simp add: approvers_def)

lemma approvers_Cons:
  "approvers cmd (a # as) =
   (if ap_Approved a \<and> ApprovalRoleAllowed cmd (ap_Role a) then insert (TrimSpace (ap_Actor a)) (approvers cmd as) else approvers cmd as)"
  by (auto simp: approvers_def)

lemma ApprovalCount_loop_named:
  "named approvals \<Longrightarrow>
   ApprovalCount_loop cmd approvals seen n = n + of_nat (card (approvers cmd approvals - set seen))"
proof (induction approvals arbitrary: seen n)
  case Nil
  then show ?case by (simp add: approvers_def)
next
  case (Cons a as)
  then have a: "TrimSpace (ap_Actor a) \<noteq> ''''" and as: "named as" by (simp_all add: named_def)
  let ?k = "TrimSpace (ap_Actor a)"
  show ?case
  proof (cases "ap_Approved a \<and> ApprovalRoleAllowed cmd (ap_Role a) \<and> ?k \<notin> set seen")
    case True
    have "card (insert ?k (approvers cmd as) - set seen) = Suc (card (approvers cmd as - set (?k # seen)))"
    proof -
      have "insert ?k (approvers cmd as) - set seen = insert ?k (approvers cmd as - set (?k # seen))" using True by auto
      then show ?thesis by simp
    qed
    then show ?thesis
      using True Cons.IH [OF as, of "?k # seen" "n + 1"]
      by (simp add: approvalKey_named [OF a] approvers_Cons algebra_simps)
  next
    case False
    then show ?thesis
      using Cons.IH [OF as] by (auto simp: approvalKey_named [OF a] approvers_Cons insert_absorb insert_Diff_if)
  qed
qed

lemma ApprovalCount_named: "named (cmd_Approvals cmd) \<Longrightarrow> ApprovalCount cmd = of_nat (card (approvers cmd (cmd_Approvals cmd)))"
  by (simp add: ApprovalCount_def ApprovalCount_loop_named)

lemma threshold_reached:
  "named (cmd_Approvals cmd) \<Longrightarrow> ApprovalThreshold cmd \<le> ApprovalCount cmd \<Longrightarrow>
   unat (ApprovalThreshold cmd) \<le> card (approvers cmd (cmd_Approvals cmd))"
  by (simp add: ApprovalCount_named word_le_nat_alt unat_of_nat)

end
