(* ===== verification/Policy_Model.thy ===== *)
theory Policy_Model
  imports Detect_Policy Analytics Response_Model "HOL-Library.Char_ord" "HOL-Library.List_Lexorder" "HOL-Library.Product_Lexorder"
begin

text \<open>
  The policies the cloud manages (\<^verbatim>\<open>internal/policy/model.go\<close>): rule contents, policies, their
  assignments and audit records, the default policy, normalisation, and the views of a policy that
  the endpoint and the analysis read. JSON encoding is not modelled.
\<close>

definition DefaultPolicyID :: string where
  "DefaultPolicyID = ''default-edr-policy''"

definition DefaultPolicyVersion :: uint64 where
  "DefaultPolicyVersion = 1"

record RuleContent =
  rc_RuleID :: string
  rc_Version :: uint64
  rc_Enabled :: bool
  rc_Where :: string
  rc_Severity :: string
  rc_Tags :: "string list"
  rc_MITRE :: "string list"
  rc_ResponseIntent :: string

record TelemetryPolicy =
  tp_MaxBatchItems :: int
  tp_MaxBatchBytes :: int
  tp_FlushInterval :: string

record FileSelector =
  fsel_Prefixes :: "string list"
  fsel_PrefixRefs :: "string list"

record SocketSelector =
  ssel_Families :: "string list"
  ssel_Addrs :: "string list"
  ssel_AddrRefs :: "string list"
  ssel_Ports :: "string list"
  ssel_PortRefs :: "string list"

record CollectionBehaviorSelectors =
  cbs_BinaryPrefixes :: "string list"
  cbs_ProcessBinaryPrefixes :: "string list"
  cbs_File :: FileSelector
  cbs_Socket :: SocketSelector

record CollectionBehaviorPolicy =
  cbp_ID :: string
  cbp_Enabled :: "bool option"
  cbp_Selectors :: CollectionBehaviorSelectors

record CollectionPolicy =
  cp_PolicyID :: string
  cp_Version :: uint64
  cp_Behaviors :: "string list"
  cp_BehaviorSpecs :: "CollectionBehaviorPolicy list"
  cp_BinaryPrefixes :: "string list"
  cp_FilePrefixes :: "string list"
  cp_SocketFamilies :: "string list"
  cp_SocketAddrs :: "string list"
  cp_SocketPorts :: "string list"
  cp_ScopeType :: string
  cp_ScopeSelector :: string
  cp_ObserveOnly :: bool

record Policy =
  p_PolicyID :: string
  p_Version :: uint64
  p_TenantID :: string
  p_Scope :: ScopeSelector
  p_Detection :: "DetectionPolicy option"
  p_Telemetry :: "TelemetryPolicy option"
  p_Collection :: "CollectionPolicy option"
  p_EndpointRules :: "string list"
  p_CloudRules :: "string list"
  p_Mode :: string
  p_Converge :: "ConvergeParams option"
  p_Rarity :: "RarityParams option"
  p_Response :: ResponsePolicy
  p_Published :: bool
  p_CreatedAt :: time
  p_UpdatedAt :: time

record EndpointPolicy =
  epol_PolicyID :: string
  epol_Version :: uint64
  epol_Collection :: CollectionPolicy
  epol_Detection :: DetectionPolicy
  epol_Telemetry :: TelemetryPolicy
  epol_Response :: ResponsePolicy

record Assignment =
  as_AssignmentID :: string
  as_TenantID :: string
  as_AgentID :: string
  as_Scope :: ScopeSelector
  as_PolicyID :: string
  as_PolicyVersion :: uint64
  as_CreatedAt :: time
  as_UpdatedAt :: time

record AuditRecord =
  au_AuditID :: string
  au_TenantID :: string
  au_Action :: string
  au_PolicyID :: string
  au_PolicyVersion :: uint64
  au_AssignmentID :: string
  au_Actor :: string
  au_Status :: string
  au_Reason :: string
  au_CreatedAt :: time

definition ruleContent :: "string \<Rightarrow> string \<Rightarrow> string \<Rightarrow> string list \<Rightarrow> string list \<Rightarrow> string \<Rightarrow> RuleContent" where
  "ruleContent ruleID layer severity tags mitre intent =
     \<lparr> rc_RuleID = ruleID, rc_Version = 1, rc_Enabled = True, rc_Where = layer, rc_Severity = severity, rc_Tags = tags,
       rc_MITRE = mitre, rc_ResponseIntent = intent \<rparr>"

definition DefaultRules :: "RuleContent list" where
  "DefaultRules =
    [ruleContent ''web_runtime_spawns_shell'' ''endpoint'' ''high'' [''process'', ''web''] [''T1059''] '''',
     ruleContent ''download_by_lolbin'' ''endpoint'' ''medium'' [''download''] [''T1105''] '''',
     ruleContent ''payload_dropped'' ''endpoint'' ''high'' [''file'', ''drop''] [''T1105''] '''',
     ruleContent ''reverse_shell_pattern'' ''endpoint'' ''critical'' [''c2''] [''T1571''] ''collect'',
     ruleContent ''suspicious_exec_connect'' ''endpoint'' ''high'' [''exec'', ''network''] [''T1574''] '''',
     ruleContent ''payload_lifecycle'' ''endpoint'' ''high'' [''chain'', ''evidence''] [''T1105'', ''T1574''] '''',
     ruleContent ''dropped_payload_executed_and_connects'' ''cloud'' ''critical'' [''graph'', ''cross-lineage''] [''T1105'', ''T1574''] ''collect'',
     ruleContent ''web_shell_chain'' ''cloud'' ''critical'' [''web'', ''c2''] [''T1190'', ''T1059'', ''T1571''] ''collect'']"

definition DefaultConverge :: ConvergeParams where
  "DefaultConverge = ConvergeParams_zero\<lparr> cv_mode := ''rarity_structural'', cv_cross_lineage := True, cv_top_k := 8, cv_max_path_hops := 6 \<rparr>"

definition ResponsePolicy_zero :: ResponsePolicy where
  "ResponsePolicy_zero = \<lparr> rp_AllowedActions = [], rp_AllowedModes = [], rp_ApprovalRequired = False,
     rp_ApprovalThreshold = 0, rp_ApprovalRoles = [], rp_AllowDestructive = False \<rparr>"

definition Policy_zero :: Policy where
  "Policy_zero = \<lparr> p_PolicyID = '''', p_Version = 0, p_TenantID = '''', p_Scope = \<lparr> sel_Type = '''', sel_Selector = '''' \<rparr>,
     p_Detection = None, p_Telemetry = None, p_Collection = None, p_EndpointRules = [], p_CloudRules = [], p_Mode = '''',
     p_Converge = None, p_Rarity = None, p_Response = ResponsePolicy_zero, p_Published = False, p_CreatedAt = 0, p_UpdatedAt = 0 \<rparr>"

definition DefaultPolicy :: "string \<Rightarrow> Policy" where
  "DefaultPolicy tenantID =
     Policy_zero\<lparr> p_PolicyID := DefaultPolicyID, p_Version := DefaultPolicyVersion,
       p_TenantID := (if tenantID = '''' then ''default'' else tenantID), p_Detection := Some DefaultDetectionPolicy,
       p_CloudRules := [''dropped_payload_executed_and_connects'', ''web_shell_chain''], p_Mode := ''observe'',
       p_Converge := Some DefaultConverge, p_Response := DefaultPolicy_response, p_Published := True \<rparr>"

definition Normalize_policy :: "time \<Rightarrow> Policy \<Rightarrow> Policy" where
  "Normalize_policy now policy =
     (let policy = (if p_TenantID policy = '''' then policy\<lparr> p_TenantID := ''default'' \<rparr> else policy);
          policy = (if p_Version policy = 0 then policy\<lparr> p_Version := 1 \<rparr> else policy);
          policy = (if p_Mode policy = '''' then policy\<lparr> p_Mode := ''observe'' \<rparr> else policy);
          detection = (case p_Detection policy of None \<Rightarrow> DefaultDetectionPolicy | Some d \<Rightarrow> d);
          policy = policy\<lparr> p_Detection := Some (NormalizeDetectionPolicy detection) \<rparr>;
          policy = (if p_Converge policy = None then policy\<lparr> p_Converge := Some DefaultConverge \<rparr> else policy);
          policy = (if length (rp_AllowedActions (p_Response policy)) = 0 \<and> length (rp_AllowedModes (p_Response policy)) = 0
                    then policy\<lparr> p_Response := DefaultPolicy_response \<rparr> else policy);
          policy = (if p_CreatedAt policy = 0 then policy\<lparr> p_CreatedAt := now \<rparr> else policy)
      in policy\<lparr> p_UpdatedAt := now \<rparr>)"

definition EndpointPolicy_of :: "time \<Rightarrow> Policy \<Rightarrow> EndpointPolicy" where
  "EndpointPolicy_of now p =
     (let normalized = Normalize_policy now p;
          collection = (case p_Collection normalized of
             None \<Rightarrow> \<lparr> cp_PolicyID = '''', cp_Version = 0,
                 cp_Behaviors = [''process.exec'', ''process.exit'', ''process.fork'', ''file.read'', ''file.write'', ''network.connect''],
                 cp_BehaviorSpecs = [], cp_BinaryPrefixes = [], cp_FilePrefixes = [], cp_SocketFamilies = [], cp_SocketAddrs = [],
                 cp_SocketPorts = [], cp_ScopeType = '''', cp_ScopeSelector = '''', cp_ObserveOnly = True \<rparr>
           | Some c \<Rightarrow> c);
          telemetry = (case p_Telemetry normalized of
             None \<Rightarrow> \<lparr> tp_MaxBatchItems = 256, tp_MaxBatchBytes = 256 * 1024, tp_FlushInterval = ''1s'' \<rparr>
           | Some t \<Rightarrow> t)
      in \<lparr> epol_PolicyID = p_PolicyID normalized, epol_Version = p_Version normalized, epol_Collection = collection,
           epol_Detection = (case p_Detection normalized of None \<Rightarrow> DefaultDetectionPolicy | Some d \<Rightarrow> d),
           epol_Telemetry = telemetry, epol_Response = p_Response normalized \<rparr>)"

definition DetectionPolicy_of :: "Policy \<Rightarrow> policyv1_DetectionPolicy" where
  "DetectionPolicy_of p =
     \<lparr> pd_endpoint_rules = p_EndpointRules p, pd_cloud_rules = p_CloudRules p, pd_converge = p_Converge p, pd_rarity = p_Rarity p \<rparr>"

definition RuleIDs :: "RuleContent list \<Rightarrow> string \<Rightarrow> string list" where
  "RuleIDs rules layer =
     sort (map rc_RuleID (filter (\<lambda>rule. rc_Enabled rule \<and> (layer = '''' \<or> rc_Where rule = layer)) rules))"

section \<open>Normalisation\<close>

lemma Normalize_policy_fields [simp]:
  "p_PolicyID (Normalize_policy now p) = p_PolicyID p"
  "p_TenantID (Normalize_policy now p) = (if p_TenantID p = '''' then ''default'' else p_TenantID p)"
  "p_Version (Normalize_policy now p) = (if p_Version p = 0 then 1 else p_Version p)"
  "p_Published (Normalize_policy now p) = p_Published p"
  by (simp_all add: Normalize_policy_def Let_def)

lemma Normalize_policy_detection: "p_Detection (Normalize_policy now p) \<noteq> None"
  by (simp add: Normalize_policy_def Let_def)

lemma Normalize_policy_response:
  "p_Response (Normalize_policy now p) =
   (if rp_AllowedActions (p_Response p) = [] \<and> rp_AllowedModes (p_Response p) = [] then DefaultPolicy_response else p_Response p)"
  by (simp add: Normalize_policy_def Let_def)

end
