(* ===== verification/Cloud_Store.thy ===== *)
theory Cloud_Store
  imports Policy_Model Store_Table
begin

text \<open>
  The state of the cloud store (\<^verbatim>\<open>internal/store/store.go\<close>, \<^verbatim>\<open>agent.go\<close>) and of the control model
  (\<^verbatim>\<open>internal/controlmodel/model.go\<close>). The store is modelled without a relational backend, the
  configuration that \<^verbatim>\<open>backend.go\<close> calls a pure in-memory or file store: every operation then works
  on the tables below, under the store's lock, so each is a function of the state. \<open>hash\<close> stands for
  the hexadecimal form of the first 16 bytes of a SHA-256 sum.
\<close>

section \<open>The control model\<close>

record ControlCommand =
  cc_CommandID :: string
  cc_TenantID :: string
  cc_AgentID :: string
  cc_Type :: string
  cc_Status :: string
  cc_PolicyID :: string
  cc_PolicyVersion :: uint64
  cc_ContentRef :: string
  cc_ContentKind :: string
  cc_ContentVersion :: string
  cc_PayloadJSON :: string
  cc_Actor :: string
  cc_Reason :: string
  cc_CreatedAt :: time
  cc_UpdatedAt :: time
  cc_SentAt :: time
  cc_LastSentAt :: time
  cc_AckedAt :: time
  cc_CanceledAt :: time
  cc_ExpiredAt :: time
  cc_AttemptCount :: uint32
  cc_AckStatus :: string
  cc_AckMessage :: string
  cc_AckPolicyID :: string
  cc_AckPolicyVer :: uint64
  cc_AckReportJSON :: string
  cc_Error :: string

record ControlCommandAck =
  ck_CommandID :: string
  ck_TenantID :: string
  ck_AgentID :: string
  ck_Status :: string
  ck_Message :: string
  ck_PolicyID :: string
  ck_PolicyVersion :: uint64
  ck_ReportJSON :: string
  ck_ObservedAt :: time

record EvidencePullbackRequest =
  pb_RequestID :: string
  pb_TenantID :: string
  pb_AgentID :: string
  pb_IncidentID :: string
  pb_Labels :: "(string, string) gomap"
  pb_Target :: string
  pb_Reason :: string
  pb_Status :: string
  pb_ResultOK :: bool
  pb_Result :: string
  pb_Actor :: string
  pb_CreatedAt :: time
  pb_UpdatedAt :: time
  pb_CompletedAt :: time

record EvidencePullbackResult =
  pr_RequestID :: string
  pr_TenantID :: string
  pr_AgentID :: string
  pr_OK :: bool
  pr_Message :: string
  pr_Evidence :: string
  pr_ObservedAt :: time

section \<open>Rows of the store\<close>

record AgentIdentity =
  ai_AgentID :: string
  ai_HostID :: string
  ai_Version :: string
  ai_TenantID :: string
  ai_AuthType :: string
  ai_CertIdentity :: string

text \<open>The reports nested in a health message, which no operation of the store reads, are left out.\<close>

record AgentHealth =
  ah_AgentID :: string
  ah_HostID :: string
  ah_TenantID :: string
  ah_Scope :: Scope
  ah_Status :: string
  ah_PolicyID :: string
  ah_PolicyVersion :: uint64
  ah_PolicyMode :: string
  ah_UptimeSeconds :: int
  ah_ObservedAt :: time

record AgentSession =
  se_SessionID :: string
  se_TenantID :: string
  se_AgentID :: string
  se_StartedAt :: time
  se_LastSeenAt :: time
  se_LastDataSeenAt :: time
  se_LastControlSeenAt :: time
  se_ClosedAt :: time
  se_LastAckCursor :: string
  se_DataTransport :: string
  se_ControlTransport :: string
  se_Status :: string

record Enrollment =
  en_EnrollmentID :: string
  en_TenantID :: string
  en_AgentID :: string
  en_HostID :: string
  en_TokenHash :: string
  en_TokenPreview :: string
  en_BootstrapTokenHash :: string
  en_BootstrapTokenPreview :: string
  en_BootstrapFetchedAt :: time
  en_GatewayAddr :: string
  en_GatewaySNI :: string
  en_Profile :: string
  en_Channel :: string
  en_ArtifactID :: string
  en_ArtifactSHA256 :: string
  en_ArtifactURL :: string
  en_Labels :: "(string, string) gomap"
  en_Status :: string
  en_CreatedAt :: time
  en_ExpiresAt :: time
  en_CreatedBy :: string
  en_UsedAt :: time
  en_IssuedKeySHA256 :: string
  en_IssuedCertificatePEM :: string
  en_IssuedCAPEM :: string
  en_IssuedSerialNumber :: string
  en_IssuedNotAfter :: time
  en_IssuedAt :: time

record ArtifactChannel =
  ch_TenantID :: string
  ch_Channel :: string
  ch_ArtifactID :: string
  ch_CreatedAt :: time
  ch_UpdatedAt :: time
  ch_CreatedBy :: string

record Artifact =
  art_ArtifactID :: string
  art_TenantID :: string
  art_Name :: string
  art_Kind :: string
  art_Version :: string
  art_OS :: string
  art_Arch :: string
  art_SHA256 :: string
  art_SizeBytes :: int
  art_Status :: string
  art_StoragePath :: string
  art_CreatedAt :: time
  art_UpdatedAt :: time
  art_CreatedBy :: string
  art_Metadata :: "(string, string) gomap"

record AgentCertificate =
  ce_TenantID :: string
  ce_AgentID :: string
  ce_EnrollmentID :: string
  ce_SerialNumber :: string
  ce_Subject :: string
  ce_NotBefore :: time
  ce_NotAfter :: time
  ce_CreatedAt :: time
  ce_RevokedAt :: time
  ce_CertificatePEM :: string

text \<open>The average latency, a floating-point quotient of two of the counters, is left out.\<close>

record StoreMetrics =
  DataBatchesAppended :: uint64
  EventsIngested :: uint64
  EndpointSignalsIngested :: uint64
  CloudSignalsEmitted :: uint64
  SignalsEmitted :: uint64
  IncidentsCreated :: uint64
  DroppedEvents_total :: uint64
  DuplicateEvents :: uint64
  LastConvergenceLatencyMs :: uint64
  MaxConvergenceLatencyMs :: uint64
  TotalConvergenceLatencyMs :: uint64

record Store =
  st_Agents :: "AgentIdentity list"
  st_Events :: "CanonicalEvent list"
  st_Signals :: "Signal list"
  st_Incidents :: "Incident list"
  st_Health :: "(string, AgentHealth) gomap"
  st_Rules :: "RuleContent list"
  st_Policies :: "Policy list"
  st_Assignments :: "Assignment list"
  st_PolicyAudits :: "AuditRecord list"
  st_Responses :: "Command list"
  st_ResponseAcks :: "Ack list"
  st_Pullbacks :: "EvidencePullbackRequest list"
  st_ControlCommands :: "ControlCommand list"
  st_AgentSessions :: "AgentSession list"
  st_Enrollments :: "Enrollment list"
  st_Artifacts :: "Artifact list"
  st_Channels :: "ArtifactChannel list"
  st_Certificates :: "AgentCertificate list"
  st_Metrics :: StoreMetrics
  st_RarityBaseline :: Baseline

definition StoreMetrics_zero :: StoreMetrics where
  "StoreMetrics_zero = \<lparr> DataBatchesAppended = 0, EventsIngested = 0, EndpointSignalsIngested = 0, CloudSignalsEmitted = 0,
     SignalsEmitted = 0, IncidentsCreated = 0, DroppedEvents_total = 0, DuplicateEvents = 0, LastConvergenceLatencyMs = 0,
     MaxConvergenceLatencyMs = 0, TotalConvergenceLatencyMs = 0 \<rparr>"

text \<open>\<^verbatim>\<open>Open("")\<close>: a new store in memory.\<close>

definition emptyStore :: Store where
  "emptyStore = \<lparr> st_Agents = [], st_Events = [], st_Signals = [], st_Incidents = [], st_Health = [], st_Rules = [],
     st_Policies = [], st_Assignments = [], st_PolicyAudits = [], st_Responses = [], st_ResponseAcks = [], st_Pullbacks = [],
     st_ControlCommands = [], st_AgentSessions = [], st_Enrollments = [], st_Artifacts = [], st_Channels = [],
     st_Certificates = [], st_Metrics = StoreMetrics_zero, st_RarityBaseline = \<lparr> WorkloadCounts = [] \<rparr> \<rparr>"

section \<open>Keys\<close>

definition nul :: string where
  "nul = [CHR 0x00]"

definition stableKey :: "(string \<Rightarrow> string) \<Rightarrow> string list \<Rightarrow> string" where
  "stableKey hash parts = hash (Join parts nul)"

definition agentHealthKey :: "string \<Rightarrow> string \<Rightarrow> string" where
  "agentHealthKey tenantID agentID = tenantID @ ''/'' @ agentID"

definition labelSelectorMatches :: "(string, string) gomap \<Rightarrow> (string, string) gomap \<Rightarrow> bool" where
  "labelSelectorMatches labels selector =
     list_all (\<lambda>(key, want). key = '''' \<or> get_or '''' labels key = want) selector"

text \<open>An optional filter on a column: the empty string does not filter.\<close>

definition optional :: "string \<Rightarrow> string \<Rightarrow> bool" where
  "optional want got \<longleftrightarrow> want = '''' \<or> got = want"

definition orDefault :: "string \<Rightarrow> string" where
  "orDefault s = (if s = '''' then ''default'' else s)"

lemma orDefault_nonempty [simp]: "orDefault s \<noteq> []"
  by (simp add: orDefault_def)

end
