(* ===== verification/Store_Policies.thy ===== *)
theory Store_Policies
  imports Cloud_Store
begin

text \<open>
  The policy tables of the store (\<^verbatim>\<open>internal/store/store.go\<close>): rules, versioned policies and their
  publication, assignments to agents and scopes, audit records, and the effective policy of an
  agent. \<^verbatim>\<open>sort.Slice\<close> leaves the order of equal rows open; the listings here keep it.
\<close>

section \<open>Rules\<close>

definition UpsertRule :: "RuleContent \<Rightarrow> Store \<Rightarrow> Store" where
  "UpsertRule rule s =
     (if rc_RuleID rule = '''' then s
      else let rule = (if rc_Version rule = 0 then rule\<lparr> rc_Version := 1 \<rparr> else rule)
           in s\<lparr> st_Rules := upsertBy (\<lambda>existing. rc_RuleID existing = rc_RuleID rule \<and> rc_Version existing = rc_Version rule)
                              (\<lambda>_. rule) rule (st_Rules s) \<rparr>)"

definition ListRules :: "string \<Rightarrow> Store \<Rightarrow> RuleContent list" where
  "ListRules layer s =
     sort_key (\<lambda>rule. (rc_Where rule, rc_RuleID rule, rc_Version rule))
       (filter (\<lambda>rule. optional layer (rc_Where rule)) (st_Rules s))"

section \<open>Policies\<close>

definition EnsureDefaultPolicy :: "time \<Rightarrow> string \<Rightarrow> Store \<Rightarrow> Store" where
  "EnsureDefaultPolicy now tenantID s =
     (let s = (if length (st_Rules s) = 0 then s\<lparr> st_Rules := DefaultRules \<rparr> else s)
      in if list_ex (\<lambda>policy. p_TenantID policy = tenantID \<and> p_PolicyID policy = DefaultPolicyID \<and> p_Version policy = DefaultPolicyVersion)
           (st_Policies s) then s
         else s\<lparr> st_Policies := st_Policies s @ [Normalize_policy now (DefaultPolicy tenantID)] \<rparr>)"

definition policyKey :: "Policy \<Rightarrow> string \<times> string \<times> uint64" where
  "policyKey policy = (p_TenantID policy, p_PolicyID policy, p_Version policy)"

definition keepCreatedAt :: "Policy \<Rightarrow> Policy \<Rightarrow> Policy" where
  "keepCreatedAt policy existing =
     policy\<lparr> p_CreatedAt := (if p_CreatedAt existing = 0 then p_CreatedAt policy else p_CreatedAt existing) \<rparr>"

definition UpsertPolicy :: "time \<Rightarrow> Policy \<Rightarrow> Store \<Rightarrow> Policy \<times> Store" where
  "UpsertPolicy now policy s =
     (if p_PolicyID policy = '''' then (Policy_zero, s)
      else let policy = Normalize_policy now policy;
               same = (\<lambda>existing. p_TenantID existing = p_TenantID policy \<and> p_PolicyID existing = p_PolicyID policy \<and>
                                   p_Version existing = p_Version policy)
           in (case find same (st_Policies s) of None \<Rightarrow> policy | Some existing \<Rightarrow> keepCreatedAt policy existing,
               s\<lparr> st_Policies := upsertBy same (keepCreatedAt policy) policy (st_Policies s) \<rparr>))"

definition RecordPolicyAudit :: "time \<Rightarrow> AuditRecord \<Rightarrow> Store \<Rightarrow> AuditRecord \<times> Store" where
  "RecordPolicyAudit now record s =
     (let record = record\<lparr> au_TenantID := orDefault (au_TenantID record) \<rparr>;
          record = (if au_Status record = '''' then record\<lparr> au_Status := ''ok'' \<rparr> else record);
          record = (if au_CreatedAt record = 0 then record\<lparr> au_CreatedAt := now \<rparr> else record);
          record = (if au_AuditID record = '''' then record\<lparr> au_AuditID := ''policy-audit-'' @ fmt_d (UnixNano now) \<rparr> else record)
      in (record, s\<lparr> st_PolicyAudits := st_PolicyAudits s @ [record] \<rparr>))"

definition ListPolicyAudits :: "string \<Rightarrow> string \<Rightarrow> Store \<Rightarrow> AuditRecord list" where
  "ListPolicyAudits tenantID policyID s =
     sort_key au_CreatedAt (filter (\<lambda>r. optional tenantID (au_TenantID r) \<and> optional policyID (au_PolicyID r)) (st_PolicyAudits s))"

definition ListPolicies :: "string \<Rightarrow> Store \<Rightarrow> Policy list" where
  "ListPolicies tenantID s = sort_key policyKey (filter (\<lambda>p. optional tenantID (p_TenantID p)) (st_Policies s))"

text \<open>
  The loop of \<^verbatim>\<open>GetPolicy\<close> and \<^verbatim>\<open>publishedPolicy\<close>: a version other than 0 returns the first match,
  version 0 the highest version, the earliest on ties.
\<close>

fun scanPolicies :: "(Policy \<Rightarrow> bool) \<Rightarrow> uint64 \<Rightarrow> Policy list \<Rightarrow> Policy option \<Rightarrow> Policy option" where
  "scanPolicies ok version [] latest = latest"
| "scanPolicies ok version (policy # policies) latest =
     (if \<not> ok policy then scanPolicies ok version policies latest
      else if version \<noteq> 0 \<and> p_Version policy \<noteq> version then scanPolicies ok version policies latest
      else if version \<noteq> 0 then Some policy
      else case latest of
        None \<Rightarrow> scanPolicies ok version policies (Some policy)
      | Some l \<Rightarrow> scanPolicies ok version policies (if p_Version policy > p_Version l then Some policy else Some l))"

definition GetPolicy :: "string \<Rightarrow> string \<Rightarrow> uint64 \<Rightarrow> Store \<Rightarrow> Policy option" where
  "GetPolicy tenantID policyID version s =
     scanPolicies (\<lambda>p. optional tenantID (p_TenantID p) \<and> p_PolicyID p = policyID) version (st_Policies s) None"

definition publishedPolicy :: "string \<Rightarrow> string \<Rightarrow> uint64 \<Rightarrow> Store \<Rightarrow> Policy option" where
  "publishedPolicy tenantID policyID version s =
     scanPolicies (\<lambda>p. optional tenantID (p_TenantID p) \<and> p_PolicyID p = policyID \<and> p_Published p) version (st_Policies s) None"

definition PublishPolicy :: "time \<Rightarrow> string \<Rightarrow> string \<Rightarrow> uint64 \<Rightarrow> bool \<Rightarrow> Store \<Rightarrow> Policy option \<times> Store" where
  "PublishPolicy now tenantID policyID version published s =
     (let tenantID = orDefault tenantID in
      if policyID = '''' then (None, s)
      else let match = (\<lambda>p. p_TenantID p = tenantID \<and> p_PolicyID p = policyID \<and> (version = 0 \<or> p_Version p = version));
               publish = (\<lambda>p. p\<lparr> p_Published := published, p_UpdatedAt := now \<rparr>)
           in (map_option publish (find match (st_Policies s)), s\<lparr> st_Policies := updateFirst match publish (st_Policies s) \<rparr>))"

section \<open>Assignments\<close>

definition assignmentKey :: "(string \<Rightarrow> string) \<Rightarrow> Assignment \<Rightarrow> string" where
  "assignmentKey hash a =
     stableKey hash [as_TenantID a, as_AgentID a, sel_Type (as_Scope a), sel_Selector (as_Scope a), as_PolicyID a]"

definition sameAssignmentTarget :: "Assignment \<Rightarrow> Assignment \<Rightarrow> bool" where
  "sameAssignmentTarget a b \<longleftrightarrow> as_TenantID a = as_TenantID b \<and> as_AgentID a = as_AgentID b \<and>
     sel_Type (as_Scope a) = sel_Type (as_Scope b) \<and> sel_Selector (as_Scope a) = sel_Selector (as_Scope b)"

definition AssignPolicy :: "(string \<Rightarrow> string) \<Rightarrow> time \<Rightarrow> Assignment \<Rightarrow> Store \<Rightarrow> Assignment option \<times> Store" where
  "AssignPolicy hash now assignment s =
     (if as_PolicyID assignment = '''' then (None, s)
      else let assignment = assignment\<lparr> as_TenantID := orDefault (as_TenantID assignment) \<rparr>
           in case publishedPolicy (as_TenantID assignment) (as_PolicyID assignment) (as_PolicyVersion assignment) s of
                None \<Rightarrow> (None, s)
              | Some policy \<Rightarrow>
                  let assignment = assignment\<lparr> as_PolicyVersion := p_Version policy \<rparr>;
                      assignment = (if as_AssignmentID assignment = '''' then assignment\<lparr> as_AssignmentID := assignmentKey hash assignment \<rparr> else assignment);
                      assignment = (if as_CreatedAt assignment = 0 then assignment\<lparr> as_CreatedAt := now \<rparr> else assignment);
                      assignment = assignment\<lparr> as_UpdatedAt := now \<rparr>;
                      match = (\<lambda>existing. as_AssignmentID existing = as_AssignmentID assignment \<or> sameAssignmentTarget existing assignment);
                      replace = (\<lambda>existing. assignment\<lparr> as_CreatedAt := as_CreatedAt existing \<rparr>)
                  in (Some (case find match (st_Assignments s) of None \<Rightarrow> assignment | Some existing \<Rightarrow> replace existing),
                      s\<lparr> st_Assignments := upsertBy match replace assignment (st_Assignments s) \<rparr>))"

definition ListAssignments :: "string \<Rightarrow> string \<Rightarrow> Store \<Rightarrow> Assignment list" where
  "ListAssignments tenantID agentID s =
     sort_key (\<lambda>a. (as_TenantID a, as_AssignmentID a))
       (filter (\<lambda>a. optional tenantID (as_TenantID a) \<and> optional agentID (as_AgentID a)) (st_Assignments s))"

definition AssignmentRank :: "Assignment \<Rightarrow> string \<Rightarrow> string \<Rightarrow> string \<Rightarrow> int" where
  "AssignmentRank a agentID scopeType scopeSelector =
     (if as_AgentID a \<noteq> '''' then (if agentID = '''' \<or> as_AgentID a \<noteq> agentID then -1 else 30)
      else if sel_Type (as_Scope a) \<noteq> '''' then
        (if sel_Type (as_Scope a) \<noteq> scopeType then -1
         else if sel_Selector (as_Scope a) \<noteq> '''' \<and> sel_Selector (as_Scope a) \<noteq> scopeSelector then -1
         else if sel_Selector (as_Scope a) \<noteq> '''' then 20
         else 10)
      else 0)"

fun bestAssignment :: "string \<Rightarrow> (Assignment \<Rightarrow> int) \<Rightarrow> Assignment list \<Rightarrow> Assignment option \<times> int \<Rightarrow> Assignment option \<times> int" where
  "bestAssignment tenantID rank [] best = best"
| "bestAssignment tenantID rank (a # as) (best, bestRank) =
     (if \<not> optional tenantID (as_TenantID a) then bestAssignment tenantID rank as (best, bestRank)
      else if rank a > bestRank then bestAssignment tenantID rank as (Some a, rank a)
      else bestAssignment tenantID rank as (best, bestRank))"

definition EffectivePolicy :: "string \<Rightarrow> string \<Rightarrow> string \<Rightarrow> string \<Rightarrow> Store \<Rightarrow> Policy option" where
  "EffectivePolicy tenantID agentID scopeType scopeSelector s =
     (case bestAssignment tenantID (\<lambda>a. AssignmentRank a agentID scopeType scopeSelector) (st_Assignments s) (None, -1) of
        (Some best, _) \<Rightarrow> publishedPolicy (as_TenantID best) (as_PolicyID best) (as_PolicyVersion best) s
      | (None, _) \<Rightarrow>
          (case publishedPolicy (orDefault tenantID) DefaultPolicyID 0 s of
             Some policy \<Rightarrow> Some policy
           | None \<Rightarrow> Some (DefaultPolicy (orDefault tenantID))))"

section \<open>The table of policies\<close>

interpretation policies: keyed_table policyKey keepCreatedAt
  by unfold_locales (simp add: policyKey_def keepCreatedAt_def)

lemma same_policyKey:
  "(\<lambda>existing. p_TenantID existing = p_TenantID policy \<and> p_PolicyID existing = p_PolicyID policy \<and> p_Version existing = p_Version policy) =
   (\<lambda>existing. policyKey existing = policyKey policy)"
  by (auto simp: policyKey_def)

lemma UpsertPolicy_row:
  fixes policy :: Policy and now :: time and s :: Store
  assumes "p_PolicyID policy \<noteq> ''''"
  defines "q \<equiv> fst (UpsertPolicy now policy s)"
  shows "row policyKey (st_Policies (snd (UpsertPolicy now policy s))) = (row policyKey (st_Policies s))(policyKey q \<mapsto> q)"
    and "policyKey q = policyKey (Normalize_policy now policy)"
proof -
  let ?n = "Normalize_policy now policy"
  have q: "q = (case row policyKey (st_Policies s) (policyKey ?n) of None \<Rightarrow> ?n | Some old \<Rightarrow> keepCreatedAt ?n old)"
    using assms by (simp add: UpsertPolicy_def Let_def same_policyKey [of ?n] row_def policyKey_def)
  then show k: "policyKey q = policyKey ?n" by (simp add: policyKey_def keepCreatedAt_def split: option.splits)
  have "st_Policies (snd (UpsertPolicy now policy s)) =
      upsertBy (\<lambda>r. policyKey r = policyKey ?n) (keepCreatedAt ?n) ?n (st_Policies s)"
    using assms by (simp add: UpsertPolicy_def Let_def same_policyKey [of ?n] policyKey_def)
  then show "row policyKey (st_Policies (snd (UpsertPolicy now policy s))) = (row policyKey (st_Policies s))(policyKey q \<mapsto> q)"
    unfolding k using q by (simp add: policies.upsert_row)
qed

lemma scanPolicies_version:
  "version \<noteq> 0 \<Longrightarrow>
   scanPolicies ok version ps latest =
     (case find (\<lambda>p. ok p \<and> p_Version p = version) ps of None \<Rightarrow> latest | Some p \<Rightarrow> Some p)"
  by (induction ps arbitrary: latest) auto

lemma scanPolicies_ok:
  "scanPolicies ok version ps latest = Some p \<Longrightarrow> latest = Some p \<or> (p \<in> set ps \<and> ok p)"
  by (induction ps arbitrary: latest) (auto split: if_splits option.splits)

lemma GetPolicy_row:
  assumes "tenantID \<noteq> ''''" "version \<noteq> 0"
  shows "GetPolicy tenantID policyID version s = row policyKey (st_Policies s) (tenantID, policyID, version)"
proof -
  have "(\<lambda>p. (optional tenantID (p_TenantID p) \<and> p_PolicyID p = policyID) \<and> p_Version p = version) =
      (\<lambda>p. policyKey p = (tenantID, policyID, version))"
    using assms by (auto simp: optional_def policyKey_def)
  then show ?thesis using assms by (simp add: GetPolicy_def scanPolicies_version row_def split: option.splits)
qed

text \<open>
  Reading a policy back: after \<^verbatim>\<open>UpsertPolicy\<close> stored \<open>q\<close>, \<^verbatim>\<open>GetPolicy\<close> with the tenant,
  identifier and version of \<open>q\<close> returns \<open>q\<close>, and with any other tenant, identifier and version it
  returns what it returned before.
\<close>

theorem GetPolicy_after_UpsertPolicy:
  assumes "p_PolicyID policy \<noteq> ''''" and "UpsertPolicy now policy s = (q, s')"
    and "tenantID \<noteq> ''''" and "version \<noteq> 0"
  shows "GetPolicy tenantID policyID version s' =
         (if (tenantID, policyID, version) = (p_TenantID q, p_PolicyID q, p_Version q) then Some q
          else GetPolicy tenantID policyID version s)"
proof -
  have "row policyKey (st_Policies s') = (row policyKey (st_Policies s))(policyKey q \<mapsto> q)"
    using UpsertPolicy_row(1) [OF assms(1), of now s] assms(2) by simp
  moreover have "policyKey q = (p_TenantID q, p_PolicyID q, p_Version q)" by (simp add: policyKey_def)
  ultimately show ?thesis using assms(3,4) by (simp add: GetPolicy_row)
qed

section \<open>The effective policy\<close>

definition firstMax :: "('a \<Rightarrow> int) \<Rightarrow> 'a list \<Rightarrow> 'a option" where
  "firstMax rank xs = find (\<lambda>x. list_all (\<lambda>y. rank y \<le> rank x) xs) xs"

lemma firstMax_drop: "rank b < rank a \<Longrightarrow> firstMax rank (b # a # xs) = firstMax rank (a # xs)"
proof -
  assume less: "rank b < rank a"
  have "find (\<lambda>x. list_all (\<lambda>y. rank y \<le> rank x) (b # a # xs)) ys = find (\<lambda>x. list_all (\<lambda>y. rank y \<le> rank x) (a # xs)) ys" for ys
    using less by (intro find_cong) (auto simp: list_all_iff)
  with less show ?thesis by (simp add: firstMax_def)
qed

lemma firstMax_keep: "rank a \<le> rank b \<Longrightarrow> firstMax rank (b # a # xs) = firstMax rank (b # xs)"
proof -
  assume le: "rank a \<le> rank b"
  have "find (\<lambda>x. list_all (\<lambda>y. rank y \<le> rank x) (b # a # xs)) ys = find (\<lambda>x. list_all (\<lambda>y. rank y \<le> rank x) (b # xs)) ys" for ys
    using le by (intro find_cong) (auto simp: list_all_iff)
  with le show ?thesis by (auto simp: firstMax_def list_all_iff)
qed

definition candidates :: "string \<Rightarrow> (Assignment \<Rightarrow> int) \<Rightarrow> Assignment list \<Rightarrow> Assignment list" where
  "candidates tenantID rank as = filter (\<lambda>a. optional tenantID (as_TenantID a) \<and> 0 \<le> rank a) as"

lemma bestAssignment_Some:
  "0 \<le> rank b \<Longrightarrow> fst (bestAssignment tenantID rank as (Some b, rank b)) = firstMax rank (b # candidates tenantID rank as)"
proof (induction as arbitrary: b)
  case Nil
  then show ?case by (simp add: firstMax_def candidates_def)
next
  case (Cons a as)
  then show ?case by (auto simp: candidates_def firstMax_drop firstMax_keep)
qed

lemma bestAssignment_None: "fst (bestAssignment tenantID rank as (None, -1)) = firstMax rank (candidates tenantID rank as)"
proof (induction as)
  case Nil
  then show ?case by (simp add: firstMax_def candidates_def)
next
  case (Cons a as)
  show ?case
  proof (cases "optional tenantID (as_TenantID a) \<and> 0 \<le> rank a")
    case True
    then show ?thesis using bestAssignment_Some [of rank a tenantID as] by (simp add: candidates_def)
  next
    case False
    then show ?thesis using Cons by (auto simp: candidates_def)
  qed
qed

lemma publishedPolicy_published: "publishedPolicy tenantID policyID version s = Some p \<Longrightarrow> p_Published p"
  unfolding publishedPolicy_def by (auto dest: scanPolicies_ok)


definition samplePolicy :: Policy where
  "samplePolicy = Policy_zero\<lparr> p_PolicyID := ''strict'', p_Published := True \<rparr>"

definition sampleAssignment :: Assignment where
  "sampleAssignment = \<lparr> as_AssignmentID = '''', as_TenantID = '''', as_AgentID = ''a1'', as_Scope = \<lparr> sel_Type = '''', sel_Selector = '''' \<rparr>,
     as_PolicyID = ''strict'', as_PolicyVersion = 0, as_CreatedAt = 0, as_UpdatedAt = 0 \<rparr>"

definition assignedStore :: Store where
  "assignedStore = snd (AssignPolicy (\<lambda>s. s) 2 sampleAssignment (snd (UpsertPolicy 1 samplePolicy emptyStore)))"

theorem GetPolicy_after_UpsertPolicy_witness:
  "p_PolicyID samplePolicy \<noteq> '''' \<and>
   GetPolicy ''default'' ''strict'' 1 (snd (UpsertPolicy 1 samplePolicy emptyStore)) = Some (fst (UpsertPolicy 1 samplePolicy emptyStore))"
proof -
  have id: "p_PolicyID samplePolicy \<noteq> ''''" by (simp add: samplePolicy_def)
  have k: "(''default'', ''strict'', 1) = (p_TenantID (fst (UpsertPolicy 1 samplePolicy emptyStore)),
      p_PolicyID (fst (UpsertPolicy 1 samplePolicy emptyStore)), p_Version (fst (UpsertPolicy 1 samplePolicy emptyStore)))"
    by code_simp
  show ?thesis
    using GetPolicy_after_UpsertPolicy [OF id surjective_pairing, of "''default''" 1 "''strict''" 1 emptyStore] id k by simp
qed

text \<open>
  Withdrawing a policy that is assigned does not fall back to the default: an agent whose
  assigned policy is no longer published has no effective policy at all, while an agent without an
  assignment has the default one.
\<close>

theorem withdrawn_policy_leaves_none:
  "map_option p_PolicyID (EffectivePolicy ''default'' ''a1'' '''' '''' assignedStore) = Some ''strict'' \<and>
   EffectivePolicy ''default'' ''a1'' '''' '''' (snd (PublishPolicy 3 ''default'' ''strict'' 0 False assignedStore)) = None \<and>
   map_option p_PolicyID (EffectivePolicy ''default'' ''a2'' '''' '''' (snd (PublishPolicy 3 ''default'' ''strict'' 0 False assignedStore))) =
     Some DefaultPolicyID"
  by code_simp

end
