(* ===== verification/Store_Telemetry.thy ===== *)
theory Store_Telemetry
  imports Cloud_Store
begin

text \<open>
  The working set of the store (\<^verbatim>\<open>internal/store/store.go\<close>, \<^verbatim>\<open>agent.go\<close>): agents and their bound
  identities, health, events, signals, incidents with their merged evidence, sessions and metrics.
\<close>

section \<open>Agents\<close>

definition Normalized :: "AgentIdentity \<Rightarrow> AgentIdentity" where
  "Normalized a =
     \<lparr> ai_AgentID = TrimSpace (ai_AgentID a), ai_HostID = TrimSpace (ai_HostID a), ai_Version = TrimSpace (ai_Version a),
       ai_TenantID = orDefault (TrimSpace (ai_TenantID a)), ai_AuthType = TrimSpace (ai_AuthType a),
       ai_CertIdentity = TrimSpace (ai_CertIdentity a) \<rparr>"

definition Valid :: "AgentIdentity \<Rightarrow> bool" where
  "Valid a \<longleftrightarrow> TrimSpace (ai_AgentID a) \<noteq> ''''"

definition AgentIdentityFromDataBatch :: "DataBatch \<Rightarrow> AgentIdentity" where
  "AgentIdentityFromDataBatch batch =
     (let header = GetHeader batch
      in Normalized \<lparr> ai_AgentID = bh_agent_id header, ai_HostID = bh_host_id header,
           ai_Version = get_or '''' (bh_labels header) ''agent_version'', ai_TenantID = bh_tenant_id header,
           ai_AuthType = '''', ai_CertIdentity = '''' \<rparr>)"

definition orElse :: "string \<Rightarrow> string \<Rightarrow> string" where
  "orElse new old = (if new = '''' then old else new)"

definition fillAgent :: "AgentIdentity \<Rightarrow> AgentIdentity \<Rightarrow> AgentIdentity" where
  "fillAgent agent existing =
     agent\<lparr> ai_HostID := orElse (ai_HostID agent) (ai_HostID existing), ai_Version := orElse (ai_Version agent) (ai_Version existing),
            ai_AuthType := orElse (ai_AuthType agent) (ai_AuthType existing),
            ai_CertIdentity := orElse (ai_CertIdentity agent) (ai_CertIdentity existing) \<rparr>"

definition AddAgent :: "AgentIdentity \<Rightarrow> Store \<Rightarrow> Store" where
  "AddAgent agent s =
     (let agent = Normalized agent in
      if \<not> Valid agent then s
      else s\<lparr> st_Agents := upsertBy (\<lambda>existing. ai_TenantID existing = ai_TenantID agent \<and> ai_AgentID existing = ai_AgentID agent)
                              (fillAgent agent) agent (st_Agents s) \<rparr>)"

datatype bindError = AgentIDRequired | AuthRequired | IdentityMismatch string string | AuthMismatch string string

definition BindAgentIdentity :: "AgentIdentity \<Rightarrow> Store \<Rightarrow> bindError option \<times> Store" where
  "BindAgentIdentity agent s =
     (let agent = Normalized agent in
      if \<not> Valid agent then (Some AgentIDRequired, s)
      else if ai_AuthType agent = '''' \<or> ai_CertIdentity agent = '''' then (Some AuthRequired, s)
      else
        let same = (\<lambda>existing. ai_TenantID existing = ai_TenantID agent \<and> ai_AgentID existing = ai_AgentID agent)
        in case find same (st_Agents s) of
             None \<Rightarrow> (None, s\<lparr> st_Agents := st_Agents s @ [agent] \<rparr>)
           | Some existing \<Rightarrow>
               if ai_CertIdentity existing \<noteq> '''' \<and> ai_CertIdentity existing \<noteq> ai_CertIdentity agent
               then (Some (IdentityMismatch (ai_CertIdentity existing) (ai_CertIdentity agent)), s)
               else if ai_AuthType existing \<noteq> '''' \<and> ai_AuthType existing \<noteq> ai_AuthType agent
               then (Some (AuthMismatch (ai_AuthType existing) (ai_AuthType agent)), s)
               else (None, s\<lparr> st_Agents := updateFirst same
                      (\<lambda>existing. agent\<lparr> ai_HostID := orElse (ai_HostID agent) (ai_HostID existing),
                                          ai_Version := orElse (ai_Version agent) (ai_Version existing) \<rparr>) (st_Agents s) \<rparr>))"

section \<open>Health\<close>

definition UpsertAgentHealth :: "AgentHealth \<Rightarrow> Store \<Rightarrow> Store" where
  "UpsertAgentHealth health s =
     (if ah_AgentID health = '''' then s
      else s\<lparr> st_Health := AList.update (agentHealthKey (ah_TenantID health) (ah_AgentID health)) health (st_Health s) \<rparr>)"

text \<open>
  Without a tenant the map is searched for the agent: the answer is the one entry with that agent,
  and nothing when entries of several tenants have it.
\<close>

definition GetAgentHealth :: "string \<Rightarrow> string \<Rightarrow> Store \<Rightarrow> AgentHealth option" where
  "GetAgentHealth tenantID agentID s =
     (if agentID = '''' then None
      else if tenantID \<noteq> '''' then map_of (st_Health s) (agentHealthKey tenantID agentID)
      else case filter (\<lambda>h. ah_AgentID h = agentID) (map snd (st_Health s)) of
             [] \<Rightarrow> None
           | h # hs \<Rightarrow> if list_all (\<lambda>h'. ah_TenantID h' = ah_TenantID h) hs then Some (last (h # hs)) else None)"

definition ListAgentHealth :: "Store \<Rightarrow> AgentHealth list" where
  "ListAgentHealth s = sort_key (\<lambda>h. (ah_TenantID h, ah_AgentID h)) (map snd (st_Health s))"

section \<open>Events and signals\<close>

text \<open>The working set holds no nil messages: the operations return at once on one.\<close>

definition AddEvent :: "CanonicalEvent \<Rightarrow> Store \<Rightarrow> bool \<times> Store" where
  "AddEvent ev s =
     (if ev_id ev \<noteq> '''' \<and> list_ex (\<lambda>existing. ev_id existing = ev_id ev) (st_Events s)
      then (False, s\<lparr> st_Events := updateFirst (\<lambda>existing. ev_id existing = ev_id ev) (\<lambda>_. ev) (st_Events s) \<rparr>)
      else (True, s\<lparr> st_Events := st_Events s @ [ev] \<rparr>))"

definition layerName :: "SignalWhere \<Rightarrow> string" where
  "layerName loc = (case loc of WHERE_ENDPOINT \<Rightarrow> ''endpoint'' | WHERE_CLOUD \<Rightarrow> ''cloud'' | WHERE_UNSPECIFIED \<Rightarrow> '''')"

definition boolString :: "bool \<Rightarrow> string" where
  "boolString v = (if v then ''true'' else ''false'')"

definition labelKey :: "(string, string) gomap \<Rightarrow> string" where
  "labelKey labels = (if length labels = 0 then '''' else Join (map (\<lambda>key. key @ ''='' @ get_or '''' labels key) (sort (keys labels))) nul)"

definition sortedEntities :: "EntityRef list \<Rightarrow> string list" where
  "sortedEntities ents = sort (map (\<lambda>ent. Join [ent_kind ent, ent_key ent, ent_role ent] nul) ents)"

definition store_signalKey :: "(string \<Rightarrow> string) \<Rightarrow> Signal \<Rightarrow> string" where
  "store_signalKey hash sig =
     stableKey hash ([labelKey (sig_labels sig), layerName (sig_where sig), sig_name sig, sig_lineage_id sig, boolString (sig_terminal sig)] @
       sort (sig_event_refs sig) @ sort (sig_signal_refs sig) @ sortedEntities (sig_entities sig))"

definition AddSignal_store :: "(string \<Rightarrow> string) \<Rightarrow> Signal \<Rightarrow> Store \<Rightarrow> bool \<times> Store" where
  "AddSignal_store hash sig s =
     (let key = store_signalKey hash sig;
          same = (\<lambda>existing. key \<noteq> '''' \<and> store_signalKey hash existing = key)
      in (\<not> list_ex same (st_Signals s), s\<lparr> st_Signals := upsertBy same (\<lambda>_. sig) sig (st_Signals s) \<rparr>))"

definition ListEvents :: "(string, string) gomap \<Rightarrow> string \<Rightarrow> Store \<Rightarrow> CanonicalEvent list" where
  "ListEvents labels behavior s =
     filter (\<lambda>ev. labelSelectorMatches (ev_labels ev) labels \<and> optional behavior (ev_behavior ev)) (st_Events s)"

definition ListSignals :: "(string, string) gomap \<Rightarrow> string \<Rightarrow> bool \<Rightarrow> Store \<Rightarrow> Signal list" where
  "ListSignals labels layer terminalOnly s =
     filter (\<lambda>sig. labelSelectorMatches (sig_labels sig) labels \<and> (terminalOnly \<longrightarrow> sig_terminal sig) \<and>
                    optional layer (layerName (sig_where sig))) (st_Signals s)"

definition GetSignal :: "string \<Rightarrow> Store \<Rightarrow> Signal option" where
  "GetSignal ident s = (if ident = '''' then None else find (\<lambda>sig. sig_id sig = ident) (st_Signals s))"

section \<open>Evidence and incidents\<close>

definition graphNodeKey :: "GraphNode \<Rightarrow> string" where
  "graphNodeKey node = (if gn_id node \<noteq> '''' then gn_id node else Join [gn_kind node, gn_label node] nul)"

definition graphEdgeKey :: "GraphEdge \<Rightarrow> string" where
  "graphEdgeKey edge = (if ge_id edge \<noteq> '''' then ge_id edge else Join [ge_from edge, ge_to edge, ge_kind edge] nul)"

text \<open>Appending the rows whose key is neither empty nor seen.\<close>

fun appendNew :: "('a \<Rightarrow> string) \<Rightarrow> 'a list \<Rightarrow> string list \<Rightarrow> 'a list \<Rightarrow> 'a list" where
  "appendNew key [] seen out = out"
| "appendNew key (x # xs) seen out =
     (if key x = '''' \<or> key x \<in> set seen then appendNew key xs seen out
      else appendNew key xs (key x # seen) (out @ [x]))"

definition mergeEvidence :: "EvidenceSubgraph option \<Rightarrow> EvidenceSubgraph option \<Rightarrow> EvidenceSubgraph option" where
  "mergeEvidence base extra =
     (if base = None \<and> extra = None then None
      else let nodes = (\<lambda>g. case g of None \<Rightarrow> [] | Some g \<Rightarrow> sg_nodes g);
               edges = (\<lambda>g. case g of None \<Rightarrow> [] | Some g \<Rightarrow> sg_edges g)
           in Some \<lparr> sg_nodes = appendNew graphNodeKey (nodes base @ nodes extra) [] [],
                     sg_edges = appendNew graphEdgeKey (edges base @ edges extra) [] [] \<rparr>)"

definition mergeStrings :: "string list \<Rightarrow> string list \<Rightarrow> string list" where
  "mergeStrings base extra = appendNew (\<lambda>item. item) extra base base"

definition mergeSignals :: "(string \<Rightarrow> string) \<Rightarrow> Signal list \<Rightarrow> Signal list \<Rightarrow> Signal list" where
  "mergeSignals hash base extra =
     appendNew (store_signalKey hash) extra (filter (\<lambda>k. k \<noteq> '''') (map (store_signalKey hash) base)) base"

definition incidentKey :: "(string \<Rightarrow> string) \<Rightarrow> Incident \<Rightarrow> string" where
  "incidentKey hash inc =
     stableKey hash ([labelKey (inc_labels inc), inc_summary inc, (case inc_converge inc of None \<Rightarrow> '''' | Some c \<Rightarrow> ct_method c)] @
       sort (inc_lineage_ids inc) @ sort (inc_terminals inc) @ map (store_signalKey hash) (inc_contributing_signals inc))"

definition AddIncident :: "(string \<Rightarrow> string) \<Rightarrow> Incident \<Rightarrow> Store \<Rightarrow> bool \<times> Store" where
  "AddIncident hash inc s =
     (let key = incidentKey hash inc;
          same = (\<lambda>existing. key \<noteq> '''' \<and> incidentKey hash existing = key)
      in (\<not> list_ex same (st_Incidents s),
          s\<lparr> st_Incidents := upsertBy same (\<lambda>existing. inc\<lparr> inc_evidence := mergeEvidence (inc_evidence inc) (inc_evidence existing) \<rparr>)
                              inc (st_Incidents s) \<rparr>))"

definition ListIncidents :: "(string, string) gomap \<Rightarrow> Store \<Rightarrow> Incident list" where
  "ListIncidents labels s = filter (\<lambda>inc. labelSelectorMatches (inc_labels inc) labels) (st_Incidents s)"

definition GetIncident :: "string \<Rightarrow> (string, string) gomap \<Rightarrow> Store \<Rightarrow> Incident option" where
  "GetIncident ident labels s =
     find (\<lambda>inc. optional ident (inc_id inc) \<and> labelSelectorMatches (inc_labels inc) labels) (st_Incidents s)"

definition AttachIncidentEvidence ::
  "string \<Rightarrow> (string, string) gomap \<Rightarrow> EvidenceSubgraph option \<Rightarrow> Store \<Rightarrow> Incident option \<times> Store" where
  "AttachIncidentEvidence ident labels evidence s =
     (if (ident = '''' \<and> length labels = 0) \<or> evidence = None then (None, s)
      else let match = (\<lambda>inc. optional ident (inc_id inc) \<and> labelSelectorMatches (inc_labels inc) labels);
               attach = (\<lambda>inc. inc\<lparr> inc_evidence := mergeEvidence (inc_evidence inc) evidence \<rparr>)
           in (map_option attach (find match (st_Incidents s)), s\<lparr> st_Incidents := updateFirst match attach (st_Incidents s) \<rparr>))"

text \<open>The last incident with an identifier, as the loop of \<^verbatim>\<open>MergeIncidents\<close> finds it.\<close>

definition lastIndex :: "string \<Rightarrow> Incident list \<Rightarrow> nat option" where
  "lastIndex ident incs =
     (case filter (\<lambda>i. inc_id (incs ! i) = ident) [0..<length incs] of [] \<Rightarrow> None | is \<Rightarrow> Some (last is))"

definition mergeInto :: "(string \<Rightarrow> string) \<Rightarrow> Incident \<Rightarrow> Incident \<Rightarrow> Incident" where
  "mergeInto hash target source =
     target\<lparr> inc_severity := (if inc_severity source > inc_severity target then inc_severity source else inc_severity target),
             inc_mitre := mergeStrings (inc_mitre target) (inc_mitre source),
             inc_lineage_ids := mergeStrings (inc_lineage_ids target) (inc_lineage_ids source),
             inc_terminals := mergeStrings (inc_terminals target) (inc_terminals source),
             inc_evidence := mergeEvidence (inc_evidence target) (inc_evidence source),
             inc_contributing_signals := mergeSignals hash (inc_contributing_signals target) (inc_contributing_signals source) \<rparr>"

definition MergeIncidents :: "(string \<Rightarrow> string) \<Rightarrow> string \<Rightarrow> string \<Rightarrow> Store \<Rightarrow> Incident option \<times> Store" where
  "MergeIncidents hash targetID sourceID s =
     (if targetID = '''' \<or> sourceID = '''' \<or> targetID = sourceID then (None, s)
      else case (lastIndex targetID (st_Incidents s), lastIndex sourceID (st_Incidents s)) of
             (Some t, Some r) \<Rightarrow>
               (let incs = st_Incidents s; merged = mergeInto hash (incs ! t) (incs ! r); incs = incs[t := merged]
                in (Some merged, s\<lparr> st_Incidents := take r incs @ drop (Suc r) incs \<rparr>))
           | _ \<Rightarrow> (None, s))"

definition ReplaceDerivedForLabels :: "(string, string) gomap \<Rightarrow> Signal list \<Rightarrow> Incident list \<Rightarrow> Store \<Rightarrow> Store" where
  "ReplaceDerivedForLabels labels cloudSignals incidents s =
     s\<lparr> st_Signals := filter (\<lambda>sig. \<not> (labelSelectorMatches (sig_labels sig) labels \<and> layerName (sig_where sig) = ''cloud'')) (st_Signals s) @ cloudSignals,
        st_Incidents := filter (\<lambda>inc. \<not> labelSelectorMatches (inc_labels inc) labels) (st_Incidents s) @ incidents \<rparr>"

definition DeleteByLabels :: "(string, string) gomap \<Rightarrow> Store \<Rightarrow> Store" where
  "DeleteByLabels labels s =
     (if length labels = 0
      then s\<lparr> st_Agents := [], st_Events := [], st_Signals := [], st_Incidents := [], st_Health := [], st_AgentSessions := [],
              st_Metrics := StoreMetrics_zero \<rparr>
      else s\<lparr> st_Events := filter (\<lambda>ev. \<not> labelSelectorMatches (ev_labels ev) labels) (st_Events s),
              st_Signals := filter (\<lambda>sig. \<not> labelSelectorMatches (sig_labels sig) labels) (st_Signals s),
              st_Incidents := filter (\<lambda>inc. \<not> labelSelectorMatches (inc_labels inc) labels) (st_Incidents s) \<rparr>)"

section \<open>Metrics and the baseline\<close>

definition RecordDataBatchIngest :: "nat \<Rightarrow> nat \<Rightarrow> nat \<Rightarrow> nat \<Rightarrow> uint64 \<Rightarrow> Store \<Rightarrow> Store" where
  "RecordDataBatchIngest events endpointSignals cloudSignals incidents latencyMs s =
     (let m = st_Metrics s
      in s\<lparr> st_Metrics := m\<lparr> DataBatchesAppended := DataBatchesAppended m + 1,
             EventsIngested := EventsIngested m + of_nat events,
             EndpointSignalsIngested := EndpointSignalsIngested m + of_nat endpointSignals,
             CloudSignalsEmitted := CloudSignalsEmitted m + of_nat cloudSignals,
             SignalsEmitted := SignalsEmitted m + of_nat (endpointSignals + cloudSignals),
             IncidentsCreated := IncidentsCreated m + of_nat incidents,
             LastConvergenceLatencyMs := latencyMs,
             TotalConvergenceLatencyMs := TotalConvergenceLatencyMs m + latencyMs,
             MaxConvergenceLatencyMs := (if latencyMs > MaxConvergenceLatencyMs m then latencyMs else MaxConvergenceLatencyMs m) \<rparr> \<rparr>)"

definition ResetMetrics :: "Store \<Rightarrow> Store" where
  "ResetMetrics s = s\<lparr> st_Metrics := StoreMetrics_zero \<rparr>"

definition ObserveRaritySignals :: "Signal list \<Rightarrow> Store \<Rightarrow> Store" where
  "ObserveRaritySignals signals s = s\<lparr> st_RarityBaseline := Baseline_Observe signals (st_RarityBaseline s) \<rparr>"

section \<open>Sessions\<close>

definition agentSessionID :: "(string \<Rightarrow> string) \<Rightarrow> string \<Rightarrow> string \<Rightarrow> string" where
  "agentSessionID hash tenantID agentID = stableKey hash [tenantID, agentID]"

definition AgentSession_zero :: AgentSession where
  "AgentSession_zero = \<lparr> se_SessionID = '''', se_TenantID = '''', se_AgentID = '''', se_StartedAt = 0, se_LastSeenAt = 0,
     se_LastDataSeenAt = 0, se_LastControlSeenAt = 0, se_ClosedAt = 0, se_LastAckCursor = '''', se_DataTransport = '''',
     se_ControlTransport = '''', se_Status = '''' \<rparr>"

definition RecordDataBatchAppend ::
  "(string \<Rightarrow> string) \<Rightarrow> time \<Rightarrow> AgentIdentity \<Rightarrow> string \<Rightarrow> string \<Rightarrow> time \<Rightarrow> Store \<Rightarrow> AgentSession \<times> Store" where
  "RecordDataBatchAppend hash now agent batchID transport observedAt s =
     (let agent = Normalized agent in
      if \<not> Valid agent then (AgentSession_zero, s)
      else
        let observedAt = (if observedAt = 0 then now else observedAt);
            sessionID = agentSessionID hash (ai_TenantID agent) (ai_AgentID agent);
            same = (\<lambda>existing. se_SessionID existing = sessionID);
            seen = (\<lambda>existing. existing\<lparr> se_LastSeenAt := observedAt, se_LastDataSeenAt := observedAt,
                       se_LastAckCursor := orElse batchID (se_LastAckCursor existing),
                       se_DataTransport := orElse transport (se_DataTransport existing),
                       se_Status := ''active'', se_ClosedAt := 0 \<rparr>);
            new = AgentSession_zero\<lparr> se_SessionID := sessionID, se_TenantID := ai_TenantID agent, se_AgentID := ai_AgentID agent,
                    se_StartedAt := observedAt, se_LastSeenAt := observedAt, se_LastDataSeenAt := observedAt,
                    se_LastAckCursor := batchID, se_DataTransport := transport, se_Status := ''active'' \<rparr>
        in (case find same (st_AgentSessions s) of None \<Rightarrow> new | Some existing \<Rightarrow> seen existing,
            s\<lparr> st_AgentSessions := upsertBy same seen new (st_AgentSessions s) \<rparr>))"

definition updateAgentSession ::
  "(string \<Rightarrow> string) \<Rightarrow> time \<Rightarrow> string \<Rightarrow> string \<Rightarrow> string \<Rightarrow> string \<Rightarrow> string \<Rightarrow> time \<Rightarrow> bool \<Rightarrow> Store \<Rightarrow> AgentSession \<times> Store" where
  "updateAgentSession hash now tenantID agentID transport cursor status observedAt closeSession s =
     (let tenantID = TrimSpace tenantID; agentID = TrimSpace agentID in
      if agentID = '''' then (AgentSession_zero, s)
      else
        let tenantID = orDefault tenantID;
            observedAt = (if observedAt = 0 then now else observedAt);
            sessionID = agentSessionID hash tenantID agentID;
            same = (\<lambda>session. se_SessionID session = sessionID);
            update = (\<lambda>session.
              let session = session\<lparr> se_LastSeenAt := observedAt \<rparr>;
                  session = (if transport \<noteq> '''' then session\<lparr> se_ControlTransport := transport, se_LastControlSeenAt := observedAt \<rparr> else session);
                  session = session\<lparr> se_LastAckCursor := orElse cursor (se_LastAckCursor session) \<rparr>;
                  session = session\<lparr> se_Status := orElse status (se_Status session) \<rparr>
              in if closeSession then session\<lparr> se_ClosedAt := observedAt \<rparr>
                 else if status = ''open'' then session\<lparr> se_ClosedAt := 0 \<rparr> else session);
            new = AgentSession_zero\<lparr> se_SessionID := sessionID, se_TenantID := tenantID, se_AgentID := agentID,
                    se_StartedAt := observedAt, se_LastSeenAt := observedAt, se_LastAckCursor := cursor,
                    se_ControlTransport := transport, se_Status := orElse status ''active'',
                    se_LastControlSeenAt := (if transport \<noteq> '''' then observedAt else 0),
                    se_ClosedAt := (if closeSession then observedAt else 0) \<rparr>
        in (case find same (st_AgentSessions s) of None \<Rightarrow> new | Some session \<Rightarrow> update session,
            s\<lparr> st_AgentSessions := upsertBy same update new (st_AgentSessions s) \<rparr>))"

definition RecordControlSessionOpen :: "(string \<Rightarrow> string) \<Rightarrow> time \<Rightarrow> string \<Rightarrow> string \<Rightarrow> string \<Rightarrow> time \<Rightarrow> Store \<Rightarrow> AgentSession \<times> Store" where
  "RecordControlSessionOpen hash now tenantID agentID transport observedAt =
     updateAgentSession hash now tenantID agentID transport '''' ''open'' observedAt False"

definition RecordAgentSessionSeen :: "(string \<Rightarrow> string) \<Rightarrow> time \<Rightarrow> string \<Rightarrow> string \<Rightarrow> time \<Rightarrow> Store \<Rightarrow> AgentSession \<times> Store" where
  "RecordAgentSessionSeen hash now tenantID agentID observedAt =
     updateAgentSession hash now tenantID agentID '''' '''' '''' observedAt False"

definition CloseAgentSession :: "(string \<Rightarrow> string) \<Rightarrow> time \<Rightarrow> string \<Rightarrow> string \<Rightarrow> time \<Rightarrow> Store \<Rightarrow> AgentSession \<times> Store" where
  "CloseAgentSession hash now tenantID agentID observedAt =
     updateAgentSession hash now tenantID agentID '''' '''' ''closed'' observedAt True"

definition ListAgentSessions :: "string \<Rightarrow> string \<Rightarrow> Store \<Rightarrow> AgentSession list" where
  "ListAgentSessions tenantID agentID s =
     sort_key (\<lambda>se. (se_TenantID se, se_AgentID se))
       (filter (\<lambda>se. optional tenantID (se_TenantID se) \<and> optional agentID (se_AgentID se)) (st_AgentSessions s))"

section \<open>Bound identities\<close>

datatype agentOp = Bind AgentIdentity | Seen AgentIdentity

fun agentStep :: "agentOp \<Rightarrow> Store \<Rightarrow> Store" where
  "agentStep (Bind a) s = snd (BindAgentIdentity a s)"
| "agentStep (Seen a) s = AddAgent a s"

definition runAgents :: "agentOp list \<Rightarrow> Store \<Rightarrow> Store" where
  "runAgents ops s = fold agentStep ops s"

text \<open>The data and control planes add agents without authentication type and certificate identity.\<close>

fun unauthenticated :: "agentOp \<Rightarrow> bool" where
  "unauthenticated (Bind a) \<longleftrightarrow> True"
| "unauthenticated (Seen a) \<longleftrightarrow> TrimSpace (ai_AuthType a) = '''' \<and> TrimSpace (ai_CertIdentity a) = ''''"

definition isAgent :: "string \<Rightarrow> string \<Rightarrow> AgentIdentity \<Rightarrow> bool" where
  "isAgent tenantID agentID a \<longleftrightarrow> ai_TenantID a = tenantID \<and> ai_AgentID a = agentID"

definition bound :: "AgentIdentity \<Rightarrow> Store \<Rightarrow> bool" where
  "bound agent s \<longleftrightarrow> ai_AuthType agent \<noteq> '''' \<and> ai_CertIdentity agent \<noteq> '''' \<and>
     (\<exists>r. find (isAgent (ai_TenantID agent) (ai_AgentID agent)) (st_Agents s) = Some r \<and>
        ai_AuthType r = ai_AuthType agent \<and> ai_CertIdentity r = ai_CertIdentity agent)"

lemma isAgent_same: "(\<lambda>existing. ai_TenantID existing = t \<and> ai_AgentID existing = a) = isAgent t a"
  by (simp add: isAgent_def fun_eq_iff)

lemma find_isAgent_other:
  assumes "\<not> (t = t' \<and> a = a')" and "\<And>r. isAgent t a r \<Longrightarrow> isAgent t a (f r)"
  shows "find (isAgent t' a') (updateFirst (isAgent t a) f rows) = find (isAgent t' a') rows"
  by (rule find_updateFirst_other) (use assms in \<open>auto simp: isAgent_def\<close>)

text \<open>A table after an upsert of an agent, for the agent itself and for every other.\<close>

lemma find_upsert_agent:
  assumes "isAgent t a new" and "\<And>r. isAgent t a (f r)"
  shows "find (isAgent t' a') (upsertBy (isAgent t a) f new rows) =
    (if t = t' \<and> a = a' then Some (case find (isAgent t a) rows of None \<Rightarrow> new | Some r \<Rightarrow> f r) else find (isAgent t' a') rows)"
proof (cases "find (isAgent t a) rows")
  case None
  then show ?thesis using assms(1) by (auto simp: upsertBy_None find_snoc isAgent_def split: option.splits)
next
  case (Some r)
  then show ?thesis using assms
    by (auto simp: upsertBy_Some [OF Some] find_updateFirst_same find_isAgent_other)
qed

lemma AddAgent_bound:
  assumes "bound agent s" and "TrimSpace (ai_AuthType a) = ''''" "TrimSpace (ai_CertIdentity a) = ''''"
  shows "bound agent (AddAgent a s)"
proof -
  have ids: "isAgent (ai_TenantID (Normalized a)) (ai_AgentID (Normalized a)) (Normalized a)"
    "isAgent (ai_TenantID (Normalized a)) (ai_AgentID (Normalized a)) (fillAgent (Normalized a) r)" for r
    by (simp_all add: isAgent_def fillAgent_def)
  have blank: "ai_AuthType (Normalized a) = ''''" "ai_CertIdentity (Normalized a) = ''''" using assms(2,3) by (simp_all add: Normalized_def)
  show ?thesis
    using assms(1) find_upsert_agent [where f = "fillAgent (Normalized a)", OF ids, of "ai_TenantID agent" "ai_AgentID agent" "st_Agents s"]
    by (auto simp: AddAgent_def Let_def isAgent_same bound_def blank fillAgent_def orElse_def)
qed

lemma BindAgentIdentity_bound:
  assumes "bound agent s"
  shows "bound agent (snd (BindAgentIdentity a s))"
proof (cases "isAgent (ai_TenantID agent) (ai_AgentID agent) (Normalized a)")
  case True
  then have eq: "ai_TenantID (Normalized a) = ai_TenantID agent" "ai_AgentID (Normalized a) = ai_AgentID agent" by (simp_all add: isAgent_def)
  obtain r where r: "find (isAgent (ai_TenantID agent) (ai_AgentID agent)) (st_Agents s) = Some r"
    "ai_AuthType r = ai_AuthType agent" "ai_CertIdentity r = ai_CertIdentity agent" using assms by (auto simp: bound_def)
  show ?thesis
    using assms r True
    by (auto simp: BindAgentIdentity_def Let_def isAgent_same eq bound_def find_updateFirst_same isAgent_def)
next
  case False
  then have other: "\<not> (ai_TenantID (Normalized a) = ai_TenantID agent \<and> ai_AgentID (Normalized a) = ai_AgentID agent)" by (simp add: isAgent_def)
  let ?f = "\<lambda>existing. (Normalized a)\<lparr> ai_HostID := orElse (ai_HostID (Normalized a)) (ai_HostID existing),
      ai_Version := orElse (ai_Version (Normalized a)) (ai_Version existing) \<rparr>"
  have "find (isAgent (ai_TenantID agent) (ai_AgentID agent)) (st_Agents (snd (BindAgentIdentity a s))) =
      find (isAgent (ai_TenantID agent) (ai_AgentID agent)) (st_Agents s)"
    using other False find_isAgent_other [OF other, of ?f "st_Agents s"]
    by (auto simp: BindAgentIdentity_def Let_def isAgent_same find_snoc isAgent_def [of _ _ "?f _"] split: option.splits)
  then show ?thesis using assms by (simp add: bound_def)
qed

lemma runAgents_bound: "bound agent s \<Longrightarrow> list_all unauthenticated ops \<Longrightarrow> bound agent (runAgents ops s)"
  unfolding runAgents_def
proof (induction ops arbitrary: s)
  case (Cons op ops)
  then show ?case by (cases op) (simp_all add: AddAgent_bound BindAgentIdentity_bound)
qed simp

lemma BindAgentIdentity_binds:
  assumes "BindAgentIdentity a s = (None, s')"
  shows "bound (Normalized a) s'"
proof (cases "find (isAgent (ai_TenantID (Normalized a)) (ai_AgentID (Normalized a))) (st_Agents s)")
  case None
  then show ?thesis using assms
    by (auto simp: BindAgentIdentity_def Let_def isAgent_same bound_def find_snoc isAgent_def split: if_splits)
next
  case (Some r)
  then show ?thesis using assms
    by (auto simp: BindAgentIdentity_def Let_def isAgent_same bound_def find_updateFirst_same isAgent_def split: if_splits)
qed

text \<open>
  C16. An agent keeps the certificate it was first bound to: once \<^verbatim>\<open>BindAgentIdentity\<close> has bound an agent of a tenant to
  a certificate identity and an authentication type, then after any later bindings of this and other agents and any
  reports from the data and control planes, presenting another certificate identity or authentication type for
  the agent is refused, and changes nothing.
\<close>

theorem agent_binding_is_permanent:
  assumes "BindAgentIdentity a s = (None, s')" and "list_all unauthenticated later"
    and "ai_TenantID (Normalized b) = ai_TenantID (Normalized a)" and "ai_AgentID (Normalized b) = ai_AgentID (Normalized a)"
    and "(ai_CertIdentity (Normalized b), ai_AuthType (Normalized b)) \<noteq> (ai_CertIdentity (Normalized a), ai_AuthType (Normalized a))"
  shows "\<exists>err. BindAgentIdentity b (runAgents later s') = (Some err, runAgents later s')"
proof -
  have "bound (Normalized a) (runAgents later s')" using BindAgentIdentity_binds [OF assms(1)] runAgents_bound assms(2) by blast
  then show ?thesis using assms(3-) by (auto simp: BindAgentIdentity_def Let_def isAgent_same bound_def)
qed

definition peer :: "string \<Rightarrow> AgentIdentity" where
  "peer cert = \<lparr> ai_AgentID = ''a1'', ai_HostID = ''h1'', ai_Version = '''', ai_TenantID = '''', ai_AuthType = ''mtls'', ai_CertIdentity = cert \<rparr>"

definition reports :: "agentOp list" where
  "reports = [Seen \<lparr> ai_AgentID = ''a1'', ai_HostID = ''h2'', ai_Version = ''2'', ai_TenantID = ''default'', ai_AuthType = '''', ai_CertIdentity = '''' \<rparr>,
     Bind (peer ''spiffe://x/b''), Bind (peer ''spiffe://x/a'')]"

theorem agent_binding_is_permanent_witness:
  "\<exists>err. BindAgentIdentity (peer ''spiffe://x/b'') (runAgents reports (snd (BindAgentIdentity (peer ''spiffe://x/a'') emptyStore))) =
     (Some err, runAgents reports (snd (BindAgentIdentity (peer ''spiffe://x/a'') emptyStore)))"
proof (rule agent_binding_is_permanent [of "peer ''spiffe://x/a''" emptyStore])
  have "fst (BindAgentIdentity (peer ''spiffe://x/a'') emptyStore) = None" by code_simp
  then show "BindAgentIdentity (peer ''spiffe://x/a'') emptyStore = (None, snd (BindAgentIdentity (peer ''spiffe://x/a'') emptyStore))"
    by (simp add: prod_eq_iff)
qed code_simp+

end
