(* ===== verification/Store_Responses.thy ===== *)
theory Store_Responses
  imports Store_Policies Store_Telemetry
begin

text \<open>
  Response commands in the store (\<^verbatim>\<open>internal/store/store.go\<close>) and the handlers of the manager that
  create, deny, approve and acknowledge them (\<^verbatim>\<open>internal/manager/api/http_responses.go\<close>). A handler is
  a function of the decoded request; the principal of the request is an argument, and so is the time
  at each call of \<^verbatim>\<open>time.Now\<close>. With no path and no backend \<^verbatim>\<open>Save\<close> returns nil.
\<close>

section \<open>The store\<close>

definition keepCommandCreatedAt :: "Command \<Rightarrow> Command \<Rightarrow> Command" where
  "keepCommandCreatedAt cmd existing = cmd\<lparr> cmd_CreatedAt := cmd_CreatedAt existing \<rparr>"

definition CreateResponse :: "time \<Rightarrow> Command \<Rightarrow> Store \<Rightarrow> Command \<times> Store" where
  "CreateResponse now cmd s =
     (let cmd = NormalizeCommand now cmd;
          same = (\<lambda>existing. cmd_ResponseID existing = cmd_ResponseID cmd)
      in (case find same (st_Responses s) of None \<Rightarrow> cmd | Some existing \<Rightarrow> keepCommandCreatedAt cmd existing,
          s\<lparr> st_Responses := upsertBy same (keepCommandCreatedAt cmd) cmd (st_Responses s) \<rparr>))"

record ResponseAuditRecord =
  ra_Command :: Command
  ra_Ack :: "Ack option"

text \<open>The map of acknowledgements keeps the last one of each response.\<close>

definition ackMap :: "Ack list \<Rightarrow> (string, Ack) gomap" where
  "ackMap acks = fold (\<lambda>ack m. AList.update (rk_ResponseID ack) ack m) acks []"

definition ListResponses :: "string \<Rightarrow> string \<Rightarrow> Store \<Rightarrow> ResponseAuditRecord list" where
  "ListResponses tenantID agentID s =
     sort_key (\<lambda>r. cmd_CreatedAt (ra_Command r))
       (map (\<lambda>cmd. \<lparr> ra_Command = cmd, ra_Ack = map_of (ackMap (st_ResponseAcks s)) (cmd_ResponseID cmd) \<rparr>)
         (filter (\<lambda>cmd. optional tenantID (cmd_TenantID cmd) \<and> optional agentID (cmd_AgentID cmd)) (st_Responses s)))"

definition PendingResponses :: "string \<Rightarrow> string \<Rightarrow> Store \<Rightarrow> Command list" where
  "PendingResponses tenantID agentID s =
     sort_key cmd_CreatedAt
       (filter (\<lambda>cmd. optional tenantID (cmd_TenantID cmd) \<and> optional agentID (cmd_AgentID cmd) \<and>
                       \<not> (cmd_Status cmd \<noteq> ''pending'' \<or> cmd_ResponseID cmd \<in> set (map rk_ResponseID (st_ResponseAcks s))))
         (st_Responses s))"

definition openForApproval :: "Command \<Rightarrow> bool" where
  "openForApproval cmd \<longleftrightarrow> cmd_ApprovalRequired cmd \<and> cmd_Status cmd = ''pending_approval'' \<and>
     (cmd_ApprovalStatus cmd = ''required'' \<or> cmd_ApprovalStatus cmd = ''partial'')"

definition decideApproval :: "time \<Rightarrow> bool \<Rightarrow> string \<Rightarrow> Command \<Rightarrow> Command" where
  "decideApproval now approved actor cmd =
     (if approved \<and> ApprovalCount cmd \<ge> ApprovalThreshold cmd
      then cmd\<lparr> cmd_Status := ''pending'', cmd_ApprovalStatus := ''approved'', cmd_ApprovedBy := actor, cmd_ApprovedAt := now \<rparr>
      else if approved then cmd\<lparr> cmd_ApprovalStatus := ''partial'' \<rparr>
      else cmd\<lparr> cmd_Status := ''denied'', cmd_ApprovalStatus := ''rejected'', cmd_ApprovedBy := actor, cmd_ApprovedAt := now \<rparr>)"

definition applyApproval :: "time \<Rightarrow> bool \<Rightarrow> string \<Rightarrow> string \<Rightarrow> string \<Rightarrow> Command \<Rightarrow> Command" where
  "applyApproval now approved actor role reason cmd =
     (let approval = \<lparr> ap_Actor = actor, ap_Role = role, ap_Approved = approved, ap_Reason = reason, ap_ObservedAt = now \<rparr>;
          cmd = decideApproval now approved actor (cmd\<lparr> cmd_Approvals := cmd_Approvals cmd @ [approval] \<rparr>);
          cmd = cmd\<lparr> cmd_UpdatedAt := now \<rparr>
      in if reason \<noteq> '''' then
           (if cmd_Reason cmd = '''' then cmd\<lparr> cmd_Reason := reason \<rparr>
            else cmd\<lparr> cmd_Reason := cmd_Reason cmd @ ''; approval: '' @ reason \<rparr>)
         else cmd)"

definition ApproveResponse ::
  "time \<Rightarrow> string \<Rightarrow> string \<Rightarrow> string \<Rightarrow> bool \<Rightarrow> string \<Rightarrow> string \<Rightarrow> string \<Rightarrow> Store \<Rightarrow> Command option \<times> Store" where
  "ApproveResponse now tenantID agentID responseID approved actor role reason s =
     (if responseID = '''' then (None, s)
      else
        let tenantID = orDefault tenantID;
            match = (\<lambda>cmd. cmd_ResponseID cmd = responseID \<and> optional tenantID (cmd_TenantID cmd) \<and> optional agentID (cmd_AgentID cmd))
        in case find match (st_Responses s) of
             None \<Rightarrow> (None, s)
           | Some cmd \<Rightarrow>
               if \<not> openForApproval cmd \<or> \<not> ApprovalRoleAllowed cmd role then (None, s)
               else (Some (applyApproval now approved actor role reason cmd),
                     s\<lparr> st_Responses := updateFirst match (applyApproval now approved actor role reason) (st_Responses s) \<rparr>))"

definition AckResponse :: "time \<Rightarrow> Ack \<Rightarrow> Store \<Rightarrow> Command option \<times> Store" where
  "AckResponse now ack s =
     (if rk_ResponseID ack = '''' then (None, s)
      else
        let ack = (if rk_ObservedAt ack = 0 then ack\<lparr> rk_ObservedAt := now \<rparr> else ack);
            match = (\<lambda>cmd. cmd_ResponseID cmd = rk_ResponseID ack);
            acked = (\<lambda>cmd. cmd\<lparr> cmd_Status := ''acked'', cmd_UpdatedAt := rk_ObservedAt ack \<rparr>)
        in case find match (st_Responses s) of
             None \<Rightarrow> (None, s)
           | Some cmd \<Rightarrow>
               (Some (acked cmd),
                s\<lparr> st_Responses := updateFirst match acked (st_Responses s),
                   st_ResponseAcks := upsertBy (\<lambda>existing. rk_ResponseID existing = rk_ResponseID ack) (\<lambda>_. ack) ack (st_ResponseAcks s) \<rparr>))"

section \<open>The handlers of the manager\<close>

datatype responseReply = BadRequest string | NotFound string | Forbidden Command | Accepted Command

definition denyResponse :: "time \<Rightarrow> time \<Rightarrow> Command \<Rightarrow> ResponseDecision \<Rightarrow> Store \<Rightarrow> responseReply \<times> Store" where
  "denyResponse now now' cmd decision s =
     (let cmd = (NormalizeCommand now cmd)\<lparr> cmd_Status := ''denied'' \<rparr>;
          cmd = (if cmd_Reason cmd = '''' then cmd\<lparr> cmd_Reason := rd_Reason decision \<rparr>
                 else cmd\<lparr> cmd_Reason := cmd_Reason cmd @ ''; denied: '' @ rd_Reason decision \<rparr>);
          (cmd, s) = CreateResponse now' cmd s
      in (Forbidden cmd, s))"

text \<open>The decision on the scope of a command: the agent's own where the command names none.\<close>

definition scopeCommand :: "Command \<Rightarrow> Store \<Rightarrow> Command \<times> ResponseDecision" where
  "scopeCommand cmd s =
     (case GetAgentHealth (cmd_TenantID cmd) (cmd_AgentID cmd) s of
        Some health \<Rightarrow>
          (let cmd = (if sc_Type (cmd_Scope cmd) = '''' \<and> sc_Selector (cmd_Scope cmd) = '''' then cmd\<lparr> cmd_Scope := ah_Scope health \<rparr> else cmd)
           in (cmd, ScopeDecision (cmd_Scope cmd) (ah_Scope health) True))
      | None \<Rightarrow>
          (cmd, if sc_Type (cmd_Scope cmd) \<noteq> '''' \<or> sc_Selector (cmd_Scope cmd) \<noteq> ''''
                then deniedFor ''agent runtime scope is required for scoped response command'' else allowed))"

definition commandPolicy :: "Command \<Rightarrow> Store \<Rightarrow> Policy option" where
  "commandPolicy cmd s =
     EffectivePolicy (cmd_TenantID cmd) (cmd_AgentID cmd) (sc_Type (cmd_Scope cmd)) (sc_Selector (cmd_Scope cmd)) s"

definition responsePolicyOf :: "Command \<Rightarrow> Store \<Rightarrow> ResponsePolicy" where
  "responsePolicyOf cmd s =
     (case commandPolicy cmd s of
        None \<Rightarrow> DefaultPolicy_response
      | Some policy \<Rightarrow>
          if length (rp_AllowedActions (p_Response policy)) = 0 \<and> length (rp_AllowedModes (p_Response policy)) = 0
          then DefaultPolicy_response else p_Response policy)"

definition setPolicyRef :: "Command \<Rightarrow> Store \<Rightarrow> Command" where
  "setPolicyRef cmd s =
     (let cmd = (case commandPolicy cmd s of
                   None \<Rightarrow> cmd
                 | Some policy \<Rightarrow> if cmd_PolicyID cmd = '''' then cmd\<lparr> cmd_PolicyID := p_PolicyID policy, cmd_PolicyVersion := p_Version policy \<rparr> else cmd)
      in if cmd_PolicyID cmd = ''''
         then let policy = (case commandPolicy cmd s of None \<Rightarrow> Policy_zero | Some policy \<Rightarrow> policy)
              in cmd\<lparr> cmd_PolicyID := p_PolicyID policy, cmd_PolicyVersion := p_Version policy \<rparr>
         else cmd)"

definition createResponse :: "time \<Rightarrow> time \<Rightarrow> Command \<Rightarrow> Store \<Rightarrow> responseReply \<times> Store" where
  "createResponse now now' cmd s =
     (if cmd_AgentID cmd = '''' then (BadRequest ''agent_id is required'', s)
      else
        let cmd = cmd\<lparr> cmd_TenantID := orDefault (cmd_TenantID cmd) \<rparr>;
            (cmd, scope) = scopeCommand cmd s
        in if \<not> rd_Allowed scope then denyResponse now now' cmd scope s
           else
             let policy = responsePolicyOf cmd s;
                 cmd = ApplyPolicyRequirements (setPolicyRef cmd s) policy;
                 decision = ValidateCommandWithPolicy cmd policy
             in if \<not> rd_Allowed decision then denyResponse now now' cmd decision s
                else
                  let cmd = (if cmd_ApprovalRequired cmd
                             then (NormalizeCommand now cmd)\<lparr> cmd_Status := ''pending_approval'', cmd_ApprovalStatus := ''required'' \<rparr>
                             else cmd);
                      (cmd, s) = CreateResponse now' cmd s
                  in (Accepted cmd, s))"

record responseDecisionRequest =
  dq_TenantID :: string
  dq_AgentID :: string
  dq_SignalID :: string
  dq_Scope :: Scope
  dq_Target :: string
  dq_Actor :: string

definition signalResponseTarget :: "Signal \<Rightarrow> string" where
  "signalResponseTarget sig =
     (case find (\<lambda>e. ent_kind e = ''process'' \<and> ent_key e \<noteq> '''') (sig_entities sig) of
        Some e \<Rightarrow> ent_key e
      | None \<Rightarrow> (case find (\<lambda>e. ent_key e \<noteq> '''') (sig_entities sig) of Some e \<Rightarrow> ent_key e | None \<Rightarrow> ''''))"

definition decisionReason :: "Signal \<Rightarrow> ResponseIntent \<Rightarrow> string" where
  "decisionReason sig intent =
     ''signal='' @ sig_id sig @ '' name='' @ sig_name sig @ '' response_intent='' @ ri_response_intent intent @
     '' confidence='' @ digits (unat (ri_confidence intent)) @ (if ri_reason intent \<noteq> '''' then '' reason='' @ ri_reason intent else '''')"

definition decisionCommand :: "string \<Rightarrow> responseDecisionRequest \<Rightarrow> Signal \<Rightarrow> ResponseIntent \<Rightarrow> Command" where
  "decisionCommand actor req sig intent =
     \<lparr> cmd_ResponseID = ''resp-'' @ sig_id sig, cmd_TenantID = dq_TenantID req, cmd_AgentID = dq_AgentID req,
       cmd_PolicyID = '''', cmd_PolicyVersion = 0, cmd_SignalID = sig_id sig, cmd_Labels = sig_labels sig, cmd_Scope = dq_Scope req,
       cmd_Action = (if ri_recommended_action intent = '''' then ri_response_intent intent else ri_recommended_action intent),
       cmd_Mode = DefaultMode, cmd_Target = (if dq_Target req = '''' then signalResponseTarget sig else dq_Target req),
       cmd_Reason = decisionReason sig intent, cmd_Status = '''', cmd_Actor = actor, cmd_ApprovalRequired = False,
       cmd_ApprovalStatus = '''', cmd_ApprovalThreshold = 0, cmd_ApprovalRoles = [], cmd_Approvals = [], cmd_ApprovedBy = '''',
       cmd_ApprovedAt = 0, cmd_CreatedAt = 0, cmd_UpdatedAt = 0 \<rparr>"

definition responseDecisions :: "time \<Rightarrow> time \<Rightarrow> string \<Rightarrow> responseDecisionRequest \<Rightarrow> Store \<Rightarrow> responseReply \<times> Store" where
  "responseDecisions now now' actor req s =
     (if dq_SignalID req = '''' then (BadRequest ''signal_id is required'', s)
      else if dq_AgentID req = '''' then (BadRequest ''agent_id is required'', s)
      else case GetSignal (dq_SignalID req) s of
             None \<Rightarrow> (NotFound ''signal not found'', s)
           | Some sig \<Rightarrow>
               (case sig_response_intent sig of
                  None \<Rightarrow> (BadRequest ''signal response intent not found'', s)
                | Some intent \<Rightarrow>
                    if ri_response_intent intent = '''' then (BadRequest ''signal response intent not found'', s)
                    else createResponse now now' (decisionCommand actor req sig intent) s))"

record responseApprovalRequest =
  aq_TenantID :: string
  aq_AgentID :: string
  aq_ResponseID :: string
  aq_Approved :: bool
  aq_Actor :: string
  aq_Role :: string
  aq_Reason :: string

definition responseApprovals :: "time \<Rightarrow> string \<Rightarrow> string \<Rightarrow> responseApprovalRequest \<Rightarrow> Store \<Rightarrow> responseReply \<times> Store" where
  "responseApprovals now actor role req s =
     (if aq_ResponseID req = '''' then (BadRequest ''response_id is required'', s)
      else case ApproveResponse now (aq_TenantID req) (aq_AgentID req) (aq_ResponseID req) (aq_Approved req) actor role (aq_Reason req) s of
             (None, s) \<Rightarrow> (NotFound ''response command not found'', s)
           | (Some cmd, s) \<Rightarrow> (Accepted cmd, s))"

section \<open>Runs of the manager\<close>

text \<open>
  Requests in the order in which the server handles them. \<open>Elsewhere\<close> is any other change of the
  store: the policies, assignments, health reports and signals become arbitrary, the responses and their
  acknowledgements stay.
\<close>

datatype responseOp =
    Create time time Command
  | DecideOn time time string responseDecisionRequest
  | Approve time string string responseApprovalRequest
  | Acknowledge time Ack
  | Elsewhere Store

fun responseStep :: "responseOp \<Rightarrow> Store \<Rightarrow> Store" where
  "responseStep (Create now now' cmd) s = snd (createResponse now now' cmd s)"
| "responseStep (DecideOn now now' actor req) s = snd (responseDecisions now now' actor req s)"
| "responseStep (Approve now actor role req) s = snd (responseApprovals now actor role req s)"
| "responseStep (Acknowledge now ack) s = snd (AckResponse now ack s)"
| "responseStep (Elsewhere s') s = s'\<lparr> st_Responses := st_Responses s, st_ResponseAcks := st_ResponseAcks s \<rparr>"

definition runResponses :: "responseOp list \<Rightarrow> Store \<Rightarrow> Store" where
  "runResponses ops s = fold responseStep ops s"

text \<open>A run is unforged when no created command brings approvals, and every approver has a name.\<close>

fun unforged :: "responseOp \<Rightarrow> bool" where
  "unforged (Create _ _ cmd) \<longleftrightarrow> cmd_Approvals cmd = []"
| "unforged (Approve _ actor _ _) \<longleftrightarrow> TrimSpace actor \<noteq> ''''"
| "unforged _ \<longleftrightarrow> True"

definition approvedBy :: "responseOp list \<Rightarrow> string \<Rightarrow> bool \<Rightarrow> string \<Rightarrow> string \<Rightarrow> bool" where
  "approvedBy ops responseID approved actor role \<longleftrightarrow>
     (\<exists>now req. Approve now actor role req \<in> set ops \<and> aq_ResponseID req = responseID \<and> aq_Approved req = approved)"

definition accounted :: "responseOp list \<Rightarrow> Command \<Rightarrow> bool" where
  "accounted ops c \<longleftrightarrow>
     (\<forall>a \<in> set (cmd_Approvals c). TrimSpace (ap_Actor a) \<noteq> '''' \<and>
        approvedBy ops (cmd_ResponseID c) (ap_Approved a) (ap_Actor a) (ap_Role a)) \<and>
     (cmd_ApprovalRequired c \<and> cmd_Status c = ''pending'' \<longrightarrow> ApprovalThreshold c \<le> ApprovalCount c)"

lemma approvedBy_mono: "approvedBy ops i b x r \<Longrightarrow> set ops \<subseteq> set ops' \<Longrightarrow> approvedBy ops' i b x r"
  by (auto simp: approvedBy_def)

lemma accounted_mono: "accounted ops c \<Longrightarrow> set ops \<subseteq> set ops' \<Longrightarrow> accounted ops' c"
  by (auto simp: accounted_def intro: approvedBy_mono)

lemma ApprovalCount_cong:
  assumes "cmd_Approvals c = cmd_Approvals d" "cmd_ApprovalRoles c = cmd_ApprovalRoles d"
  shows "ApprovalCount c = ApprovalCount d"
proof -
  have "ApprovalCount_loop c as seen n = ApprovalCount_loop d as seen n" for as seen n
    using assms(2) by (induction c as seen n rule: ApprovalCount_loop.induct) (simp_all add: ApprovalRoleAllowed_def Let_def)
  then show ?thesis using assms(1) by (simp add: ApprovalCount_def)
qed

lemma NormalizeCommand_simps [simp]:
  "cmd_Approvals (NormalizeCommand now cmd) = cmd_Approvals cmd"
  "cmd_ApprovalRequired (NormalizeCommand now cmd) = cmd_ApprovalRequired cmd"
  "cmd_ApprovalRoles (NormalizeCommand now cmd) = cmd_ApprovalRoles cmd"
  "cmd_ApprovalThreshold (NormalizeCommand now cmd) = cmd_ApprovalThreshold cmd"
  "cmd_Status (NormalizeCommand now cmd) = (if cmd_Status cmd = '''' then ''pending'' else cmd_Status cmd)"
  by (simp_all add: NormalizeCommand_def Let_def)

text \<open>A created command is stored with its approvals; it is not waiting to be sent where it needs one.\<close>

lemma CreateResponse_accounted:
  assumes "\<forall>c \<in> set (st_Responses s). accounted ops c" and "cmd_Approvals cmd = []"
    and "cmd_ApprovalRequired cmd \<Longrightarrow> cmd_Status cmd \<notin> {'''', ''pending''}"
  shows "\<forall>c \<in> set (st_Responses (snd (CreateResponse now cmd s))). accounted ops c"
proof
  fix c
  assume "c \<in> set (st_Responses (snd (CreateResponse now cmd s)))"
  then have "c \<in> set (st_Responses s) \<or> c = NormalizeCommand now cmd \<or>
      (\<exists>old. c = keepCommandCreatedAt (NormalizeCommand now cmd) old)"
    by (auto simp: CreateResponse_def Let_def dest: set_upsertBy_cases)
  then show "accounted ops c"
    using assms by (auto simp: accounted_def keepCommandCreatedAt_def)
qed

lemma denyResponse_accounted:
  assumes "\<forall>c \<in> set (st_Responses s). accounted ops c" and "cmd_Approvals cmd = []"
  shows "\<forall>c \<in> set (st_Responses (snd (denyResponse now now' cmd decision s))). accounted ops c"
  unfolding denyResponse_def Let_def split_beta snd_conv
  by (rule CreateResponse_accounted [OF assms(1)]) (simp_all add: assms(2))

lemma scopeCommand_simps [simp]: "cmd_Approvals (fst (scopeCommand cmd s)) = cmd_Approvals cmd"
  by (simp add: scopeCommand_def Let_def split: option.splits)

lemma setPolicyRef_simps [simp]: "cmd_Approvals (setPolicyRef cmd s) = cmd_Approvals cmd"
  by (simp add: setPolicyRef_def Let_def split: option.splits)

lemma ApplyPolicyRequirements_simps [simp]: "cmd_Approvals (ApplyPolicyRequirements cmd p) = cmd_Approvals cmd"
  by (simp add: ApplyPolicyRequirements_def Let_def)

text \<open>The command the policy is asked about, and what is stored when it is allowed.\<close>

definition scopedCommand :: "Command \<Rightarrow> Store \<Rightarrow> Command" where
  "scopedCommand cmd s = fst (scopeCommand (cmd\<lparr> cmd_TenantID := orDefault (cmd_TenantID cmd) \<rparr>) s)"

definition requiredCommand :: "Command \<Rightarrow> Store \<Rightarrow> Command" where
  "requiredCommand cmd s =
     ApplyPolicyRequirements (setPolicyRef (scopedCommand cmd s) s) (responsePolicyOf (scopedCommand cmd s) s)"

definition awaiting :: "time \<Rightarrow> Command \<Rightarrow> Command" where
  "awaiting now cmd =
     (if cmd_ApprovalRequired cmd then (NormalizeCommand now cmd)\<lparr> cmd_Status := ''pending_approval'', cmd_ApprovalStatus := ''required'' \<rparr>
      else cmd)"

lemma createResponse_cases:
  obtains (bad) "cmd_AgentID cmd = ''''" "createResponse now now' cmd s = (BadRequest ''agent_id is required'', s)"
  | (denied) c decision where "createResponse now now' cmd s = denyResponse now now' c decision s"
      "c = scopedCommand cmd s \<or> c = requiredCommand cmd s"
  | (accepted) "rd_Allowed (ValidateCommandWithPolicy (requiredCommand cmd s) (responsePolicyOf (scopedCommand cmd s) s))"
      "createResponse now now' cmd s =
         (Accepted (fst (CreateResponse now' (awaiting now (requiredCommand cmd s)) s)),
          snd (CreateResponse now' (awaiting now (requiredCommand cmd s)) s))"
proof -
  let ?cmd = "cmd\<lparr> cmd_TenantID := orDefault (cmd_TenantID cmd) \<rparr>"
  have eq: "createResponse now now' cmd s =
    (if cmd_AgentID cmd = '''' then (BadRequest ''agent_id is required'', s)
     else if \<not> rd_Allowed (snd (scopeCommand ?cmd s)) then denyResponse now now' (scopedCommand cmd s) (snd (scopeCommand ?cmd s)) s
     else if \<not> rd_Allowed (ValidateCommandWithPolicy (requiredCommand cmd s) (responsePolicyOf (scopedCommand cmd s) s))
     then denyResponse now now' (requiredCommand cmd s) (ValidateCommandWithPolicy (requiredCommand cmd s) (responsePolicyOf (scopedCommand cmd s) s)) s
     else (Accepted (fst (CreateResponse now' (awaiting now (requiredCommand cmd s)) s)),
          snd (CreateResponse now' (awaiting now (requiredCommand cmd s)) s)))"
    unfolding createResponse_def Let_def split_beta awaiting_def scopedCommand_def requiredCommand_def by (rule refl)
  show thesis
    using that eq by (metis (no_types))
qed

lemma requiredCommand_simps [simp]:
  "cmd_Approvals (scopedCommand cmd s) = cmd_Approvals cmd" "cmd_Approvals (requiredCommand cmd s) = cmd_Approvals cmd"
  by (simp_all add: requiredCommand_def scopedCommand_def)

lemma createResponse_accounted:
  assumes ok: "\<forall>c \<in> set (st_Responses s). accounted ops c" and none: "cmd_Approvals cmd = []"
  shows "\<forall>c \<in> set (st_Responses (snd (createResponse now now' cmd s))). accounted ops c"
proof (cases rule: createResponse_cases [of cmd now now' s])
  case bad
  then show ?thesis using ok by simp
next
  case (denied c decision)
  moreover have "cmd_Approvals c = []" using denied(2) none by auto
  ultimately show ?thesis using denyResponse_accounted [OF ok] by simp
next
  case accepted
  have "\<forall>c \<in> set (st_Responses (snd (CreateResponse now' (awaiting now (requiredCommand cmd s)) s))). accounted ops c"
    by (rule CreateResponse_accounted [OF ok]) (simp_all add: awaiting_def none split: if_splits)
  then show ?thesis using accepted by simp
qed

lemma applyApproval_fields [simp]:
  "cmd_ResponseID (applyApproval now b x r why c) = cmd_ResponseID c"
  "cmd_ApprovalRequired (applyApproval now b x r why c) = cmd_ApprovalRequired c"
  "cmd_ApprovalRoles (applyApproval now b x r why c) = cmd_ApprovalRoles c"
  "cmd_ApprovalThreshold (applyApproval now b x r why c) = cmd_ApprovalThreshold c"
  "cmd_Approvals (applyApproval now b x r why c) =
     cmd_Approvals c @ [\<lparr> ap_Actor = x, ap_Role = r, ap_Approved = b, ap_Reason = why, ap_ObservedAt = now \<rparr>]"
  by (simp_all add: applyApproval_def decideApproval_def Let_def)

lemma applyApproval_pending:
  assumes "cmd_Status c = ''pending_approval''" "cmd_Status (applyApproval now b x r why c) = ''pending''"
  shows "ApprovalThreshold (applyApproval now b x r why c) \<le> ApprovalCount (applyApproval now b x r why c)"
proof -
  let ?a = "\<lparr> ap_Actor = x, ap_Role = r, ap_Approved = b, ap_Reason = why, ap_ObservedAt = now \<rparr>"
  let ?c = "c\<lparr> cmd_Approvals := cmd_Approvals c @ [?a] \<rparr>"
  have "ApprovalThreshold ?c \<le> ApprovalCount ?c"
    using assms by (auto simp: applyApproval_def decideApproval_def Let_def split: if_splits)
  then show ?thesis
    using ApprovalCount_cong [of "applyApproval now b x r why c" ?c] by (simp add: ApprovalThreshold_def split: if_splits)
qed

lemma ApproveResponse_accounted:
  assumes ok: "\<forall>c \<in> set (st_Responses s). accounted ops c" and x: "TrimSpace actor \<noteq> ''''"
    and op: "approvedBy ops responseID approved actor role"
  shows "\<forall>c \<in> set (st_Responses (snd (ApproveResponse now tenantID agentID responseID approved actor role reason s))). accounted ops c"
proof
  fix c
  assume "c \<in> set (st_Responses (snd (ApproveResponse now tenantID agentID responseID approved actor role reason s)))"
  then consider "c \<in> set (st_Responses s)"
    | d where "d \<in> set (st_Responses s)" "cmd_ResponseID d = responseID" "openForApproval d" "c = applyApproval now approved actor role reason d"
    by (auto simp: ApproveResponse_def Let_def split: if_splits option.splits dest!: set_updateFirst_cases)
  then show "accounted ops c"
  proof cases
    case 1
    then show ?thesis using ok by blast
  next
    case 2
    then show ?thesis using ok x op applyApproval_pending [of d now approved actor role reason]
      by (auto simp: accounted_def openForApproval_def)
  qed
qed

lemma AckResponse_accounted:
  assumes "\<forall>c \<in> set (st_Responses s). accounted ops c"
  shows "\<forall>c \<in> set (st_Responses (snd (AckResponse now ack s))). accounted ops c"
  using assms by (auto simp: AckResponse_def Let_def accounted_def split: option.splits dest!: set_updateFirst_cases)

lemma responseApprovals_state:
  "snd (responseApprovals now actor role req s) =
   (if aq_ResponseID req = '''' then s
    else snd (ApproveResponse now (aq_TenantID req) (aq_AgentID req) (aq_ResponseID req) (aq_Approved req) actor role (aq_Reason req) s))"
  by (simp add: responseApprovals_def split: prod.splits option.splits)

lemma responseStep_accounted:
  assumes ok: "\<forall>c \<in> set (st_Responses s). accounted ops c" and "unforged op"
  shows "\<forall>c \<in> set (st_Responses (responseStep op s)). accounted (op # ops) c"
proof -
  have ok': "\<forall>c \<in> set (st_Responses s). accounted (op # ops) c" using ok by (auto intro: accounted_mono)
  show ?thesis
  proof (cases op)
    case (Create now now' cmd)
    then show ?thesis using createResponse_accounted [OF ok'] assms(2) by simp
  next
    case (DecideOn now now' actor req)
    have "\<forall>c \<in> set (st_Responses (snd (createResponse now now' (decisionCommand actor req sig intent) s))). accounted (op # ops) c"
      for sig intent by (rule createResponse_accounted [OF ok']) (simp add: decisionCommand_def)
    then show ?thesis using DecideOn ok' by (auto simp: responseDecisions_def split: option.splits if_splits)
  next
    case (Approve now actor role req)
    then have "approvedBy (op # ops) (aq_ResponseID req) (aq_Approved req) actor role" by (auto simp: approvedBy_def)
    then show ?thesis using ok' ApproveResponse_accounted [OF ok'] assms(2) Approve
      by (simp add: responseApprovals_state)
  next
    case (Acknowledge now ack)
    then show ?thesis using AckResponse_accounted [OF ok'] by simp
  next
    case (Elsewhere s')
    then show ?thesis using ok' by simp
  qed
qed

lemma runResponses_accounted:
  "list_all unforged ops \<Longrightarrow> \<forall>c \<in> set (st_Responses (runResponses ops emptyStore)). accounted ops c"
proof (induction ops rule: rev_induct)
  case Nil
  then show ?case by (simp add: runResponses_def emptyStore_def)
next
  case (snoc op ops)
  then have "\<forall>c \<in> set (st_Responses (runResponses ops emptyStore)). accounted ops c" and "unforged op" by simp_all
  from responseStep_accounted [OF this]
  have "\<forall>c \<in> set (st_Responses (runResponses (ops @ [op]) emptyStore)). accounted (op # ops) c" by (simp add: runResponses_def)
  then show ?case by (auto intro: accounted_mono)
qed

text \<open>
  C7. The manager dispatches a response that needs approval only after enough operators approved it:
  in every run in which commands are created without approvals and approvers have names, whatever the
  policies, health reports and signals are at each request, a response command that
  \<^verbatim>\<open>PendingResponses\<close> offers to an agent and that requires approval has been approved in the run by at least as
  many different operators as its threshold says, each with a role that may approve it.
\<close>

theorem dispatched_responses_were_approved:
  assumes "list_all unforged ops" and "c \<in> set (PendingResponses tenantID agentID (runResponses ops emptyStore))"
    and "cmd_ApprovalRequired c"
  shows "\<exists>operators. finite operators \<and> 1 \<le> unat (ApprovalThreshold c) \<and> unat (ApprovalThreshold c) \<le> card operators \<and>
    (\<forall>x \<in> operators. \<exists>now actor role req. Approve now actor role req \<in> set ops \<and> TrimSpace actor = x \<and>
       aq_ResponseID req = cmd_ResponseID c \<and> aq_Approved req \<and> ApprovalRoleAllowed c role)"
proof (intro exI conjI)
  let ?operators = "approvers c (cmd_Approvals c)"
  have c: "accounted ops c" and pending: "cmd_Status c = ''pending''"
    using assms(2) runResponses_accounted [OF assms(1)] by (auto simp: PendingResponses_def)
  have "named (cmd_Approvals c)" using c by (simp add: accounted_def named_def list_all_iff)
  then show "unat (ApprovalThreshold c) \<le> card ?operators"
    using c pending assms(3) by (simp add: accounted_def threshold_reached)
  show "1 \<le> unat (ApprovalThreshold c)" by (simp add: ApprovalThreshold_def unat_gt_0 Suc_le_eq)
  show "finite ?operators" by simp
  show "\<forall>x \<in> ?operators. \<exists>now actor role req. Approve now actor role req \<in> set ops \<and> TrimSpace actor = x \<and>
       aq_ResponseID req = cmd_ResponseID c \<and> aq_Approved req \<and> ApprovalRoleAllowed c role"
    using c by (fastforce simp: accounted_def approvers_def approvedBy_def)
qed

definition killPolicy :: Policy where
  "killPolicy = samplePolicy\<lparr> p_Response := \<lparr> rp_AllowedActions = [''kill''], rp_AllowedModes = [''enforce''], rp_ApprovalRequired = True,
     rp_ApprovalThreshold = 2, rp_ApprovalRoles = [''operator''], rp_AllowDestructive = True \<rparr> \<rparr>"

definition killStore :: Store where
  "killStore = snd (AssignPolicy (\<lambda>s. s) 2 sampleAssignment (snd (UpsertPolicy 1 killPolicy emptyStore)))"

definition killCommand :: "Approval list \<Rightarrow> Command" where
  "killCommand approvals =
     \<lparr> cmd_ResponseID = ''r1'', cmd_TenantID = '''', cmd_AgentID = ''a1'', cmd_PolicyID = '''', cmd_PolicyVersion = 0, cmd_SignalID = '''',
       cmd_Labels = [], cmd_Scope = \<lparr> sc_Type = '''', sc_Selector = '''' \<rparr>, cmd_Action = ''kill'', cmd_Mode = ''enforce'',
       cmd_Target = ''pid:1'', cmd_Reason = '''', cmd_Status = '''', cmd_Actor = ''mallory'', cmd_ApprovalRequired = False,
       cmd_ApprovalStatus = '''', cmd_ApprovalThreshold = 0, cmd_ApprovalRoles = [], cmd_Approvals = approvals, cmd_ApprovedBy = '''',
       cmd_ApprovedAt = 0, cmd_CreatedAt = 0, cmd_UpdatedAt = 0 \<rparr>"

definition yes :: "string \<Rightarrow> responseOp" where
  "yes actor = Approve 5 actor ''operator''
     \<lparr> aq_TenantID = '''', aq_AgentID = '''', aq_ResponseID = ''r1'', aq_Approved = True, aq_Actor = '''', aq_Role = '''', aq_Reason = '''' \<rparr>"

definition honestRun :: "responseOp list" where
  "honestRun = [Elsewhere killStore, Create 3 4 (killCommand []), yes ''alice'', yes ''bob'']"

theorem dispatched_responses_were_approved_witness:
  "\<exists>c operators. c \<in> set (PendingResponses ''default'' ''a1'' (runResponses honestRun emptyStore)) \<and>
     cmd_Action c = ''kill'' \<and> 2 \<le> card (operators :: string set) \<and>
     (\<forall>x \<in> operators. \<exists>now actor role req. Approve now actor role req \<in> set honestRun \<and> TrimSpace actor = x)"
proof -
  define c where "c = hd (PendingResponses ''default'' ''a1'' (runResponses honestRun emptyStore))"
  have ok: "list_all unforged honestRun" by code_simp
  have p: "c \<in> set (PendingResponses ''default'' ''a1'' (runResponses honestRun emptyStore)) \<and> cmd_Action c = ''kill'' \<and>
      cmd_ApprovalRequired c \<and> unat (ApprovalThreshold c) = 2"
    unfolding c_def by code_simp
  then have "c \<in> set (PendingResponses ''default'' ''a1'' (runResponses honestRun emptyStore))" "cmd_ApprovalRequired c" by simp_all
  from dispatched_responses_were_approved [OF ok this] show ?thesis using p by metis
qed

section \<open>What the manager accepts\<close>

lemma commandPolicy_cong:
  "cmd_TenantID c = cmd_TenantID d \<Longrightarrow> cmd_AgentID c = cmd_AgentID d \<Longrightarrow> cmd_Scope c = cmd_Scope d \<Longrightarrow>
   responsePolicyOf c s = responsePolicyOf d s"
  by (simp add: responsePolicyOf_def commandPolicy_def)

lemma ValidateCommand_cong:
  assumes "cmd_Mode c = (if cmd_Mode d = '''' then DefaultMode else cmd_Mode d)"
    and "cmd_Action c = (if cmd_Action d = '''' then ''collect'' else cmd_Action d)"
  shows "ValidateCommandWithPolicy c p = ValidateCommandWithPolicy d p"
proof -
  have "TrimSpace DefaultMode = DefaultMode" "TrimSpace ''collect'' = ''collect''" "TrimSpace '''' = ''''" "DefaultMode \<noteq> ''''" by code_simp+
  then show ?thesis using assms unfolding ValidateCommandWithPolicy_def Let_def by simp
qed

text \<open>What stays of a command that the manager accepts.\<close>

lemma CreateResponse_result:
  assumes "CreateResponse now cmd s = (c, s')"
  shows "\<exists>t. c = (NormalizeCommand now cmd)\<lparr> cmd_CreatedAt := t \<rparr>" and "c \<in> set (st_Responses s')"
    and "\<exists>rs. s' = s\<lparr> st_Responses := rs \<rparr>"
proof -
  let ?same = "\<lambda>existing. cmd_ResponseID existing = cmd_ResponseID (NormalizeCommand now cmd)"
  have in_upsert: "(case find P rows of None \<Rightarrow> x | Some y \<Rightarrow> f y) \<in> set (upsertBy P f x rows)" for P f x and rows :: "Command list"
    by (induction rows) auto
  from assms have c: "c = (case find ?same (st_Responses s) of None \<Rightarrow> NormalizeCommand now cmd
      | Some existing \<Rightarrow> keepCommandCreatedAt (NormalizeCommand now cmd) existing)"
    and s': "s' = s\<lparr> st_Responses := upsertBy ?same (keepCommandCreatedAt (NormalizeCommand now cmd)) (NormalizeCommand now cmd) (st_Responses s) \<rparr>"
    by (simp_all add: CreateResponse_def Let_def)
  show "\<exists>t. c = (NormalizeCommand now cmd)\<lparr> cmd_CreatedAt := t \<rparr>"
  proof (cases "find ?same (st_Responses s)")
    case None
    then show ?thesis using c by (intro exI [of _ "cmd_CreatedAt (NormalizeCommand now cmd)"]) simp
  next
    case (Some existing)
    then show ?thesis using c by (intro exI [of _ "cmd_CreatedAt existing"]) (simp add: keepCommandCreatedAt_def)
  qed
  show "c \<in> set (st_Responses s')" unfolding c s' using in_upsert by simp
  show "\<exists>rs. s' = s\<lparr> st_Responses := rs \<rparr>" unfolding s' by (rule exI) (rule refl)
qed

lemma NormalizeCommand_more [simp]:
  "cmd_AgentID (NormalizeCommand now cmd) = cmd_AgentID cmd"
  "cmd_Scope (NormalizeCommand now cmd) = cmd_Scope cmd"
  "cmd_TenantID (NormalizeCommand now cmd) = orDefault (cmd_TenantID cmd)"
  "cmd_Mode (NormalizeCommand now cmd) = (if cmd_Mode cmd = '''' then DefaultMode else cmd_Mode cmd)"
  "cmd_Action (NormalizeCommand now cmd) = (if cmd_Action cmd = '''' then ''collect'' else cmd_Action cmd)"
  "cmd_ApprovalStatus (NormalizeCommand now cmd) = cmd_ApprovalStatus cmd"
  by (simp_all add: NormalizeCommand_def Let_def orDefault_def)

lemma orDefault_idem [simp]: "orDefault (orDefault s) = orDefault s"
  by (simp add: orDefault_def)

lemma requiredCommand_more:
  "cmd_AgentID (requiredCommand cmd s) = cmd_AgentID (scopedCommand cmd s)"
  "cmd_Scope (requiredCommand cmd s) = cmd_Scope (scopedCommand cmd s)"
  "cmd_TenantID (requiredCommand cmd s) = cmd_TenantID (scopedCommand cmd s)"
  "orDefault (cmd_TenantID (scopedCommand cmd s)) = cmd_TenantID (scopedCommand cmd s)"
  by (simp_all add: requiredCommand_def scopedCommand_def scopeCommand_def setPolicyRef_def ApplyPolicyRequirements_def Let_def split: option.splits)

lemma requiredCommand_requires:
  "rp_ApprovalRequired (responsePolicyOf (scopedCommand cmd s) s) \<Longrightarrow>
   cmd_ApprovalRequired (requiredCommand cmd s) \<and>
   ApprovalThreshold (requiredCommand cmd s) \<ge> rp_ApprovalThreshold (responsePolicyOf (scopedCommand cmd s) s) \<and>
   (rp_ApprovalRoles (responsePolicyOf (scopedCommand cmd s) s) \<noteq> [] \<longrightarrow>
      cmd_ApprovalRoles (requiredCommand cmd s) = rp_ApprovalRoles (responsePolicyOf (scopedCommand cmd s) s))"
  by (simp add: requiredCommand_def ApplyPolicyRequirements_def ApprovalThreshold_def Let_def word_gt_0)

lemma denyResponse_result:
  assumes "denyResponse now now' cmd decision s = (reply, s')"
  obtains c where "reply = Forbidden c" "cmd_Status c = ''denied''" "c \<in> set (st_Responses s')" "\<exists>rs. s' = s\<lparr> st_Responses := rs \<rparr>"
proof -
  let ?d = "(NormalizeCommand now cmd)\<lparr> cmd_Status := ''denied'' \<rparr>"
  let ?e = "if cmd_Reason ?d = '''' then ?d\<lparr> cmd_Reason := rd_Reason decision \<rparr>
            else ?d\<lparr> cmd_Reason := cmd_Reason ?d @ ''; denied: '' @ rd_Reason decision \<rparr>"
  obtain c t where ct: "CreateResponse now' ?e s = (c, t)" by (rule prod.exhaust)
  with assms have "reply = Forbidden c" "s' = t" by (simp_all only: denyResponse_def Let_def split_beta prod.inject fst_conv snd_conv)
  moreover obtain u where "c = (NormalizeCommand now' ?e)\<lparr> cmd_CreatedAt := u \<rparr>" using CreateResponse_result(1) [OF ct] by (elim exE)
  then have "cmd_Status c = ''denied''" by (simp split: if_splits)
  ultimately show thesis using that CreateResponse_result(2,3) [OF ct] by simp
qed

text \<open>
  C15. Every reply of the manager to a new response command, on every store: a command is stored as
  accepted only where the response policy in effect for its tenant, agent and scope allows its mode and action,
  and where that policy requires approval the command waits for it, with at least the threshold and with the
  roles of the policy; a denied command is stored as denied and never offered to an agent; a request without
  an agent changes nothing; no other table changes.
\<close>

theorem createResponse_enforces_policy:
  assumes "createResponse now now' cmd s = (reply, s')"
  shows "(\<exists>rs. s' = s\<lparr> st_Responses := rs \<rparr>) \<and>
    (case reply of
       Accepted c \<Rightarrow>
         c \<in> set (st_Responses s') \<and> rd_Allowed (ValidateCommandWithPolicy c (responsePolicyOf c s)) \<and>
         (rp_ApprovalRequired (responsePolicyOf c s) \<longrightarrow>
            cmd_Status c = ''pending_approval'' \<and> openForApproval c \<and>
            ApprovalThreshold c \<ge> rp_ApprovalThreshold (responsePolicyOf c s) \<and>
            (rp_ApprovalRoles (responsePolicyOf c s) \<noteq> [] \<longrightarrow> cmd_ApprovalRoles c = rp_ApprovalRoles (responsePolicyOf c s)))
     | Forbidden c \<Rightarrow> c \<in> set (st_Responses s') \<and> cmd_Status c = ''denied'' \<and> c \<notin> set (PendingResponses tenantID agentID s')
     | BadRequest _ \<Rightarrow> cmd_AgentID cmd = '''' \<and> s' = s
     | NotFound _ \<Rightarrow> False)"
proof (cases rule: createResponse_cases [of cmd now now' s])
  case bad
  then show ?thesis using assms by (auto intro: exI [of _ "st_Responses s"])
next
  case (denied d decision)
  have "denyResponse now now' d decision s = (reply, s')" using denied(1) assms by simp
  then obtain c where c: "reply = Forbidden c" "cmd_Status c = ''denied''" "c \<in> set (st_Responses s')" and rs: "\<exists>rs. s' = s\<lparr> st_Responses := rs \<rparr>"
    by (rule denyResponse_result)
  have "c \<notin> set (PendingResponses tenantID agentID s')" using c(2) by (simp add: PendingResponses_def)
  with c rs show ?thesis by simp
next
  case accepted
  let ?r = "requiredCommand cmd s"
  obtain c where c: "reply = Accepted c" "CreateResponse now' (awaiting now ?r) s = (c, s')"
    using accepted(2) assms by (metis prod.collapse prod.inject)
  obtain t where t: "c = (NormalizeCommand now' (awaiting now ?r))\<lparr> cmd_CreatedAt := t \<rparr>"
    using CreateResponse_result(1) [OF c(2)] by (elim exE)
  have p: "responsePolicyOf c s = responsePolicyOf (scopedCommand cmd s) s"
    by (rule commandPolicy_cong) (simp_all add: t awaiting_def requiredCommand_more)
  have v: "ValidateCommandWithPolicy c q = ValidateCommandWithPolicy ?r q" for q
    by (rule ValidateCommand_cong) (simp_all add: t awaiting_def)
  have "cmd_Status c = ''pending_approval'' \<and> openForApproval c \<and>
      ApprovalThreshold c \<ge> rp_ApprovalThreshold (responsePolicyOf c s) \<and>
      (rp_ApprovalRoles (responsePolicyOf c s) \<noteq> [] \<longrightarrow> cmd_ApprovalRoles c = rp_ApprovalRoles (responsePolicyOf c s))"
    if "rp_ApprovalRequired (responsePolicyOf c s)"
    using requiredCommand_requires [of cmd s] that unfolding p
    by (simp add: t awaiting_def openForApproval_def ApprovalThreshold_def split: if_splits)
  then show ?thesis using accepted(1) CreateResponse_result(2,3) [OF c(2)] c(1) v p by simp
qed

theorem createResponse_enforces_policy_witness:
  "\<exists>c s'. createResponse 3 4 (killCommand []) killStore = (Accepted c, s') \<and> rp_ApprovalRequired (responsePolicyOf c killStore) \<and>
     openForApproval c \<and> ApprovalThreshold c \<ge> 2 \<and> cmd_ApprovalRoles c = [''operator'']"
proof -
  obtain reply s' where r: "createResponse 3 4 (killCommand []) killStore = (reply, s')" by (rule prod.exhaust)
  have "case fst (createResponse 3 4 (killCommand []) killStore) of
      Accepted c \<Rightarrow> rp_ApprovalRequired (responsePolicyOf c killStore) \<and> rp_ApprovalThreshold (responsePolicyOf c killStore) = 2 \<and>
        rp_ApprovalRoles (responsePolicyOf c killStore) = [''operator'']
    | _ \<Rightarrow> False" by code_simp
  then show ?thesis using createResponse_enforces_policy [OF r] r by (cases reply) auto
qed


text \<open>An acknowledgement is taken for any command: one that waits for approval, and from any agent.\<close>

lemma AckResponse_any_command:
  "let s = runResponses [Elsewhere killStore, Create 3 4 (killCommand [])] emptyStore;
       ack = \<lparr> rk_ResponseID = ''r1'', rk_TenantID = ''other'', rk_AgentID = ''a9'', rk_Accepted = True, rk_Unsupported = False,
               rk_ObserveOnly = False, rk_Executed = True, rk_Message = '''', rk_ObservedAt = 6 \<rparr>
   in map_option cmd_Status (fst (AckResponse 6 ack s)) = Some ''acked''"
  by code_simp

end
