(* ===== verification/Store_Control.thy ===== *)
theory Store_Control
  imports Store_Telemetry
begin

text \<open>
  Control commands and evidence pullbacks: their model (\<^verbatim>\<open>internal/controlmodel/model.go\<close>), the store's
  operations on them (\<^verbatim>\<open>internal/store/store.go\<close>), and the gateway's handling of a pullback result
  (\<^verbatim>\<open>internal/gateway/control_grpc.go\<close>). The JSON decoder of an evidence graph is an argument.
\<close>

section \<open>The model of a command\<close>

definition ControlCommandTerminalStatus :: "string \<Rightarrow> bool" where
  "ControlCommandTerminalStatus status =
     (status \<in> set [''applied'', ''rejected'', ''failed'', ''canceled'', ''expired''])"

definition NormalizeControlCommand :: "time \<Rightarrow> ControlCommand \<Rightarrow> ControlCommand" where
  "NormalizeControlCommand now cmd =
     (let cmd = cmd\<lparr> cc_Type := TrimSpace (cc_Type cmd) \<rparr>;
          cmd = cmd\<lparr> cc_TenantID := orDefault (cc_TenantID cmd) \<rparr>;
          cmd = (if cc_Status cmd = '''' then cmd\<lparr> cc_Status := ''pending'' \<rparr> else cmd);
          cmd = (if cc_CreatedAt cmd = 0 then cmd\<lparr> cc_CreatedAt := now \<rparr> else cmd);
          cmd = cmd\<lparr> cc_UpdatedAt := now \<rparr>
      in if cc_CommandID cmd = '''' then cmd\<lparr> cc_CommandID := ''ctrl-'' @ fmt_d (UnixNano now) \<rparr> else cmd)"

definition NormalizeEvidencePullback :: "time \<Rightarrow> EvidencePullbackRequest \<Rightarrow> EvidencePullbackRequest" where
  "NormalizeEvidencePullback now req =
     (let req = req\<lparr> pb_TenantID := orDefault (pb_TenantID req) \<rparr>;
          req = (if pb_Status req = '''' then req\<lparr> pb_Status := ''pending'' \<rparr> else req);
          req = (if pb_CreatedAt req = 0 then req\<lparr> pb_CreatedAt := now \<rparr> else req);
          req = req\<lparr> pb_UpdatedAt := now \<rparr>
      in if pb_RequestID req = '''' then req\<lparr> pb_RequestID := ''evpb-'' @ fmt_d (UnixNano now) \<rparr> else req)"

section \<open>Control commands in the store\<close>

definition replaceCommand :: "ControlCommand \<Rightarrow> ControlCommand \<Rightarrow> ControlCommand" where
  "replaceCommand cmd existing =
     cmd\<lparr> cc_CreatedAt := cc_CreatedAt existing,
          cc_SentAt := (if cc_SentAt cmd = 0 then cc_SentAt existing else cc_SentAt cmd),
          cc_AckedAt := (if cc_AckedAt cmd = 0 then cc_AckedAt existing else cc_AckedAt cmd) \<rparr>"

definition CreateControlCommand :: "time \<Rightarrow> ControlCommand \<Rightarrow> Store \<Rightarrow> ControlCommand \<times> Store" where
  "CreateControlCommand now cmd s =
     (let cmd = NormalizeControlCommand now cmd;
          same = (\<lambda>existing. cc_CommandID existing = cc_CommandID cmd)
      in (case find same (st_ControlCommands s) of None \<Rightarrow> cmd | Some existing \<Rightarrow> replaceCommand cmd existing,
          s\<lparr> st_ControlCommands := upsertBy same (replaceCommand cmd) cmd (st_ControlCommands s) \<rparr>))"

definition ListControlCommands :: "string \<Rightarrow> string \<Rightarrow> string \<Rightarrow> Store \<Rightarrow> ControlCommand list" where
  "ListControlCommands tenantID agentID commandType s =
     sort_key cc_CreatedAt
       (filter (\<lambda>cmd. optional tenantID (cc_TenantID cmd) \<and> optional agentID (cc_AgentID cmd) \<and> optional commandType (cc_Type cmd))
         (st_ControlCommands s))"

definition PendingControlCommands :: "string \<Rightarrow> string \<Rightarrow> Store \<Rightarrow> ControlCommand list" where
  "PendingControlCommands tenantID agentID s =
     filter (\<lambda>cmd. \<not> ControlCommandTerminalStatus (cc_Status cmd)) (ListControlCommands tenantID agentID '''' s)"

definition upsertControlCommandSnapshot :: "ControlCommand list \<Rightarrow> ControlCommand \<Rightarrow> ControlCommand list" where
  "upsertControlCommandSnapshot commands cmd =
     upsertBy (\<lambda>existing. cc_CommandID existing = cc_CommandID cmd \<and> cc_TenantID existing = cc_TenantID cmd) (\<lambda>_. cmd) cmd commands"

definition addresses :: "string \<Rightarrow> string \<Rightarrow> string \<Rightarrow> ControlCommand \<Rightarrow> bool" where
  "addresses commandID tenantID agentID cmd \<longleftrightarrow>
     cc_CommandID cmd = commandID \<and> optional tenantID (cc_TenantID cmd) \<and> optional agentID (cc_AgentID cmd)"

text \<open>
  The first command addressed is updated in place; where there is none the listing is searched, which with a backend
  may know more commands than the table.
\<close>

definition updateControlCommand ::
  "string \<Rightarrow> string \<Rightarrow> string \<Rightarrow> (ControlCommand \<Rightarrow> ControlCommand) \<Rightarrow> Store \<Rightarrow> ControlCommand option \<times> Store" where
  "updateControlCommand commandID tenantID agentID update s =
     (case find (addresses commandID tenantID agentID) (st_ControlCommands s) of
        Some cmd \<Rightarrow>
          (Some (update cmd),
           s\<lparr> st_ControlCommands := updateFirst (addresses commandID tenantID agentID) update (st_ControlCommands s) \<rparr>)
      | None \<Rightarrow>
          (case find (\<lambda>cmd. cc_CommandID cmd = commandID) (ListControlCommands tenantID agentID '''' s) of
             Some cmd \<Rightarrow>
               (Some (update cmd), s\<lparr> st_ControlCommands := upsertControlCommandSnapshot (st_ControlCommands s) (update cmd) \<rparr>)
           | None \<Rightarrow> (None, s)))"

definition sentCommand :: "time \<Rightarrow> ControlCommand \<Rightarrow> ControlCommand" where
  "sentCommand sentAt cmd =
     (let cmd = (if \<not> ControlCommandTerminalStatus (cc_Status cmd) then cmd\<lparr> cc_Status := ''sent'' \<rparr> else cmd)
      in cmd\<lparr> cc_SentAt := sentAt, cc_LastSentAt := sentAt, cc_AttemptCount := cc_AttemptCount cmd + 1, cc_UpdatedAt := sentAt \<rparr>)"

definition MarkControlCommandSent ::
  "time \<Rightarrow> string \<Rightarrow> string \<Rightarrow> string \<Rightarrow> time \<Rightarrow> Store \<Rightarrow> ControlCommand option \<times> Store" where
  "MarkControlCommandSent now commandID tenantID agentID sentAt s =
     (if commandID = '''' then (None, s)
      else updateControlCommand commandID tenantID agentID (sentCommand (if sentAt = 0 then now else sentAt)) s)"

definition canceledCommand :: "time \<Rightarrow> string \<Rightarrow> string \<Rightarrow> ControlCommand \<Rightarrow> ControlCommand" where
  "canceledCommand now actor reason cmd =
     (if ControlCommandTerminalStatus (cc_Status cmd) then cmd
      else let cmd = cmd\<lparr> cc_Status := ''canceled'', cc_CanceledAt := now, cc_UpdatedAt := now \<rparr>;
               cmd = (if actor \<noteq> '''' then cmd\<lparr> cc_Actor := actor \<rparr> else cmd)
           in if reason \<noteq> '''' then cmd\<lparr> cc_Error := reason \<rparr> else cmd)"

definition CancelControlCommand ::
  "time \<Rightarrow> string \<Rightarrow> string \<Rightarrow> string \<Rightarrow> string \<Rightarrow> string \<Rightarrow> Store \<Rightarrow> ControlCommand option \<times> Store" where
  "CancelControlCommand now commandID tenantID agentID actor reason s =
     (if commandID = '''' then (None, s) else updateControlCommand commandID tenantID agentID (canceledCommand now actor reason) s)"

definition retriedCommand :: "time \<Rightarrow> string \<Rightarrow> string \<Rightarrow> ControlCommand \<Rightarrow> ControlCommand" where
  "retriedCommand now actor reason cmd =
     (if cc_Status cmd = ''applied'' then cmd
      else let cmd = cmd\<lparr> cc_Status := ''pending'', cc_UpdatedAt := now, cc_AckedAt := 0, cc_CanceledAt := 0, cc_ExpiredAt := 0,
                          cc_AckStatus := '''', cc_AckMessage := '''', cc_AckPolicyID := '''', cc_AckPolicyVer := 0,
                          cc_AckReportJSON := '''', cc_Error := '''' \<rparr>;
               cmd = (if actor \<noteq> '''' then cmd\<lparr> cc_Actor := actor \<rparr> else cmd)
           in if reason \<noteq> '''' then cmd\<lparr> cc_Reason := reason \<rparr> else cmd)"

definition RetryControlCommand ::
  "time \<Rightarrow> string \<Rightarrow> string \<Rightarrow> string \<Rightarrow> string \<Rightarrow> string \<Rightarrow> Store \<Rightarrow> ControlCommand option \<times> Store" where
  "RetryControlCommand now commandID tenantID agentID actor reason s =
     (if commandID = '''' then (None, s) else updateControlCommand commandID tenantID agentID (retriedCommand now actor reason) s)"

definition expiredCommand :: "time \<Rightarrow> string \<Rightarrow> ControlCommand \<Rightarrow> ControlCommand" where
  "expiredCommand now reason cmd =
     (if ControlCommandTerminalStatus (cc_Status cmd) then cmd
      else let cmd = cmd\<lparr> cc_Status := ''expired'', cc_ExpiredAt := now, cc_UpdatedAt := now \<rparr>
           in if reason \<noteq> '''' then cmd\<lparr> cc_Error := reason \<rparr> else cmd)"

definition ExpireControlCommand ::
  "time \<Rightarrow> string \<Rightarrow> string \<Rightarrow> string \<Rightarrow> string \<Rightarrow> Store \<Rightarrow> ControlCommand option \<times> Store" where
  "ExpireControlCommand now commandID tenantID agentID reason s =
     (if commandID = '''' then (None, s) else updateControlCommand commandID tenantID agentID (expiredCommand now reason) s)"

definition applyControlCommandAck :: "ControlCommandAck \<Rightarrow> ControlCommand \<Rightarrow> ControlCommand" where
  "applyControlCommandAck ack cmd =
     (let status = (if ck_Status ack = '''' then ''applied'' else ck_Status ack);
          cmd = (if status \<in> set [''applied'', ''accepted'', ''validated'', ''degraded''] then cmd\<lparr> cc_Status := ''applied'' \<rparr>
                 else if status = ''rejected'' then cmd\<lparr> cc_Status := ''rejected'', cc_Error := ck_Message ack \<rparr>
                 else if status = ''failed'' then cmd\<lparr> cc_Status := ''failed'', cc_Error := ck_Message ack \<rparr>
                 else cmd\<lparr> cc_Status := status \<rparr>)
      in cmd\<lparr> cc_AckStatus := ck_Status ack, cc_AckMessage := ck_Message ack, cc_AckPolicyID := ck_PolicyID ack,
              cc_AckPolicyVer := ck_PolicyVersion ack, cc_AckReportJSON := ck_ReportJSON ack, cc_AckedAt := ck_ObservedAt ack,
              cc_UpdatedAt := ck_ObservedAt ack \<rparr>)"

definition AckControlCommand :: "time \<Rightarrow> ControlCommandAck \<Rightarrow> Store \<Rightarrow> ControlCommand option \<times> Store" where
  "AckControlCommand now ack s =
     (if ck_CommandID ack = '''' then (None, s)
      else let ack = (if ck_ObservedAt ack = 0 then ack\<lparr> ck_ObservedAt := now \<rparr> else ack)
           in updateControlCommand (ck_CommandID ack) (ck_TenantID ack) (ck_AgentID ack) (applyControlCommandAck ack) s)"

section \<open>Evidence pullbacks\<close>

definition keepPullbackCreatedAt :: "EvidencePullbackRequest \<Rightarrow> EvidencePullbackRequest \<Rightarrow> EvidencePullbackRequest" where
  "keepPullbackCreatedAt req existing = req\<lparr> pb_CreatedAt := pb_CreatedAt existing \<rparr>"

definition CreateEvidencePullback :: "time \<Rightarrow> EvidencePullbackRequest \<Rightarrow> Store \<Rightarrow> EvidencePullbackRequest \<times> Store" where
  "CreateEvidencePullback now req s =
     (let req = NormalizeEvidencePullback now req;
          same = (\<lambda>existing. pb_RequestID existing = pb_RequestID req)
      in (case find same (st_Pullbacks s) of None \<Rightarrow> req | Some existing \<Rightarrow> keepPullbackCreatedAt req existing,
          s\<lparr> st_Pullbacks := upsertBy same (keepPullbackCreatedAt req) req (st_Pullbacks s) \<rparr>))"

definition ListEvidencePullbacks :: "string \<Rightarrow> string \<Rightarrow> Store \<Rightarrow> EvidencePullbackRequest list" where
  "ListEvidencePullbacks tenantID agentID s =
     sort_key pb_CreatedAt (filter (\<lambda>req. optional tenantID (pb_TenantID req) \<and> optional agentID (pb_AgentID req)) (st_Pullbacks s))"

definition pullbackFor :: "string \<Rightarrow> string \<Rightarrow> string \<Rightarrow> EvidencePullbackRequest \<Rightarrow> bool" where
  "pullbackFor requestID tenantID agentID req \<longleftrightarrow>
     pb_RequestID req = requestID \<and> optional tenantID (pb_TenantID req) \<and> optional agentID (pb_AgentID req)"

definition GetEvidencePullback :: "string \<Rightarrow> string \<Rightarrow> string \<Rightarrow> Store \<Rightarrow> EvidencePullbackRequest option" where
  "GetEvidencePullback requestID tenantID agentID s =
     (if requestID = '''' then None else find (pullbackFor requestID tenantID agentID) (st_Pullbacks s))"

definition PendingEvidencePullbacks :: "string \<Rightarrow> string \<Rightarrow> Store \<Rightarrow> EvidencePullbackRequest list" where
  "PendingEvidencePullbacks tenantID agentID s = filter (\<lambda>req. pb_Status req = ''pending'') (ListEvidencePullbacks tenantID agentID s)"

definition completedPullback :: "EvidencePullbackResult \<Rightarrow> EvidencePullbackRequest \<Rightarrow> EvidencePullbackRequest" where
  "completedPullback result req =
     req\<lparr> pb_ResultOK := pr_OK result, pb_Result := pr_Message result, pb_UpdatedAt := pr_ObservedAt result,
          pb_CompletedAt := pr_ObservedAt result, pb_Status := (if pr_OK result then ''completed'' else ''failed'') \<rparr>"

definition CompleteEvidencePullback :: "time \<Rightarrow> EvidencePullbackResult \<Rightarrow> Store \<Rightarrow> EvidencePullbackRequest option \<times> Store" where
  "CompleteEvidencePullback now result s =
     (if pr_RequestID result = '''' then (None, s)
      else let result = (if pr_ObservedAt result = 0 then result\<lparr> pr_ObservedAt := now \<rparr> else result);
               match = pullbackFor (pr_RequestID result) (pr_TenantID result) (pr_AgentID result)
           in (map_option (completedPullback result) (find match (st_Pullbacks s)),
               s\<lparr> st_Pullbacks := updateFirst match (completedPullback result) (st_Pullbacks s) \<rparr>))"

datatype pullbackError = RequestIDRequired | PullbackNotFound | DecodeError | IncidentNotFound

text \<open>The case \<^verbatim>\<open>evidence_pullback_result\<close> of the gateway's frame handler.\<close>

definition evidencePullbackResult ::
  "(string \<Rightarrow> EvidenceSubgraph option) \<Rightarrow> time \<Rightarrow> EvidencePullbackResult \<Rightarrow> Store \<Rightarrow> pullbackError option \<times> Store" where
  "evidencePullbackResult unmarshal now result s =
     (if pr_RequestID result = '''' then (Some RequestIDRequired, s)
      else case GetEvidencePullback (pr_RequestID result) (pr_TenantID result) (pr_AgentID result) s of
             None \<Rightarrow> (Some PullbackNotFound, s)
           | Some req \<Rightarrow>
               (let attached =
                  (if pr_Evidence result \<noteq> '''' then
                     (case unmarshal (pr_Evidence result) of
                        None \<Rightarrow> (Some DecodeError, s)
                      | Some evidence \<Rightarrow>
                          (case AttachIncidentEvidence (pb_IncidentID req) (pb_Labels req) (Some evidence) s of
                             (None, s) \<Rightarrow> (Some IncidentNotFound, s)
                           | (Some _, s) \<Rightarrow> (None, s)))
                   else (None, s))
                in case attached of
                     (Some err, s) \<Rightarrow> (Some err, s)
                   | (None, s) \<Rightarrow>
                       (case CompleteEvidencePullback now result s of
                          (None, s) \<Rightarrow> (Some PullbackNotFound, s)
                        | (Some _, s) \<Rightarrow> (None, s))))"

section \<open>The tables\<close>

interpretation commands: keyed_table cc_CommandID replaceCommand
  by unfold_locales (simp add: replaceCommand_def)

interpretation pullbacks: keyed_table pb_RequestID keepPullbackCreatedAt
  by unfold_locales (simp add: keepPullbackCreatedAt_def)

text \<open>The operations on one command, seen from the command alone.\<close>

datatype controlOp =
    OpCreate time ControlCommand
  | OpSent time string string string time
  | OpCancel time string string string string string
  | OpRetry time string string string string string
  | OpExpire time string string string string
  | OpAck time ControlCommandAck

fun controlStep :: "controlOp \<Rightarrow> Store \<Rightarrow> Store" where
  "controlStep (OpCreate now cmd) s = snd (CreateControlCommand now cmd s)"
| "controlStep (OpSent now commandID tenantID agentID sentAt) s = snd (MarkControlCommandSent now commandID tenantID agentID sentAt s)"
| "controlStep (OpCancel now commandID tenantID agentID actor reason) s = snd (CancelControlCommand now commandID tenantID agentID actor reason s)"
| "controlStep (OpRetry now commandID tenantID agentID actor reason) s = snd (RetryControlCommand now commandID tenantID agentID actor reason s)"
| "controlStep (OpExpire now commandID tenantID agentID reason) s = snd (ExpireControlCommand now commandID tenantID agentID reason s)"
| "controlStep (OpAck now ack) s = snd (AckControlCommand now ack s)"

definition runControl :: "controlOp list \<Rightarrow> Store \<Rightarrow> Store" where
  "runControl ops s = fold controlStep ops s"

definition whenAddressed :: "string \<Rightarrow> string \<Rightarrow> string \<Rightarrow> string \<Rightarrow> (ControlCommand \<Rightarrow> ControlCommand) \<Rightarrow> ControlCommand option \<Rightarrow> ControlCommand option" where
  "whenAddressed k commandID tenantID agentID f c =
     (if k = commandID \<and> commandID \<noteq> ''''
      then map_option (\<lambda>cmd. if optional tenantID (cc_TenantID cmd) \<and> optional agentID (cc_AgentID cmd) then f cmd else cmd) c
      else c)"

fun commandStep :: "string \<Rightarrow> controlOp \<Rightarrow> ControlCommand option \<Rightarrow> ControlCommand option" where
  "commandStep k (OpCreate now cmd) c =
     (let cmd = NormalizeControlCommand now cmd
      in if k = cc_CommandID cmd then Some (case c of None \<Rightarrow> cmd | Some existing \<Rightarrow> replaceCommand cmd existing) else c)"
| "commandStep k (OpSent now commandID tenantID agentID sentAt) c =
     whenAddressed k commandID tenantID agentID (sentCommand (if sentAt = 0 then now else sentAt)) c"
| "commandStep k (OpCancel now commandID tenantID agentID actor reason) c =
     whenAddressed k commandID tenantID agentID (canceledCommand now actor reason) c"
| "commandStep k (OpRetry now commandID tenantID agentID actor reason) c =
     whenAddressed k commandID tenantID agentID (retriedCommand now actor reason) c"
| "commandStep k (OpExpire now commandID tenantID agentID reason) c =
     whenAddressed k commandID tenantID agentID (expiredCommand now reason) c"
| "commandStep k (OpAck now ack) c =
     whenAddressed k (ck_CommandID ack) (ck_TenantID ack) (ck_AgentID ack)
       (applyControlCommandAck (if ck_ObservedAt ack = 0 then ack\<lparr> ck_ObservedAt := now \<rparr> else ack)) c"

lemma command_ids [simp]:
  "cc_CommandID (sentCommand t cmd) = cc_CommandID cmd"
  "cc_CommandID (canceledCommand t actor reason cmd) = cc_CommandID cmd"
  "cc_CommandID (retriedCommand t actor reason cmd) = cc_CommandID cmd"
  "cc_CommandID (expiredCommand t reason cmd) = cc_CommandID cmd"
  "cc_CommandID (applyControlCommandAck ack cmd) = cc_CommandID cmd"
  by (simp_all add: sentCommand_def canceledCommand_def retriedCommand_def expiredCommand_def applyControlCommandAck_def Let_def)

text \<open>Without a backend the second search of \<^verbatim>\<open>updateControlCommand\<close> finds nothing the first has not found.\<close>

lemma updateControlCommand_table:
  "updateControlCommand commandID tenantID agentID update s =
   (map_option update (find (addresses commandID tenantID agentID) (st_ControlCommands s)),
    s\<lparr> st_ControlCommands := updateFirst (addresses commandID tenantID agentID) update (st_ControlCommands s) \<rparr>)"
proof (cases "find (addresses commandID tenantID agentID) (st_ControlCommands s)")
  case None
  then have "find (\<lambda>cmd. cc_CommandID cmd = commandID) (ListControlCommands tenantID agentID '''' s) = None"
    by (auto simp: find_None_iff ListControlCommands_def addresses_def)
  then show ?thesis using None by (simp add: updateControlCommand_def updateFirst_None)
next
  case (Some cmd)
  then show ?thesis by (simp add: updateControlCommand_def)
qed

lemma updateControlCommand_row:
  assumes "distinct (map cc_CommandID (st_ControlCommands s))" and "\<And>r. cc_CommandID (f r) = cc_CommandID r" and "commandID \<noteq> ''''"
  shows "row cc_CommandID (st_ControlCommands (snd (updateControlCommand commandID tenantID agentID f s))) k =
      whenAddressed k commandID tenantID agentID f (row cc_CommandID (st_ControlCommands s) k)"
    and "distinct (map cc_CommandID (st_ControlCommands (snd (updateControlCommand commandID tenantID agentID f s))))"
proof -
  have "row cc_CommandID rows k = Some r \<Longrightarrow> cc_CommandID r = k" for r and rows :: "ControlCommand list"
    using commands.row_key by blast
  then have "map_option (\<lambda>r. if addresses k tenantID agentID r then f r else r) (row cc_CommandID rows k) =
      map_option (\<lambda>r. if optional tenantID (cc_TenantID r) \<and> optional agentID (cc_AgentID r) then f r else r) (row cc_CommandID rows k)"
      for rows :: "ControlCommand list"
    by (cases "row cc_CommandID rows k") (auto simp: addresses_def)
  then show "row cc_CommandID (st_ControlCommands (snd (updateControlCommand commandID tenantID agentID f s))) k =
      whenAddressed k commandID tenantID agentID f (row cc_CommandID (st_ControlCommands s) k)"
    using updateFirst_row [OF assms(1,2), of "addresses commandID tenantID agentID" commandID k] assms(3)
    by (auto simp: updateControlCommand_table whenAddressed_def addresses_def)
  show "distinct (map cc_CommandID (st_ControlCommands (snd (updateControlCommand commandID tenantID agentID f s))))"
    using assms(1,2) by (simp add: updateControlCommand_table map_updateFirst)
qed

lemma controlStep_row:
  assumes "distinct (map cc_CommandID (st_ControlCommands s))"
  shows "row cc_CommandID (st_ControlCommands (controlStep op s)) k = commandStep k op (row cc_CommandID (st_ControlCommands s) k)"
    and "distinct (map cc_CommandID (st_ControlCommands (controlStep op s)))"
proof -
  note row = updateControlCommand_row(1) [OF assms] and dist = updateControlCommand_row(2) [OF assms]
  note ops = CreateControlCommand_def MarkControlCommandSent_def CancelControlCommand_def RetryControlCommand_def ExpireControlCommand_def
    AckControlCommand_def
  show "row cc_CommandID (st_ControlCommands (controlStep op s)) k = commandStep k op (row cc_CommandID (st_ControlCommands s) k)"
    by (cases op) (simp_all add: ops Let_def row commands.upsert_row whenAddressed_def)
  show "distinct (map cc_CommandID (st_ControlCommands (controlStep op s)))"
    using assms by (cases op) (simp_all add: ops Let_def dist commands.upsert_distinct)
qed

lemma runControl_row:
  "distinct (map cc_CommandID (st_ControlCommands s)) \<Longrightarrow>
   row cc_CommandID (st_ControlCommands (runControl ops s)) k = fold (commandStep k) ops (row cc_CommandID (st_ControlCommands s) k) \<and>
   distinct (map cc_CommandID (st_ControlCommands (runControl ops s)))"
  unfolding runControl_def by (induction ops arbitrary: s) (simp_all add: controlStep_row)

text \<open>
  C18. The table of control commands is a family of independent commands: after any sequence of
  creations, sendings, cancellations, retries, expiries and acknowledgements from an empty store, the command with
  identifier \<open>k\<close> is the one that the operations addressed to \<open>k\<close> give, one after the other, and the table holds
  no identifier twice.
\<close>

theorem control_table_refines_commands:
  "find (\<lambda>c. cc_CommandID c = k) (st_ControlCommands (runControl ops emptyStore)) = fold (commandStep k) ops None \<and>
   distinct (map cc_CommandID (st_ControlCommands (runControl ops emptyStore)))"
  using runControl_row [of emptyStore ops k] by (simp add: row_def emptyStore_def)

section \<open>Applied commands\<close>

text \<open>Operations after which an applied command \<open>k\<close> is still applied.\<close>

fun keepsApplied :: "string \<Rightarrow> controlOp \<Rightarrow> bool" where
  "keepsApplied k (OpCreate now cmd) \<longleftrightarrow> cc_CommandID (NormalizeControlCommand now cmd) \<noteq> k"
| "keepsApplied k (OpAck now ack) \<longleftrightarrow>
     ck_CommandID ack \<noteq> k \<or> ck_Status ack \<in> {'''', ''applied'', ''accepted'', ''validated'', ''degraded''}"
| "keepsApplied k _ \<longleftrightarrow> True"

lemma updates_applied:
  assumes "cc_Status c = ''applied''"
  shows "cc_Status (sentCommand u c) = ''applied''" "cc_Status (canceledCommand u actor reason c) = ''applied''"
    "cc_Status (retriedCommand u actor reason c) = ''applied''" "cc_Status (expiredCommand u reason c) = ''applied''"
proof -
  have "ControlCommandTerminalStatus (cc_Status c)" using assms by (simp add: ControlCommandTerminalStatus_def)
  then show "cc_Status (sentCommand u c) = ''applied''" "cc_Status (canceledCommand u actor reason c) = ''applied''"
    "cc_Status (retriedCommand u actor reason c) = ''applied''" "cc_Status (expiredCommand u reason c) = ''applied''"
    using assms by (simp_all add: sentCommand_def canceledCommand_def retriedCommand_def expiredCommand_def)
qed

lemma ack_applied:
  "ck_Status ack \<in> {'''', ''applied'', ''accepted'', ''validated'', ''degraded''} \<Longrightarrow> cc_Status (applyControlCommandAck ack c) = ''applied''"
  by (simp add: applyControlCommandAck_def Let_def) (elim disjE; simp)

lemma whenAddressed_applied:
  "cc_Status c = ''applied'' \<Longrightarrow> (k = i \<Longrightarrow> cc_Status (f c) = ''applied'') \<Longrightarrow>
   \<exists>c'. whenAddressed k i tenantID agentID f (Some c) = Some c' \<and> cc_Status c' = ''applied''"
  by (simp add: whenAddressed_def)

lemma commandStep_applied:
  assumes "cc_Status c = ''applied''" "keepsApplied k op"
  shows "\<exists>c'. commandStep k op (Some c) = Some c' \<and> cc_Status c' = ''applied''"
proof (cases op)
  case (OpAck now ack)
  have "\<exists>c'. whenAddressed k (ck_CommandID ack) (ck_TenantID ack) (ck_AgentID ack)
      (applyControlCommandAck (if ck_ObservedAt ack = 0 then ack\<lparr> ck_ObservedAt := now \<rparr> else ack)) (Some c) = Some c' \<and> cc_Status c' = ''applied''"
    by (rule whenAddressed_applied [OF assms(1)]; rule ack_applied) (use assms(2) OpAck in auto)
  then show ?thesis using OpAck by simp
qed (use assms in \<open>simp_all only: commandStep.simps keepsApplied.simps Let_def if_False option.inject whenAddressed_applied updates_applied not_sym
      simp_thms ex_simps\<close>)

lemma commandSteps_applied:
  "cc_Status c = ''applied'' \<Longrightarrow> list_all (keepsApplied k) ops \<Longrightarrow>
   \<exists>c'. fold (commandStep k) ops (Some c) = Some c' \<and> cc_Status c' = ''applied''"
proof (induction ops arbitrary: c)
  case Nil
  then show ?case by simp
next
  case (Cons op ops)
  then have "keepsApplied k op" by simp
  from commandStep_applied [OF Cons.prems(1) this] obtain c' where "commandStep k op (Some c) = Some c'" "cc_Status c' = ''applied''"
    by (elim exE conjE)
  then show ?case using Cons by simp
qed

text \<open>
  C32. A command the agent applied is not sent again: once the command with identifier \<open>k\<close> is applied, it stays
  applied through every later sending, cancellation, retry and expiry, and through acknowledgements of success, and
  \<^verbatim>\<open>PendingControlCommands\<close> never offers \<open>k\<close> again, to any agent of any tenant, unless the command is created anew.
\<close>

theorem applied_commands_stay_applied:
  assumes "find (\<lambda>c. cc_CommandID c = k) (st_ControlCommands (runControl ops emptyStore)) = Some c"
    and "cc_Status c = ''applied''" and "list_all (keepsApplied k) later"
  shows "(\<exists>c'. find (\<lambda>c. cc_CommandID c = k) (st_ControlCommands (runControl (ops @ later) emptyStore)) = Some c' \<and>
            cc_Status c' = ''applied'') \<and>
         k \<notin> set (map cc_CommandID (PendingControlCommands tenantID agentID (runControl (ops @ later) emptyStore)))"
proof -
  let ?s = "runControl (ops @ later) emptyStore"
  have row: "row cc_CommandID (st_ControlCommands (runControl xs emptyStore)) k = fold (commandStep k) xs None"
    and dist: "distinct (map cc_CommandID (st_ControlCommands (runControl xs emptyStore)))" for xs
    using runControl_row [of emptyStore xs k] by (simp_all add: emptyStore_def row_def)
  have "fold (commandStep k) ops None = Some c" using assms(1) row [of ops] by (simp add: row_def)
  then obtain c' where c': "row cc_CommandID (st_ControlCommands ?s) k = Some c'" "cc_Status c' = ''applied''"
    using commandSteps_applied [OF assms(2,3)] row [of "ops @ later"] by auto
  have "k \<noteq> cc_CommandID d" if "d \<in> set (PendingControlCommands tenantID agentID ?s)" for d
  proof
    assume k: "k = cc_CommandID d"
    from that have "d \<in> set (st_ControlCommands ?s)" "cc_Status d \<noteq> ''applied''"
      by (auto simp: PendingControlCommands_def ListControlCommands_def ControlCommandTerminalStatus_def)
    then show False using commands.row_of_member [OF dist [of "ops @ later"], of d] c' k by simp
  qed
  then show ?thesis using c' by (auto simp: row_def)
qed

definition policyUpdate :: ControlCommand where
  "policyUpdate = \<lparr> cc_CommandID = ''c1'', cc_TenantID = '''', cc_AgentID = ''a1'', cc_Type = ''policy_update'', cc_Status = '''',
     cc_PolicyID = ''strict'', cc_PolicyVersion = 1, cc_ContentRef = '''', cc_ContentKind = '''', cc_ContentVersion = '''',
     cc_PayloadJSON = '''', cc_Actor = '''', cc_Reason = '''', cc_CreatedAt = 0, cc_UpdatedAt = 0, cc_SentAt = 0, cc_LastSentAt = 0,
     cc_AckedAt = 0, cc_CanceledAt = 0, cc_ExpiredAt = 0, cc_AttemptCount = 0, cc_AckStatus = '''', cc_AckMessage = '''',
     cc_AckPolicyID = '''', cc_AckPolicyVer = 0, cc_AckReportJSON = '''', cc_Error = '''' \<rparr>"

definition ackOf :: "string \<Rightarrow> string \<Rightarrow> ControlCommandAck" where
  "ackOf commandID status = \<lparr> ck_CommandID = commandID, ck_TenantID = '''', ck_AgentID = ''a1'', ck_Status = status, ck_Message = '''',
     ck_PolicyID = '''', ck_PolicyVersion = 0, ck_ReportJSON = '''', ck_ObservedAt = 9 \<rparr>"

definition appliedRun :: "controlOp list" where
  "appliedRun = [OpCreate 1 policyUpdate, OpSent 2 ''c1'' ''default'' ''a1'' 0, OpAck 3 (ackOf ''c1'' ''accepted'')]"

definition laterRun :: "controlOp list" where
  "laterRun = [OpCancel 4 ''c1'' '''' '''' ''op'' ''stop'', OpRetry 5 ''c1'' '''' '''' ''op'' '''', OpExpire 6 ''c1'' '''' '''' '''',
     OpAck 7 (ackOf ''c1'' '''')]"

theorem applied_commands_stay_applied_witness:
  "\<exists>c'. find (\<lambda>c. cc_CommandID c = ''c1'') (st_ControlCommands (runControl (appliedRun @ laterRun) emptyStore)) = Some c' \<and>
      cc_Status c' = ''applied'' \<and> ''c1'' \<notin> set (map cc_CommandID (PendingControlCommands '''' ''a1'' (runControl (appliedRun @ laterRun) emptyStore)))"
proof -
  have "map_option cc_Status (find (\<lambda>c. cc_CommandID c = ''c1'') (st_ControlCommands (runControl appliedRun emptyStore))) = Some ''applied''"
    by code_simp
  then obtain c where c: "find (\<lambda>c. cc_CommandID c = ''c1'') (st_ControlCommands (runControl appliedRun emptyStore)) = Some c"
    "cc_Status c = ''applied''" by auto
  have later: "list_all (keepsApplied ''c1'') laterRun" by code_simp
  show ?thesis using applied_commands_stay_applied [OF c later, of "''''" "''a1''"] by blast
qed

section \<open>Pullback results\<close>

lemma AttachIncidentEvidence_simps:
  "fst (AttachIncidentEvidence ident labels evidence s) = None \<Longrightarrow> snd (AttachIncidentEvidence ident labels evidence s) = s"
  "st_Pullbacks (snd (AttachIncidentEvidence ident labels evidence s)) = st_Pullbacks s"
  by (auto simp: AttachIncidentEvidence_def Let_def updateFirst_None split: if_splits)

lemma completedPullback_simps [simp]:
  "pullbackFor i t a (completedPullback result req) = pullbackFor i t a req"
  "pb_IncidentID (completedPullback result req) = pb_IncidentID req"
  "pb_Labels (completedPullback result req) = pb_Labels req"
  "pb_Status (completedPullback result req) = (if pr_OK result then ''completed'' else ''failed'')"
  by (simp_all add: completedPullback_def pullbackFor_def)

lemma CompleteEvidencePullback_found:
  assumes "find (pullbackFor (pr_RequestID result) (pr_TenantID result) (pr_AgentID result)) (st_Pullbacks s) = Some req"
    and "pr_RequestID result \<noteq> ''''"
  obtains r where "fst (CompleteEvidencePullback now result s) = Some (completedPullback r req)" "pr_OK r = pr_OK result"
    "find (pullbackFor (pr_RequestID result) (pr_TenantID result) (pr_AgentID result))
       (st_Pullbacks (snd (CompleteEvidencePullback now result s))) = Some (completedPullback r req)"
    "st_Incidents (snd (CompleteEvidencePullback now result s)) = st_Incidents s"
proof (rule that)
  let ?r = "if pr_ObservedAt result = 0 then result\<lparr> pr_ObservedAt := now \<rparr> else result"
  have ids: "pr_RequestID ?r = pr_RequestID result" "pr_TenantID ?r = pr_TenantID result" "pr_AgentID ?r = pr_AgentID result" by simp_all
  have eq: "CompleteEvidencePullback now result s =
     (Some (completedPullback ?r req), s\<lparr> st_Pullbacks := updateFirst
        (pullbackFor (pr_RequestID result) (pr_TenantID result) (pr_AgentID result)) (completedPullback ?r) (st_Pullbacks s) \<rparr>)"
    using assms unfolding CompleteEvidencePullback_def Let_def ids by simp
  show "fst (CompleteEvidencePullback now result s) = Some (completedPullback ?r req)" "pr_OK ?r = pr_OK result"
    "find (pullbackFor (pr_RequestID result) (pr_TenantID result) (pr_AgentID result))
       (st_Pullbacks (snd (CompleteEvidencePullback now result s))) = Some (completedPullback ?r req)"
    "st_Incidents (snd (CompleteEvidencePullback now result s)) = st_Incidents s"
    unfolding eq by (simp_all add: find_updateFirst_same assms(1) del: completedPullback_simps(2-))
qed

text \<open>What attaching the evidence of a result does, for the request \<open>req\<close> it answers.\<close>

definition attachedEvidence :: "(string \<Rightarrow> EvidenceSubgraph option) \<Rightarrow> EvidencePullbackResult \<Rightarrow> EvidencePullbackRequest \<Rightarrow> Incident list \<Rightarrow> Incident list" where
  "attachedEvidence unmarshal result req incs =
     (if pr_Evidence result = '''' then incs
      else updateFirst (\<lambda>inc. optional (pb_IncidentID req) (inc_id inc) \<and> labelSelectorMatches (inc_labels inc) (pb_Labels req))
             (\<lambda>inc. inc\<lparr> inc_evidence := mergeEvidence (inc_evidence inc) (unmarshal (pr_Evidence result)) \<rparr>) incs)"

lemma AttachIncidentEvidence_incidents:
  "fst (AttachIncidentEvidence ident labels (Some g) s) \<noteq> None \<Longrightarrow>
   st_Incidents (snd (AttachIncidentEvidence ident labels (Some g) s)) =
     updateFirst (\<lambda>inc. optional ident (inc_id inc) \<and> labelSelectorMatches (inc_labels inc) labels)
       (\<lambda>inc. inc\<lparr> inc_evidence := mergeEvidence (inc_evidence inc) (Some g) \<rparr>) (st_Incidents s)"
  by (auto simp: AttachIncidentEvidence_def Let_def)


end
