(* ===== verification/Store_Enrollment.thy ===== *)
theory Store_Enrollment
  imports Cloud_Store
begin

text \<open>
  Enrollment of agents: the tables of enrollments, artifacts, channels and certificates
  (\<^verbatim>\<open>internal/store/store.go\<close>, \<^verbatim>\<open>enrollment_issue.go\<close>, \<^verbatim>\<open>enrollment_bootstrap.go\<close>) and the manager's issuing of a
  certificate for a token (\<^verbatim>\<open>internal/manager/api/http_enrollments.go\<close>). Copies of label maps are the maps themselves.
  The SHA-256 sum of a token and the signing of a request, which draws a random serial number, are arguments.
\<close>

section \<open>Enrollments\<close>

definition Enrollment_zero :: Enrollment where
  "Enrollment_zero = \<lparr> en_EnrollmentID = '''', en_TenantID = '''', en_AgentID = '''', en_HostID = '''', en_TokenHash = '''',
     en_TokenPreview = '''', en_BootstrapTokenHash = '''', en_BootstrapTokenPreview = '''', en_BootstrapFetchedAt = 0, en_GatewayAddr = '''',
     en_GatewaySNI = '''', en_Profile = '''', en_Channel = '''', en_ArtifactID = '''', en_ArtifactSHA256 = '''', en_ArtifactURL = '''',
     en_Labels = [], en_Status = '''', en_CreatedAt = 0, en_ExpiresAt = 0, en_CreatedBy = '''', en_UsedAt = 0, en_IssuedKeySHA256 = '''',
     en_IssuedCertificatePEM = '''', en_IssuedCAPEM = '''', en_IssuedSerialNumber = '''', en_IssuedNotAfter = 0, en_IssuedAt = 0 \<rparr>"

definition normalizeEnrollment :: "Enrollment \<Rightarrow> Enrollment" where
  "normalizeEnrollment e =
     e\<lparr> en_EnrollmentID := TrimSpace (en_EnrollmentID e), en_TenantID := orDefault (TrimSpace (en_TenantID e)),
        en_AgentID := TrimSpace (en_AgentID e), en_HostID := TrimSpace (en_HostID e), en_TokenHash := TrimSpace (en_TokenHash e),
        en_TokenPreview := TrimSpace (en_TokenPreview e), en_GatewayAddr := TrimSpace (en_GatewayAddr e),
        en_GatewaySNI := TrimSpace (en_GatewaySNI e), en_Profile := TrimSpace (en_Profile e), en_Channel := TrimSpace (en_Channel e),
        en_ArtifactID := TrimSpace (en_ArtifactID e), en_ArtifactSHA256 := TrimSpace (en_ArtifactSHA256 e),
        en_ArtifactURL := TrimSpace (en_ArtifactURL e), en_Status := TrimSpace (en_Status e), en_CreatedBy := TrimSpace (en_CreatedBy e) \<rparr>"

definition sameEnrollment :: "Enrollment \<Rightarrow> Enrollment \<Rightarrow> bool" where
  "sameEnrollment e existing \<longleftrightarrow> en_TenantID existing = en_TenantID e \<and> en_EnrollmentID existing = en_EnrollmentID e"

definition CreateEnrollment :: "time \<Rightarrow> Enrollment \<Rightarrow> Store \<Rightarrow> Enrollment \<times> Store" where
  "CreateEnrollment now enrollment s =
     (let e = normalizeEnrollment enrollment in
      if en_EnrollmentID e = '''' \<or> en_TokenHash e = '''' then (Enrollment_zero, s)
      else let e = (if en_CreatedAt e = 0 then e\<lparr> en_CreatedAt := now \<rparr> else e);
               e = (if en_Status e = '''' then e\<lparr> en_Status := ''active'' \<rparr> else e)
           in (e, s\<lparr> st_Enrollments := upsertBy (sameEnrollment e) (\<lambda>_. e) e (st_Enrollments s) \<rparr>))"

definition ListEnrollments :: "string \<Rightarrow> string \<Rightarrow> Store \<Rightarrow> Enrollment list" where
  "ListEnrollments tenantID status s =
     sort_key (\<lambda>e. (en_TenantID e, en_CreatedAt e)) (filter (\<lambda>e. optional tenantID (en_TenantID e) \<and> optional status (en_Status e)) (st_Enrollments s))"

definition GetEnrollmentByTokenHash :: "string \<Rightarrow> Store \<Rightarrow> Enrollment option" where
  "GetEnrollmentByTokenHash tokenHash s =
     (let tokenHash = TrimSpace tokenHash
      in if tokenHash = '''' then None else find (\<lambda>e. en_TokenHash e = tokenHash) (st_Enrollments s))"

definition MarkEnrollmentUsed :: "time \<Rightarrow> string \<Rightarrow> time \<Rightarrow> Store \<Rightarrow> Enrollment option \<times> Store" where
  "MarkEnrollmentUsed now tokenHash usedAt s =
     (let tokenHash = TrimSpace tokenHash; usedAt = (if usedAt = 0 then now else usedAt);
          match = (\<lambda>e. en_TokenHash e = tokenHash); used = (\<lambda>e. e\<lparr> en_Status := ''used'', en_UsedAt := usedAt \<rparr>)
      in if tokenHash = '''' then (None, s)
         else case find match (st_Enrollments s) of
                None \<Rightarrow> (None, s)
              | Some e \<Rightarrow> if en_Status e \<noteq> ''active'' then (None, s)
                          else (Some (used e), s\<lparr> st_Enrollments := updateFirst match used (st_Enrollments s) \<rparr>))"

definition GetEnrollmentByBootstrapTokenHash :: "string \<Rightarrow> Store \<Rightarrow> Enrollment option" where
  "GetEnrollmentByBootstrapTokenHash tokenHash s =
     (let tokenHash = TrimSpace tokenHash
      in if tokenHash = '''' then None else find (\<lambda>e. en_BootstrapTokenHash e = tokenHash) (st_Enrollments s))"

definition ConsumeEnrollmentBootstrap :: "time \<Rightarrow> string \<Rightarrow> string \<Rightarrow> string \<Rightarrow> time \<Rightarrow> Store \<Rightarrow> Enrollment option \<times> Store" where
  "ConsumeEnrollmentBootstrap now bootstrapHash enrollmentHash enrollmentPreview fetchedAt s =
     (let fetchedAt = (if fetchedAt = 0 then now else fetchedAt);
          match = (\<lambda>e. en_BootstrapTokenHash e = bootstrapHash);
          fetched = (\<lambda>e. e\<lparr> en_TokenHash := enrollmentHash, en_TokenPreview := enrollmentPreview, en_BootstrapFetchedAt := fetchedAt \<rparr>)
      in case find match (st_Enrollments s) of
           None \<Rightarrow> (None, s)
         | Some e \<Rightarrow>
             if en_Status e \<noteq> ''active'' \<or> en_BootstrapFetchedAt e \<noteq> 0 \<or> (en_ExpiresAt e \<noteq> 0 \<and> fetchedAt > en_ExpiresAt e) then (None, s)
             else (Some (fetched e), s\<lparr> st_Enrollments := updateFirst match fetched (st_Enrollments s) \<rparr>))"

section \<open>Certificates\<close>

definition normalizeAgentCertificate :: "AgentCertificate \<Rightarrow> AgentCertificate" where
  "normalizeAgentCertificate c =
     c\<lparr> ce_TenantID := orDefault (TrimSpace (ce_TenantID c)), ce_AgentID := TrimSpace (ce_AgentID c),
        ce_EnrollmentID := TrimSpace (ce_EnrollmentID c), ce_SerialNumber := TrimSpace (ce_SerialNumber c), ce_Subject := TrimSpace (ce_Subject c) \<rparr>"

definition sameCertificate :: "AgentCertificate \<Rightarrow> AgentCertificate \<Rightarrow> bool" where
  "sameCertificate c existing \<longleftrightarrow> ce_TenantID existing = ce_TenantID c \<and> ce_SerialNumber existing = ce_SerialNumber c"

definition AgentCertificate_zero :: AgentCertificate where
  "AgentCertificate_zero = \<lparr> ce_TenantID = '''', ce_AgentID = '''', ce_EnrollmentID = '''', ce_SerialNumber = '''', ce_Subject = '''',
     ce_NotBefore = 0, ce_NotAfter = 0, ce_CreatedAt = 0, ce_RevokedAt = 0, ce_CertificatePEM = '''' \<rparr>"

definition RecordAgentCertificate :: "time \<Rightarrow> AgentCertificate \<Rightarrow> Store \<Rightarrow> AgentCertificate \<times> Store" where
  "RecordAgentCertificate now cert s =
     (let c = normalizeAgentCertificate cert in
      if ce_TenantID c = '''' \<or> ce_AgentID c = '''' \<or> ce_SerialNumber c = '''' then (AgentCertificate_zero, s)
      else let c = (if ce_CreatedAt c = 0 then c\<lparr> ce_CreatedAt := now \<rparr> else c)
           in (c, s\<lparr> st_Certificates := upsertBy (sameCertificate c) (\<lambda>_. c) c (st_Certificates s) \<rparr>))"

definition upsertCertificateLocked :: "AgentCertificate \<Rightarrow> Store \<Rightarrow> Store" where
  "upsertCertificateLocked cert s =
     (let c = normalizeAgentCertificate cert
      in s\<lparr> st_Certificates := upsertBy (sameCertificate c) (\<lambda>_. c) c (st_Certificates s) \<rparr>)"

section \<open>Issuing a certificate\<close>

datatype EnrollmentIssueResult = EnrollmentIssued | EnrollmentIssueReplay | EnrollmentIssueConflict | EnrollmentIssueMissing

definition commitEnrollmentIssueInMemory ::
  "time \<Rightarrow> string \<Rightarrow> string \<Rightarrow> Enrollment \<Rightarrow> AgentCertificate \<Rightarrow> Store \<Rightarrow> Enrollment \<times> EnrollmentIssueResult \<times> Store" where
  "commitEnrollmentIssueInMemory now tokenHash keyHash proposed cert s =
     (case find (\<lambda>e. en_TokenHash e = tokenHash) (st_Enrollments s) of
        None \<Rightarrow> (Enrollment_zero, EnrollmentIssueMissing, s)
      | Some current \<Rightarrow>
          if en_Status current = ''issued'' then
            (if en_IssuedKeySHA256 current = keyHash then (current, EnrollmentIssueReplay, s)
             else (Enrollment_zero, EnrollmentIssueConflict, s))
          else if en_Status current \<noteq> ''active'' \<or> (en_ExpiresAt current \<noteq> 0 \<and> now > en_ExpiresAt current)
          then (Enrollment_zero, EnrollmentIssueConflict, s)
          else
            let proposed = proposed\<lparr> en_TokenHash := en_TokenHash current, en_Status := ''issued'', en_IssuedKeySHA256 := keyHash \<rparr>;
                s = s\<lparr> st_Enrollments := updateFirst (\<lambda>e. en_TokenHash e = tokenHash) (\<lambda>_. proposed) (st_Enrollments s) \<rparr>
            in (proposed, EnrollmentIssued, upsertCertificateLocked cert s))"

definition CommitEnrollmentIssue ::
  "time \<Rightarrow> string \<Rightarrow> string \<Rightarrow> Enrollment \<Rightarrow> AgentCertificate \<Rightarrow> Store \<Rightarrow> Enrollment \<times> EnrollmentIssueResult \<times> Store" where
  "CommitEnrollmentIssue now tokenHash keyHash proposed cert s =
     (let tokenHash = TrimSpace tokenHash; keyHash = TrimSpace keyHash
      in if tokenHash = '''' \<or> keyHash = '''' then (Enrollment_zero, EnrollmentIssueMissing, s)
         else commitEnrollmentIssueInMemory now tokenHash keyHash proposed cert s)"

text \<open>What signing a certificate request yields.\<close>

record SignedCertificate =
  sg_PEM :: string
  sg_KeyHash :: string
  sg_SerialNumber :: string
  sg_Subject :: string
  sg_NotBefore :: time
  sg_NotAfter :: time

type_synonym signer = "Enrollment \<Rightarrow> string \<Rightarrow> string + SignedCertificate"

datatype certificateReply =
  CAUnavailable | EnrollmentNotFound | EnrollmentExpired | BadCSR string | KeyConflict | Certified Enrollment

definition enrollmentTokenHash :: "(string \<Rightarrow> string) \<Rightarrow> string \<Rightarrow> string" where
  "enrollmentTokenHash sha256 token = sha256 (TrimSpace token)"

definition proposedEnrollment :: "string \<Rightarrow> time \<Rightarrow> Enrollment \<Rightarrow> SignedCertificate \<Rightarrow> Enrollment" where
  "proposedEnrollment caPEM issuedAt e cert =
     e\<lparr> en_Status := ''issued'', en_UsedAt := issuedAt, en_IssuedAt := issuedAt, en_IssuedKeySHA256 := sg_KeyHash cert,
        en_IssuedCertificatePEM := sg_PEM cert, en_IssuedCAPEM := caPEM, en_IssuedSerialNumber := sg_SerialNumber cert,
        en_IssuedNotAfter := sg_NotAfter cert \<rparr>"

definition agentCertificate :: "time \<Rightarrow> Enrollment \<Rightarrow> SignedCertificate \<Rightarrow> AgentCertificate" where
  "agentCertificate issuedAt e cert =
     \<lparr> ce_TenantID = orDefault (en_TenantID e), ce_AgentID = en_AgentID e, ce_EnrollmentID = en_EnrollmentID e,
       ce_SerialNumber = sg_SerialNumber cert, ce_Subject = sg_Subject cert, ce_NotBefore = sg_NotBefore cert, ce_NotAfter = sg_NotAfter cert,
       ce_CreatedAt = issuedAt, ce_RevokedAt = 0, ce_CertificatePEM = sg_PEM cert \<rparr>"

text \<open>\<open>now\<close>, \<open>issuedAt\<close> and \<open>now'\<close> are the times of the three calls of \<^verbatim>\<open>time.Now\<close>, the last in the
  store; \<open>caReady\<close> says whether the certificate and key of the authority are configured.\<close>

definition enrollmentCertificate ::
  "(string \<Rightarrow> string) \<Rightarrow> signer \<Rightarrow> bool \<Rightarrow> string \<Rightarrow> time \<Rightarrow> time \<Rightarrow> time \<Rightarrow> string \<Rightarrow> string \<Rightarrow> Store \<Rightarrow> certificateReply \<times> Store" where
  "enrollmentCertificate sha256 sign caReady caPEM now issuedAt now' token csr s =
     (if \<not> caReady \<or> caPEM = '''' then (CAUnavailable, s)
      else
        let tokenHash = enrollmentTokenHash sha256 (TrimSpace token) in
        case GetEnrollmentByTokenHash tokenHash s of
          None \<Rightarrow> (EnrollmentNotFound, s)
        | Some e \<Rightarrow>
            if en_Status e \<noteq> ''active'' \<and> en_Status e \<noteq> ''issued'' then (EnrollmentNotFound, s)
            else if en_Status e = ''active'' \<and> en_ExpiresAt e \<noteq> 0 \<and> now > en_ExpiresAt e then (EnrollmentExpired, s)
            else case sign e csr of
                   Inl err \<Rightarrow> (BadCSR err, s)
                 | Inr cert \<Rightarrow>
                     (case CommitEnrollmentIssue now' tokenHash (sg_KeyHash cert) (proposedEnrollment caPEM issuedAt e cert)
                             (agentCertificate issuedAt e cert) s of
                        (e, result, s) \<Rightarrow>
                          if result = EnrollmentIssueConflict then (KeyConflict, s)
                          else if result = EnrollmentIssueMissing then (EnrollmentNotFound, s)
                          else (Certified e, s)))"

section \<open>Artifacts and channels\<close>

definition normalizeArtifact :: "Artifact \<Rightarrow> Artifact" where
  "normalizeArtifact a =
     a\<lparr> art_ArtifactID := TrimSpace (art_ArtifactID a), art_TenantID := orDefault (TrimSpace (art_TenantID a)), art_Name := TrimSpace (art_Name a),
        art_Kind := TrimSpace (art_Kind a), art_Version := TrimSpace (art_Version a), art_OS := TrimSpace (art_OS a),
        art_Arch := TrimSpace (art_Arch a), art_SHA256 := TrimSpace (art_SHA256 a), art_Status := TrimSpace (art_Status a),
        art_StoragePath := TrimSpace (art_StoragePath a), art_CreatedBy := TrimSpace (art_CreatedBy a) \<rparr>"

definition Artifact_zero :: Artifact where
  "Artifact_zero = \<lparr> art_ArtifactID = '''', art_TenantID = '''', art_Name = '''', art_Kind = '''', art_Version = '''', art_OS = '''',
     art_Arch = '''', art_SHA256 = '''', art_SizeBytes = 0, art_Status = '''', art_StoragePath = '''', art_CreatedAt = 0, art_UpdatedAt = 0,
     art_CreatedBy = '''', art_Metadata = [] \<rparr>"

definition createdAt :: "time \<Rightarrow> time \<Rightarrow> time \<Rightarrow> time" where
  "createdAt now given existing = (if given \<noteq> 0 then given else if existing \<noteq> 0 then existing else now)"

definition UpsertArtifact :: "time \<Rightarrow> Artifact \<Rightarrow> Store \<Rightarrow> Artifact \<times> Store" where
  "UpsertArtifact now artifact s =
     (let a = normalizeArtifact artifact in
      if art_ArtifactID a = '''' \<or> art_Name a = '''' \<or> art_Kind a = '''' \<or> art_Version a = '''' \<or> art_SHA256 a = '''' then (Artifact_zero, s)
      else let a = (if art_UpdatedAt a = 0 then a\<lparr> art_UpdatedAt := now \<rparr> else a);
               a = (if art_Status a = '''' then a\<lparr> art_Status := ''draft'' \<rparr> else a);
               same = (\<lambda>existing. art_TenantID existing = art_TenantID a \<and> art_ArtifactID existing = art_ArtifactID a);
               replace = (\<lambda>existing. a\<lparr> art_CreatedAt := createdAt now (art_CreatedAt a) (art_CreatedAt existing) \<rparr>);
               new = a\<lparr> art_CreatedAt := createdAt now (art_CreatedAt a) 0 \<rparr>
           in (case find same (st_Artifacts s) of None \<Rightarrow> new | Some existing \<Rightarrow> replace existing,
               s\<lparr> st_Artifacts := upsertBy same replace new (st_Artifacts s) \<rparr>))"

definition ListArtifacts :: "string \<Rightarrow> string \<Rightarrow> string \<Rightarrow> Store \<Rightarrow> Artifact list" where
  "ListArtifacts tenantID kind status s =
     sort_key (\<lambda>a. (art_TenantID a, art_CreatedAt a))
       (filter (\<lambda>a. optional tenantID (art_TenantID a) \<and> optional kind (art_Kind a) \<and> optional status (art_Status a)) (st_Artifacts s))"

definition GetArtifact :: "string \<Rightarrow> string \<Rightarrow> Store \<Rightarrow> Artifact option" where
  "GetArtifact tenantID artifactID s =
     (let tenantID = TrimSpace tenantID; artifactID = TrimSpace artifactID
      in if artifactID = '''' then None
         else find (\<lambda>a. art_TenantID a = orDefault tenantID \<and> art_ArtifactID a = artifactID) (st_Artifacts s))"

definition normalizeChannel :: "ArtifactChannel \<Rightarrow> ArtifactChannel" where
  "normalizeChannel c =
     c\<lparr> ch_TenantID := orDefault (TrimSpace (ch_TenantID c)), ch_Channel := TrimSpace (ch_Channel c), ch_ArtifactID := TrimSpace (ch_ArtifactID c),
        ch_CreatedBy := TrimSpace (ch_CreatedBy c) \<rparr>"

definition ArtifactChannel_zero :: ArtifactChannel where
  "ArtifactChannel_zero = \<lparr> ch_TenantID = '''', ch_Channel = '''', ch_ArtifactID = '''', ch_CreatedAt = 0, ch_UpdatedAt = 0, ch_CreatedBy = '''' \<rparr>"

definition UpsertChannel :: "time \<Rightarrow> ArtifactChannel \<Rightarrow> Store \<Rightarrow> ArtifactChannel \<times> Store" where
  "UpsertChannel now channel s =
     (let c = normalizeChannel channel in
      if ch_Channel c = '''' \<or> ch_ArtifactID c = '''' then (ArtifactChannel_zero, s)
      else let c = (if ch_UpdatedAt c = 0 then c\<lparr> ch_UpdatedAt := now \<rparr> else c);
               same = (\<lambda>existing. ch_TenantID existing = ch_TenantID c \<and> ch_Channel existing = ch_Channel c);
               replace = (\<lambda>existing. c\<lparr> ch_CreatedAt := createdAt now (ch_CreatedAt c) (ch_CreatedAt existing) \<rparr>);
               new = c\<lparr> ch_CreatedAt := createdAt now (ch_CreatedAt c) 0 \<rparr>
           in (case find same (st_Channels s) of None \<Rightarrow> new | Some existing \<Rightarrow> replace existing,
               s\<lparr> st_Channels := upsertBy same replace new (st_Channels s) \<rparr>))"

definition ListChannels :: "string \<Rightarrow> Store \<Rightarrow> ArtifactChannel list" where
  "ListChannels tenantID s =
     sort_key (\<lambda>c. (ch_TenantID c, ch_Channel c)) (filter (\<lambda>c. optional tenantID (ch_TenantID c)) (st_Channels s))"

definition GetChannel :: "string \<Rightarrow> string \<Rightarrow> Store \<Rightarrow> ArtifactChannel option" where
  "GetChannel tenantID channelName s =
     (let tenantID = orDefault (TrimSpace tenantID); channelName = TrimSpace channelName
      in if channelName = '''' then None
         else find (\<lambda>c. ch_TenantID c = tenantID \<and> ch_Channel c = channelName) (st_Channels s))"

section \<open>Runs\<close>

datatype enrollmentOp =
    EnCreate time Enrollment
  | EnUsed time string time
  | EnConsume time string string string time
  | EnCertificate signer bool string time time time string string

fun enrollmentStep :: "(string \<Rightarrow> string) \<Rightarrow> enrollmentOp \<Rightarrow> Store \<Rightarrow> Store" where
  "enrollmentStep sha256 (EnCreate now e) s = snd (CreateEnrollment now e s)"
| "enrollmentStep sha256 (EnUsed now tokenHash usedAt) s = snd (MarkEnrollmentUsed now tokenHash usedAt s)"
| "enrollmentStep sha256 (EnConsume now bootstrapHash enrollmentHash preview fetchedAt) s =
     snd (ConsumeEnrollmentBootstrap now bootstrapHash enrollmentHash preview fetchedAt s)"
| "enrollmentStep sha256 (EnCertificate sign caReady caPEM now issuedAt now' token csr) s =
     snd (enrollmentCertificate sha256 sign caReady caPEM now issuedAt now' token csr s)"

definition runEnrollment :: "(string \<Rightarrow> string) \<Rightarrow> enrollmentOp list \<Rightarrow> Store \<Rightarrow> Store" where
  "runEnrollment sha256 ops s = fold (enrollmentStep sha256) ops s"

section \<open>Scans of the enrollments\<close>

text \<open>Creating an enrollment keeps the first row of a kind the new row is not of.\<close>

lemma CreateEnrollment_keeps:
  assumes "find Q (st_Enrollments s) = Some e" and "\<not> sameEnrollment (normalizeEnrollment new) e"
    and "\<And>c st. \<not> Q ((normalizeEnrollment new)\<lparr> en_CreatedAt := c, en_Status := st \<rparr>)"
  shows "find Q (st_Enrollments (snd (CreateEnrollment now new s))) = Some e"
proof (cases "en_EnrollmentID (normalizeEnrollment new) = '''' \<or> en_TokenHash (normalizeEnrollment new) = ''''")
  case True
  then show ?thesis using assms(1) by (simp add: CreateEnrollment_def Let_def)
next
  case False
  define r where "r = (normalizeEnrollment new)\<lparr> en_CreatedAt := (if en_CreatedAt (normalizeEnrollment new) = 0 then now else en_CreatedAt (normalizeEnrollment new)),
     en_Status := (if en_Status (normalizeEnrollment new) = '''' then ''active'' else en_Status (normalizeEnrollment new)) \<rparr>"
  have same: "sameEnrollment r = sameEnrollment (normalizeEnrollment new)" by (simp add: r_def sameEnrollment_def fun_eq_iff)
  have table: "st_Enrollments (snd (CreateEnrollment now new s)) = upsertBy (sameEnrollment r) (\<lambda>_. r) r (st_Enrollments s)"
    using False by (simp add: CreateEnrollment_def Let_def r_def)
  have nQ: "\<not> Q r" unfolding r_def by (rule assms(3))
  show ?thesis
  proof (cases "find (sameEnrollment r) (st_Enrollments s)")
    case None
    then show ?thesis using assms(1) by (simp add: table upsertBy_None find_append_some)
  next
    case (Some y)
    then have "y \<noteq> e" using assms(2) find_in [OF Some] same by auto
    then show ?thesis unfolding table upsertBy_Some [OF Some] by (rule find_updateFirst_keep [OF assms(1) Some _ nQ])
  qed
qed

lemma upsertCertificateLocked_enrollments [simp]: "st_Enrollments (upsertCertificateLocked cert s) = st_Enrollments s"
  by (simp add: upsertCertificateLocked_def Let_def)

text \<open>What issuing does to the enrollments: nothing, or the first row with the token, which was active, becomes issued.\<close>

lemma enrollmentCertificate_enrollments:
  obtains (same) "st_Enrollments (snd (enrollmentCertificate sha256 sign caReady caPEM now issuedAt now' token csr s)) = st_Enrollments s"
  | (issued) current cert where "find (\<lambda>e. en_TokenHash e = TrimSpace (enrollmentTokenHash sha256 (TrimSpace token))) (st_Enrollments s) = Some current"
      "en_Status current = ''active''"
      "st_Enrollments (snd (enrollmentCertificate sha256 sign caReady caPEM now issuedAt now' token csr s)) =
         updateFirst (\<lambda>e. en_TokenHash e = TrimSpace (enrollmentTokenHash sha256 (TrimSpace token)))
           (\<lambda>_. (proposedEnrollment caPEM issuedAt current cert)\<lparr> en_TokenHash := en_TokenHash current, en_Status := ''issued'',
              en_IssuedKeySHA256 := TrimSpace (sg_KeyHash cert) \<rparr>) (st_Enrollments s)"
proof -
  define h where "h = enrollmentTokenHash sha256 (TrimSpace token)"
  show thesis
  proof (cases "GetEnrollmentByTokenHash h s")
    case None
    then show thesis using same by (simp add: enrollmentCertificate_def Let_def h_def [symmetric])
  next
    case (Some e)
    then have e: "find (\<lambda>e. en_TokenHash e = TrimSpace h) (st_Enrollments s) = Some e"
      by (simp add: GetEnrollmentByTokenHash_def Let_def split: if_splits)
    show thesis
    proof (cases "sign e csr")
      case (Inl err)
      then show thesis using same Some by (simp add: enrollmentCertificate_def Let_def h_def [symmetric])
    next
      case (Inr cert)
      let ?p = "proposedEnrollment caPEM issuedAt e cert" and ?a = "agentCertificate issuedAt e cert"
      obtain g result s' where commit: "CommitEnrollmentIssue now' h (sg_KeyHash cert) ?p ?a s = (g, result, s')" by (rule prod_cases3)
      have reply: "snd (enrollmentCertificate sha256 sign caReady caPEM now issuedAt now' token csr s) \<in> {s, s'}"
        using Some Inr commit by (simp add: enrollmentCertificate_def Let_def h_def [symmetric])
      show thesis
      proof (cases "st_Enrollments s' = st_Enrollments s")
        case True
        then show thesis using reply same by auto
      next
        case False
        then have "en_Status e = ''active''" "st_Enrollments s' = updateFirst (\<lambda>e. en_TokenHash e = TrimSpace h)
            (\<lambda>_. ?p\<lparr> en_TokenHash := en_TokenHash e, en_Status := ''issued'', en_IssuedKeySHA256 := TrimSpace (sg_KeyHash cert) \<rparr>) (st_Enrollments s)"
          using commit e by (auto simp: CommitEnrollmentIssue_def commitEnrollmentIssueInMemory_def Let_def split: if_splits)
        then show thesis using reply same issued [of e cert] e by (auto simp: h_def)
      qed
    qed
  qed
qed

section \<open>One key for a token\<close>

text \<open>
  Tokens and identifiers are random: a later operation keeps the enrollment \<open>e\<close> with token hash \<open>h\<close> unless it makes
  a new token with the same hash or creates the same enrollment again.
\<close>

fun keepsToken :: "string \<Rightarrow> Enrollment \<Rightarrow> enrollmentOp \<Rightarrow> bool" where
  "keepsToken h e (EnCreate now new) \<longleftrightarrow> TrimSpace (en_TokenHash new) \<noteq> h \<and> \<not> sameEnrollment (normalizeEnrollment new) e"
| "keepsToken h e (EnConsume now bootstrapHash enrollmentHash preview fetchedAt) \<longleftrightarrow> enrollmentHash \<noteq> h"
| "keepsToken h e _ \<longleftrightarrow> True"

definition issuedRow :: "string \<Rightarrow> Enrollment \<Rightarrow> Store \<Rightarrow> bool" where
  "issuedRow h e s \<longleftrightarrow> find (\<lambda>r. en_TokenHash r = h) (st_Enrollments s) = Some e \<and> en_Status e = ''issued''"

text \<open>An update of an active row found by its token does not touch the issued row.\<close>

lemma issuedRow_update:
  assumes "issuedRow h e s" and "find (\<lambda>r. en_TokenHash r = h') (st_Enrollments s) = Some y" and "en_Status y = ''active''"
    and "en_TokenHash (f y) = h'"
  shows "find (\<lambda>r. en_TokenHash r = h) (updateFirst (\<lambda>r. en_TokenHash r = h') f (st_Enrollments s)) = Some e"
proof -
  have "h' \<noteq> h" using assms(1,2,3) by (auto simp: issuedRow_def)
  moreover have "y \<noteq> e" using assms(1,3) by (auto simp: issuedRow_def)
  ultimately show ?thesis using find_updateFirst_keep [of _ "st_Enrollments s" e _ y f] assms by (simp add: issuedRow_def)
qed

lemma enrollmentStep_issued:
  assumes "issuedRow h e s" and "keepsToken h e op"
  shows "issuedRow h e (enrollmentStep sha256 op s)"
proof -
  have e: "find (\<lambda>r. en_TokenHash r = h) (st_Enrollments s) = Some e" "en_Status e = ''issued''" using assms(1) by (simp_all add: issuedRow_def)
  have "find (\<lambda>r. en_TokenHash r = h) (st_Enrollments (enrollmentStep sha256 op s)) = Some e"
  proof (cases op)
    case (EnCreate now new)
    have "find (\<lambda>r. en_TokenHash r = h) (st_Enrollments (snd (CreateEnrollment now new s))) = Some e"
      by (rule CreateEnrollment_keeps [OF e(1)]) (use assms(2) EnCreate in \<open>simp_all add: normalizeEnrollment_def\<close>)
    then show ?thesis using EnCreate by simp
  next
    case (EnUsed now tokenHash usedAt)
    have "find (\<lambda>r. en_TokenHash r = h) (st_Enrollments (snd (MarkEnrollmentUsed now tokenHash usedAt s))) = Some e"
      by (auto simp: MarkEnrollmentUsed_def Let_def e dest: find_in intro!: issuedRow_update [OF assms(1)] split: option.splits)
    then show ?thesis using EnUsed by simp
  next
    case (EnConsume now bootstrapHash enrollmentHash preview fetchedAt)
    have "find (\<lambda>r. en_TokenHash r = h) (st_Enrollments (snd (ConsumeEnrollmentBootstrap now bootstrapHash enrollmentHash preview fetchedAt s))) = Some e"
      using assms(2) EnConsume e
      by (auto simp: ConsumeEnrollmentBootstrap_def Let_def intro!: find_updateFirst_keep split: option.splits)
    then show ?thesis using EnConsume by simp
  next
    case (EnCertificate sign caReady caPEM now issuedAt now' token csr)
    show ?thesis
    proof (cases rule: enrollmentCertificate_enrollments [of sha256 sign caReady caPEM now issuedAt now' token csr s])
      case same
      then show ?thesis using EnCertificate e by simp
    next
      case (issued current cert)
      from issued(1) have "en_TokenHash current = TrimSpace (enrollmentTokenHash sha256 (TrimSpace token))" by (auto dest: find_in)
      then show ?thesis using EnCertificate issued(3) issuedRow_update [OF assms(1) issued(1,2)] by simp
    qed
  qed
  then show ?thesis using e by (simp add: issuedRow_def)
qed

lemma runEnrollment_issued:
  "issuedRow h e s \<Longrightarrow> list_all (keepsToken h e) ops \<Longrightarrow> issuedRow h e (runEnrollment sha256 ops s)"
  unfolding runEnrollment_def by (induction ops arbitrary: s) (simp_all add: enrollmentStep_issued)

text \<open>A certificate that is handed out belongs to the key that asked for it, and its row is issued.\<close>

lemma enrollmentCertificate_certified:
  assumes "enrollmentCertificate sha256 sign caReady caPEM now issuedAt now' token csr s = (Certified e, s')"
  shows "issuedRow (TrimSpace (enrollmentTokenHash sha256 (TrimSpace token))) e s' \<and>
    (\<exists>e0 cert. sign e0 csr = Inr cert \<and> en_IssuedKeySHA256 e = TrimSpace (sg_KeyHash cert))"
proof -
  define h where "h = enrollmentTokenHash sha256 (TrimSpace token)"
  obtain e0 where e0: "GetEnrollmentByTokenHash h s = Some e0"
    using assms by (auto simp: enrollmentCertificate_def Let_def h_def [symmetric] split: if_splits option.splits)
  then have found: "find (\<lambda>r. en_TokenHash r = TrimSpace h) (st_Enrollments s) = Some e0"
    by (simp add: GetEnrollmentByTokenHash_def Let_def split: if_splits)
  obtain cert where cert: "sign e0 csr = Inr cert"
    using assms e0 by (auto simp: enrollmentCertificate_def Let_def h_def [symmetric] split: if_splits sum.splits)
  obtain g result u where commit: "CommitEnrollmentIssue now' h (sg_KeyHash cert) (proposedEnrollment caPEM issuedAt e0 cert)
      (agentCertificate issuedAt e0 cert) s = (g, result, u)" by (rule prod_cases3)
  have g: "g = e" "u = s'" "result \<noteq> EnrollmentIssueConflict" "result \<noteq> EnrollmentIssueMissing"
    using assms e0 cert commit by (auto simp: enrollmentCertificate_def Let_def h_def [symmetric] split: if_splits)
  have row: "find (\<lambda>r. en_TokenHash r = TrimSpace h) (updateFirst (\<lambda>r. en_TokenHash r = TrimSpace h) (\<lambda>_. p) (st_Enrollments s)) = Some p"
    if "en_TokenHash p = TrimSpace h" for p
    using find_updateFirst_same [of "\<lambda>r. en_TokenHash r = TrimSpace h" "\<lambda>_. p" "st_Enrollments s"] that found by simp
  have "issuedRow (TrimSpace h) e s' \<and> en_IssuedKeySHA256 e = TrimSpace (sg_KeyHash cert)"
    using commit g found find_in [OF found] row
    by (auto simp: CommitEnrollmentIssue_def commitEnrollmentIssueInMemory_def Let_def issuedRow_def split: if_splits)
  then show ?thesis using cert by (auto simp: h_def)
qed

lemma enrollmentCertificate_of_issued:
  assumes row: "issuedRow (TrimSpace (enrollmentTokenHash sha256 (TrimSpace token))) e s"
    and reply: "enrollmentCertificate sha256 sign caReady caPEM now issuedAt now' token csr s = (reply, s')"
  shows "s' = s \<and> (\<forall>e'. reply = Certified e' \<longrightarrow> e' = e \<and> (\<exists>cert. sign e csr = Inr cert \<and> en_IssuedKeySHA256 e = TrimSpace (sg_KeyHash cert)))"
proof -
  define h where "h = enrollmentTokenHash sha256 (TrimSpace token)"
  have e: "find (\<lambda>r. en_TokenHash r = TrimSpace h) (st_Enrollments s) = Some e" "en_Status e = ''issued''"
    using row by (simp_all add: issuedRow_def h_def)
  have "CommitEnrollmentIssue now' h k p c s =
      (if TrimSpace h = '''' \<or> TrimSpace k = '''' then (Enrollment_zero, EnrollmentIssueMissing, s)
       else if en_IssuedKeySHA256 e = TrimSpace k then (e, EnrollmentIssueReplay, s) else (Enrollment_zero, EnrollmentIssueConflict, s))" for k p c
    using e by (simp add: CommitEnrollmentIssue_def commitEnrollmentIssueInMemory_def Let_def)
  moreover have "GetEnrollmentByTokenHash h s = (if TrimSpace h = '''' then None else Some e)"
    using e by (simp add: GetEnrollmentByTokenHash_def Let_def)
  ultimately show ?thesis
    using reply e(2) by (auto simp: enrollmentCertificate_def Let_def h_def [symmetric] split: if_splits sum.splits)
qed

text \<open>
  C8. An enrollment token certifies one key. Once the manager has handed out a certificate for a token, then after
  any later creations, uses, redeemed tickets and certificate requests, and whatever is signed in between, a further
  request with that token changes nothing in the store; if it is answered with a certificate, it is the same
  certificate, and the two requests were for the same public key.
\<close>

theorem enrollment_token_certifies_one_key:
  assumes "enrollmentCertificate sha256 sign caReady caPEM now issuedAt now' token csr s = (Certified e, s1)"
    and "list_all (keepsToken (TrimSpace (enrollmentTokenHash sha256 (TrimSpace token))) e) later"
    and "enrollmentCertificate sha256 sign2 caReady2 caPEM2 t1 t2 t3 token csr2 (runEnrollment sha256 later s1) = (reply, s2)"
  shows "s2 = runEnrollment sha256 later s1 \<and>
    (\<forall>e2. reply = Certified e2 \<longrightarrow>
       e2 = e \<and> en_IssuedCertificatePEM e2 = en_IssuedCertificatePEM e \<and>
       (\<exists>e0 cert cert2. sign e0 csr = Inr cert \<and> sign2 e csr2 = Inr cert2 \<and> TrimSpace (sg_KeyHash cert) = TrimSpace (sg_KeyHash cert2)))"
proof -
  note first = enrollmentCertificate_certified [OF assms(1)]
  then have "issuedRow (TrimSpace (enrollmentTokenHash sha256 (TrimSpace token))) e (runEnrollment sha256 later s1)"
    using runEnrollment_issued assms(2) by blast
  from enrollmentCertificate_of_issued [OF this assms(3)] first show ?thesis by (metis (no_types))
qed

section \<open>One redemption of a ticket\<close>

fun keepsTicket :: "string \<Rightarrow> Enrollment \<Rightarrow> enrollmentOp \<Rightarrow> bool" where
  "keepsTicket b e (EnCreate now new) \<longleftrightarrow> en_BootstrapTokenHash new \<noteq> b \<and> \<not> sameEnrollment (normalizeEnrollment new) e"
| "keepsTicket b e _ \<longleftrightarrow> True"

definition redeemedRow :: "string \<Rightarrow> Enrollment \<Rightarrow> Store \<Rightarrow> bool" where
  "redeemedRow b e s \<longleftrightarrow> (\<exists>r. find (\<lambda>r. en_BootstrapTokenHash r = b) (st_Enrollments s) = Some r \<and> en_BootstrapFetchedAt r \<noteq> 0 \<and>
     en_TenantID r = en_TenantID e \<and> en_EnrollmentID r = en_EnrollmentID e)"

lemma redeemedRow_update:
  assumes "redeemedRow b e s" and "st_Enrollments u = updateFirst P f (st_Enrollments s)" and "find P (st_Enrollments s) = Some y"
    and "en_BootstrapTokenHash (f y) = en_BootstrapTokenHash y" "en_BootstrapFetchedAt (f y) = en_BootstrapFetchedAt y"
    and "en_TenantID (f y) = en_TenantID y" "en_EnrollmentID (f y) = en_EnrollmentID y"
  shows "redeemedRow b e u"
proof -
  obtain r where r: "find (\<lambda>r. en_BootstrapTokenHash r = b) (st_Enrollments s) = Some r" "en_BootstrapFetchedAt r \<noteq> 0"
    "en_TenantID r = en_TenantID e" "en_EnrollmentID r = en_EnrollmentID e" using assms(1) by (auto simp: redeemedRow_def)
  from find_updateFirst_step [OF r(1) assms(3), of f] show ?thesis
    using assms(2,4-) r(2-) by (auto simp: redeemedRow_def)
qed

lemma enrollmentStep_redeemed:
  assumes "redeemedRow b e s" and "keepsTicket b e op"
  shows "redeemedRow b e (enrollmentStep sha256 op s)"
proof (cases op)
  case (EnCreate now new)
  obtain r where r: "find (\<lambda>r. en_BootstrapTokenHash r = b) (st_Enrollments s) = Some r" "en_BootstrapFetchedAt r \<noteq> 0"
    "en_TenantID r = en_TenantID e" "en_EnrollmentID r = en_EnrollmentID e" using assms(1) by (auto simp: redeemedRow_def)
  have "find (\<lambda>r. en_BootstrapTokenHash r = b) (st_Enrollments (snd (CreateEnrollment now new s))) = Some r"
    by (rule CreateEnrollment_keeps [OF r(1)]) (use assms(2) EnCreate r in \<open>simp_all add: normalizeEnrollment_def sameEnrollment_def\<close>)
  then show ?thesis using EnCreate r by (simp add: redeemedRow_def)
next
  case (EnUsed now tokenHash usedAt)
  let ?h = "TrimSpace tokenHash" and ?f = "\<lambda>e. e\<lparr> en_Status := ''used'', en_UsedAt := (if usedAt = 0 then now else usedAt) \<rparr>"
  have "snd (MarkEnrollmentUsed now tokenHash usedAt s) = s \<or>
      (\<exists>y. find (\<lambda>e. en_TokenHash e = ?h) (st_Enrollments s) = Some y \<and>
        st_Enrollments (snd (MarkEnrollmentUsed now tokenHash usedAt s)) = updateFirst (\<lambda>e. en_TokenHash e = ?h) ?f (st_Enrollments s))"
    by (simp add: MarkEnrollmentUsed_def Let_def split: option.splits)
  then have "redeemedRow b e (snd (MarkEnrollmentUsed now tokenHash usedAt s))"
  proof (elim disjE exE conjE)
    fix y
    assume y: "find (\<lambda>e. en_TokenHash e = ?h) (st_Enrollments s) = Some y"
      and table: "st_Enrollments (snd (MarkEnrollmentUsed now tokenHash usedAt s)) = updateFirst (\<lambda>e. en_TokenHash e = ?h) ?f (st_Enrollments s)"
    show "redeemedRow b e (snd (MarkEnrollmentUsed now tokenHash usedAt s))"
      by (rule redeemedRow_update [OF assms(1) table y]) simp_all
  qed (simp add: assms(1))
  then show ?thesis using EnUsed by simp
next
  case (EnConsume now b' h preview fetchedAt)
  have "redeemedRow b e (snd (ConsumeEnrollmentBootstrap now b' h preview fetchedAt s))"
  proof (cases "b' = b")
    case True
    then show ?thesis using assms(1) by (auto simp: ConsumeEnrollmentBootstrap_def Let_def redeemedRow_def)
  next
    case False
    then show ?thesis using assms(1)
      by (auto simp: ConsumeEnrollmentBootstrap_def Let_def redeemedRow_def find_updateFirst_other split: option.splits)
  qed
  then show ?thesis using EnConsume by simp
next
  case (EnCertificate sign caReady caPEM now issuedAt now' token csr)
  show ?thesis
  proof (cases rule: enrollmentCertificate_enrollments [of sha256 sign caReady caPEM now issuedAt now' token csr s])
    case same
    then show ?thesis using EnCertificate assms(1) by (simp add: redeemedRow_def)
  next
    case (issued current cert)
    have "redeemedRow b e (snd (enrollmentCertificate sha256 sign caReady caPEM now issuedAt now' token csr s))"
      by (rule redeemedRow_update [OF assms(1) issued(3,1)]) (simp_all add: proposedEnrollment_def)
    then show ?thesis by (simp add: EnCertificate)
  qed
qed

lemma runEnrollment_redeemed:
  "redeemedRow b e s \<Longrightarrow> list_all (keepsTicket b e) ops \<Longrightarrow> redeemedRow b e (runEnrollment sha256 ops s)"
  unfolding runEnrollment_def by (induction ops arbitrary: s) (simp_all add: enrollmentStep_redeemed)

text \<open>
  C31. A bootstrap ticket is redeemed at most once: after \<^verbatim>\<open>ConsumeEnrollmentBootstrap\<close> gave out a token for a ticket,
  then after any later creations of other enrollments, uses, redemptions and certificate requests, every further
  attempt to redeem the ticket fails and changes nothing.
\<close>

theorem bootstrap_ticket_redeemed_once:
  assumes "ConsumeEnrollmentBootstrap now b tokenHash preview fetchedAt s = (Some e, s1)" and "now \<noteq> 0"
    and "list_all (keepsTicket b e) later"
  shows "ConsumeEnrollmentBootstrap now2 b tokenHash2 preview2 fetchedAt2 (runEnrollment sha256 later s1) =
     (None, runEnrollment sha256 later s1)"
proof -
  obtain r where r: "find (\<lambda>e. en_BootstrapTokenHash e = b) (st_Enrollments s) = Some r"
    and e: "e = r\<lparr> en_TokenHash := tokenHash, en_TokenPreview := preview, en_BootstrapFetchedAt := (if fetchedAt = 0 then now else fetchedAt) \<rparr>"
    and s1: "st_Enrollments s1 = updateFirst (\<lambda>e. en_BootstrapTokenHash e = b) (\<lambda>r. r\<lparr> en_TokenHash := tokenHash, en_TokenPreview := preview,
        en_BootstrapFetchedAt := (if fetchedAt = 0 then now else fetchedAt) \<rparr>) (st_Enrollments s)"
    using assms(1) by (auto simp: ConsumeEnrollmentBootstrap_def Let_def split: option.splits if_splits)
  have "find (\<lambda>e. en_BootstrapTokenHash e = b) (st_Enrollments s1) = Some e"
    unfolding s1 by (subst find_updateFirst_same) (simp_all add: r e)
  then have "redeemedRow b e s1" using assms(2) e by (simp add: redeemedRow_def)
  from runEnrollment_redeemed [OF this assms(3), of sha256] show ?thesis
    by (auto simp: ConsumeEnrollmentBootstrap_def Let_def redeemedRow_def)
qed

section \<open>A concrete enrollment\<close>

definition sampleEnrollment :: Enrollment where
  "sampleEnrollment = Enrollment_zero\<lparr> en_EnrollmentID := ''e1'', en_AgentID := ''a1'', en_TokenHash := ''t1'', en_BootstrapTokenHash := ''b1'',
     en_Status := ''active'', en_ExpiresAt := 100 \<rparr>"

text \<open>A signer whose certificate names the request: the key hash is the request itself.\<close>

definition sampleSign :: "string \<Rightarrow> signer" where
  "sampleSign serial e csr =
     (if csr = '''' then Inl ''csr'' else Inr \<lparr> sg_PEM = serial @ csr, sg_KeyHash = csr, sg_SerialNumber = serial, sg_Subject = en_AgentID e,
        sg_NotBefore = 0, sg_NotAfter = 200 \<rparr>)"

definition enrolled :: Store where
  "enrolled = snd (CreateEnrollment 1 sampleEnrollment emptyStore)"

definition redeemed :: Store where
  "redeemed = snd (ConsumeEnrollmentBootstrap 2 ''b1'' ''t2'' ''p'' 0 enrolled)"

definition certificateFor :: "string \<Rightarrow> string \<Rightarrow> Store \<Rightarrow> certificateReply \<times> Store" where
  "certificateFor serial csr s = enrollmentCertificate (\<lambda>x. x) (sampleSign serial) True ''CA'' 3 3 3 ''t2'' csr s"

definition otherOps :: "enrollmentOp list" where
  "otherOps = [EnCreate 4 (sampleEnrollment\<lparr> en_EnrollmentID := ''e2'', en_TokenHash := ''t3'', en_BootstrapTokenHash := ''b2'' \<rparr>), EnUsed 5 ''t2'' 0,
     EnCertificate (sampleSign ''9'') True ''CA'' 6 6 6 ''t2'' ''key2'', EnConsume 7 ''b2'' ''t4'' ''p'' 0]"

theorem enrollment_token_certifies_one_key_witness:
  "\<exists>e s1. certificateFor ''7'' ''key'' redeemed = (Certified e, s1) \<and>
     certificateFor ''8'' ''key'' (runEnrollment (\<lambda>x. x) otherOps s1) = (Certified e, runEnrollment (\<lambda>x. x) otherOps s1) \<and>
     fst (certificateFor ''8'' ''key2'' (runEnrollment (\<lambda>x. x) otherOps s1)) = KeyConflict"
proof -
  obtain reply s1 where first: "certificateFor ''7'' ''key'' redeemed = (reply, s1)" by (rule prod.exhaust)
  have s1: "snd (certificateFor ''7'' ''key'' redeemed) = s1" using first by simp
  have "case fst (certificateFor ''7'' ''key'' redeemed) of Certified e \<Rightarrow>
      list_all (keepsToken (TrimSpace (enrollmentTokenHash (\<lambda>x. x) (TrimSpace ''t2''))) e) otherOps | _ \<Rightarrow> False" by code_simp
  then obtain e where e: "reply = Certified e" "list_all (keepsToken (TrimSpace (enrollmentTokenHash (\<lambda>x. x) (TrimSpace ''t2''))) e) otherOps"
    unfolding first fst_conv by (cases reply) (simp_all only: certificateReply.case certificateReply.inject)
  obtain reply2 s2 where second: "certificateFor ''8'' ''key'' (runEnrollment (\<lambda>x. x) otherOps s1) = (reply2, s2)" by (rule prod.exhaust)
  have "case fst (certificateFor ''8'' ''key'' (runEnrollment (\<lambda>x. x) otherOps (snd (certificateFor ''7'' ''key'' redeemed)))) of Certified e \<Rightarrow> True | _ \<Rightarrow> False"
    by code_simp
  then obtain e2 where e2: "reply2 = Certified e2"
    unfolding s1 second fst_conv by (cases reply2) (simp_all only: certificateReply.case certificateReply.inject)
  have "fst (certificateFor ''8'' ''key2'' (runEnrollment (\<lambda>x. x) otherOps (snd (certificateFor ''7'' ''key'' redeemed)))) = KeyConflict" by code_simp
  moreover have "s2 = runEnrollment (\<lambda>x. x) otherOps s1 \<and> e2 = e"
    using enrollment_token_certifies_one_key [OF first [unfolded certificateFor_def e(1)] e(2) second [unfolded certificateFor_def]] e2 by simp
  ultimately show ?thesis using first second e(1) e2 unfolding s1 by blast
qed

theorem bootstrap_ticket_redeemed_once_witness:
  "\<exists>e s1. ConsumeEnrollmentBootstrap 2 ''b1'' ''t2'' ''p'' 0 enrolled = (Some e, s1) \<and>
     ConsumeEnrollmentBootstrap 8 ''b1'' ''t5'' ''p'' 0 (runEnrollment (\<lambda>x. x) otherOps s1) = (None, runEnrollment (\<lambda>x. x) otherOps s1)"
proof -
  obtain found s1 where c: "ConsumeEnrollmentBootstrap 2 ''b1'' ''t2'' ''p'' 0 enrolled = (found, s1)" by (rule prod.exhaust)
  have "case fst (ConsumeEnrollmentBootstrap 2 ''b1'' ''t2'' ''p'' 0 enrolled) of Some e \<Rightarrow> list_all (keepsTicket ''b1'' e) otherOps | None \<Rightarrow> False"
    by code_simp
  then obtain e where e: "found = Some e" "list_all (keepsTicket ''b1'' e) otherOps"
    unfolding c fst_conv by (cases found) (simp_all only: option.case)
  have two: "(2::time) \<noteq> 0" by simp
  show ?thesis using bootstrap_ticket_redeemed_once [OF c [unfolded e(1)] two e(2)] c e(1) by blast
qed

end
