(* ===== verification/Control_Connection.thy ===== *)
theory Control_Connection
  imports Go_Prelude
begin

text \<open>
  One control connection of the gateway (\<^verbatim>\<open>internal/gateway/control_grpc.go\<close>): the checks of incoming sequence
  numbers, the replay of replies by request identifier, and the numbering of outgoing frames. \<open>'p\<close> is the type of the
  payload of a frame and \<open>'s\<close> that of the state the handler of frames works on; the handler is an argument. A run
  ends where receiving or sending fails. A received frame is not nil.
\<close>

section \<open>Frames\<close>

record RequestContext =
  rq_RequestId :: string
  rq_TenantId :: string
  rq_AgentId :: string
  rq_ScopeType :: string
  rq_ScopeSelector :: string

record ControlAck =
  ca_RequestId :: string
  ca_TenantId :: string
  ca_AgentId :: string
  ca_Status :: string
  ca_Message :: string

record ControlError =
  er_Code :: string
  er_Message :: string
  er_Retryable :: bool

record 'p ControlFrame =
  cf_Type :: string
  cf_RequestId :: string
  cf_Context :: "RequestContext option"
  cf_ContractVersion :: uint32
  cf_Sequence :: uint64
  cf_Ack :: "ControlAck option"
  cf_Error :: "ControlError option"
  cf_Payload :: "'p option"

text \<open>An error of the gRPC status package: its code by name and its description.\<close>

record statusError =
  se_Code :: string
  se_Desc :: string

definition statusErrorText :: "statusError \<Rightarrow> string" where
  "statusErrorText err = ''rpc error: code = '' @ se_Code err @ '' desc = '' @ se_Desc err"

definition errorRetryable :: "statusError \<Rightarrow> bool" where
  "errorRetryable err \<longleftrightarrow> se_Code err \<in> set [''Unavailable'', ''ResourceExhausted'', ''DeadlineExceeded'']"

definition controlAckFrame :: "'p ControlFrame \<Rightarrow> string \<Rightarrow> string \<Rightarrow> string \<Rightarrow> bool \<Rightarrow> 'p ControlFrame" where
  "controlAckFrame frame statusText message code retryable =
     \<lparr> cf_Type = ''ack'', cf_RequestId = cf_RequestId frame, cf_Context = cf_Context frame, cf_ContractVersion = 1, cf_Sequence = 0,
       cf_Ack = Some \<lparr> ca_RequestId = cf_RequestId frame,
                       ca_TenantId = (case cf_Context frame of None \<Rightarrow> '''' | Some c \<Rightarrow> rq_TenantId c),
                       ca_AgentId = (case cf_Context frame of None \<Rightarrow> '''' | Some c \<Rightarrow> rq_AgentId c),
                       ca_Status = statusText, ca_Message = message \<rparr>,
       cf_Error = (if code \<noteq> '''' then Some \<lparr> er_Code = code, er_Message = message, er_Retryable = retryable \<rparr> else None),
       cf_Payload = None \<rparr>"

definition rejection :: "'p ControlFrame \<Rightarrow> statusError \<Rightarrow> 'p ControlFrame list" where
  "rejection frame err = [controlAckFrame frame ''rejected'' (statusErrorText err) (se_Code err) (errorRetryable err)]"

section \<open>The state of a connection\<close>

record 'p controlConnectionState =
  nextIncoming :: uint64
  nextOutgoing :: uint64
  repliesByRequestID :: "(string, 'p ControlFrame list) gomap"

definition newConnection :: "'p controlConnectionState" where
  "newConnection = \<lparr> nextIncoming = 1, nextOutgoing = 1, repliesByRequestID = [] \<rparr>"

definition fmt_u :: "64 word \<Rightarrow> string" where
  "fmt_u n = digits (unat n)"

definition acceptIncoming :: "'p ControlFrame \<Rightarrow> 'p controlConnectionState \<Rightarrow> statusError option \<times> 'p controlConnectionState" where
  "acceptIncoming frame s =
     (if cf_ContractVersion frame \<noteq> 1
      then (Some \<lparr> se_Code = ''InvalidArgument'', se_Desc = ''unsupported control contract_version '' @ digits (unat (cf_ContractVersion frame)) \<rparr>, s)
      else if cf_RequestId frame = '''' then (Some \<lparr> se_Code = ''InvalidArgument'', se_Desc = ''control frame request_id is required'' \<rparr>, s)
      else let seq = cf_Sequence frame in
        if seq = 0 then (Some \<lparr> se_Code = ''InvalidArgument'', se_Desc = ''control frame sequence is required'' \<rparr>, s)
        else if seq < nextIncoming s
        then (Some \<lparr> se_Code = ''AlreadyExists'',
                se_Desc = ''control frame replay sequence '' @ fmt_u seq @ ''; expected '' @ fmt_u (nextIncoming s) \<rparr>, s)
        else if seq > nextIncoming s
        then (Some \<lparr> se_Code = ''FailedPrecondition'',
                se_Desc = ''control frame sequence gap: got '' @ fmt_u seq @ ''; expected '' @ fmt_u (nextIncoming s) \<rparr>, s)
        else (None, s\<lparr> nextIncoming := nextIncoming s + 1 \<rparr>))"

definition rememberReplies :: "string \<Rightarrow> 'p ControlFrame list \<Rightarrow> 'p controlConnectionState \<Rightarrow> 'p controlConnectionState" where
  "rememberReplies requestID frames s =
     (if requestID = '''' then s else s\<lparr> repliesByRequestID := AList.update requestID frames (repliesByRequestID s) \<rparr>)"

definition replay :: "string \<Rightarrow> 'p controlConnectionState \<Rightarrow> 'p ControlFrame list option" where
  "replay requestID s = (if requestID = '''' then None else map_of (repliesByRequestID s) requestID)"

fun assignOutgoing :: "'p ControlFrame list \<Rightarrow> 'p controlConnectionState \<Rightarrow> 'p ControlFrame list \<times> 'p controlConnectionState" where
  "assignOutgoing [] s = ([], s)"
| "assignOutgoing (frame # frames) s =
     (let frame = frame\<lparr> cf_ContractVersion := 1, cf_Sequence := nextOutgoing s \<rparr>;
          (frames, s) = assignOutgoing frames (s\<lparr> nextOutgoing := nextOutgoing s + 1 \<rparr>)
      in (frame # frames, s))"

text \<open>
  The body of the loop of \<^verbatim>\<open>Connect\<close>: the frames to send, the connection and the state of the handler. The second
  component of the result says whether the handler ran.
\<close>

definition connectStep ::
  "('p ControlFrame \<Rightarrow> 's \<Rightarrow> (statusError + 'p ControlFrame list) \<times> 's) \<Rightarrow> 'p ControlFrame \<Rightarrow> 'p controlConnectionState \<times> 's \<Rightarrow>
   'p ControlFrame list \<times> bool \<times> 'p controlConnectionState \<times> 's" where
  "connectStep handleFrame frame cs =
     (let (c, s) = cs in
      case acceptIncoming frame c of
        (Some err, c) \<Rightarrow>
          (let (out, c) = assignOutgoing (rejection frame err) c in (out, False, c, s))
      | (None, c) \<Rightarrow>
          (case replay (cf_RequestId frame) c of
             Some out \<Rightarrow> (let (out, c) = assignOutgoing out c in (out, False, c, s))
           | None \<Rightarrow>
               (let (result, s) = handleFrame frame s;
                    out = (case result of Inl err \<Rightarrow> rejection frame err | Inr out \<Rightarrow> out);
                    c = rememberReplies (cf_RequestId frame) out c;
                    (out, c) = assignOutgoing out c
                in (out, True, c, s))))"

text \<open>A connection that receives the given frames: everything sent, the frames handled, and the states at the end.\<close>

fun connect ::
  "('p ControlFrame \<Rightarrow> 's \<Rightarrow> (statusError + 'p ControlFrame list) \<times> 's) \<Rightarrow> 'p ControlFrame list \<Rightarrow> 'p controlConnectionState \<times> 's \<Rightarrow>
   'p ControlFrame list \<times> 'p ControlFrame list \<times> 'p controlConnectionState \<times> 's" where
  "connect handleFrame [] cs = ([], [], cs)"
| "connect handleFrame (frame # frames) cs =
     (let (out, did, cs) = connectStep handleFrame frame cs;
          (outs, handled, cs) = connect handleFrame frames cs
      in (out @ outs, (if did then frame # handled else handled), cs))"

section \<open>What a connection accepts\<close>

text \<open>The frames with the expected sequence number, from \<open>n\<close> on; the others are refused.\<close>

fun inSequence :: "uint64 \<Rightarrow> 'p ControlFrame list \<Rightarrow> 'p ControlFrame list" where
  "inSequence n [] = []"
| "inSequence n (frame # frames) =
     (if cf_ContractVersion frame = 1 \<and> cf_RequestId frame \<noteq> '''' \<and> cf_Sequence frame \<noteq> 0 \<and> cf_Sequence frame = n
      then frame # inSequence (n + 1) frames else inSequence n frames)"

text \<open>The first frame with each request identifier.\<close>

fun firstRequests :: "string list \<Rightarrow> 'p ControlFrame list \<Rightarrow> 'p ControlFrame list" where
  "firstRequests seen [] = []"
| "firstRequests seen (frame # frames) =
     (if cf_RequestId frame \<in> set seen then firstRequests seen frames
      else frame # firstRequests (cf_RequestId frame # seen) frames)"

lemma assignOutgoing_result:
  "map cf_Sequence (fst (assignOutgoing frames c)) = map (\<lambda>i. nextOutgoing c + of_nat i) [0..<length frames]"
  "list_all (\<lambda>f. cf_ContractVersion f = 1) (fst (assignOutgoing frames c))"
  "snd (assignOutgoing frames c) = c\<lparr> nextOutgoing := nextOutgoing c + of_nat (length frames) \<rparr>"
proof (induction frames arbitrary: c)
  case Nil
  {
    case 1 show ?case by simp
  next
    case 2 show ?case by simp
  next
    case 3 show ?case by simp
  }
next
  case (Cons frame frames)
  {
    case 1
    have "map (\<lambda>i. nextOutgoing c + of_nat i) [0..<length (frame # frames)] =
        nextOutgoing c # map (\<lambda>i. nextOutgoing c + of_nat i) (map Suc [0..<length frames])"
      unfolding map_Suc_upt length_Cons by (subst upt_conv_Cons) (simp_all del: upt_Suc)
    then show ?case using Cons(1) by (simp add: split_beta comp_def algebra_simps)
  next
    case 2 show ?case using Cons(2) by (simp add: split_beta)
  next
    case 3 show ?case using Cons(3) by (simp add: split_beta algebra_simps)
  }
qed

lemma upt_append_of_nat:
  "map (\<lambda>i. (x :: uint64) + of_nat i) [0..<a] @ map (\<lambda>i. (x + of_nat a) + of_nat i) [0..<b] = map (\<lambda>i. x + of_nat i) [0..<a + b]"
proof -
  have "map (\<lambda>i. (x + of_nat a) + of_nat i) [0..<b] = map (\<lambda>i. x + of_nat i) (map (\<lambda>i. i + a) [0..<b])"
    by (simp add: comp_def algebra_simps)
  also have "map (\<lambda>i. i + a) [0..<b] = [a..<a + b]" by (simp add: map_add_upt add.commute)
  finally have tail: "map (\<lambda>i. (x + of_nat a) + of_nat i) [0..<b] = map (\<lambda>i. x + of_nat i) [a..<a + b]" .
  have "[0..<a + b] = [0..<a] @ [a..<a + b]" by (rule upt_add_eq_append) simp
  then show ?thesis unfolding tail by simp
qed

text \<open>
  One step of a connection: what is sent is numbered on from the connection's counter; the handler ran
  exactly if the frame is in sequence and its request identifier is new, and then alone changed its state.
\<close>

definition inOrder :: "'p controlConnectionState \<Rightarrow> 'p ControlFrame \<Rightarrow> bool" where
  "inOrder c frame \<longleftrightarrow>
     cf_ContractVersion frame = 1 \<and> cf_RequestId frame \<noteq> '''' \<and> cf_Sequence frame \<noteq> 0 \<and> cf_Sequence frame = nextIncoming c"

lemma acceptIncoming_cases:
  obtains (accepted) "inOrder c frame" "acceptIncoming frame c = (None, c\<lparr> nextIncoming := nextIncoming c + 1 \<rparr>)"
  | (refused) err where "\<not> inOrder c frame" "acceptIncoming frame c = (Some err, c)"
proof (cases "inOrder c frame")
  case True
  then have "acceptIncoming frame c = (None, c\<lparr> nextIncoming := nextIncoming c + 1 \<rparr>)" 
    unfolding inOrder_def by (elim conjE) (simp add: acceptIncoming_def Let_def)
  with True show thesis by (rule accepted)
next
  case False
  then have "cf_ContractVersion frame \<noteq> 1 \<or> cf_RequestId frame = '''' \<or> cf_Sequence frame = 0 \<or> cf_Sequence frame < nextIncoming c \<or>
      cf_Sequence frame > nextIncoming c" unfolding inOrder_def de_Morgan_conj not_not linorder_neq_iff [of "cf_Sequence frame" "nextIncoming c"] by blast
  then have "\<exists>err. acceptIncoming frame c = (Some err, c)" by (elim disjE) (simp_all add: acceptIncoming_def Let_def)
  with False show thesis using refused by blast
qed

lemma connectStep_result:
  assumes "connectStep handleFrame frame (c, s) = (out, did, c', s')"
  shows "map cf_Sequence out = map (\<lambda>i. nextOutgoing c + of_nat i) [0..<length out] \<and> list_all (\<lambda>f. cf_ContractVersion f = 1) out \<and>
     nextOutgoing c' = nextOutgoing c + of_nat (length out) \<and>
     nextIncoming c' = (if inOrder c frame then nextIncoming c + 1 else nextIncoming c) \<and>
     did = (inOrder c frame \<and> map_of (repliesByRequestID c) (cf_RequestId frame) = None) \<and>
     s' = (if did then snd (handleFrame frame s) else s) \<and>
     dom (map_of (repliesByRequestID c')) = (if did then insert (cf_RequestId frame) else id) (dom (map_of (repliesByRequestID c)))"
proof -
  have len: "length (fst (assignOutgoing fs d)) = length fs" for fs and d :: "'a controlConnectionState"
    using assignOutgoing_result(1) [of fs d] by (metis length_map length_upt diff_zero)
  show ?thesis
  proof (cases rule: acceptIncoming_cases [of c frame])
    case (refused err)
    then show ?thesis using assms by (auto simp: connectStep_def Let_def split_beta assignOutgoing_result len)
  next
    case accepted
    then have id: "cf_RequestId frame \<noteq> ''''" by (simp add: inOrder_def)
    show ?thesis
    proof (cases "map_of (repliesByRequestID c) (cf_RequestId frame)")
      case None
      then show ?thesis using assms accepted id
        by (auto simp: connectStep_def Let_def split_beta replay_def rememberReplies_def assignOutgoing_result len update_conv')
    next
      case (Some fs)
      then show ?thesis using assms accepted id
        by (auto simp: connectStep_def Let_def split_beta replay_def assignOutgoing_result len)
    qed
  qed
qed

lemma inSequence_step:
  "inSequence (nextIncoming c) (frame # frames) =
   (if inOrder c frame then frame # inSequence (nextIncoming c + 1) frames else inSequence (nextIncoming c) frames)"
  by (simp add: inOrder_def)

lemma connect_result:
  assumes "connect handleFrame frames (c, s) = (outs, handled, c', s')"
    and "set seen = dom (map_of (repliesByRequestID c))"
  shows "handled = firstRequests seen (inSequence (nextIncoming c) frames) \<and>
     s' = fold (\<lambda>frame s. snd (handleFrame frame s)) handled s \<and>
     map cf_Sequence outs = map (\<lambda>i. nextOutgoing c + of_nat i) [0..<length outs] \<and> list_all (\<lambda>f. cf_ContractVersion f = 1) outs"
  using assms
proof (induction frames arbitrary: c s outs handled seen)
  case Nil
  then show ?case by simp
next
  case (Cons frame frames)
  obtain out did c1 s1 where step: "connectStep handleFrame frame (c, s) = (out, did, c1, s1)" by (rule prod_cases4)
  obtain outs1 handled1 cs where rest: "connect handleFrame frames (c1, s1) = (outs1, handled1, cs)" by (rule prod_cases3)
  have eqs: "outs = out @ outs1" "handled = (if did then frame # handled1 else handled1)" "cs = (c', s')"
    using Cons.prems(1) step rest by simp_all
  note r = connectStep_result [OF step]
  have did: "did = (inOrder c frame \<and> cf_RequestId frame \<notin> set seen)" using r Cons.prems(2) by (simp add: domIff)
  define seen1 where "seen1 = (if did then cf_RequestId frame # seen else seen)"
  have "set seen1 = dom (map_of (repliesByRequestID c1))" using r Cons.prems(2) by (simp add: seen1_def)
  from Cons.IH [OF rest [unfolded eqs] this] have ih:
    "handled1 = firstRequests seen1 (inSequence (nextIncoming c1) frames)"
    "s' = fold (\<lambda>frame s. snd (handleFrame frame s)) handled1 s1"
    "map cf_Sequence outs1 = map (\<lambda>i. nextOutgoing c1 + of_nat i) [0..<length outs1]" "list_all (\<lambda>f. cf_ContractVersion f = 1) outs1"
    by simp_all
  have "handled = firstRequests seen (inSequence (nextIncoming c) (frame # frames))"
  proof (cases "inOrder c frame")
    case True
    then have "nextIncoming c1 = nextIncoming c + 1" using r by simp
    then show ?thesis using True ih(1) by (simp only: inSequence_step eqs(2) did seen1_def firstRequests.simps simp_thms if_True if_False split: if_splits)
  next
    case False
    then have "nextIncoming c1 = nextIncoming c" using r by simp
    then show ?thesis using False ih(1) by (simp only: inSequence_step eqs(2) did seen1_def simp_thms if_False)
  qed
  moreover have "s' = fold (\<lambda>frame s. snd (handleFrame frame s)) handled s" using ih(2) r eqs(2) by simp
  moreover have "map cf_Sequence outs = map (\<lambda>i. nextOutgoing c + of_nat i) [0..<length outs]"
  proof -
    have "map cf_Sequence out = map (\<lambda>i. nextOutgoing c + of_nat i) [0..<length out]" and "nextOutgoing c1 = nextOutgoing c + of_nat (length out)"
      using r by blast+
    then show ?thesis using ih(3) unfolding eqs(1) map_append length_append upt_append_of_nat [symmetric] by simp
  qed
  moreover have "list_all (\<lambda>f. cf_ContractVersion f = 1) outs" unfolding eqs(1) list_all_append using ih(4) r by blast
  ultimately show ?case by blast
qed

lemma inSequence_numbers: "map cf_Sequence (inSequence n frames) = map (\<lambda>i. n + of_nat i) [0..<length (inSequence n frames)]"
proof (induction frames arbitrary: n)
  case Nil
  then show ?case by simp
next
  case (Cons frame frames)
  have "n # map (\<lambda>i. (n + 1) + of_nat i) [0..<k] = map (\<lambda>i. n + of_nat i) [0..<Suc k]" for k
    using upt_append_of_nat [of n 1 k] by simp
  then show ?case using Cons [of "n + 1"] Cons [of n] by (simp del: upt_Suc)
qed

text \<open>
  C17. A control connection executes every request once and in order, whatever the handler of frames does: of
  the frames received, those numbered 1, 2, 3, \<open>\<dots>\<close> in turn are accepted and all others refused; the handler runs
  on the first accepted frame with each request identifier, in that order, and nothing else changes its state; what is sent
  has contract version 1 and is numbered 1, 2, 3, \<open>\<dots>\<close> as well (modulo $2^{64}$).
\<close>

theorem connection_executes_requests_once:
  fixes frames :: "'p ControlFrame list"
  assumes "connect handleFrame frames (newConnection, s) = (outs, handled, c, s')"
  shows "handled = firstRequests [] (inSequence 1 frames) \<and>
     s' = fold (\<lambda>frame s. snd (handleFrame frame s)) handled s \<and>
     map cf_Sequence (inSequence 1 frames) = map of_nat [1..<Suc (length (inSequence 1 frames))] \<and>
     map cf_Sequence outs = map of_nat [1..<Suc (length outs)] \<and> list_all (\<lambda>f. cf_ContractVersion f = 1) outs"
proof -
  have num: "map (\<lambda>i. (1 :: uint64) + of_nat i) [0..<k] = map of_nat [1..<Suc k]" for k
  proof -
    have "[1..<Suc k] = map Suc [0..<k]" by (simp add: map_Suc_upt del: upt_Suc)
    then show ?thesis by (simp add: comp_def del: upt_Suc)
  qed
  show ?thesis
    using connect_result [OF assms, of "[]"] inSequence_numbers [of 1 frames] by (simp add: newConnection_def num del: upt_Suc)
qed

definition sampleFrame :: "string \<Rightarrow> uint64 \<Rightarrow> nat ControlFrame" where
  "sampleFrame requestID seq = \<lparr> cf_Type = ''hello'', cf_RequestId = requestID, cf_Context = None, cf_ContractVersion = 1, cf_Sequence = seq,
     cf_Ack = None, cf_Error = None, cf_Payload = None \<rparr>"

text \<open>A handler that counts the frames it sees and echoes each.\<close>

definition echo :: "nat ControlFrame \<Rightarrow> nat \<Rightarrow> (statusError + nat ControlFrame list) \<times> nat" where
  "echo frame n = (Inr [frame], Suc n)"

theorem connection_executes_requests_once_witness:
  "let frames = [sampleFrame ''a'' 1, sampleFrame ''b'' 3, sampleFrame ''a'' 2, sampleFrame ''c'' 3, sampleFrame ''c'' 3];
       (outs, handled, c, n) = connect echo frames (newConnection, 0)
   in handled = [sampleFrame ''a'' 1, sampleFrame ''c'' 3] \<and> n = 2 \<and> map cf_Sequence outs = [1, 2, 3, 4, 5]"
proof -
  let ?frames = "[sampleFrame ''a'' 1, sampleFrame ''b'' 3, sampleFrame ''a'' 2, sampleFrame ''c'' 3, sampleFrame ''c'' 3]"
  obtain outs handled c n where run: "connect echo ?frames (newConnection, 0) = (outs, handled, c, n)" by (rule prod_cases4)
  have "length (fst (connect echo ?frames (newConnection, 0))) = 5" by code_simp
  then have len: "length outs = 5" using run by simp
  have "firstRequests [] (inSequence 1 ?frames) = [sampleFrame ''a'' 1, sampleFrame ''c'' 3]" by code_simp
  moreover have "map of_nat [1..<Suc 5] = [1, 2, 3, 4, 5 :: uint64]" by code_simp
  ultimately show ?thesis using connection_executes_requests_once [OF run] run len by (simp add: echo_def del: upt_Suc)
qed

end
