(* ===== verification/Ingest_Processor.thy ===== *)
theory Ingest_Processor
  imports Store_Policies Store_Telemetry
begin

text \<open>
  The processor of uploaded batches (\<^verbatim>\<open>internal/workers/ingest/processor.go\<close>, \<^verbatim>\<open>history.go\<close>): the
  events and signals of a batch are added to the store, the scopes they touch are analysed again together with their
  history, and the batch and what was derived from it are projected as documents into the search index.

  What the outside does is in the record \<open>ingestEnv\<close>: the hash, the clock, the texts of times, the failures of
  \<^verbatim>\<open>protojson\<close>, the answers of the search index, the scorer of the rarity baseline, and the order in which
  Go ranges over a map. The body of a document is the JSON object of a message, from which \<^verbatim>\<open>decorateDocument\<close>
  removes \<^verbatim>\<open>tenantId\<close> and in which it sets \<^verbatim>\<open>tenant_id\<close> and \<^verbatim>\<open>@timestamp\<close>: it is that message with
  the two values. The texts of errors are written without the quotes that \<^verbatim>\<open>%q\<close> puts around identifiers.
\<close>

section \<open>Documents and errors\<close>

datatype docSource = EventSource CanonicalEvent | SignalSource Signal | IncidentSource Incident | EvidenceSource EvidenceSubgraph

record Document =
  doc_Index :: string
  doc_ID :: string
  doc_Source :: docSource
  doc_TenantID :: "string option"
  doc_Timestamp :: "string option"

definition EventsReadAlias :: string where "EventsReadAlias = ''sysarmor-events-read''"
definition EventsWriteAlias :: string where "EventsWriteAlias = ''sysarmor-events-write''"
definition SignalsReadAlias :: string where "SignalsReadAlias = ''sysarmor-signals-read''"
definition SignalsWriteAlias :: string where "SignalsWriteAlias = ''sysarmor-signals-write''"
definition IncidentsWriteAlias :: string where "IncidentsWriteAlias = ''sysarmor-incidents-write''"
definition EvidenceWriteAlias :: string where "EvidenceWriteAlias = ''sysarmor-evidence-write''"

record ProjectionError =
  pj_Class :: string
  pj_Status :: int
  pj_Index :: string
  pj_ID :: string

text \<open>An error has a text, and the projection error it wraps, if there is one.\<close>

record ingestError =
  ierr_text :: string
  ierr_projection :: "ProjectionError option"

definition errorf :: "string \<Rightarrow> ingestError" where
  "errorf msg = \<lparr> ierr_text = msg, ierr_projection = None \<rparr>"

definition wrapError :: "string \<Rightarrow> ingestError \<Rightarrow> ingestError" where
  "wrapError prefix err = err\<lparr> ierr_text := prefix @ ierr_text err \<rparr>"

definition ErrorClassOf :: "ingestError \<Rightarrow> string" where
  "ErrorClassOf err = (case ierr_projection err of Some projection \<Rightarrow> pj_Class projection | None \<Rightarrow> ''transient'')"

record SearchRequest =
  sr_Index :: string
  sr_Size :: nat
  sr_Labels :: "(string, string) gomap"
  sr_Exact :: "(string, string) gomap"
  sr_TimeField :: string
  sr_TimeFrom :: string
  sr_TimeTo :: string

record touchedScope =
  ts_labels :: "(string, string) gomap"
  ts_agent :: AgentIdentity

record ingestEnv =
  ie_hash :: "string \<Rightarrow> string"
  ie_start :: time
  ie_latencyMs :: uint64
  ie_format :: "time \<Rightarrow> string"
  ie_parse :: "string \<Rightarrow> time option"
  ie_marshal :: "docSource \<Rightarrow> string option"
  ie_search :: "SearchRequest \<Rightarrow> ingestError + string list"
  ie_decodeEvent :: "string \<Rightarrow> string + CanonicalEvent"
  ie_decodeSignal :: "string \<Rightarrow> string + Signal"
  ie_rangeScopes :: "(string \<times> touchedScope) list \<Rightarrow> (string \<times> touchedScope) list"
  ie_rangeEvents :: "(string \<times> CanonicalEvent) list \<Rightarrow> (string \<times> CanonicalEvent) list"
  ie_rangeSignals :: "(string \<times> Signal) list \<Rightarrow> (string \<times> Signal) list"
  ie_scorer :: "Baseline \<Rightarrow> Signal list \<Rightarrow> float64"
  ie_bulkIndex :: "Document list \<Rightarrow> ingestError option"
  ie_save :: "ingestError option"
  ie_saveMetrics :: "ingestError option"

section \<open>Selectors and identifiers\<close>

definition analysisSelector :: "(string, string) gomap \<Rightarrow> (string, string) gomap" where
  "analysisSelector labels =
     foldl (\<lambda>selector key. let v = TrimSpace (get_or '''' labels key) in if v \<noteq> '''' then AList.update key v selector else selector)
       [] [''case_type'', ''scenario'', ''workload'']"

definition labelSelectorKey :: "(string, string) gomap \<Rightarrow> string" where
  "labelSelectorKey labels = Join (map (\<lambda>key. key @ ''='' @ get_or '''' labels key) (sort (keys labels))) '',''"

definition rememberTouchedScope ::
  "(string, string) gomap \<Rightarrow> AgentIdentity \<Rightarrow> (string, touchedScope) gomap \<Rightarrow> (string, touchedScope) gomap" where
  "rememberTouchedScope labels agent scopes =
     (let selector = analysisSelector labels in
      if length selector = 0 then scopes
      else AList.update (labelSelectorKey selector) \<lparr> ts_labels = selector, ts_agent = agent \<rparr> scopes)"

text \<open>\<^verbatim>\<open>strings.Trim(s, ":")\<close>.\<close>

definition trimColons :: "string \<Rightarrow> string" where
  "trimColons s = rev (dropWhile (\<lambda>c. c = CHR '':'') (rev (dropWhile (\<lambda>c. c = CHR '':'') s)))"

definition EndpointSignalDocumentID :: "(string \<Rightarrow> string) \<Rightarrow> string \<Rightarrow> string \<Rightarrow> string \<Rightarrow> string" where
  "EndpointSignalDocumentID hash tenantID agentID signalID =
     (if TrimSpace signalID = '''' then '''' else ''endpoint-signal:'' @ hash (tenantID @ nul @ agentID @ nul @ signalID))"

definition SignalDocumentID :: "(string \<Rightarrow> string) \<Rightarrow> Signal option \<Rightarrow> string" where
  "SignalDocumentID hash signal =
     (case signal of
        None \<Rightarrow> ''''
      | Some sig \<Rightarrow>
          if sig_where sig = WHERE_CLOUD then store_signalKey hash sig
          else if sig_id sig \<noteq> '''' then sig_id sig
          else let parts = map TrimSpace [labelSelectorKey (analysisSelector (sig_labels sig)), sig_name sig, sig_lineage_id sig];
                   ident = Join parts '':''
               in if trimColons ident = '''' then '''' else ident)"

definition IncidentDocumentID :: "(string \<Rightarrow> string) \<Rightarrow> Incident \<Rightarrow> string" where
  "IncidentDocumentID hash inc =
     (let identity = Join [inc_tenant_id inc, inc_correlation_key inc, inc_analysis_version inc] '':'';
          labels = inc_labels inc;
          identity = (if trimColons identity = ''''
                      then Join [get_or '''' labels ''tenant_id'', get_or '''' labels ''correlation_key'', get_or '''' labels ''analysis_version''] '':''
                      else identity)
      in if trimColons identity \<noteq> '''' then ''incident:'' @ hash identity else inc_id inc)"

section \<open>Building documents\<close>

definition decorateDocument :: "ingestEnv \<Rightarrow> Document \<Rightarrow> string \<Rightarrow> time \<Rightarrow> Document" where
  "decorateDocument env doc tenantID observed = doc\<lparr> doc_TenantID := Some tenantID, doc_Timestamp := Some (ie_format env observed) \<rparr>"

definition newDocument :: "string \<Rightarrow> string \<Rightarrow> docSource \<Rightarrow> Document" where
  "newDocument index ident source =
     \<lparr> doc_Index = index, doc_ID = ident, doc_Source = source, doc_TenantID = None, doc_Timestamp = None \<rparr>"

definition signalDocumentWithID :: "ingestEnv \<Rightarrow> Signal \<Rightarrow> string \<Rightarrow> ingestError + Document option" where
  "signalDocumentWithID env sig ident =
     (if ident = '''' then Inr None
      else case ie_marshal env (SignalSource sig) of
             Some err \<Rightarrow> Inl (errorf (''marshal signal '' @ ident @ '': '' @ err))
           | None \<Rightarrow> Inr (Some (newDocument SignalsWriteAlias ident (SignalSource sig))))"

definition signalDocument :: "ingestEnv \<Rightarrow> Signal \<Rightarrow> ingestError + Document option" where
  "signalDocument env sig = signalDocumentWithID env sig (SignalDocumentID (ie_hash env) (Some sig))"

definition batchSignalDocument :: "ingestEnv \<Rightarrow> Signal option \<Rightarrow> string \<Rightarrow> string \<Rightarrow> ingestError + Document option" where
  "batchSignalDocument env signal tenantID agentID =
     (case signal of
        None \<Rightarrow> Inr None
      | Some sig \<Rightarrow>
          if sig_where sig = WHERE_ENDPOINT
          then signalDocumentWithID env sig (EndpointSignalDocumentID (ie_hash env) tenantID agentID (sig_id sig))
          else signalDocument env sig)"

definition incidentDocuments :: "ingestEnv \<Rightarrow> Incident \<Rightarrow> ingestError + Document list" where
  "incidentDocuments env inc =
     (if inc_id inc = '''' then Inr []
      else case ie_marshal env (IncidentSource inc) of
             Some err \<Rightarrow> Inl (errorf (''marshal incident '' @ inc_id inc @ '': '' @ err))
           | None \<Rightarrow>
               let ident = IncidentDocumentID (ie_hash env) inc in
               (case inc_evidence inc of
                  None \<Rightarrow> Inr [newDocument IncidentsWriteAlias ident (IncidentSource inc)]
                | Some evidence \<Rightarrow>
                    (case ie_marshal env (EvidenceSource evidence) of
                       Some err \<Rightarrow> Inl (errorf (''marshal incident evidence '' @ ident @ '': '' @ err))
                     | None \<Rightarrow> Inr [newDocument EvidenceWriteAlias (ident @ '':evidence'') (EvidenceSource evidence),
                                    newDocument IncidentsWriteAlias ident (IncidentSource inc)])))"

definition frameTime :: "ingestEnv \<Rightarrow> string \<Rightarrow> time \<Rightarrow> time" where
  "frameTime env raw fallback = (case ie_parse env raw of Some parsed \<Rightarrow> parsed | None \<Rightarrow> fallback)"

fun eventDocuments :: "ingestEnv \<Rightarrow> string \<Rightarrow> time \<Rightarrow> EventFrame list \<Rightarrow> ingestError + Document list" where
  "eventDocuments env tenantID fallback [] = Inr []"
| "eventDocuments env tenantID fallback (frame # frames) =
     (case ef_event frame of
        None \<Rightarrow> eventDocuments env tenantID fallback frames
      | Some ev \<Rightarrow>
          if ev_id ev = '''' then eventDocuments env tenantID fallback frames
          else case ie_marshal env (EventSource ev) of
                 Some err \<Rightarrow> Inl (errorf (''marshal event '' @ ev_id ev @ '': '' @ err))
               | None \<Rightarrow>
                   map_sum id (\<lambda>docs. decorateDocument env (newDocument EventsWriteAlias (ev_id ev) (EventSource ev)) tenantID
                                         (frameTime env (ef_observed_at frame) fallback) # docs)
                     (eventDocuments env tenantID fallback frames))"

fun signalDocuments :: "ingestEnv \<Rightarrow> string \<Rightarrow> string \<Rightarrow> time \<Rightarrow> SignalFrame list \<Rightarrow> ingestError + Document list" where
  "signalDocuments env tenantID agentID fallback [] = Inr []"
| "signalDocuments env tenantID agentID fallback (frame # frames) =
     (case batchSignalDocument env (sf_signal frame) tenantID agentID of
        Inl err \<Rightarrow> Inl err
      | Inr None \<Rightarrow> signalDocuments env tenantID agentID fallback frames
      | Inr (Some doc) \<Rightarrow>
          map_sum id (\<lambda>docs. decorateDocument env doc tenantID (frameTime env (sf_observed_at frame) fallback) # docs)
            (signalDocuments env tenantID agentID fallback frames))"

definition batchDocuments :: "ingestEnv \<Rightarrow> DataBatch \<Rightarrow> time \<Rightarrow> ingestError + Document list" where
  "batchDocuments env batch fallback =
     (let header = GetHeader batch in
      case eventDocuments env (bh_tenant_id header) fallback (db_events batch) of
        Inl err \<Rightarrow> Inl err
      | Inr docs \<Rightarrow> map_sum id (\<lambda>signals. docs @ signals)
                      (signalDocuments env (bh_tenant_id header) (bh_agent_id header) fallback (db_signals batch)))"

section \<open>History\<close>

fun decodeAll :: "string \<Rightarrow> (string \<Rightarrow> string + 'a) \<Rightarrow> string list \<Rightarrow> ingestError + 'a list" where
  "decodeAll what decode [] = Inr []"
| "decodeAll what decode (document # raw) =
     (case decode document of
        Inl err \<Rightarrow> Inl (errorf (what @ err))
      | Inr x \<Rightarrow> map_sum id (\<lambda>out. x # out) (decodeAll what decode raw))"

definition decodeEvents :: "ingestEnv \<Rightarrow> string list \<Rightarrow> ingestError + CanonicalEvent list" where
  "decodeEvents env = decodeAll ''decode event history: '' (ie_decodeEvent env)"

definition decodeSignals :: "ingestEnv \<Rightarrow> string list \<Rightarrow> ingestError + Signal list" where
  "decodeSignals env = decodeAll ''decode signal history: '' (ie_decodeSignal env)"

definition OpenSearchHistory_Read ::
  "ingestEnv \<Rightarrow> string \<Rightarrow> (string, string) gomap \<Rightarrow> time \<Rightarrow> time \<Rightarrow> ingestError + CanonicalEvent list \<times> Signal list" where
  "OpenSearchHistory_Read env tenantID labels from to =
     (let request = \<lparr> sr_Index = EventsReadAlias, sr_Size = 10000, sr_Labels = labels, sr_Exact = [(''tenant_id'', tenantID)],
            sr_TimeField = ''@timestamp'', sr_TimeFrom = ie_format env from, sr_TimeTo = ie_format env to \<rparr>
      in case ie_search env request of
           Inl err \<Rightarrow> Inl (wrapError ''read event history: '' err)
         | Inr eventDocs \<Rightarrow>
             (case ie_search env (request\<lparr> sr_Index := SignalsReadAlias,
                                    sr_Exact := AList.update ''where'' ''SIGNAL_WHERE_ENDPOINT'' (sr_Exact request) \<rparr>) of
                Inl err \<Rightarrow> Inl (wrapError ''read signal history: '' err)
              | Inr signalDocs \<Rightarrow>
                  (case decodeEvents env eventDocs of
                     Inl err \<Rightarrow> Inl err
                   | Inr events \<Rightarrow> map_sum id (\<lambda>signals. (events, signals)) (decodeSignals env signalDocs))))"

definition storeHistory_Read :: "Store \<Rightarrow> (string, string) gomap \<Rightarrow> CanonicalEvent list \<times> Signal list" where
  "storeHistory_Read s labels = (ListEvents labels '''' s, ListSignals labels ''endpoint'' False s)"

definition mergeEvents :: "ingestEnv \<Rightarrow> CanonicalEvent list \<Rightarrow> CanonicalEvent option list \<Rightarrow> CanonicalEvent list" where
  "mergeEvents env history current =
     map snd (ie_rangeEvents env
       (foldl (\<lambda>byID event. case event of None \<Rightarrow> byID | Some ev \<Rightarrow> if ev_id ev \<noteq> '''' then AList.update (ev_id ev) ev byID else byID)
          [] (map Some history @ current)))"

definition mergeSignals_ingest :: "ingestEnv \<Rightarrow> Signal list \<Rightarrow> Signal option list \<Rightarrow> Signal list" where
  "mergeSignals_ingest env history current =
     map snd (ie_rangeSignals env
       (foldl (\<lambda>byID signal. case signal of
                 None \<Rightarrow> byID
               | Some sig \<Rightarrow> if SignalDocumentID (ie_hash env) signal \<noteq> ''''
                              then AList.update (SignalDocumentID (ie_hash env) signal) sig byID else byID)
          [] (map Some history @ current)))"

definition eventLabels :: "CanonicalEvent option \<Rightarrow> (string, string) gomap" where
  "eventLabels event = (case event of None \<Rightarrow> [] | Some ev \<Rightarrow> ev_labels ev)"

definition signalLabels :: "Signal option \<Rightarrow> (string, string) gomap" where
  "signalLabels signal = (case signal of None \<Rightarrow> [] | Some sig \<Rightarrow> sig_labels sig)"

definition matchingEvents :: "CanonicalEvent option list \<Rightarrow> (string, string) gomap \<Rightarrow> CanonicalEvent option list" where
  "matchingEvents events labels = filter (\<lambda>event. labelSelectorMatches (eventLabels event) labels) events"

definition matchingSignals :: "Signal option list \<Rightarrow> (string, string) gomap \<Rightarrow> Signal option list" where
  "matchingSignals signals labels =
     filter (\<lambda>signal. pred_option (\<lambda>sig. sig_where sig = WHERE_ENDPOINT) signal \<and> signal \<noteq> None \<and>
                       labelSelectorMatches (signalLabels signal) labels) signals"

section \<open>The processor\<close>

text \<open>\<open>px_indexed\<close> is what the projector has taken; \<open>px_local\<close> says whether the history is read from the store.\<close>

record Processor =
  px_store :: Store
  px_engine :: AnalysisEngine
  px_local :: bool
  px_indexed :: "Document list"

record Result =
  rs_AcceptedEvents :: nat
  rs_AcceptedSignals :: nat
  rs_CloudSignals :: nat
  rs_Incidents :: nat

definition effectiveDetectionPolicyForAgent :: "AgentIdentity \<Rightarrow> Store \<Rightarrow> policyv1_DetectionPolicy" where
  "effectiveDetectionPolicyForAgent agent s =
     (let agent = Normalized agent;
          found = (\<lambda>policy. case policy of None \<Rightarrow> Policy_zero | Some p \<Rightarrow> p)
      in if \<not> Valid agent then DetectionPolicy_of (found (EffectivePolicy ''default'' '''' '''' '''' s))
         else let (scopeType, scopeSelector) =
                    (case GetAgentHealth (ai_TenantID agent) (ai_AgentID agent) s of
                       None \<Rightarrow> ('''', '''') | Some health \<Rightarrow> (sc_Type (ah_Scope health), sc_Selector (ah_Scope health)))
              in DetectionPolicy_of (found (EffectivePolicy (ai_TenantID agent) (ai_AgentID agent) scopeType scopeSelector s)))"

fun observedRange :: "uint64 \<times> uint64 \<Rightarrow> CanonicalEvent list \<Rightarrow> uint64 \<times> uint64" where
  "observedRange bounds [] = bounds"
| "observedRange (first, latest) (event # events) =
     (let observed = ev_occurred_at_ns event in
      if observed = 0 then observedRange (first, latest) events
      else observedRange (if first = 0 \<or> observed < first then observed else first, if observed > latest then observed else latest) events)"

text \<open>\<^verbatim>\<open>time.Unix(0, n)\<close>, the inverse of \<^verbatim>\<open>UnixNano\<close>.\<close>

definition UnixTime :: "int \<Rightarrow> time" where
  "UnixTime n = n + 62135596800 * 1000000000"

definition incidentObservedRange :: "ingestEnv \<Rightarrow> CanonicalEvent list \<Rightarrow> string \<times> string" where
  "incidentObservedRange env events =
     (let (first, latest) = observedRange (0, 0) events
      in if first = 0 then ('''', '''') else (ie_format env (UnixTime (sint first)), ie_format env (UnixTime (sint latest))))"

definition batchUpperTime :: "DataBatch \<Rightarrow> time \<Rightarrow> time" where
  "batchUpperTime batch fallback =
     (if bh_created_at_unix_nano (GetHeader batch) > 0 then UnixTime (bh_created_at_unix_nano (GetHeader batch))
      else let latest = foldl (\<lambda>latest frame. let occurred = (case ef_event frame of None \<Rightarrow> 0 | Some ev \<Rightarrow> ev_occurred_at_ns ev)
                                               in if occurred > latest then occurred else latest) 0 (db_events batch)
           in if latest > 0 then UnixTime (sint latest) else fallback)"

text \<open>The key of a cloud signal is the hexadecimal text of a hash, so such a signal always has a document.\<close>

fun derivedSignalDocuments :: "ingestEnv \<Rightarrow> string \<Rightarrow> time \<Rightarrow> Signal list \<Rightarrow> ingestError + Document list" where
  "derivedSignalDocuments env tenantID upper [] = Inr []"
| "derivedSignalDocuments env tenantID upper (sig # sigs) =
     (case signalDocument env sig of
        Inl err \<Rightarrow> Inl err
      | Inr doc \<Rightarrow>
          map_sum id (\<lambda>docs. (case doc of None \<Rightarrow> [] | Some d \<Rightarrow> [decorateDocument env d tenantID upper]) @ docs)
            (derivedSignalDocuments env tenantID upper sigs))"

fun derivedIncidentDocuments :: "ingestEnv \<Rightarrow> string \<Rightarrow> time \<Rightarrow> Incident list \<Rightarrow> ingestError + Document list" where
  "derivedIncidentDocuments env tenantID upper [] = Inr []"
| "derivedIncidentDocuments env tenantID upper (inc # incs) =
     (case incidentDocuments env inc of
        Inl err \<Rightarrow> Inl err
      | Inr new \<Rightarrow>
          map_sum id (\<lambda>docs. map (\<lambda>d. decorateDocument env d tenantID upper) new @ docs) (derivedIncidentDocuments env tenantID upper incs))"

definition readHistory ::
  "ingestEnv \<Rightarrow> string \<Rightarrow> (string, string) gomap \<Rightarrow> time \<Rightarrow> Processor \<Rightarrow> ingestError + CanonicalEvent list \<times> Signal list" where
  "readHistory env tenantID labels upper p =
     (if px_local p then Inr (storeHistory_Read (px_store p) labels)
      else OpenSearchHistory_Read env tenantID labels (upper - 15 * 60 * 1000000000) upper)"

definition markIncident :: "string \<Rightarrow> string \<Rightarrow> string \<times> string \<Rightarrow> Incident \<Rightarrow> Incident" where
  "markIncident tenantID correlationKey bounds inc =
     inc\<lparr> inc_tenant_id := tenantID, inc_correlation_key := correlationKey, inc_analysis_version := ''incident.v1'',
          inc_first_observed_at := fst bounds, inc_last_observed_at := snd bounds \<rparr>"

record derived =
  dv_cloud :: nat
  dv_incidents :: nat
  dv_documents :: "Document list"

definition recomputeScope ::
  "ingestEnv \<Rightarrow> CanonicalEvent option list \<Rightarrow> Signal option list \<Rightarrow> time \<Rightarrow> touchedScope \<Rightarrow> Processor \<Rightarrow> (ingestError + derived) \<times> Processor" where
  "recomputeScope env currentEvents currentSignals upper scope p =
     (let tenantID = ai_TenantID (Normalized (ts_agent scope)) in
      case readHistory env tenantID (ts_labels scope) upper p of
        Inl err \<Rightarrow> (Inl err, p)
      | Inr (historyEvents, historySignals) \<Rightarrow>
          (let events = mergeEvents env historyEvents (matchingEvents currentEvents (ts_labels scope));
               endpointSignals = mergeSignals_ingest env historySignals (matchingSignals currentSignals (ts_labels scope));
               policy = effectiveDetectionPolicyForAgent (ts_agent scope) (px_store p);
               (analysis, engine) = AnalyzeWithPolicy events endpointSignals (Some policy) (px_engine p);
               incidents = map (markIncident tenantID (labelSelectorKey (ts_labels scope)) (incidentObservedRange env events)) (ar_Incidents analysis);
               p = p\<lparr> px_engine := engine,
                     px_store := (if px_local p then ReplaceDerivedForLabels (ts_labels scope) (ar_CloudSignals analysis) incidents (px_store p)
                                  else px_store p) \<rparr>
           in case derivedSignalDocuments env tenantID upper (ar_CloudSignals analysis) of
                Inl err \<Rightarrow> (Inl err, p)
              | Inr signalDocs \<Rightarrow>
                  (case derivedIncidentDocuments env tenantID upper incidents of
                     Inl err \<Rightarrow> (Inl err, p)
                   | Inr incidentDocs \<Rightarrow>
                       (Inr \<lparr> dv_cloud = length (ar_CloudSignals analysis), dv_incidents = length incidents,
                              dv_documents = signalDocs @ incidentDocs \<rparr>, p))))"

fun recomputeTouchedScopes ::
  "ingestEnv \<Rightarrow> CanonicalEvent option list \<Rightarrow> Signal option list \<Rightarrow> time \<Rightarrow> (string \<times> touchedScope) list \<Rightarrow> derived \<Rightarrow> Processor
     \<Rightarrow> (ingestError + derived) \<times> Processor" where
  "recomputeTouchedScopes env currentEvents currentSignals upper [] acc p = (Inr acc, p)"
| "recomputeTouchedScopes env currentEvents currentSignals upper ((_, scope) # scopes) acc p =
     (case recomputeScope env currentEvents currentSignals upper scope p of
        (Inl err, p) \<Rightarrow> (Inl err, p)
      | (Inr d, p) \<Rightarrow>
          recomputeTouchedScopes env currentEvents currentSignals upper scopes
            \<lparr> dv_cloud = dv_cloud acc + dv_cloud d, dv_incidents = dv_incidents acc + dv_incidents d,
              dv_documents = dv_documents acc @ dv_documents d \<rparr> p)"

definition touchedScopes :: "DataBatch \<Rightarrow> AgentIdentity \<Rightarrow> (string, touchedScope) gomap" where
  "touchedScopes batch agent =
     foldl (\<lambda>scopes frame. rememberTouchedScope (signalLabels (sf_signal frame)) agent scopes)
       (foldl (\<lambda>scopes frame. rememberTouchedScope (eventLabels (ef_event frame)) agent scopes) [] (db_events batch))
       (db_signals batch)"

definition addLocal :: "ingestEnv \<Rightarrow> DataBatch \<Rightarrow> Store \<Rightarrow> Store" where
  "addLocal env batch s =
     foldl (\<lambda>s frame. case sf_signal frame of None \<Rightarrow> s | Some sig \<Rightarrow> snd (AddSignal_store (ie_hash env) sig s))
       (foldl (\<lambda>s frame. case ef_event frame of None \<Rightarrow> s | Some ev \<Rightarrow> snd (AddEvent ev s)) s (db_events batch))
       (db_signals batch)"

definition SetRarityBaseline :: "ingestEnv \<Rightarrow> Baseline \<Rightarrow> AnalysisEngine \<Rightarrow> AnalysisEngine" where
  "SetRarityBaseline env baseline e = e\<lparr> ae_incidents := (ae_incidents e)\<lparr> bd_Scorer := ie_scorer env baseline \<rparr> \<rparr>"

text \<open>\<^verbatim>\<open>Process\<close> up to the analysis of the touched scopes, and after the projection.\<close>

definition beginProcess :: "ingestEnv \<Rightarrow> DataBatch \<Rightarrow> Processor \<Rightarrow> Processor" where
  "beginProcess env batch p =
     (let p = p\<lparr> px_store := AddAgent (AgentIdentityFromDataBatch batch) (px_store p) \<rparr>
      in if px_local p
         then (let s = addLocal env batch (px_store p)
               in p\<lparr> px_store := s, px_engine := SetRarityBaseline env (st_RarityBaseline s) (px_engine p) \<rparr>)
         else p)"

definition finishProcess :: "ingestEnv \<Rightarrow> DataBatch \<Rightarrow> derived \<Rightarrow> Processor \<Rightarrow> (ingestError + Result) \<times> Processor" where
  "finishProcess env batch d p =
     (let events = length (db_events batch); signals = length (db_signals batch);
          s = RecordDataBatchIngest events signals (dv_cloud d) (dv_incidents d) (ie_latencyMs env) (px_store p);
          s = (if px_local p then ObserveRaritySignals (List.map_filter sf_signal (db_signals batch)) s else s);
          p = p\<lparr> px_store := s \<rparr>
      in case ie_save env of
           Some err \<Rightarrow> (Inl err, p)
         | None \<Rightarrow>
             (case ie_saveMetrics env of
                Some err \<Rightarrow> (Inl err, p)
              | None \<Rightarrow> (Inr \<lparr> rs_AcceptedEvents = events, rs_AcceptedSignals = signals, rs_CloudSignals = dv_cloud d,
                               rs_Incidents = dv_incidents d \<rparr>, p)))"

definition BulkIndex :: "ingestEnv \<Rightarrow> Document list \<Rightarrow> Processor \<Rightarrow> ingestError option \<times> Processor" where
  "BulkIndex env docs p =
     (case ie_bulkIndex env docs of
        Some err \<Rightarrow> (Some err, p)
      | None \<Rightarrow> (None, p\<lparr> px_indexed := px_indexed p @ docs \<rparr>))"

definition Processor_Process :: "ingestEnv \<Rightarrow> DataBatch \<Rightarrow> Processor \<Rightarrow> (ingestError + Result) \<times> Processor" where
  "Processor_Process env batch p =
     (case db_header batch of
        None \<Rightarrow> (Inl (errorf ''data batch header identity is required''), p)
      | Some _ \<Rightarrow>
          (let scopes = ie_rangeScopes env (touchedScopes batch (AgentIdentityFromDataBatch batch));
               upper = batchUpperTime batch (ie_start env)
           in case recomputeTouchedScopes env (map ef_event (db_events batch)) (map sf_signal (db_signals batch)) upper scopes
                     \<lparr> dv_cloud = 0, dv_incidents = 0, dv_documents = [] \<rparr> (beginProcess env batch p) of
                (Inl err, p) \<Rightarrow> (Inl err, p)
              | (Inr d, p) \<Rightarrow>
                  (case batchDocuments env batch upper of
                     Inl err \<Rightarrow> (Inl err, p)
                   | Inr docs \<Rightarrow>
                       (case BulkIndex env (docs @ dv_documents d) p of
                          (Some err, p) \<Rightarrow> (Inl err, p)
                        | (None, p) \<Rightarrow> finishProcess env batch d p))))"

section \<open>What a processed batch leaves in the index\<close>

lemma recomputeScope_indexed: "px_indexed (snd (recomputeScope env es ss upper scope p)) = px_indexed p"
  by (simp add: recomputeScope_def split_beta Let_def split: sum.splits)

lemma recomputeTouchedScopes_indexed: "px_indexed (snd (recomputeTouchedScopes env es ss upper scopes acc p)) = px_indexed p"
proof (induction scopes arbitrary: acc p)
  case (Cons scope scopes)
  then show ?case
    using recomputeScope_indexed [of env es ss upper "snd scope" p]
    by (cases scope) (auto split: prod.splits sum.splits)
qed simp

lemma beginProcess_indexed [simp]: "px_indexed (beginProcess env batch p) = px_indexed p"
  by (simp add: beginProcess_def Let_def)

lemma finishProcess_indexed [simp]: "px_indexed (snd (finishProcess env batch d p)) = px_indexed p"
  by (simp add: finishProcess_def Let_def split: option.splits)

text \<open>A batch that is processed has its documents in the index, and only a successful bulk request adds to the index.\<close>

lemma Processor_Process_indexed:
  assumes "Processor_Process env batch p = (r, p')"
  shows "\<exists>new. px_indexed p' = px_indexed p @ new \<and>
    (r \<noteq> Inl (projl r) \<longrightarrow> (\<exists>docs. batchDocuments env batch (batchUpperTime batch (ie_start env)) = Inr docs \<and> set docs \<subseteq> set new))"
proof (cases "db_header batch")
  case None
  with assms show ?thesis by (auto simp: Processor_Process_def)
next
  case (Some header)
  define upper where "upper = batchUpperTime batch (ie_start env)"
  obtain d q where rec: "recomputeTouchedScopes env (map ef_event (db_events batch)) (map sf_signal (db_signals batch)) upper
      (ie_rangeScopes env (touchedScopes batch (AgentIdentityFromDataBatch batch)))
      \<lparr> dv_cloud = 0, dv_incidents = 0, dv_documents = [] \<rparr> (beginProcess env batch p) = (d, q)" by (metis surj_pair)
  then have q: "px_indexed q = px_indexed p" using recomputeTouchedScopes_indexed by (metis beginProcess_indexed snd_conv)
  show ?thesis
  proof (cases d)
    case (Inl err)
    with assms Some rec q show ?thesis by (auto simp: Processor_Process_def Let_def upper_def)
  next
    case (Inr dv)
    with assms Some rec have p': "(r, p') =
        (case batchDocuments env batch upper of
           Inl err \<Rightarrow> (Inl err, q)
         | Inr docs \<Rightarrow> (case BulkIndex env (docs @ dv_documents dv) q of (Some err, p) \<Rightarrow> (Inl err, p) | (None, p) \<Rightarrow> finishProcess env batch dv p))"
      by (simp add: Processor_Process_def Let_def upper_def)
    show ?thesis
    proof (cases "batchDocuments env batch upper")
      case (Inl err)
      with p' q show ?thesis by auto
    next
      case docs: (Inr docs)
      show ?thesis
      proof (cases "ie_bulkIndex env (docs @ dv_documents dv)")
        case (Some err)
        with p' q docs show ?thesis by (auto simp: BulkIndex_def)
      next
        case None
        with p' docs have "(r, p') = finishProcess env batch dv (q\<lparr> px_indexed := px_indexed q @ docs @ dv_documents dv \<rparr>)"
          by (simp add: BulkIndex_def)
        then have "p' = snd (finishProcess env batch dv (q\<lparr> px_indexed := px_indexed q @ docs @ dv_documents dv \<rparr>))" by (metis snd_conv)
        then have "px_indexed p' = px_indexed p @ docs @ dv_documents dv" by (simp add: q)
        with docs show ?thesis by (auto simp: upper_def)
      qed
    qed
  qed
qed

section \<open>Example\<close>

definition exampleIngest :: ingestEnv where
  "exampleIngest = \<lparr> ie_hash = (\<lambda>s. s), ie_start = 5, ie_latencyMs = 1, ie_format = (\<lambda>t. ''t''), ie_parse = (\<lambda>s. None), ie_marshal = (\<lambda>d. None),
     ie_search = (\<lambda>r. Inr []), ie_decodeEvent = (\<lambda>s. Inl ''''), ie_decodeSignal = (\<lambda>s. Inl ''''), ie_rangeScopes = (\<lambda>m. m),
     ie_rangeEvents = (\<lambda>m. m), ie_rangeSignals = (\<lambda>m. m), ie_scorer = (\<lambda>b s. Finite 0), ie_bulkIndex = (\<lambda>docs. None), ie_save = None,
     ie_saveMetrics = None \<rparr>"

definition exampleBatch :: DataBatch where
  "exampleBatch = DataBatch_zero\<lparr> db_schema_version := ''sysarmor.dataplane/v1'',
     db_header := Some (BatchHeader_zero\<lparr> bh_batch_id := ''b1'', bh_tenant_id := ''t1'', bh_agent_id := ''a1'', bh_host_id := ''h1'' \<rparr>),
     db_events := [\<lparr> ef_sequence = 1, ef_observed_at = '''', ef_event = Some (CanonicalEvent_zero\<lparr> ev_id := ''a1-1'' \<rparr>) \<rparr>] \<rparr>"

end
