(* ===== verification/Ingest_Worker.thy ===== *)
theory Ingest_Worker
  imports Ingest_Processor
begin

text \<open>
  The worker behind the raw topic (\<^verbatim>\<open>internal/workers/ingest/worker.go\<close>, the check of the schema version in
  \<^verbatim>\<open>internal/contracts/schema/schema.go\<close>): it fetches a message, decodes and checks the batch, processes it with
  up to three attempts, and commits the message, or publishes it as a dead letter and commits it. The consumer, the
  decoder, the dead letter producer and the cancellation of the context are given per message by \<open>messageEnv\<close>; the
  committed messages and the published letters are part of the state. A worker without a dead letter producer has
  \<open>wk_dlq = None\<close>. The JSON encoding of a dead letter, a structure of texts and numbers, does not fail.
\<close>

section \<open>Messages\<close>

record Message =
  mg_Topic :: string
  mg_Partition :: int
  mg_Offset :: int
  mg_Key :: string
  mg_Value :: string

record deadLetterEnvelope =
  dl_SourceTopic :: string
  dl_SourcePartition :: int
  dl_SourceOffset :: int
  dl_SourceKey :: string
  dl_FailureClass :: string
  dl_FailureMessage :: string
  dl_FailureCode :: string
  dl_DocumentIndex :: string
  dl_DocumentID :: string
  dl_ObservedAt :: time
  dl_Payload :: string

record deadLetter =
  lt_Topic :: string
  lt_Key :: string
  lt_Envelope :: deadLetterEnvelope

record Worker =
  wk_processor :: Processor
  wk_committed :: "Message list"
  wk_dlq :: "deadLetter list option"

record messageEnv =
  me_unmarshal :: "string \<Rightarrow> string + DataBatch"
  me_now :: time
  me_parse :: "string \<Rightarrow> time option"
  me_attempt :: "nat \<Rightarrow> ingestEnv"
  me_cancelled :: "nat \<Rightarrow> string option"
  me_statusText :: "int \<Rightarrow> string"
  me_publish :: "deadLetter \<Rightarrow> string option"
  me_commit :: "Message \<Rightarrow> string option"

section \<open>Checking a batch\<close>

definition DataPlaneCurrent :: string where
  "DataPlaneCurrent = ''sysarmor.dataplane/v1''"

definition ValidateDataPlane :: "string \<Rightarrow> string option" where
  "ValidateDataPlane version =
     (if version = DataPlaneCurrent then None else Some (''unsupported data plane schema version '' @ version))"

definition validateBatchIdentity :: "DataBatch \<Rightarrow> string option" where
  "validateBatchIdentity batch =
     (case db_header batch of
        None \<Rightarrow> Some ''data batch header is required''
      | Some header \<Rightarrow>
          if bh_batch_id header = '''' \<or> bh_tenant_id header = '''' \<or> bh_agent_id header = ''''
          then Some ''batch_id, tenant_id, and agent_id are required'' else None)"

definition maxUnixNano :: "(string \<Rightarrow> time option) \<Rightarrow> int \<Rightarrow> string \<Rightarrow> uint64 \<Rightarrow> int" where
  "maxUnixNano parse current observedAt occurredAt =
     (let current = (case parse observedAt of Some parsed \<Rightarrow> if UnixNano parsed > current then UnixNano parsed else current | None \<Rightarrow> current)
      in if occurredAt > 0 \<and> sint occurredAt > current then sint occurredAt else current)"

definition latestTime :: "(string \<Rightarrow> time option) \<Rightarrow> DataBatch \<Rightarrow> int" where
  "latestTime parse batch =
     foldl (\<lambda>latest frame. maxUnixNano parse latest (sf_observed_at frame) 0)
       (foldl (\<lambda>latest frame. maxUnixNano parse latest (ef_observed_at frame)
                 (case ef_event frame of None \<Rightarrow> 0 | Some ev \<Rightarrow> ev_occurred_at_ns ev))
          (bh_created_at_unix_nano (GetHeader batch)) (db_events batch))
       (db_signals batch)"

definition stabilizeBatchTime :: "(string \<Rightarrow> time option) \<Rightarrow> DataBatch \<Rightarrow> time \<Rightarrow> DataBatch" where
  "stabilizeBatchTime parse batch fallback =
     (let latest = latestTime parse batch;
          latest = (if latest \<le> 0 then UnixNano fallback else latest)
      in batch\<lparr> db_header := map_option (\<lambda>header. header\<lparr> bh_created_at_unix_nano := latest \<rparr>) (db_header batch) \<rparr>)"

section \<open>Processing, rejecting, committing\<close>

fun processWithRetry :: "messageEnv \<Rightarrow> DataBatch \<Rightarrow> nat \<Rightarrow> nat \<Rightarrow> Processor \<Rightarrow> ingestError option \<times> Processor" where
  "processWithRetry env batch attempt 0 p = (None, p)"
| "processWithRetry env batch attempt (Suc left) p =
     (case Processor_Process (me_attempt env attempt) batch p of
        (Inr _, p) \<Rightarrow> (None, p)
      | (Inl err, p) \<Rightarrow>
          if ErrorClassOf err = ''permanent'' then (Some err, p)
          else if left = 0 then (Some err, p)
          else case me_cancelled env attempt of
                 Some cancelled \<Rightarrow> (Some (errorf cancelled), p)
               | None \<Rightarrow> processWithRetry env batch (Suc attempt) left p)"

definition commitMessage :: "messageEnv \<Rightarrow> string \<Rightarrow> Message \<Rightarrow> Worker \<Rightarrow> string option \<times> Worker" where
  "commitMessage env what msg w =
     (case me_commit env msg of
        Some err \<Rightarrow> (Some (what @ mg_Key msg @ '': '' @ err), w)
      | None \<Rightarrow> (None, w\<lparr> wk_committed := wk_committed w @ [msg] \<rparr>))"

definition deadLetterOf :: "messageEnv \<Rightarrow> Message \<Rightarrow> string \<Rightarrow> ingestError \<Rightarrow> deadLetter" where
  "deadLetterOf env msg class cause =
     (let envelope = \<lparr> dl_SourceTopic = mg_Topic msg, dl_SourcePartition = mg_Partition msg, dl_SourceOffset = mg_Offset msg,
            dl_SourceKey = mg_Key msg, dl_FailureClass = class, dl_FailureMessage = ierr_text cause, dl_FailureCode = class,
            dl_DocumentIndex = '''', dl_DocumentID = '''', dl_ObservedAt = me_now env, dl_Payload = mg_Value msg \<rparr>;
          envelope = (case ierr_projection cause of
             None \<Rightarrow> envelope
           | Some projection \<Rightarrow> envelope\<lparr> dl_FailureCode := ''opensearch_'' @ me_statusText env (pj_Status projection),
               dl_DocumentIndex := pj_Index projection, dl_DocumentID := pj_ID projection \<rparr>)
      in \<lparr> lt_Topic = mg_Topic msg @ ''.dlq'', lt_Key = mg_Key msg, lt_Envelope = envelope \<rparr>)"

definition reject :: "messageEnv \<Rightarrow> Message \<Rightarrow> string \<Rightarrow> ingestError \<Rightarrow> Worker \<Rightarrow> string option \<times> Worker" where
  "reject env msg class cause w =
     (case wk_dlq w of
        None \<Rightarrow> (Some (''decode raw data batch key='' @ mg_Key msg @ '': '' @ ierr_text cause), w)
      | Some letters \<Rightarrow>
          let letter = deadLetterOf env msg class cause in
          (case me_publish env letter of
             Some err \<Rightarrow> (Some (''publish dead letter key='' @ mg_Key msg @ '': '' @ err), w)
           | None \<Rightarrow> commitMessage env ''commit rejected data batch key='' msg (w\<lparr> wk_dlq := Some (letters @ [letter]) \<rparr>)))"

definition handleMessage :: "messageEnv \<Rightarrow> Message \<Rightarrow> Worker \<Rightarrow> string option \<times> Worker" where
  "handleMessage env msg w =
     (case me_unmarshal env (mg_Value msg) of
        Inl err \<Rightarrow> reject env msg ''invalid_data_batch'' (errorf err) w
      | Inr batch \<Rightarrow>
          (case ValidateDataPlane (db_schema_version batch) of
             Some err \<Rightarrow> reject env msg ''unsupported_schema_version'' (errorf err) w
           | None \<Rightarrow>
               (case validateBatchIdentity batch of
                  Some err \<Rightarrow> reject env msg ''invalid_data_batch'' (errorf err) w
                | None \<Rightarrow>
                    (case processWithRetry env (stabilizeBatchTime (me_parse env) batch (me_now env)) 0 3 (wk_processor w) of
                       (Some err, p) \<Rightarrow>
                         if ErrorClassOf err = ''permanent'' then reject env msg ''permanent_projection'' err (w\<lparr> wk_processor := p \<rparr>)
                         else (Some (''process raw data batch key='' @ mg_Key msg @ '': '' @ ierr_text err), w\<lparr> wk_processor := p \<rparr>)
                     | (None, p) \<Rightarrow> commitMessage env ''commit raw data batch key='' msg (w\<lparr> wk_processor := p \<rparr>)))))"

datatype fetched = Fetched messageEnv Message | FetchFailed string

text \<open>\<^verbatim>\<open>Run\<close> on what \<^verbatim>\<open>Fetch\<close> returns; \<open>None\<close> as the error when it waits for the next message.\<close>

fun Worker_Run :: "fetched list \<Rightarrow> Worker \<Rightarrow> string option \<times> Worker" where
  "Worker_Run [] w = (None, w)"
| "Worker_Run (FetchFailed err # rest) w = (Some err, w)"
| "Worker_Run (Fetched env msg # rest) w =
     (case handleMessage env msg w of
        (Some err, w) \<Rightarrow> (Some err, w)
      | (None, w) \<Rightarrow> Worker_Run rest w)"

section \<open>What a committed message means\<close>

text \<open>A message was dead-lettered: a letter under its key carries its value, topic, partition and offset.\<close>

definition deadLettered :: "Message \<Rightarrow> Worker \<Rightarrow> bool" where
  "deadLettered msg w \<longleftrightarrow>
     (\<exists>letter \<in> set (case wk_dlq w of None \<Rightarrow> [] | Some letters \<Rightarrow> letters).
        lt_Topic letter = mg_Topic msg @ ''.dlq'' \<and> lt_Key letter = mg_Key msg \<and> dl_Payload (lt_Envelope letter) = mg_Value msg \<and>
        dl_SourcePartition (lt_Envelope letter) = mg_Partition msg \<and> dl_SourceOffset (lt_Envelope letter) = mg_Offset msg)"

text \<open>A batch is projected: every event and signal that has an identifier is in a document of the tenant of the batch.\<close>

definition eventProjected :: "string \<Rightarrow> Document list \<Rightarrow> CanonicalEvent \<Rightarrow> bool" where
  "eventProjected tenantID docs ev \<longleftrightarrow>
     (\<exists>doc \<in> set docs. doc_Index doc = EventsWriteAlias \<and> doc_ID doc = ev_id ev \<and> doc_Source doc = EventSource ev \<and>
        doc_TenantID doc = Some tenantID)"

definition signalProjected :: "string \<Rightarrow> Document list \<Rightarrow> Signal \<Rightarrow> bool" where
  "signalProjected tenantID docs sig \<longleftrightarrow>
     (\<exists>doc \<in> set docs. doc_Index doc = SignalsWriteAlias \<and> doc_Source doc = SignalSource sig \<and> doc_TenantID doc = Some tenantID)"

definition projected :: "DataBatch \<Rightarrow> Document list \<Rightarrow> bool" where
  "projected batch docs \<longleftrightarrow>
     list_all (\<lambda>ev. ev_id ev = '''' \<or> eventProjected (bh_tenant_id (GetHeader batch)) docs ev) (List.map_filter ef_event (db_events batch)) \<and>
     list_all (\<lambda>sig. TrimSpace (sig_id sig) = '''' \<or> signalProjected (bh_tenant_id (GetHeader batch)) docs sig \<or> sig_where sig = WHERE_CLOUD)
       (List.map_filter sf_signal (db_signals batch))"

definition processed :: "messageEnv \<Rightarrow> Message \<Rightarrow> Worker \<Rightarrow> bool" where
  "processed env msg w \<longleftrightarrow>
     (case me_unmarshal env (mg_Value msg) of
        Inl _ \<Rightarrow> False
      | Inr batch \<Rightarrow> db_schema_version batch = DataPlaneCurrent \<and> db_header batch \<noteq> None \<and> projected batch (px_indexed (wk_processor w)))"

fun messageOf :: "fetched \<Rightarrow> Message option" where
  "messageOf (Fetched env msg) = Some msg"
| "messageOf (FetchFailed err) = None"

lemma eventDocuments_projected:
  "eventDocuments env tenantID fallback frames = Inr docs \<Longrightarrow> ev \<in> set (List.map_filter ef_event frames) \<Longrightarrow> ev_id ev \<noteq> '''' \<Longrightarrow>
   eventProjected tenantID docs ev"
proof (induction frames arbitrary: docs)
  case (Cons frame frames)
  show ?case
  proof (cases "\<exists>e. ef_event frame = Some e \<and> ev_id e \<noteq> ''''")
    case True
    then obtain e where e: "ef_event frame = Some e" "ev_id e \<noteq> ''''" by blast
    with Cons.prems(1) obtain doc rest where d: "docs = doc # rest" "eventDocuments env tenantID fallback frames = Inr rest"
      and doc: "doc = decorateDocument env (newDocument EventsWriteAlias (ev_id e) (EventSource e)) tenantID
                        (frameTime env (ef_observed_at frame) fallback)"
      by (auto simp: map_sum_Inr split: option.splits)
    show ?thesis
    proof (cases "ev = e")
      case True
      then show ?thesis by (simp add: eventProjected_def d doc decorateDocument_def newDocument_def)
    next
      case False
      then have "ev \<in> set (List.map_filter ef_event frames)" using Cons.prems(2) e by (auto simp: List.map_filter_simps)
      then have "eventProjected tenantID rest ev" using Cons.IH d(2) Cons.prems(3) by blast
      then show ?thesis by (auto simp: eventProjected_def d)
    qed
  next
    case False
    then have "eventDocuments env tenantID fallback frames = Inr docs" using Cons.prems(1) by (auto split: option.splits if_splits)
    moreover have "ev \<in> set (List.map_filter ef_event frames)"
      using Cons.prems(2,3) False by (auto simp: List.map_filter_simps split: option.splits)
    ultimately show ?thesis using Cons.IH Cons.prems(3) by blast
  qed
qed (simp add: List.map_filter_simps)

lemma batchSignalDocument_some:
  assumes "batchSignalDocument env (Some sig) tenantID agentID = Inr r" and "TrimSpace (sig_id sig) \<noteq> ''''" and "sig_where sig \<noteq> WHERE_CLOUD"
  shows "\<exists>ident. r = Some (newDocument SignalsWriteAlias ident (SignalSource sig))"
proof -
  have "sig_id sig \<noteq> ''''" using assms(2) by auto
  with assms show ?thesis
    by (auto simp: batchSignalDocument_def signalDocument_def signalDocumentWithID_def EndpointSignalDocumentID_def SignalDocumentID_def
             split: if_splits option.splits)
qed

lemma signalDocuments_projected:
  "signalDocuments env tenantID agentID fallback frames = Inr docs \<Longrightarrow> sig \<in> set (List.map_filter sf_signal frames) \<Longrightarrow>
   TrimSpace (sig_id sig) \<noteq> '''' \<Longrightarrow> sig_where sig \<noteq> WHERE_CLOUD \<Longrightarrow> signalProjected tenantID docs sig"
proof (induction frames arbitrary: docs)
  case (Cons frame frames)
  from Cons.prems(1) obtain r where r: "batchSignalDocument env (sf_signal frame) tenantID agentID = Inr r"
    by (cases "batchSignalDocument env (sf_signal frame) tenantID agentID") auto
  with Cons.prems(1) obtain rest where rest: "signalDocuments env tenantID agentID fallback frames = Inr rest"
    and docs: "docs = (case r of None \<Rightarrow> rest
                       | Some doc \<Rightarrow> decorateDocument env doc tenantID (frameTime env (sf_observed_at frame) fallback) # rest)"
    by (cases r) (auto simp: map_sum_Inr)
  show ?case
  proof (cases "sf_signal frame = Some sig")
    case True
    then show ?thesis using batchSignalDocument_some [of env sig tenantID agentID r] r Cons.prems(3,4)
      by (auto simp: signalProjected_def docs decorateDocument_def newDocument_def)
  next
    case False
    then have "sig \<in> set (List.map_filter sf_signal frames)"
      using Cons.prems(2) by (auto simp: List.map_filter_simps split: option.splits)
    then have "signalProjected tenantID rest sig" using Cons.IH rest Cons.prems(3,4) by blast
    then show ?thesis by (cases r) (auto simp: signalProjected_def docs)
  qed
qed (simp add: List.map_filter_simps)

lemma batchDocuments_projected:
  assumes "batchDocuments env batch fallback = Inr docs"
  shows "projected batch docs"
proof -
  let ?t = "bh_tenant_id (GetHeader batch)"
  obtain es ss where es: "eventDocuments env ?t fallback (db_events batch) = Inr es"
    and ss: "signalDocuments env ?t (bh_agent_id (GetHeader batch)) fallback (db_signals batch) = Inr ss" and docs: "docs = es @ ss"
    using assms by (auto simp: batchDocuments_def Let_def map_sum_Inr split: sum.splits)
  have "ev_id ev = '''' \<or> eventProjected ?t docs ev" if "ev \<in> set (List.map_filter ef_event (db_events batch))" for ev
    using eventDocuments_projected [OF es that] by (auto simp: eventProjected_def docs)
  moreover have "TrimSpace (sig_id sig) = '''' \<or> signalProjected ?t docs sig \<or> sig_where sig = WHERE_CLOUD"
    if "sig \<in> set (List.map_filter sf_signal (db_signals batch))" for sig
    using signalDocuments_projected [OF ss that] by (auto simp: signalProjected_def docs)
  ultimately show ?thesis by (auto simp: projected_def list_all_iff)
qed

lemma projected_mono: "projected batch docs \<Longrightarrow> set docs \<subseteq> set docs' \<Longrightarrow> projected batch docs'"
  unfolding projected_def eventProjected_def signalProjected_def list_all_iff by blast

lemma stabilizeBatchTime_fields [simp]:
  "db_events (stabilizeBatchTime parse batch t) = db_events batch"
  "db_signals (stabilizeBatchTime parse batch t) = db_signals batch"
  "bh_tenant_id (GetHeader (stabilizeBatchTime parse batch t)) = bh_tenant_id (GetHeader batch)"
  by (auto simp: stabilizeBatchTime_def GetHeader_def Let_def split: option.splits)

lemma projected_stabilize [simp]: "projected (stabilizeBatchTime parse batch t) docs = projected batch docs"
  by (simp add: projected_def)

section \<open>Steps of the worker\<close>

lemma processWithRetry_indexed:
  "processWithRetry env batch attempt left p = (r, p') \<Longrightarrow>
   set (px_indexed p) \<subseteq> set (px_indexed p') \<and> (r = None \<longrightarrow> 0 < left \<longrightarrow> projected batch (px_indexed p'))"
proof (induction left arbitrary: attempt p)
  case (Suc left)
  obtain r1 p1 where 1: "Processor_Process (me_attempt env attempt) batch p = (r1, p1)" by (metis surj_pair)
  obtain new where new: "px_indexed p1 = px_indexed p @ new"
    and docs: "r1 \<noteq> Inl (projl r1) \<longrightarrow> (\<exists>docs. batchDocuments (me_attempt env attempt) batch
                 (batchUpperTime batch (ie_start (me_attempt env attempt))) = Inr docs \<and> set docs \<subseteq> set new)"
    using Processor_Process_indexed [OF 1] by blast
  show ?case
  proof (cases r1)
    case (Inr res)
    then have "projected batch (px_indexed p1)" using docs batchDocuments_projected projected_mono
      by (metis Inl_Inr_False Un_upper2 new set_append sum.disc(2) subset_trans)
    then show ?thesis using Suc.prems 1 Inr new by auto
  next
    case (Inl err)
    then show ?thesis using Suc.prems 1 new Suc.IH [of "Suc attempt" p1]
      by (auto split: if_splits option.splits)
  qed
qed simp

text \<open>A step keeps the letters and the documents, and commits the message exactly when it does not fail.\<close>

definition grows :: "Worker \<Rightarrow> Worker \<Rightarrow> bool" where
  "grows w w' \<longleftrightarrow> set (px_indexed (wk_processor w)) \<subseteq> set (px_indexed (wk_processor w')) \<and>
     (\<forall>letters. wk_dlq w = Some letters \<longrightarrow> (\<exists>more. wk_dlq w' = Some (letters @ more)))"

lemma grows_refl [simp]: "grows w w"
  by (simp add: grows_def)

lemma grows_trans: "grows a b \<Longrightarrow> grows b c \<Longrightarrow> grows a c"
  unfolding grows_def by (metis append_assoc subset_trans)

lemma deadLettered_grows: "deadLettered msg w \<Longrightarrow> grows w w' \<Longrightarrow> deadLettered msg w'"
  by (cases "wk_dlq w") (fastforce simp: deadLettered_def grows_def)+

lemma processed_grows: "processed env msg w \<Longrightarrow> grows w w' \<Longrightarrow> processed env msg w'"
  unfolding processed_def grows_def by (auto split: sum.splits intro: projected_mono)

definition stepOk :: "messageEnv \<Rightarrow> Message \<Rightarrow> Worker \<Rightarrow> string option \<times> Worker \<Rightarrow> bool" where
  "stepOk env msg w r \<longleftrightarrow> grows w (snd r) \<and>
     (if fst r = None then wk_committed (snd r) = wk_committed w @ [msg] \<and> (deadLettered msg (snd r) \<or> processed env msg (snd r))
      else wk_committed (snd r) = wk_committed w)"

lemma handled_committed [simp]:
  "deadLettered msg (w\<lparr> wk_committed := c \<rparr>) = deadLettered msg w" "processed env msg (w\<lparr> wk_committed := c \<rparr>) = processed env msg w"
  "grows w (w1\<lparr> wk_committed := c \<rparr>) = grows w w1"
  by (simp_all add: deadLettered_def processed_def grows_def split: sum.splits)

lemma commitMessage_ok:
  "grows w w1 \<Longrightarrow> wk_committed w1 = wk_committed w \<Longrightarrow> deadLettered msg w1 \<or> processed env msg w1 \<Longrightarrow>
   stepOk env msg w (commitMessage env what msg w1)"
  by (auto simp: stepOk_def commitMessage_def split: option.splits)

lemma deadLetterOf_fields:
  "lt_Topic (deadLetterOf env msg class cause) = mg_Topic msg @ ''.dlq''" "lt_Key (deadLetterOf env msg class cause) = mg_Key msg"
  "dl_Payload (lt_Envelope (deadLetterOf env msg class cause)) = mg_Value msg"
  "dl_SourcePartition (lt_Envelope (deadLetterOf env msg class cause)) = mg_Partition msg"
  "dl_SourceOffset (lt_Envelope (deadLetterOf env msg class cause)) = mg_Offset msg"
  by (auto simp: deadLetterOf_def Let_def split: option.splits)

lemma reject_ok:
  assumes "grows w w1" and "wk_committed w1 = wk_committed w"
  shows "stepOk env msg w (reject env msg class cause w1)"
proof (cases "wk_dlq w1")
  case None
  with assms show ?thesis by (simp add: reject_def stepOk_def)
next
  case (Some letters)
  let ?l = "deadLetterOf env msg class cause"
  let ?w = "w1\<lparr> wk_dlq := Some (letters @ [?l]) \<rparr>"
  have "grows w1 ?w" using Some by (simp add: grows_def)
  then have g: "grows w ?w" using assms(1) grows_trans by blast
  have "deadLettered msg ?w" by (simp add: deadLettered_def deadLetterOf_fields)
  then have "stepOk env msg w (commitMessage env ''commit rejected data batch key='' msg ?w)"
    using commitMessage_ok [OF g] assms(2) by simp
  with assms Some show ?thesis by (simp add: reject_def Let_def stepOk_def split: option.splits)
qed

lemma handleMessage_ok: "stepOk env msg w (handleMessage env msg w)"
proof (cases "me_unmarshal env (mg_Value msg)")
  case (Inl err)
  then show ?thesis by (simp add: handleMessage_def reject_ok)
next
  case batch: (Inr batch)
  show ?thesis
  proof (cases "ValidateDataPlane (db_schema_version batch) = None \<and> validateBatchIdentity batch = None")
    case False
    with batch show ?thesis by (auto simp: handleMessage_def reject_ok split: option.splits)
  next
    case True
    then have valid: "db_schema_version batch = DataPlaneCurrent" "db_header batch \<noteq> None"
      by (auto simp: ValidateDataPlane_def validateBatchIdentity_def split: if_splits option.splits)
    obtain r p where r: "processWithRetry env (stabilizeBatchTime (me_parse env) batch (me_now env)) 0 3 (wk_processor w) = (r, p)"
      by (metis surj_pair)
    from processWithRetry_indexed [OF this]
    have idx: "set (px_indexed (wk_processor w)) \<subseteq> set (px_indexed p)" and ok: "r = None \<Longrightarrow> projected batch (px_indexed p)" by auto
    then have g: "grows w (w\<lparr> wk_processor := p \<rparr>)" by (simp add: grows_def)
    show ?thesis
    proof (cases r)
      case None
      then have "processed env msg (w\<lparr> wk_processor := p \<rparr>)" using ok batch valid by (simp add: processed_def)
      then have "stepOk env msg w (commitMessage env ''commit raw data batch key='' msg (w\<lparr> wk_processor := p \<rparr>))"
        using commitMessage_ok [OF g] by simp
      with None r batch True show ?thesis by (simp add: handleMessage_def)
    next
      case (Some err)
      then show ?thesis using r batch True g reject_ok [OF g] by (simp add: handleMessage_def) (simp add: stepOk_def)
    qed
  qed
qed

lemma Worker_Run_handled:
  "Worker_Run inputs w = (err, w') \<Longrightarrow>
   grows w w' \<and> (\<exists>n \<le> length inputs.
     wk_committed w' = wk_committed w @ List.map_filter messageOf (take n inputs) \<and> (err = None \<longrightarrow> n = length inputs) \<and>
     (\<forall>env msg. Fetched env msg \<in> set (take n inputs) \<longrightarrow> deadLettered msg w' \<or> processed env msg w'))"
proof (induction inputs w rule: Worker_Run.induct)
  case (3 env msg rest w)
  obtain e w1 where 1: "handleMessage env msg w = (e, w1)" by (metis surj_pair)
  have step: "stepOk env msg w (e, w1)" using handleMessage_ok [of env msg w] 1 by simp
  show ?case
  proof (cases e)
    case None
    then have "Worker_Run rest w1 = (err, w')" using 3 1 by simp
    then obtain n where n: "grows w1 w'" "n \<le> length rest" "wk_committed w' = wk_committed w1 @ List.map_filter messageOf (take n rest)"
        "err = None \<longrightarrow> n = length rest"
        "\<forall>env msg. Fetched env msg \<in> set (take n rest) \<longrightarrow> deadLettered msg w' \<or> processed env msg w'"
      using 3(1) [OF 1 [symmetric] None] by blast
    have "deadLettered msg w' \<or> processed env msg w'"
      using step None n(1) deadLettered_grows processed_grows by (auto simp: stepOk_def)
    then show ?thesis using step None n grows_trans [of w w1 w']
      by (intro conjI exI [of _ "Suc n"]) (auto simp: stepOk_def List.map_filter_simps)
  next
    case (Some x)
    then show ?thesis using 3 1 step by (auto simp: stepOk_def List.map_filter_simps intro!: exI [of _ 0])
  qed
qed (auto simp: List.map_filter_simps)


section \<open>Example\<close>

definition exampleMessageEnv :: messageEnv where
  "exampleMessageEnv = \<lparr> me_unmarshal = (\<lambda>v. if v = ''batch'' then Inr exampleBatch else Inl ''syntax error''), me_now = 7, me_parse = (\<lambda>s. None),
     me_attempt = (\<lambda>n. if n = 0 then exampleIngest\<lparr> ie_bulkIndex := (\<lambda>docs. Some (errorf ''index unavailable'')) \<rparr> else exampleIngest),
     me_cancelled = (\<lambda>n. None), me_statusText = (\<lambda>n. ''''), me_publish = (\<lambda>l. None), me_commit = (\<lambda>m. None) \<rparr>"

definition exampleMessage :: "int \<Rightarrow> string \<Rightarrow> Message" where
  "exampleMessage offset v = \<lparr> mg_Topic = ''raw'', mg_Partition = 0, mg_Offset = offset, mg_Key = ''t1:a1'', mg_Value = v \<rparr>"

definition exampleWorker :: Worker where
  "exampleWorker = \<lparr> wk_processor = \<lparr> px_store = emptyStore, px_engine = \<lparr> ae_nextSignalID = 0, ae_incidents = \<lparr> bd_nextID = 0, bd_Scorer = (\<lambda>s. Finite 0) \<rparr> \<rparr>,
     px_local = False, px_indexed = [] \<rparr>, wk_committed = [], wk_dlq = Some [] \<rparr>"

definition exampleInputs :: "fetched list" where
  "exampleInputs = [Fetched exampleMessageEnv (exampleMessage 1 ''batch''), Fetched exampleMessageEnv (exampleMessage 2 ''junk'')]"

lemma exampleRun: "fst (Worker_Run exampleInputs exampleWorker) = None"
  by code_simp


end
