(* ===== verification/Gateway.thy ===== *)
theory Gateway
  imports Sender Ingest_Processor
begin

text \<open>
  The data plane of the gateway (\<^verbatim>\<open>internal/gateway/runtime.go\<close>, \<^verbatim>\<open>grpc.go\<close>, \<^verbatim>\<open>identity.go\<close>): how an uploaded batch is
  checked, handed to the raw topic of the message broker, recorded in the session of the agent, processed by the local
  processor, if there is one, and acknowledged. What the outside does at a call is in the record \<open>uploadEnv\<close>: whether the
  encoded batch is taken by the broker and whether the store is saved, with the status code of the error, and the clock. The topic is the
  list of the messages the broker has taken. The hot state in Redis, which the gateway only writes, is left out, and
  the calls of concurrent streams are a sequence of calls.
\<close>

section \<open>State\<close>

record GatewayMetrics =
  acceptedBatches :: uint64
  duplicateBatches :: uint64
  rejectedBatches :: uint64
  handoffErrors :: uint64
  acceptedEvents :: uint64
  acceptedSignals :: uint64

record Runtime =
  rt_store :: Store
  rt_localProcessor :: "AnalysisEngine option"
  rt_agentToken :: string
  rt_metrics :: GatewayMetrics
  rt_topic :: "(string \<times> DataBatch) list"
  rt_indexed :: "Document list"

definition NewRuntime :: "Store \<Rightarrow> AnalysisEngine option \<Rightarrow> string \<Rightarrow> Runtime" where
  "NewRuntime s engine token =
     \<lparr> rt_store = s, rt_localProcessor = engine, rt_agentToken = token,
       rt_metrics = \<lparr> acceptedBatches = 0, duplicateBatches = 0, rejectedBatches = 0, handoffErrors = 0, acceptedEvents = 0, acceptedSignals = 0 \<rparr>,
       rt_topic = [], rt_indexed = [] \<rparr>"

record DataAppendResult =
  dr_AcceptedEvents :: nat
  dr_AcceptedSignals :: nat
  dr_CloudSignals :: nat
  dr_Incidents :: nat
  dr_Duplicate :: bool

definition DataAppendResult_zero :: DataAppendResult where
  "DataAppendResult_zero = \<lparr> dr_AcceptedEvents = 0, dr_AcceptedSignals = 0, dr_CloudSignals = 0, dr_Incidents = 0, dr_Duplicate = False \<rparr>"

section \<open>Errors\<close>

text \<open>The codes of the gRPC status package that the gateway distinguishes.\<close>

datatype grpcCode =
  CodeOK | Unavailable | ResourceExhausted | DeadlineExceeded | Aborted | Internal | Unknown | PermissionDenied | Unauthenticated | OtherCode

text \<open>An error is an invalid upload, or has a code (\<^verbatim>\<open>Unknown\<close> when it comes from outside the status package) and a text.\<close>

datatype appendError = ErrInvalidUpload string | AppendError grpcCode string

fun errorText :: "appendError \<Rightarrow> string" where
  "errorText (ErrInvalidUpload msg) = ''invalid upload: '' @ msg"
| "errorText (AppendError code msg) = msg"

text \<open>What the outside does at one upload.\<close>

record uploadEnv =
  ue_now :: time
  ue_serverTime :: string
  ue_handoff :: "string \<Rightarrow> DataBatch \<Rightarrow> (grpcCode \<times> string) option"
  ue_save :: "(grpcCode \<times> string) option"
  ue_ingest :: ingestEnv

section \<open>Appending a batch\<close>

definition validateUploadIdentity :: "DataBatch \<Rightarrow> string option" where
  "validateUploadIdentity batch =
     (case db_header batch of
        None \<Rightarrow> Some ''batch header identity is required''
      | Some header \<Rightarrow>
          let missing = (if bh_agent_id header = '''' then [''agent_id''] else []) @ (if bh_host_id header = '''' then [''host_id''] else []) @
                        (if bh_tenant_id header = '''' then [''tenant_id''] else [])
          in if length missing > 0 then Some (''agent identity missing '' @ Join missing '', '') else None)"

definition isDuplicateBatch :: "string \<Rightarrow> string \<Rightarrow> string \<Rightarrow> Store \<Rightarrow> bool" where
  "isDuplicateBatch tenantID agentID batchID s =
     (batchID \<noteq> '''' \<and> list_ex (\<lambda>session. se_LastAckCursor session = batchID) (ListAgentSessions tenantID agentID s))"

definition batchScopeLabels :: "DataBatch \<Rightarrow> (string, string) gomap list" where
  "batchScopeLabels batch =
     bh_labels (GetHeader batch) #
     map (\<lambda>frame. case ef_event frame of None \<Rightarrow> [] | Some ev \<Rightarrow> ev_labels ev) (db_events batch) @
     map (\<lambda>frame. case sf_signal frame of None \<Rightarrow> [] | Some sig \<Rightarrow> sig_labels sig) (db_signals batch)"

definition scopePairs :: "(string, string) gomap \<Rightarrow> string list" where
  "scopePairs labels =
     map (\<lambda>key. key @ ''='' @ TrimSpace (get_or '''' labels key))
       (filter (\<lambda>key. TrimSpace (get_or '''' labels key) \<noteq> '''') [''case_type'', ''scenario'', ''workload''])"

definition batchCorrelationKey :: "DataBatch \<Rightarrow> string" where
  "batchCorrelationKey batch =
     (case concat (map scopePairs (batchScopeLabels batch)) of [] \<Rightarrow> bh_agent_id (GetHeader batch) | pair # _ \<Rightarrow> pair)"

definition rawKey :: "DataBatch \<Rightarrow> string" where
  "rawKey batch = Join [bh_tenant_id (GetHeader batch), batchCorrelationKey batch] '':''"

definition appendRawBatch :: "uploadEnv \<Rightarrow> DataBatch \<Rightarrow> Runtime \<Rightarrow> (grpcCode \<times> string) option \<times> Runtime" where
  "appendRawBatch env batch r =
     (case ue_handoff env (rawKey batch) batch of
        Some err \<Rightarrow> (Some err, r)
      | None \<Rightarrow> (None, r\<lparr> rt_topic := rt_topic r @ [(rawKey batch, batch)] \<rparr>))"

definition recordAppend :: "uploadEnv \<Rightarrow> DataBatch \<Rightarrow> string \<Rightarrow> Runtime \<Rightarrow> Runtime" where
  "recordAppend env batch transport r =
     r\<lparr> rt_store := snd (RecordDataBatchAppend (ie_hash (ue_ingest env)) (ue_now env) (AgentIdentityFromDataBatch batch)
                           (bh_batch_id (GetHeader batch)) transport (ue_now env) (rt_store r)) \<rparr>"

definition processLocal :: "uploadEnv \<Rightarrow> DataBatch \<Rightarrow> Runtime \<Rightarrow> ((grpcCode \<times> string) + DataAppendResult) \<times> Runtime" where
  "processLocal env batch r =
     (case rt_localProcessor r of
        None \<Rightarrow> (Inr DataAppendResult_zero, r)
      | Some engine \<Rightarrow>
          let (result, p) = Processor_Process (ue_ingest env) batch
                \<lparr> px_store = rt_store r, px_engine = engine, px_local = True, px_indexed = rt_indexed r \<rparr>;
              r = r\<lparr> rt_store := px_store p, rt_localProcessor := Some (px_engine p), rt_indexed := px_indexed p \<rparr>
          in case result of
               Inl err \<Rightarrow> (Inl (Unknown, ierr_text err), r)
             | Inr result \<Rightarrow>
                 (Inr \<lparr> dr_AcceptedEvents = rs_AcceptedEvents result, dr_AcceptedSignals = rs_AcceptedSignals result,
                        dr_CloudSignals = rs_CloudSignals result, dr_Incidents = rs_Incidents result, dr_Duplicate = False \<rparr>, r))"

definition AppendDataBatchWithTransport :: "uploadEnv \<Rightarrow> DataBatch \<Rightarrow> string \<Rightarrow> Runtime \<Rightarrow> (appendError + DataAppendResult) \<times> Runtime" where
  "AppendDataBatchWithTransport env batch transport r =
     (case validateUploadIdentity batch of
        Some err \<Rightarrow> (Inl (ErrInvalidUpload err), r\<lparr> rt_metrics := (rt_metrics r)\<lparr> rejectedBatches := rejectedBatches (rt_metrics r) + 1 \<rparr> \<rparr>)
      | None \<Rightarrow>
          let header = GetHeader batch in
          if isDuplicateBatch (bh_tenant_id header) (bh_agent_id header) (bh_batch_id header) (rt_store r) then
            (let r = recordAppend env batch transport r;
                 r = r\<lparr> rt_metrics := (rt_metrics r)\<lparr> duplicateBatches := duplicateBatches (rt_metrics r) + 1 \<rparr> \<rparr>
             in case ue_save env of
                  Some (code, msg) \<Rightarrow> (Inl (AppendError code msg), r)
                | None \<Rightarrow> (Inr (DataAppendResult_zero\<lparr> dr_Duplicate := True \<rparr>), r))
          else
            (case appendRawBatch env batch r of
               (Some (code, msg), r) \<Rightarrow>
                 (Inl (AppendError code msg), r\<lparr> rt_metrics := (rt_metrics r)\<lparr> handoffErrors := handoffErrors (rt_metrics r) + 1 \<rparr> \<rparr>)
             | (None, r) \<Rightarrow>
                 (let r = recordAppend env batch transport r in
                  case ue_save env of
                    Some (code, msg) \<Rightarrow> (Inl (AppendError code msg), r)
                  | None \<Rightarrow>
                      (case processLocal env batch r of
                         (Inl (code, msg), r) \<Rightarrow>
                           (Inl (AppendError code msg), r\<lparr> rt_metrics := (rt_metrics r)\<lparr> rejectedBatches := rejectedBatches (rt_metrics r) + 1 \<rparr> \<rparr>)
                       | (Inr result, r) \<Rightarrow>
                           (Inr result,
                            r\<lparr> rt_metrics := (rt_metrics r)\<lparr> acceptedBatches := acceptedBatches (rt_metrics r) + 1,
                                 acceptedEvents := acceptedEvents (rt_metrics r) + of_nat (dr_AcceptedEvents result),
                                 acceptedSignals := acceptedSignals (rt_metrics r) + of_nat (dr_AcceptedSignals result) \<rparr> \<rparr>)))))"

section \<open>Acknowledging it\<close>

definition dataAckRetryable :: "grpcCode \<Rightarrow> bool" where
  "dataAckRetryable code = (code \<in> set [Unavailable, ResourceExhausted, DeadlineExceeded, Aborted, Internal, Unknown])"

definition stringReasonCode :: "DataAck_Status \<Rightarrow> string" where
  "stringReasonCode status =
     (case status of STATUS_ACCEPTED \<Rightarrow> ''accepted'' | STATUS_DUPLICATE \<Rightarrow> ''duplicate'' | STATUS_RETRYABLE \<Rightarrow> ''retryable''
       | STATUS_REJECTED \<Rightarrow> ''rejected'' | STATUS_UNSPECIFIED \<Rightarrow> ''unspecified'')"

definition dataAck ::
  "uploadEnv \<Rightarrow> DataBatch \<Rightarrow> DataAck_Status \<Rightarrow> string \<Rightarrow> string \<Rightarrow> bool \<Rightarrow> uint64 \<Rightarrow> DataAppendResult \<Rightarrow> DataAck" where
  "dataAck env batch status reason message retryable retryAfterMs result =
     DataAck_zero\<lparr> ack_batch_id := bh_batch_id (GetHeader batch), ack_accepted := (status = STATUS_ACCEPTED \<or> status = STATUS_DUPLICATE),
       ack_status := status, ack_message := message, ack_reason_code := reason, ack_committed_cursor := bh_batch_id (GetHeader batch),
       ack_server_time := ue_serverTime env, ack_accepted_events := of_nat (dr_AcceptedEvents result),
       ack_accepted_signals := of_nat (dr_AcceptedSignals result), ack_retryable := retryable, ack_retry_after_ms := retryAfterMs,
       ack_partial := False, ack_contract_version := ''dataplane.v1'' \<rparr>"

definition ackOfResult :: "uploadEnv \<Rightarrow> DataBatch \<Rightarrow> appendError + DataAppendResult \<Rightarrow> DataAck" where
  "ackOfResult env batch result =
     (case result of
        Inl (ErrInvalidUpload msg) \<Rightarrow>
          dataAck env batch STATUS_REJECTED ''invalid_data_batch'' (errorText (ErrInvalidUpload msg)) False 0 DataAppendResult_zero
      | Inl (AppendError code msg) \<Rightarrow>
          (let retryable = (if code = CodeOK then True else dataAckRetryable code)
           in if retryable then dataAck env batch STATUS_RETRYABLE ''retryable_server_error'' msg True 1000 DataAppendResult_zero
              else dataAck env batch STATUS_REJECTED ''server_error'' msg False 0 DataAppendResult_zero)
      | Inr result \<Rightarrow>
          if dr_Duplicate result then dataAck env batch STATUS_DUPLICATE (stringReasonCode STATUS_DUPLICATE) ''duplicate'' False 0 result
          else dataAck env batch STATUS_ACCEPTED (stringReasonCode STATUS_ACCEPTED) ''accepted'' False 0 result)"

record PeerIdentity =
  pi_TenantID :: string
  pi_AgentID :: string
  pi_Principal :: string

definition validatePeerDataIdentity :: "PeerIdentity option \<Rightarrow> BatchHeader \<Rightarrow> bool" where
  "validatePeerDataIdentity peerID header =
     (case peerID of
        None \<Rightarrow> True
      | Some p \<Rightarrow> pi_TenantID p = orDefault (bh_tenant_id header) \<and> pi_AgentID p = bh_agent_id header)"

definition agentIdentityFromPeer :: "PeerIdentity \<Rightarrow> string \<Rightarrow> string \<Rightarrow> AgentIdentity" where
  "agentIdentityFromPeer peerID hostID version =
     \<lparr> ai_AgentID = pi_AgentID peerID, ai_HostID = hostID, ai_Version = version, ai_TenantID = pi_TenantID peerID, ai_AuthType = ''mtls'',
       ai_CertIdentity = pi_Principal peerID \<rparr>"

text \<open>\<open>md\<close> holds the values of the two headers that may carry the token, if the call has metadata.\<close>

definition authorized :: "string \<Rightarrow> (string list \<times> string list) option \<Rightarrow> bool" where
  "authorized token md =
     (token = '''' \<or>
      (case md of None \<Rightarrow> False
       | Some (tokens, auths) \<Rightarrow> token \<in> set tokens \<or> (''Bearer '' @ token) \<in> set auths))"

definition handleBatch ::
  "uploadEnv \<Rightarrow> (string list \<times> string list) option \<Rightarrow> PeerIdentity option \<Rightarrow> DataBatch \<Rightarrow> string \<Rightarrow> Runtime \<Rightarrow> (grpcCode + DataAck) \<times> Runtime" where
  "handleBatch env md peerID batch transport r =
     (if \<not> authorized (rt_agentToken r) md then (Inl Unauthenticated, r)
      else if \<not> validatePeerDataIdentity peerID (GetHeader batch) then (Inl PermissionDenied, r)
      else
        let (denied, r) =
              (case peerID of
                 None \<Rightarrow> (False, r)
               | Some p \<Rightarrow>
                   let (err, s) = BindAgentIdentity (agentIdentityFromPeer p (bh_host_id (GetHeader batch))
                                     (get_or '''' (bh_labels (GetHeader batch)) ''agent_version'')) (rt_store r)
                   in (err \<noteq> None, r\<lparr> rt_store := s \<rparr>))
        in if denied then (Inl PermissionDenied, r)
           else let (result, r) = AppendDataBatchWithTransport env batch transport r in (Inr (ackOfResult env batch result), r))"

record ResumeCursor =
  rsm_TenantID :: string
  rsm_AgentID :: string
  rsm_SessionID :: string
  rsm_ResumeCursor :: string

definition Runtime_ResumeCursor :: "string \<Rightarrow> string \<Rightarrow> Runtime \<Rightarrow> ResumeCursor" where
  "Runtime_ResumeCursor tenantID agentID r =
     (case ListAgentSessions tenantID agentID (rt_store r) of
        [] \<Rightarrow> \<lparr> rsm_TenantID = tenantID, rsm_AgentID = agentID, rsm_SessionID = '''', rsm_ResumeCursor = '''' \<rparr>
      | session # _ \<Rightarrow> \<lparr> rsm_TenantID = tenantID, rsm_AgentID = agentID, rsm_SessionID = se_SessionID session,
                         rsm_ResumeCursor = se_LastAckCursor session \<rparr>)"

section \<open>Sessions\<close>

text \<open>
  The sessions of a store are well formed: the identifier of a session is that of its tenant and agent, which are trimmed, and its
  cursor, if it has one, is the identifier of a batch of that agent on the raw topic.
\<close>

definition sentBy :: "string \<Rightarrow> string \<Rightarrow> DataBatch \<Rightarrow> bool" where
  "sentBy tenantID agentID batch \<longleftrightarrow>
     ai_TenantID (AgentIdentityFromDataBatch batch) = tenantID \<and> ai_AgentID (AgentIdentityFromDataBatch batch) = agentID"

definition logged :: "string \<Rightarrow> string \<Rightarrow> string \<Rightarrow> Runtime \<Rightarrow> bool" where
  "logged tenantID agentID batchID r \<longleftrightarrow>
     list_ex (\<lambda>(_, batch). sentBy tenantID agentID batch \<and> bh_batch_id (GetHeader batch) = batchID) (rt_topic r)"

definition sessionOk :: "(string \<Rightarrow> string) \<Rightarrow> AgentSession \<Rightarrow> bool" where
  "sessionOk hash se \<longleftrightarrow>
     se_SessionID se = agentSessionID hash (se_TenantID se) (se_AgentID se) \<and> CHR 0x00 \<notin> set (se_TenantID se) \<and>
     TrimSpace (se_TenantID se) = se_TenantID se \<and> TrimSpace (se_AgentID se) = se_AgentID se \<and> se_TenantID se \<noteq> ''''"

definition sessionsLogged :: "(string \<Rightarrow> string) \<Rightarrow> Runtime \<Rightarrow> bool" where
  "sessionsLogged hash r \<longleftrightarrow>
     list_all (\<lambda>se. sessionOk hash se \<and> (se_LastAckCursor se = '''' \<or> logged (se_TenantID se) (se_AgentID se) (se_LastAckCursor se) r))
       (st_AgentSessions (rt_store r))"

lemma TrimSpace_nul_free: "CHR 0x00 \<notin> set s \<Longrightarrow> CHR 0x00 \<notin> set (TrimSpace s)"
proof -
  assume s: "CHR 0x00 \<notin> set s"
  obtain a where "s = a @ trim_left space_seqs s" using trim_left_suffix by blast
  then have "set (trim_left space_seqs s) \<subseteq> set s" by (metis Un_upper2 set_append)
  moreover obtain b where "rev (trim_left space_seqs s) = b @ trim_left (map rev space_seqs) (rev (trim_left space_seqs s))"
    using trim_left_suffix by blast
  then have "set (TrimSpace s) \<subseteq> set (trim_left space_seqs s)" by (metis TrimSpace_def Un_upper2 set_append set_rev)
  ultimately show ?thesis using s by blast
qed

lemma append_nul_cancel: "CHR 0x00 \<notin> set t \<Longrightarrow> CHR 0x00 \<notin> set t' \<Longrightarrow> t @ nul @ a = t' @ nul @ a' \<Longrightarrow> t = t' \<and> a = a'"
  by (induction t arbitrary: t') (auto simp: nul_def Cons_eq_append_conv)

lemma agentSessionID_inj:
  "inj hash \<Longrightarrow> CHR 0x00 \<notin> set t \<Longrightarrow> CHR 0x00 \<notin> set t' \<Longrightarrow> agentSessionID hash t a = agentSessionID hash t' a' \<Longrightarrow> t = t' \<and> a = a'"
  by (rule append_nul_cancel) (auto simp: agentSessionID_def stableKey_def dest: injD)

lemma batch_identity:
  "ai_TenantID (AgentIdentityFromDataBatch batch) = orDefault (TrimSpace (bh_tenant_id (GetHeader batch)))"
  "ai_AgentID (AgentIdentityFromDataBatch batch) = TrimSpace (bh_agent_id (GetHeader batch))"
  by (simp_all add: AgentIdentityFromDataBatch_def Normalized_def Let_def)

lemma TrimSpace_default [simp]: "TrimSpace ''default'' = ''default''"
  by code_simp

lemma Normalized_idem [simp]: "Normalized (Normalized a) = Normalized a"
  by (simp add: Normalized_def orDefault_def)

lemma Normalized_batch [simp]: "Normalized (AgentIdentityFromDataBatch batch) = AgentIdentityFromDataBatch batch"
  by (simp add: AgentIdentityFromDataBatch_def Let_def)

lemma logged_mono: "logged t a b r \<Longrightarrow> set (rt_topic r) \<subseteq> set (rt_topic r') \<Longrightarrow> logged t a b r'"
  by (auto simp: logged_def list_ex_iff)

lemma sessionsLogged_mono:
  "sessionsLogged hash r \<Longrightarrow> st_AgentSessions (rt_store r') = st_AgentSessions (rt_store r) \<Longrightarrow> set (rt_topic r) \<subseteq> set (rt_topic r') \<Longrightarrow>
   sessionsLogged hash r'"
  by (auto simp: sessionsLogged_def list_all_iff intro: logged_mono)

lemma recordAppend_frame [simp]:
  "rt_topic (recordAppend env batch transport r) = rt_topic r"
  "rt_localProcessor (recordAppend env batch transport r) = rt_localProcessor r"
  "rt_indexed (recordAppend env batch transport r) = rt_indexed r"
  by (simp_all add: recordAppend_def)

lemma recordAppend_sessionsLogged:
  assumes hash: "inj (ie_hash (ue_ingest env))" and nul: "CHR 0x00 \<notin> set (bh_tenant_id (GetHeader batch))"
    and ok: "sessionsLogged (ie_hash (ue_ingest env)) r"
    and topic: "logged (ai_TenantID (AgentIdentityFromDataBatch batch)) (ai_AgentID (AgentIdentityFromDataBatch batch))
                  (bh_batch_id (GetHeader batch)) r"
  shows "sessionsLogged (ie_hash (ue_ingest env)) (recordAppend env batch transport r)"
proof (cases "Valid (AgentIdentityFromDataBatch batch)")
  case False
  then show ?thesis using ok by (simp add: recordAppend_def RecordDataBatchAppend_def)
next
  case True
  let ?h = "ie_hash (ue_ingest env)" and ?t = "ai_TenantID (AgentIdentityFromDataBatch batch)" and ?a = "ai_AgentID (AgentIdentityFromDataBatch batch)"
  let ?r = "recordAppend env batch transport r"
  have id: "sessionOk ?h (AgentSession_zero\<lparr> se_SessionID := agentSessionID ?h ?t ?a, se_TenantID := ?t, se_AgentID := ?a \<rparr>)"
    using nul TrimSpace_nul_free [of "bh_tenant_id (GetHeader batch)"]
    by (auto simp: sessionOk_def batch_identity orDefault_def)
  have "sessionOk ?h se \<and> (se_LastAckCursor se = '''' \<or> logged (se_TenantID se) (se_AgentID se) (se_LastAckCursor se) r)"
    if se: "se \<in> set (st_AgentSessions (rt_store ?r))" for se
  proof -
    from se True consider "se \<in> set (st_AgentSessions (rt_store r))"
      | "se_SessionID se = agentSessionID ?h ?t ?a" "se_TenantID se = ?t" "se_AgentID se = ?a" "se_LastAckCursor se = bh_batch_id (GetHeader batch)"
      | old where "old \<in> set (st_AgentSessions (rt_store r))" "se_SessionID old = agentSessionID ?h ?t ?a" "se_SessionID se = se_SessionID old"
          "se_TenantID se = se_TenantID old" "se_AgentID se = se_AgentID old"
          "se_LastAckCursor se = orElse (bh_batch_id (GetHeader batch)) (se_LastAckCursor old)"
      by (auto simp: recordAppend_def RecordDataBatchAppend_def Let_def dest!: set_upsertBy_cases)
    then show ?thesis
    proof cases
      case 1
      then show ?thesis using ok by (simp add: sessionsLogged_def list_all_iff)
    next
      case 2
      then show ?thesis using id topic by (simp add: sessionOk_def)
    next
      case 3
      then have old: "sessionOk ?h old" "se_LastAckCursor old = '''' \<or> logged (se_TenantID old) (se_AgentID old) (se_LastAckCursor old) r"
        using ok by (simp_all add: sessionsLogged_def list_all_iff)
      have "agentSessionID ?h (se_TenantID old) (se_AgentID old) = agentSessionID ?h ?t ?a" using 3(2) old(1) by (simp add: sessionOk_def)
      moreover have "CHR 0x00 \<notin> set (se_TenantID old)" "CHR 0x00 \<notin> set ?t" using old(1) id by (simp_all add: sessionOk_def)
      ultimately have same: "se_TenantID old = ?t" "se_AgentID old = ?a" using agentSessionID_inj [OF hash] by blast+
      have "sessionOk ?h se" using old(1) 3(3-5) by (simp add: sessionOk_def)
      moreover have "se_LastAckCursor se = '''' \<or> logged ?t ?a (se_LastAckCursor se) r"
        using old(2) topic 3(6) same by (auto simp: orElse_def)
      ultimately show ?thesis using 3(4,5) same by simp
    qed
  qed
  moreover have "logged t a b ?r = logged t a b r" for t a b by (simp add: logged_def)
  ultimately show ?thesis by (auto simp: sessionsLogged_def list_all_iff)
qed

text \<open>Processing a batch leaves the sessions alone.\<close>

lemma AddAgent_sessions [simp]: "st_AgentSessions (AddAgent agent s) = st_AgentSessions s"
  by (simp add: AddAgent_def Let_def)

lemma BindAgentIdentity_sessions [simp]: "st_AgentSessions (snd (BindAgentIdentity agent s)) = st_AgentSessions s"
  by (simp add: BindAgentIdentity_def Let_def split: option.splits)

lemma addLocal_sessions [simp]: "st_AgentSessions (addLocal env batch s) = st_AgentSessions s"
proof -
  have "st_AgentSessions (foldl (\<lambda>s frame. case ef_event frame of None \<Rightarrow> s | Some ev \<Rightarrow> snd (AddEvent ev s)) s fs) = st_AgentSessions s"
    for fs :: "EventFrame list" and s
    by (induction fs arbitrary: s) (auto simp: AddEvent_def split: option.splits)
  moreover have "st_AgentSessions (foldl (\<lambda>s frame. case sf_signal frame of None \<Rightarrow> s | Some sig \<Rightarrow> snd (AddSignal_store h sig s)) s fs) =
      st_AgentSessions s" for fs :: "SignalFrame list" and h s
    by (induction fs arbitrary: s) (auto simp: AddSignal_store_def Let_def split: option.splits)
  ultimately show ?thesis by (simp only: addLocal_def)
qed

lemma recomputeScope_sessions: "st_AgentSessions (px_store (snd (recomputeScope env es ss upper scope p))) = st_AgentSessions (px_store p)"
  by (simp add: recomputeScope_def ReplaceDerivedForLabels_def split_beta Let_def split: sum.splits)

lemma recomputeTouchedScopes_sessions:
  "st_AgentSessions (px_store (snd (recomputeTouchedScopes env es ss upper scopes acc p))) = st_AgentSessions (px_store p)"
proof (induction scopes arbitrary: acc p)
  case (Cons scope scopes)
  then show ?case
    using recomputeScope_sessions [of env es ss upper "snd scope" p] by (cases scope) (auto split: prod.splits sum.splits)
qed simp

lemma beginProcess_sessions [simp]: "st_AgentSessions (px_store (beginProcess env batch p)) = st_AgentSessions (px_store p)"
  by (simp add: beginProcess_def Let_def)

lemma finishProcess_sessions [simp]: "st_AgentSessions (px_store (snd (finishProcess env batch d p))) = st_AgentSessions (px_store p)"
  by (simp add: finishProcess_def RecordDataBatchIngest_def ObserveRaritySignals_def Let_def split: option.splits)

lemma Processor_Process_sessions: "st_AgentSessions (px_store (snd (Processor_Process env batch p))) = st_AgentSessions (px_store p)"
proof -
  have "st_AgentSessions (px_store q) = st_AgentSessions (px_store p)"
    if "recomputeTouchedScopes env es ss upper scopes acc (beginProcess env batch p) = (d, q)" for es ss upper scopes acc d q
    using recomputeTouchedScopes_sessions [of env es ss upper scopes acc "beginProcess env batch p"] that by simp
  then show ?thesis
    by (auto simp: Processor_Process_def BulkIndex_def Let_def split: option.splits prod.splits sum.splits)
qed

lemma processLocal_frame:
  "st_AgentSessions (rt_store (snd (processLocal env batch r))) = st_AgentSessions (rt_store r)"
  "rt_topic (snd (processLocal env batch r)) = rt_topic r"
  "processLocal env batch r = (Inr result, r') \<Longrightarrow> \<not> dr_Duplicate result"
  using Processor_Process_sessions [of "ue_ingest env" batch]
  by (auto simp: processLocal_def DataAppendResult_zero_def split_beta Let_def split: option.splits sum.splits)

section \<open>An acknowledged batch is on the topic\<close>

lemma isDuplicateBatch_logged:
  assumes "isDuplicateBatch tenantID agentID batchID (rt_store r)" and "sessionsLogged hash r" and "tenantID \<noteq> ''''" and "agentID \<noteq> ''''"
  shows "logged tenantID agentID batchID r \<and> TrimSpace tenantID = tenantID \<and> TrimSpace agentID = agentID"
  using assms by (auto simp: isDuplicateBatch_def ListAgentSessions_def sessionsLogged_def sessionOk_def optional_def list_ex_iff list_all_iff)

lemma validateUploadIdentity_None:
  "validateUploadIdentity batch = None \<longleftrightarrow> db_header batch \<noteq> None \<and> bh_agent_id (GetHeader batch) \<noteq> '''' \<and>
     bh_host_id (GetHeader batch) \<noteq> '''' \<and> bh_tenant_id (GetHeader batch) \<noteq> ''''"
  by (auto simp: validateUploadIdentity_def GetHeader_def Let_def split: option.splits)

text \<open>An upload as every branch of the handler leaves it: \<open>uploaded r res r'\<close> is what the proofs below need to know.\<close>

definition uploaded :: "(string \<Rightarrow> string) \<Rightarrow> DataBatch \<Rightarrow> Runtime \<Rightarrow> (appendError + DataAppendResult) \<times> Runtime \<Rightarrow> bool" where
  "uploaded hash batch r res \<longleftrightarrow>
     sessionsLogged hash (snd res) \<and> set (rt_topic r) \<subseteq> set (rt_topic (snd res)) \<and> rt_agentToken (snd res) = rt_agentToken r \<and>
     (\<forall>result. fst res = Inr result \<longrightarrow>
        logged (ai_TenantID (AgentIdentityFromDataBatch batch)) (ai_AgentID (AgentIdentityFromDataBatch batch)) (bh_batch_id (GetHeader batch)) (snd res) \<and>
        (\<not> dr_Duplicate result \<longrightarrow> batch \<in> snd ` set (rt_topic (snd res))))"

lemma AppendDataBatch_uploaded:
  assumes hash: "inj (ie_hash (ue_ingest env))" and nul: "CHR 0x00 \<notin> set (bh_tenant_id (GetHeader batch))"
    and ok: "sessionsLogged (ie_hash (ue_ingest env)) r"
  shows "uploaded (ie_hash (ue_ingest env)) batch r (AppendDataBatchWithTransport env batch transport r)"
proof (cases "validateUploadIdentity batch")
  case (Some err)
  then show ?thesis using ok by (auto simp: AppendDataBatchWithTransport_def uploaded_def intro: sessionsLogged_mono)
next
  case None
  note valid = None [unfolded validateUploadIdentity_None]
  let ?h = "ie_hash (ue_ingest env)" and ?hd = "GetHeader batch"
  let ?t = "ai_TenantID (AgentIdentityFromDataBatch batch)" and ?a = "ai_AgentID (AgentIdentityFromDataBatch batch)" and ?b = "bh_batch_id (GetHeader batch)"
  show ?thesis
  proof (cases "isDuplicateBatch (bh_tenant_id ?hd) (bh_agent_id ?hd) ?b (rt_store r)")
    case True
    then have l: "logged ?t ?a ?b r"
      using isDuplicateBatch_logged [OF True ok] valid by (auto simp: batch_identity orDefault_def)
    have "sessionsLogged ?h (recordAppend env batch transport r)"
      using recordAppend_sessionsLogged [OF hash nul ok l] .
    with None True l show ?thesis
      by (auto simp: AppendDataBatchWithTransport_def uploaded_def Let_def logged_def sessionsLogged_def recordAppend_def DataAppendResult_zero_def
               split: option.splits prod.splits)
  next
    case False
    show ?thesis
    proof (cases "ue_handoff env (rawKey batch) batch")
      case (Some err)
      with None False ok show ?thesis
        by (cases err) (auto simp: AppendDataBatchWithTransport_def appendRawBatch_def uploaded_def Let_def intro: sessionsLogged_mono)
    next
      case taken: None
      let ?r1 = "r\<lparr> rt_topic := rt_topic r @ [(rawKey batch, batch)] \<rparr>"
      let ?r2 = "recordAppend env batch transport ?r1"
      have l: "logged ?t ?a ?b ?r1" by (simp add: logged_def sentBy_def)
      have "sessionsLogged ?h ?r1" using ok by (auto intro: sessionsLogged_mono)
      then have ok2: "sessionsLogged ?h ?r2" using recordAppend_sessionsLogged [OF hash nul _ l] by blast
      obtain res r3 where p: "processLocal env batch ?r2 = (res, r3)" by (metis surj_pair)
      have r3: "rt_topic r3 = rt_topic r @ [(rawKey batch, batch)]" "st_AgentSessions (rt_store r3) = st_AgentSessions (rt_store ?r2)"
        "rt_agentToken r3 = rt_agentToken r"
        using processLocal_frame(1,2) [of env batch ?r2] p
        by (auto simp: processLocal_def recordAppend_def split_beta Let_def split: option.splits sum.splits)
      have ok3: "sessionsLogged ?h r3" using ok2 by (rule sessionsLogged_mono) (simp_all add: r3)
      have l3: "logged ?t ?a ?b r3" using l by (rule logged_mono) (simp add: r3)
      have keep: "sessionsLogged ?h (r3\<lparr> rt_metrics := m \<rparr>)" for m using ok3 by (rule sessionsLogged_mono) simp_all
      have keep_l: "logged ?t ?a ?b (r3\<lparr> rt_metrics := m \<rparr>)" for m using l3 by (rule logged_mono) simp
      show ?thesis
      proof (cases "ue_save env")
        case (Some err)
        with None False taken ok2 show ?thesis
          by (cases err) (auto simp: AppendDataBatchWithTransport_def appendRawBatch_def uploaded_def Let_def recordAppend_def)
      next
        case saved: None
        show ?thesis
        proof (cases res)
          case (Inl err)
          with None False taken saved p keep r3 show ?thesis
            by (cases err) (auto simp: AppendDataBatchWithTransport_def appendRawBatch_def uploaded_def Let_def)
        next
          case (Inr result)
          with None False taken saved p keep keep_l r3 show ?thesis
            by (auto simp: AppendDataBatchWithTransport_def appendRawBatch_def uploaded_def Let_def)
        qed
      qed
    qed
  qed
qed

section \<open>Streams of uploads\<close>

record upload =
  up_env :: uploadEnv
  up_md :: "(string list \<times> string list) option"
  up_peer :: "PeerIdentity option"
  up_batch :: DataBatch
  up_transport :: string

definition serve :: "upload \<Rightarrow> Runtime \<Rightarrow> (grpcCode + DataAck) \<times> Runtime" where
  "serve u r = handleBatch (up_env u) (up_md u) (up_peer u) (up_batch u) (up_transport u) r"

fun serveAll :: "upload list \<Rightarrow> Runtime \<Rightarrow> (grpcCode + DataAck) list \<times> Runtime" where
  "serveAll [] r = ([], r)"
| "serveAll (u # us) r =
     (let (answer, r) = serve u r; (answers, r) = serveAll us r in (answer # answers, r))"

text \<open>What an acknowledgement promises of the topic: the batch, or an earlier one of the agent with its identifier, is there.\<close>

definition kept :: "Runtime \<Rightarrow> upload \<Rightarrow> grpcCode + DataAck \<Rightarrow> bool" where
  "kept r u answer \<longleftrightarrow>
     (case answer of
        Inl _ \<Rightarrow> True
      | Inr ack \<Rightarrow>
          (AckCommitted (Some ack) \<longrightarrow>
             logged (ai_TenantID (AgentIdentityFromDataBatch (up_batch u))) (ai_AgentID (AgentIdentityFromDataBatch (up_batch u)))
               (bh_batch_id (GetHeader (up_batch u))) r) \<and>
          (ack_status ack = STATUS_ACCEPTED \<longrightarrow> up_batch u \<in> snd ` set (rt_topic r)))"

lemma kept_mono: "kept r u answer \<Longrightarrow> set (rt_topic r) \<subseteq> set (rt_topic r') \<Longrightarrow> kept r' u answer"
  by (auto simp: kept_def split: sum.splits intro: logged_mono)

lemma ackOfResult_committed:
  "AckCommitted (Some (ackOfResult env batch res)) \<longleftrightarrow> (\<exists>result. res = Inr result)"
  "ack_status (ackOfResult env batch res) = STATUS_ACCEPTED \<longleftrightarrow> (\<exists>result. res = Inr result \<and> \<not> dr_Duplicate result)"
  by (auto simp: ackOfResult_def dataAck_def AckCommitted_def DataAck_zero_def Let_def split: sum.splits appendError.splits)

definition fits :: "(string \<Rightarrow> string) \<Rightarrow> upload \<Rightarrow> bool" where
  "fits hash u \<longleftrightarrow> ie_hash (ue_ingest (up_env u)) = hash \<and> CHR 0x00 \<notin> set (bh_tenant_id (GetHeader (up_batch u)))"

lemma serve_kept:
  assumes "inj hash" and "fits hash u" and "sessionsLogged hash r" and "serve u r = (answer, r')"
  shows "sessionsLogged hash r' \<and> set (rt_topic r) \<subseteq> set (rt_topic r') \<and> kept r' u answer"
proof -
  let ?bind = "\<lambda>p. BindAgentIdentity (agentIdentityFromPeer p (bh_host_id (GetHeader (up_batch u)))
      (get_or '''' (bh_labels (GetHeader (up_batch u))) ''agent_version'')) (rt_store r)"
  have main: "sessionsLogged hash r' \<and> set (rt_topic r1) \<subseteq> set (rt_topic r') \<and> kept r' u (Inr (ackOfResult (up_env u) (up_batch u) (fst x)))"
    if "sessionsLogged hash r1" and x: "x = AppendDataBatchWithTransport (up_env u) (up_batch u) (up_transport u) r1" and "r' = snd x" for r1 x
    using AppendDataBatch_uploaded [of "up_env u" "up_batch u" r1 "up_transport u"] assms(1,2) that
    by (auto simp: fits_def uploaded_def kept_def ackOfResult_committed)
  show ?thesis
  proof (cases "authorized (rt_agentToken r) (up_md u) \<and> validatePeerDataIdentity (up_peer u) (GetHeader (up_batch u))")
    case False
    then have "answer = Inl Unauthenticated \<or> answer = Inl PermissionDenied" and "r' = r"
      using assms(4) by (auto simp: serve_def handleBatch_def split: if_splits)
    then show ?thesis using assms(3) by (auto simp: kept_def)
  next
    case True
    show ?thesis
    proof (cases "up_peer u")
      case None
      then show ?thesis using True assms(3,4) main [of r] by (auto simp: serve_def handleBatch_def split_beta Let_def)
    next
      case (Some p)
      let ?r1 = "r\<lparr> rt_store := snd (?bind p) \<rparr>"
      have ok1: "sessionsLogged hash ?r1" using assms(3) by (rule sessionsLogged_mono) simp_all
      let ?x = "AppendDataBatchWithTransport (up_env u) (up_batch u) (up_transport u) ?r1"
      have s: "serve u r = (if fst (?bind p) \<noteq> None then (Inl PermissionDenied, ?r1)
          else (Inr (ackOfResult (up_env u) (up_batch u) (fst ?x)), snd ?x))"
        using True Some by (simp add: serve_def handleBatch_def split_beta Let_def)
      show ?thesis
      proof (cases "fst (?bind p) = None")
        case True
        then have "answer = Inr (ackOfResult (up_env u) (up_batch u) (fst ?x))" and "r' = snd ?x" using s assms(4) by simp_all
        then show ?thesis using main [OF ok1 refl] by simp
      next
        case False
        then have "answer = Inl PermissionDenied" and "r' = ?r1" using s assms(4) by simp_all
        then show ?thesis using ok1 by (simp add: kept_def)
      qed
    qed
  qed
qed

lemma serveAll_kept:
  "inj hash \<Longrightarrow> list_all (fits hash) us \<Longrightarrow> sessionsLogged hash r \<Longrightarrow> serveAll us r = (answers, r') \<Longrightarrow>
   set (rt_topic r) \<subseteq> set (rt_topic r') \<and> list_all2 (kept r') us answers"
proof (induction us arbitrary: r answers)
  case (Cons u us)
  obtain a r1 where 1: "serve u r = (a, r1)" by (metis surj_pair)
  obtain as where 2: "serveAll us r1 = (as, r')" "answers = a # as" using Cons.prems(4) 1 by (auto simp: Let_def split: prod.splits)
  have s: "sessionsLogged hash r1 \<and> set (rt_topic r) \<subseteq> set (rt_topic r1) \<and> kept r1 u a"
    using serve_kept [OF Cons.prems(1) _ Cons.prems(3) 1] Cons.prems(2) by simp
  then have "set (rt_topic r1) \<subseteq> set (rt_topic r') \<and> list_all2 (kept r') us as"
    using Cons.IH [OF Cons.prems(1) _ _ 2(1)] Cons.prems(2) by simp
  with s 2(2) show ?case using kept_mono by auto
qed simp


section \<open>A retry after a failure\<close>

lemma upsertBy_updated: "find P rows = Some y \<Longrightarrow> f y \<in> set (upsertBy P f x rows)"
  by (induction rows) (auto split: if_splits)

lemma recordAppend_row:
  assumes hash: "inj (ie_hash (ue_ingest env))" and nul: "CHR 0x00 \<notin> set (bh_tenant_id (GetHeader batch))"
    and ok: "list_all (sessionOk (ie_hash (ue_ingest env))) (st_AgentSessions (rt_store r))"
    and valid: "Valid (AgentIdentityFromDataBatch batch)" and batchID: "bh_batch_id (GetHeader batch) \<noteq> ''''"
  shows "\<exists>se \<in> set (st_AgentSessions (rt_store (recordAppend env batch transport r))).
    se_TenantID se = ai_TenantID (AgentIdentityFromDataBatch batch) \<and> se_AgentID se = ai_AgentID (AgentIdentityFromDataBatch batch) \<and>
    se_LastAckCursor se = bh_batch_id (GetHeader batch)"
proof -
  let ?h = "ie_hash (ue_ingest env)" and ?t = "ai_TenantID (AgentIdentityFromDataBatch batch)" and ?a = "ai_AgentID (AgentIdentityFromDataBatch batch)"
  let ?same = "\<lambda>se. se_SessionID se = agentSessionID ?h ?t ?a"
  have t: "CHR 0x00 \<notin> set ?t" using nul TrimSpace_nul_free by (auto simp: batch_identity orDefault_def)
  show ?thesis
  proof (cases "find ?same (st_AgentSessions (rt_store r))")
    case None
    then show ?thesis using valid by (simp add: recordAppend_def RecordDataBatchAppend_def Let_def upsertBy_None)
  next
    case (Some old)
    then have old: "sessionOk ?h old" "se_SessionID old = agentSessionID ?h ?t ?a" using ok find_in [OF Some] by (auto simp: list_all_iff)
    then have "agentSessionID ?h (se_TenantID old) (se_AgentID old) = agentSessionID ?h ?t ?a" "CHR 0x00 \<notin> set (se_TenantID old)"
      by (simp_all add: sessionOk_def)
    then have "se_TenantID old = ?t \<and> se_AgentID old = ?a" using agentSessionID_inj [OF hash _ t] by blast
    then show ?thesis using valid batchID
      by (auto simp: recordAppend_def RecordDataBatchAppend_def Let_def orElse_def intro!: bexI [OF _ upsertBy_updated [OF Some]])
  qed
qed


section \<open>Examples\<close>

definition exampleEnv :: uploadEnv where
  "exampleEnv = \<lparr> ue_now = 9, ue_serverTime = ''now'', ue_handoff = (\<lambda>key batch. None), ue_save = None, ue_ingest = exampleIngest \<rparr>"

definition exampleUpload :: "uploadEnv \<Rightarrow> string \<Rightarrow> upload" where
  "exampleUpload env batchID = \<lparr> up_env = env, up_md = None,
     up_peer = Some \<lparr> pi_TenantID = ''t1'', pi_AgentID = ''a1'', pi_Principal = ''spiffe://t1/a1'' \<rparr>,
     up_batch = exampleBatch\<lparr> db_header := Some ((GetHeader exampleBatch)\<lparr> bh_batch_id := batchID \<rparr>) \<rparr>, up_transport = ''grpc_stream'' \<rparr>"

definition exampleUploads :: "upload list" where
  "exampleUploads = [exampleUpload exampleEnv ''b1'', exampleUpload exampleEnv ''b1'',
     exampleUpload (exampleEnv\<lparr> ue_handoff := (\<lambda>key batch. Some (Unavailable, ''no broker'')) \<rparr>) ''b2'']"

definition exampleRuntime :: Runtime where
  "exampleRuntime = NewRuntime emptyStore (Some \<lparr> ae_nextSignalID = 0, ae_incidents = \<lparr> bd_nextID = 0, bd_Scorer = (\<lambda>s. Finite 0) \<rparr> \<rparr>) ''''"

lemma exampleAnswers:
  "map (map_sum id ack_status) (fst (serveAll exampleUploads exampleRuntime)) = [Inr STATUS_ACCEPTED, Inr STATUS_DUPLICATE, Inr STATUS_RETRYABLE]"
  by code_simp


definition fullDisk :: uploadEnv where
  "fullDisk = exampleEnv\<lparr> ue_ingest := exampleIngest\<lparr> ie_save := Some (errorf ''disk full'') \<rparr> \<rparr>"


end
