(* ===== verification/Agent_Content.thy ===== *)
theory Agent_Content
  imports Go_Prelude "HOL-Library.Char_ord" "HOL-Library.List_Lexorder" "HOL-Library.Product_Lexorder"
begin

text \<open>
  The agent's store of detection content (\<^verbatim>\<open>internal/agent/content/store.go\<close>, \<^verbatim>\<open>layers.go\<close>, \<^verbatim>\<open>manifest.go\<close>):
  rule packs, context sets and indicator packs, which are parsed, checked against their digest and signature, patched,
  kept in memory and written to one file each. The directory is the map \<open>cst_files\<close> from names to contents; \<open>contentIO\<close> says which
  calls of the operating system fail. \<^verbatim>\<open>encoding/json\<close>, SHA-256, base64 and Ed25519 are the fields of
  the record \<open>contentCodec\<close>, and \<open>contentCodec_ok\<close> states what the store relies on: decoding inverts encoding, up to the compaction that
  \<^verbatim>\<open>json.Marshal\<close> applies to a raw message and that the signed bytes and the decoded contents do not see.
\<close>

section \<open>Types\<close>

record Metadata =
  md_ID :: string
  md_Version :: string
  md_TenantID :: string
  md_CreatedAt :: string
  md_TTL :: string

record Integrity =
  ig_DigestAlg :: string
  ig_Digest :: string
  ig_SignatureAlg :: string
  ig_KeyID :: string
  ig_Signature :: string

definition Integrity_zero :: Integrity where
  "Integrity_zero = \<lparr> ig_DigestAlg = '''', ig_Digest = '''', ig_SignatureAlg = '''', ig_KeyID = '''', ig_Signature = '''' \<rparr>"

record Envelope =
  ev_APIVersion :: string
  ev_Kind :: string
  ev_Metadata :: Metadata
  ev_Spec :: string
  ev_Integrity :: Integrity

record Record =
  rec_Ref :: string
  rec_Kind :: string
  rec_Version :: string
  rec_Digest :: string
  rec_Signed :: bool
  rec_Status :: string
  rec_RawJSON :: string

record ValueSet =
  vs_Ref :: string
  vs_Version :: string
  vs_Digest :: string
  vs_ValueType :: string
  vs_Values :: "string list"

record RuntimeCondition =
  rcn_Field :: string
  rcn_Op :: string
  rcn_Value :: string
  rcn_Values :: "string list"
  rcn_Ref :: string
  rcn_Step :: string
  rcn_StepField :: string

datatype RuntimeConditionNode = RuntimeConditionNode
  (rn_All: "RuntimeConditionNode list option")
  (rn_Any: "RuntimeConditionNode list option")
  (rn_Not: "RuntimeConditionNode option")
  (rn_Condition: "RuntimeCondition option")

record RuntimeExpr =
  rx_Conditions :: "RuntimeCondition list"
  rx_ConditionGroup :: "RuntimeConditionNode option"

record RuntimeStep =
  rst_ID :: string
  rst_Behavior :: string
  rst_Event :: string
  rst_Conditions :: "RuntimeCondition list"
  rst_ConditionGroup :: "RuntimeConditionNode option"

record RuntimeSequence =
  rsq_Within :: string
  rsq_By :: "string list"
  rsq_Steps :: "RuntimeStep list"

record RuntimeFact =
  rft_ID :: string
  rft_Event :: string
  rft_Events :: "string list"
  rft_Conditions :: "RuntimeCondition list"
  rft_ConditionGroup :: "RuntimeConditionNode option"

record RuntimeCorrelate =
  rco_Within :: string
  rco_By :: "string list"
  rco_Facts :: "RuntimeFact list"

record RuntimeSuppression =
  rsu_Within :: string
  rsu_By :: "string list"

record RequiredEvent =
  rqe_Behavior :: string
  rqe_Fields :: "string list"

record content_ResponseIntent =
  cri_Action :: string
  cri_Confidence :: uint32
  cri_Reason :: string

record Rule =
  rl_RuleID :: string
  rl_Version :: uint64
  rl_RuleSetRef :: string
  rl_Severity :: string
  rl_RuntimeType :: string
  rl_RuntimeEntry :: string
  rl_Expr :: RuntimeExpr
  rl_Sequence :: RuntimeSequence
  rl_Correlate :: RuntimeCorrelate
  rl_Suppression :: RuntimeSuppression
  rl_RequiredEvents :: "RequiredEvent list"
  rl_ContextRefs :: "string list"
  rl_IOCRefs :: "string list"
  rl_ResponseIntent :: content_ResponseIntent
  rl_Terminal :: "bool option"

record Snapshot =
  sn_RulePacks :: "(string, Record) gomap"
  sn_Rules :: "Rule list"
  sn_ContextSets :: "(string, ValueSet) gomap"
  sn_IOCPacks :: "(string, ValueSet) gomap"
  sn_DefaultManifestVersion :: string

record ManifestEntry =
  men_Ref :: string
  men_Kind :: string
  men_Version :: string
  men_Digest :: string
  men_File :: string

record Manifest =
  man_Version :: string
  man_Entries :: "ManifestEntry list"

text \<open>The anonymous structures the contents are decoded into, and the two forms of a file.\<close>

record patchOp =
  po_Op :: string
  po_Value :: string

record valueSpec =
  vp_BaseVersion :: string
  vp_ValueType :: string
  vp_MergeStrategy :: string
  vp_Values :: "string list"
  vp_Ops :: "patchOp list"

record ruleJSON =
  rj_Rule :: Rule
  rj_ContextRequired :: "string list"
  rj_ContextOptional :: "string list"
  rj_IOCRequired :: "string list"
  rj_IOCOptional :: "string list"

record ruleSetJSON =
  rsj_ID :: string
  rsj_Rules :: "ruleJSON list"

record unsignedAdmission =
  ua_AllowUnsigned :: bool
  ua_Digest :: string

record persistedRecord =
  pr_Admission :: "unsignedAdmission option"
  pr_Content :: string

record contentCodec =
  cx_envelope :: "string \<Rightarrow> string + Envelope"
  cx_marshalEnvelope :: "Envelope \<Rightarrow> string"
  cx_valueSpec :: "string \<Rightarrow> string + valueSpec"
  cx_marshalValues :: "string \<Rightarrow> string \<Rightarrow> string list \<Rightarrow> string"
  cx_ruleSets :: "string \<Rightarrow> string + ruleSetJSON list"
  cx_manifest :: "string \<Rightarrow> string + Manifest"
  cx_persisted :: "string \<Rightarrow> string + persistedRecord"
  cx_marshalPersisted :: "persistedRecord \<Rightarrow> string"
  cx_signedBytes :: "string \<Rightarrow> string \<Rightarrow> Metadata \<Rightarrow> string \<Rightarrow> string"
  cx_sha256 :: "string \<Rightarrow> string"
  cx_base64 :: "string \<Rightarrow> string + string"
  cx_verify :: "string \<Rightarrow> string \<Rightarrow> string \<Rightarrow> bool"
  cx_range :: "(string, Record) gomap \<Rightarrow> (string, Record) gomap"

record contentIO =
  io_mkdir :: "string option"
  io_readDir :: "string option"
  io_readFile :: "string \<Rightarrow> string option"
  io_write :: "string \<Rightarrow> string \<Rightarrow> (string \<times> string option) option"
  io_rename :: "string \<Rightarrow> string option"

record ContentStore =
  cst_dir :: string
  cst_files :: "(string, string) gomap"
  cst_trustedKeys :: "(string, string) gomap"
  cst_records :: "(string, Record) gomap"
  cst_defaultRefs :: "string list"
  cst_manifestVersion :: string

text \<open>\<^verbatim>\<open>strings.EqualFold\<close>, here on hexadecimal digits.\<close>

definition EqualFold :: "string \<Rightarrow> string \<Rightarrow> bool" where
  "EqualFold a b \<longleftrightarrow> ToLower a = ToLower b"

fun firstNonEmptyTrimmed :: "string list \<Rightarrow> string" where
  "firstNonEmptyTrimmed [] = ''''"
| "firstNonEmptyTrimmed (v # vs) = (if TrimSpace v \<noteq> '''' then TrimSpace v else firstNonEmptyTrimmed vs)"

section \<open>Parsing and validation\<close>

definition Parse :: "contentCodec \<Rightarrow> string \<Rightarrow> string + Envelope" where
  "Parse cx raw =
     (case cx_envelope cx raw of
        Inl err \<Rightarrow> Inl (''decode content envelope: '' @ err)
      | Inr env \<Rightarrow> Inr (env\<lparr> ev_Kind := TrimSpace (ev_Kind env),
          ev_Metadata := (ev_Metadata env)\<lparr> md_ID := TrimSpace (md_ID (ev_Metadata env)), md_Version := TrimSpace (md_Version (ev_Metadata env)) \<rparr> \<rparr>))"

definition signedBytes :: "contentCodec \<Rightarrow> Envelope \<Rightarrow> string" where
  "signedBytes cx env = cx_signedBytes cx (ev_APIVersion env) (ev_Kind env) (ev_Metadata env) (ev_Spec env)"

definition signedDigest :: "contentCodec \<Rightarrow> Envelope \<Rightarrow> string" where
  "signedDigest cx env = cx_sha256 cx (signedBytes cx env)"

definition verifySignature :: "contentCodec \<Rightarrow> (string, string) gomap \<Rightarrow> Envelope \<Rightarrow> string option" where
  "verifySignature cx trustedKeys env =
     (if ig_SignatureAlg (ev_Integrity env) \<noteq> ''ed25519'' then Some (''unsupported content signature_alg '' @ ig_SignatureAlg (ev_Integrity env))
      else let keyID = TrimSpace (ig_KeyID (ev_Integrity env)) in
        if keyID = '''' then Some ''content signature key_id is required''
        else let key = get_or '''' trustedKeys keyID in
          if length key \<noteq> 32 then Some (''content signature key '' @ keyID @ '' is not trusted'')
          else case cx_base64 cx (ig_Signature (ev_Integrity env)) of
                 Inl err \<Rightarrow> Some (''decode content signature: '' @ err)
               | Inr sig \<Rightarrow> if \<not> cx_verify cx key (signedBytes cx env) sig then Some ''content signature verification failed'' else None)"

definition contentKinds :: "string list" where
  "contentKinds = [''rulepack'', ''contextset'', ''iocpack'', ''content-bundle'']"

definition Validate :: "contentCodec \<Rightarrow> (string, string) gomap \<Rightarrow> Envelope \<Rightarrow> bool \<Rightarrow> string option" where
  "Validate cx trustedKeys env allowUnsigned =
     (if ev_APIVersion env \<noteq> ''sysarmor.content/v1'' then Some (''unsupported content api_version '' @ ev_APIVersion env)
      else if ev_Kind env \<notin> set contentKinds then Some (''unsupported content kind '' @ ev_Kind env)
      else if md_ID (ev_Metadata env) = '''' then Some ''content metadata.id is required''
      else if md_Version (ev_Metadata env) = '''' then Some ''content metadata.version is required''
      else if length (ev_Spec env) = 0 \<or> ev_Spec env = ''null'' then Some ''content spec is required''
      else if ig_Digest (ev_Integrity env) \<noteq> '''' \<and> firstNonEmptyTrimmed [ig_DigestAlg (ev_Integrity env), ''sha256''] \<noteq> ''sha256''
        then Some (''unsupported content digest_alg '' @ firstNonEmptyTrimmed [ig_DigestAlg (ev_Integrity env), ''sha256''])
      else if ig_Digest (ev_Integrity env) \<noteq> '''' \<and> \<not> EqualFold (ig_Digest (ev_Integrity env)) (signedDigest cx env)
        then Some ''content digest mismatch''
      else if TrimSpace (ig_Signature (ev_Integrity env)) = '''' \<and> \<not> allowUnsigned then Some ''unsigned content requires allow_unsigned''
      else if TrimSpace (ig_Signature (ev_Integrity env)) \<noteq> '''' then verifySignature cx trustedKeys env
      else None)"

definition recordOf :: "contentCodec \<Rightarrow> Envelope \<Rightarrow> string \<Rightarrow> string \<Rightarrow> Record" where
  "recordOf cx env status raw =
     \<lparr> rec_Ref = md_ID (ev_Metadata env), rec_Kind = ev_Kind env, rec_Version = md_Version (ev_Metadata env), rec_Digest = signedDigest cx env,
       rec_Signed = (TrimSpace (ig_Signature (ev_Integrity env)) \<noteq> ''''), rec_Status = status, rec_RawJSON = raw \<rparr>"

section \<open>Contents\<close>

text \<open>The values in the order of their first occurrence, sorted at the end.\<close>

definition normalizeValues :: "string list \<Rightarrow> string list" where
  "normalizeValues values = sort (remdups (filter (\<lambda>v. v \<noteq> '''') (map TrimSpace values)))"

definition parseValueSet :: "contentCodec \<Rightarrow> Record \<Rightarrow> string + ValueSet" where
  "parseValueSet cx record =
     (case Parse cx (rec_RawJSON record) of
        Inl err \<Rightarrow> Inl err
      | Inr env \<Rightarrow>
          (case cx_valueSpec cx (ev_Spec env) of
             Inl err \<Rightarrow> Inl err
           | Inr spec \<Rightarrow> Inr \<lparr> vs_Ref = rec_Ref record, vs_Version = rec_Version record, vs_Digest = rec_Digest record,
               vs_ValueType = TrimSpace (vp_ValueType spec), vs_Values = normalizeValues (vp_Values spec) \<rparr>))"

definition parsedRule :: "string \<Rightarrow> ruleJSON \<Rightarrow> Rule" where
  "parsedRule ruleSetRef r =
     (rj_Rule r)\<lparr> rl_RuleSetRef := ruleSetRef, rl_ContextRefs := rj_ContextRequired r @ rj_ContextOptional r,
       rl_IOCRefs := rj_IOCRequired r @ rj_IOCOptional r \<rparr>"

definition parseRulePack :: "contentCodec \<Rightarrow> Record \<Rightarrow> string + Rule list" where
  "parseRulePack cx record =
     (case Parse cx (rec_RawJSON record) of
        Inl err \<Rightarrow> Inl err
      | Inr env \<Rightarrow>
          map_sum id (\<lambda>sets. concat (map (\<lambda>rs. map (parsedRule (rsj_ID rs)) (rsj_Rules rs)) sets)) (cx_ruleSets cx (ev_Spec env)))"

definition validateRecordPayload :: "contentCodec \<Rightarrow> Record \<Rightarrow> string option" where
  "validateRecordPayload cx record =
     (if rec_Kind record = ''rulepack'' then
        (case parseRulePack cx record of Inl err \<Rightarrow> Some (''parse rulepack: '' @ err) | Inr _ \<Rightarrow> None)
      else if rec_Kind record = ''contextset'' \<or> rec_Kind record = ''iocpack'' then
        (case parseValueSet cx record of Inl err \<Rightarrow> Some (''parse '' @ rec_Kind record @ '': '' @ err) | Inr _ \<Rightarrow> None)
      else None)"

definition addToSnapshot :: "contentCodec \<Rightarrow> Snapshot \<Rightarrow> Record \<Rightarrow> Snapshot" where
  "addToSnapshot cx out record =
     (if rec_Kind record = ''rulepack'' then
        (let out = out\<lparr> sn_RulePacks := AList.update (rec_Ref record) record (sn_RulePacks out) \<rparr>
         in case parseRulePack cx record of Inl _ \<Rightarrow> out | Inr rules \<Rightarrow> out\<lparr> sn_Rules := sn_Rules out @ rules \<rparr>)
      else if rec_Kind record = ''contextset'' then
        (case parseValueSet cx record of Inl _ \<Rightarrow> out | Inr vals \<Rightarrow> out\<lparr> sn_ContextSets := AList.update (rec_Ref record) vals (sn_ContextSets out) \<rparr>)
      else if rec_Kind record = ''iocpack'' then
        (case parseValueSet cx record of Inl _ \<Rightarrow> out | Inr vals \<Rightarrow> out\<lparr> sn_IOCPacks := AList.update (rec_Ref record) vals (sn_IOCPacks out) \<rparr>)
      else out)"

definition snapshotFromRecords :: "contentCodec \<Rightarrow> (string, Record) gomap \<Rightarrow> Snapshot" where
  "snapshotFromRecords cx records =
     foldl (addToSnapshot cx) \<lparr> sn_RulePacks = [], sn_Rules = [], sn_ContextSets = [], sn_IOCPacks = [], sn_DefaultManifestVersion = '''' \<rparr>
       (map snd (cx_range cx records))"

definition Store_Snapshot :: "contentCodec \<Rightarrow> ContentStore \<Rightarrow> Snapshot" where
  "Store_Snapshot cx s = (snapshotFromRecords cx (cst_records s))\<lparr> sn_DefaultManifestVersion := cst_manifestVersion s \<rparr>"

definition SnapshotWith :: "contentCodec \<Rightarrow> Record \<Rightarrow> ContentStore \<Rightarrow> Snapshot" where
  "SnapshotWith cx record s =
     (snapshotFromRecords cx (if rec_Ref record \<noteq> '''' then AList.update (rec_Ref record) record (cst_records s) else cst_records s))
       \<lparr> sn_DefaultManifestVersion := cst_manifestVersion s \<rparr>"

definition Store_Get :: "string \<Rightarrow> ContentStore \<Rightarrow> Record option" where
  "Store_Get ref s = map_of (cst_records s) ref"

definition Store_List :: "string \<Rightarrow> ContentStore \<Rightarrow> Record list" where
  "Store_List kind s =
     sort_key (\<lambda>r. (rec_Kind r, rec_Ref r)) (filter (\<lambda>r. kind = '''' \<or> rec_Kind r = kind) (map snd (cst_records s)))"

section \<open>Patches\<close>

fun applyOps :: "patchOp list \<Rightarrow> string list \<Rightarrow> string + string list" where
  "applyOps [] values = Inr values"
| "applyOps (p # ops) values =
     (let v = TrimSpace (po_Value p) in
      if v = '''' then applyOps ops values
      else if po_Op p = ''add'' then applyOps ops (List.insert v values)
      else if po_Op p = ''remove'' then applyOps ops (removeAll v values)
      else Inl (''unsupported patch op '' @ po_Op p))"

definition resolvePatch :: "contentCodec \<Rightarrow> Envelope \<Rightarrow> ContentStore \<Rightarrow> string + string \<times> Envelope" where
  "resolvePatch cx env s =
     (if ev_Kind env \<noteq> ''contextset'' \<and> ev_Kind env \<noteq> ''iocpack'' then Inr (cx_marshalEnvelope cx env, env)
      else case cx_valueSpec cx (ev_Spec env) of
        Inl err \<Rightarrow> Inl err
      | Inr spec \<Rightarrow>
          if vp_MergeStrategy spec \<noteq> ''patch'' then Inr (cx_marshalEnvelope cx env, env)
          else case Store_Get (md_ID (ev_Metadata env)) s of
            None \<Rightarrow> Inl (''patch base content '' @ md_ID (ev_Metadata env) @ '' not found'')
          | Some current \<Rightarrow>
              if vp_BaseVersion spec \<noteq> '''' \<and> rec_Version current \<noteq> vp_BaseVersion spec
              then Inl (''patch base_version mismatch: have '' @ rec_Version current @ '' want '' @ vp_BaseVersion spec)
              else case parseValueSet cx current of
                Inl err \<Rightarrow> Inl err
              | Inr vals \<Rightarrow>
                  (case applyOps (vp_Ops spec) (vs_Values vals) of
                     Inl err \<Rightarrow> Inl err
                   | Inr merged \<Rightarrow>
                       let env = env\<lparr> ev_Spec := cx_marshalValues cx (firstNonEmptyTrimmed [vp_ValueType spec, vs_ValueType vals]) ''replace'' (sort merged),
                                      ev_Integrity := Integrity_zero \<rparr>
                       in Inr (cx_marshalEnvelope cx env, env)))"

section \<open>Files\<close>

definition safeName :: "string \<Rightarrow> string" where
  "safeName ref = map (\<lambda>c. if c = CHR '':'' \<or> c = CHR ''/'' \<or> c = CHR 0x5C \<or> c = CHR '' '' then CHR ''_'' else c) ref"

definition fileData :: "contentCodec \<Rightarrow> Record \<Rightarrow> string" where
  "fileData cx record =
     (if rec_Signed record then rec_RawJSON record
      else cx_marshalPersisted cx \<lparr> pr_Admission = Some \<lparr> ua_AllowUnsigned = True, ua_Digest = rec_Digest record \<rparr>, pr_Content = rec_RawJSON record \<rparr>)"

definition persistLocked :: "contentCodec \<Rightarrow> contentIO \<Rightarrow> Record \<Rightarrow> ContentStore \<Rightarrow> string option \<times> ContentStore" where
  "persistLocked cx io record s =
     (if TrimSpace (cst_dir s) = '''' then (None, s)
      else
        let name = safeName (rec_Ref record) @ ''.json''; tmp = name @ ''.tmp''; data = fileData cx record in
        case io_write io tmp data of
          Some (err, partial) \<Rightarrow>
            (Some err, case partial of None \<Rightarrow> s | Some written \<Rightarrow> s\<lparr> cst_files := AList.update tmp written (cst_files s) \<rparr>)
        | None \<Rightarrow>
            let s = s\<lparr> cst_files := AList.update tmp data (cst_files s) \<rparr> in
            (case io_rename io tmp of
               Some err \<Rightarrow> (Some err, s)
             | None \<Rightarrow> (None, s\<lparr> cst_files := AList.update name data (AList.delete tmp (cst_files s)) \<rparr>)))"

definition Store_Commit :: "contentCodec \<Rightarrow> contentIO \<Rightarrow> Record \<Rightarrow> ContentStore \<Rightarrow> string option \<times> ContentStore" where
  "Store_Commit cx io record s =
     (let previous = map_of (cst_records s) (rec_Ref record);
          (err, s) = persistLocked cx io record (s\<lparr> cst_records := AList.update (rec_Ref record) record (cst_records s) \<rparr>)
      in case err of
           None \<Rightarrow> (None, s)
         | Some e \<Rightarrow>
             (Some e, s\<lparr> cst_records := (case previous of Some p \<Rightarrow> AList.update (rec_Ref record) p (cst_records s)
                                          | None \<Rightarrow> AList.delete (rec_Ref record) (cst_records s)) \<rparr>))"

definition IsDefaultRef :: "string \<Rightarrow> ContentStore \<Rightarrow> bool" where
  "IsDefaultRef ref s \<longleftrightarrow> ref \<in> set (cst_defaultRefs s)"

definition Store_Prepare :: "contentCodec \<Rightarrow> string \<Rightarrow> bool \<Rightarrow> ContentStore \<Rightarrow> string + Record \<times> Snapshot" where
  "Store_Prepare cx raw allowUnsigned s =
     (case Parse cx raw of
        Inl err \<Rightarrow> Inl err
      | Inr env \<Rightarrow>
          if IsDefaultRef (md_ID (ev_Metadata env)) s then Inl (''default content ref '' @ md_ID (ev_Metadata env) @ '' is read-only'')
          else case Validate cx (cst_trustedKeys s) env allowUnsigned of
            Some err \<Rightarrow> Inl err
          | None \<Rightarrow>
              map_sum id (\<lambda>(raw, env). let record = recordOf cx env ''applied'' raw in (record, SnapshotWith cx record s)) (resolvePatch cx env s))"

definition Store_Apply :: "contentCodec \<Rightarrow> contentIO \<Rightarrow> string \<Rightarrow> bool \<Rightarrow> bool \<Rightarrow> ContentStore \<Rightarrow> (string + Record) \<times> ContentStore" where
  "Store_Apply cx io raw allowUnsigned dryRun s =
     (case Store_Prepare cx raw allowUnsigned s of
        Inl err \<Rightarrow> (Inl err, s)
      | Inr (record, _) \<Rightarrow>
          if dryRun then (Inr (record\<lparr> rec_Status := ''validated'' \<rparr>), s)
          else case Store_Commit cx io record s of
                 (Some err, s) \<Rightarrow> (Inl err, s)
               | (None, s) \<Rightarrow> (Inr record, s))"

section \<open>Loading\<close>

definition decodePersistedContent :: "contentCodec \<Rightarrow> string \<Rightarrow> string + string \<times> bool" where
  "decodePersistedContent cx data =
     (case cx_persisted cx data of
        Inl err \<Rightarrow> Inl err
      | Inr persisted \<Rightarrow>
          (case pr_Admission persisted of
             None \<Rightarrow> Inr (data, False)
           | Some admission \<Rightarrow> if length (pr_Content persisted) = 0 then Inr (data, False) else Inr (pr_Content persisted, ua_AllowUnsigned admission)))"

definition persistedDigest :: "contentCodec \<Rightarrow> string \<Rightarrow> string" where
  "persistedDigest cx data =
     (case cx_persisted cx data of
        Inl _ \<Rightarrow> '''' | Inr persisted \<Rightarrow> (case pr_Admission persisted of None \<Rightarrow> '''' | Some admission \<Rightarrow> ua_Digest admission))"

definition loadFile :: "contentCodec \<Rightarrow> (string, string) gomap \<Rightarrow> string \<Rightarrow> string + Record" where
  "loadFile cx trustedKeys data =
     (case decodePersistedContent cx data of
        Inl err \<Rightarrow> Inl ('': '' @ err)
      | Inr (raw, allowUnsigned) \<Rightarrow>
          (case Parse cx raw of
             Inl err \<Rightarrow> Inl ('': '' @ err)
           | Inr env \<Rightarrow>
               if allowUnsigned \<and> \<not> EqualFold (persistedDigest cx data) (signedDigest cx env)
               then Inl ('' ('' @ md_ID (ev_Metadata env) @ ''): unsigned admission digest mismatch'')
               else case Validate cx trustedKeys env allowUnsigned of
                 Some err \<Rightarrow> Inl ('' ('' @ md_ID (ev_Metadata env) @ ''): '' @ err)
               | None \<Rightarrow> Inr (recordOf cx env ''loaded'' raw)))"

text \<open>The checks of a file in the order of the source: the duplicate reference is found before the payload is parsed.\<close>

fun loadEntries ::
  "contentCodec \<Rightarrow> contentIO \<Rightarrow> (string, string) gomap \<Rightarrow> (string, string) gomap \<Rightarrow> string list \<Rightarrow> (string, Record) gomap \<Rightarrow> string + (string, Record) gomap" where
  "loadEntries cx io trustedKeys files [] records = Inr records"
| "loadEntries cx io trustedKeys files (name # names) records =
     (if \<not> HasSuffix name ''.json'' then loadEntries cx io trustedKeys files names records
      else case io_readFile io name of
        Some err \<Rightarrow> Inl err
      | None \<Rightarrow>
          (case loadFile cx trustedKeys (get_or '''' files name) of
             Inl err \<Rightarrow> Inl (''load content '' @ name @ err)
           | Inr record \<Rightarrow>
               if map_of records (rec_Ref record) \<noteq> None then Inl (''load content '' @ name @ '': duplicate content ref '' @ rec_Ref record)
               else case validateRecordPayload cx record of
                 Some err \<Rightarrow> Inl (''load content '' @ name @ '' ('' @ rec_Ref record @ ''): '' @ err)
               | None \<Rightarrow> loadEntries cx io trustedKeys files names (AList.update (rec_Ref record) record records)))"

definition Store_Load :: "contentCodec \<Rightarrow> contentIO \<Rightarrow> ContentStore \<Rightarrow> string option \<times> ContentStore" where
  "Store_Load cx io s =
     (if TrimSpace (cst_dir s) = '''' then (None, s)
      else case io_readDir io of
        Some err \<Rightarrow> (Some err, s)
      | None \<Rightarrow>
          (case loadEntries cx io (cst_trustedKeys s) (cst_files s) (sort (keys (cst_files s))) [] of
             Inl err \<Rightarrow> (Some err, s)
           | Inr records \<Rightarrow> (None, s\<lparr> cst_records := records \<rparr>)))"

definition NewStoreWithOptions :: "contentCodec \<Rightarrow> contentIO \<Rightarrow> string \<Rightarrow> (string, string) gomap \<Rightarrow> (string, string) gomap \<Rightarrow> string + ContentStore" where
  "NewStoreWithOptions cx io dir trustedKeys files =
     (let s = \<lparr> cst_dir = TrimSpace dir, cst_files = files, cst_trustedKeys = trustedKeys, cst_records = [], cst_defaultRefs = [], cst_manifestVersion = '''' \<rparr>
      in if cst_dir s = '''' then Inr s
         else case io_mkdir io of
           Some err \<Rightarrow> Inl err
         | None \<Rightarrow> (case Store_Load cx io s of (Some err, _) \<Rightarrow> Inl err | (None, s) \<Rightarrow> Inr s))"

section \<open>The default layer\<close>

text \<open>\<^verbatim>\<open>filepath.Base(file) == file\<close> for a name that is not empty: a name without separator, or the root itself.\<close>

definition isBaseName :: "string \<Rightarrow> bool" where
  "isBaseName file \<longleftrightarrow> CHR ''/'' \<notin> set file \<or> file = ''/''"

definition validateManifestFiles :: "contentIO \<Rightarrow> (string, string) gomap \<Rightarrow> Manifest \<Rightarrow> string option" where
  "validateManifestFiles io files manifest =
     (case find (\<lambda>entry. men_File entry = '''' \<or> \<not> isBaseName (men_File entry)) (man_Entries manifest) of
        Some entry \<Rightarrow> Some (''invalid default content file for '' @ men_Ref entry)
      | None \<Rightarrow>
          (case io_readDir io of
             Some err \<Rightarrow> Some (''read default content directory: '' @ err)
           | None \<Rightarrow>
               (case find (\<lambda>name. HasSuffix name ''.json'' \<and> name \<notin> set (''content-manifest.json'' # map men_File (man_Entries manifest))) (sort (keys files)) of
                  Some name \<Rightarrow> Some (''unlisted default content file '' @ name)
                | None \<Rightarrow> None)))"

definition loadManifestEntry :: "contentCodec \<Rightarrow> contentIO \<Rightarrow> (string, string) gomap \<Rightarrow> (string, string) gomap \<Rightarrow> ManifestEntry \<Rightarrow> string + Record" where
  "loadManifestEntry cx io trustedKeys files entry =
     (case (io_readFile io (men_File entry), map_of files (men_File entry)) of
        (Some err, _) \<Rightarrow> Inl (''load default content '' @ men_Ref entry @ '': '' @ err)
      | (None, None) \<Rightarrow> Inl (''load default content '' @ men_Ref entry @ '': no such file'')
      | (None, Some data) \<Rightarrow>
          (case Parse cx data of
             Inl err \<Rightarrow> Inl (''parse default content '' @ men_Ref entry @ '': '' @ err)
           | Inr env \<Rightarrow>
               (case Validate cx trustedKeys env False of
                  Some err \<Rightarrow> Inl (''validate default content '' @ men_Ref entry @ '': '' @ err)
                | None \<Rightarrow>
                    let record = (recordOf cx env ''loaded'' data)\<lparr> rec_Signed := True \<rparr> in
                    if rec_Ref record \<noteq> men_Ref entry \<or> rec_Kind record \<noteq> men_Kind entry \<or> rec_Version record \<noteq> men_Version entry \<or>
                       \<not> EqualFold (rec_Digest record) (men_Digest entry)
                    then Inl (''default content manifest metadata mismatch for '' @ men_Ref entry)
                    else case validateRecordPayload cx record of
                      Some err \<Rightarrow> Inl (''parse default content '' @ men_Ref entry @ '': '' @ err)
                    | None \<Rightarrow> Inr record)))"

fun loadManifestEntries ::
  "contentCodec \<Rightarrow> contentIO \<Rightarrow> (string, string) gomap \<Rightarrow> (string, string) gomap \<Rightarrow> ManifestEntry list \<Rightarrow> (string, Record) gomap \<Rightarrow> string + (string, Record) gomap" where
  "loadManifestEntries cx io trustedKeys files [] records = Inr records"
| "loadManifestEntries cx io trustedKeys files (entry # entries) records =
     (case loadManifestEntry cx io trustedKeys files entry of
        Inl err \<Rightarrow> Inl err
      | Inr record \<Rightarrow>
          if map_of records (rec_Ref record) \<noteq> None then Inl (''duplicate default content ref '' @ rec_Ref record)
          else loadManifestEntries cx io trustedKeys files entries (AList.update (rec_Ref record) record records))"

definition loadDefaultLayer ::
  "contentCodec \<Rightarrow> contentIO \<Rightarrow> string \<Rightarrow> (string, string) gomap \<Rightarrow> (string, string) gomap \<Rightarrow> string + (string, Record) gomap \<times> Manifest" where
  "loadDefaultLayer cx io dir trustedKeys files =
     (if dir = '''' then Inl ''default content directory is required''
      else case (io_readFile io ''content-manifest.json'', map_of files ''content-manifest.json'') of
        (Some err, _) \<Rightarrow> Inl (''read default content manifest: '' @ err)
      | (None, None) \<Rightarrow> Inl ''read default content manifest: no such file''
      | (None, Some data) \<Rightarrow>
          (case cx_manifest cx data of
             Inl err \<Rightarrow> Inl (''decode default content manifest: '' @ err)
           | Inr manifest \<Rightarrow>
               (case validateManifestFiles io files manifest of
                  Some err \<Rightarrow> Inl err
                | None \<Rightarrow> map_sum id (\<lambda>records. (records, manifest)) (loadManifestEntries cx io trustedKeys files (man_Entries manifest) []))))"

fun addDefaults :: "(string \<times> Record) list \<Rightarrow> ContentStore \<Rightarrow> string + ContentStore" where
  "addDefaults [] s = Inr s"
| "addDefaults ((ref, record) # defaults) s =
     (if map_of (cst_records s) ref \<noteq> None then Inl (''content ref conflict between default and user layers: '' @ ref)
      else addDefaults defaults (s\<lparr> cst_records := AList.update ref record (cst_records s), cst_defaultRefs := cst_defaultRefs s @ [ref] \<rparr>))"

definition OpenLayered ::
  "contentCodec \<Rightarrow> contentIO \<Rightarrow> contentIO \<Rightarrow> string \<Rightarrow> (string, string) gomap \<Rightarrow> string \<Rightarrow> (string, string) gomap \<Rightarrow> (string, string) gomap \<Rightarrow> string + ContentStore" where
  "OpenLayered cx defaultIO io defaultDir defaultFiles dir trustedKeys files =
     (case loadDefaultLayer cx defaultIO (TrimSpace defaultDir) trustedKeys defaultFiles of
        Inl err \<Rightarrow> Inl err
      | Inr (defaults, manifest) \<Rightarrow>
          (case NewStoreWithOptions cx io dir trustedKeys files of
             Inl err \<Rightarrow> Inl (''load user content: '' @ err)
           | Inr users \<Rightarrow> map_sum id (\<lambda>s. s\<lparr> cst_manifestVersion := man_Version manifest \<rparr>) (addDefaults (cx_range cx defaults) users)))"

section \<open>Runs of the store\<close>

record contentOp =
  op_io :: contentIO
  op_raw :: string
  op_allowUnsigned :: bool
  op_dryRun :: bool

definition contentStep :: "contentCodec \<Rightarrow> ContentStore \<Rightarrow> contentOp \<Rightarrow> ContentStore" where
  "contentStep cx s op = snd (Store_Apply cx (op_io op) (op_raw op) (op_allowUnsigned op) (op_dryRun op) s)"

definition runContent :: "contentCodec \<Rightarrow> contentOp list \<Rightarrow> ContentStore \<Rightarrow> ContentStore" where
  "runContent cx ops s = foldl (contentStep cx) s ops"

lemma runContent_Nil [simp]: "runContent cx [] s = s"
  by (simp add: runContent_def)

lemma runContent_Cons [simp]: "runContent cx (op # ops) s = runContent cx ops (contentStep cx s op)"
  by (simp add: runContent_def)

text \<open>An envelope carries the signature of a trusted key.\<close>

definition trustedSignature :: "contentCodec \<Rightarrow> (string, string) gomap \<Rightarrow> Envelope \<Rightarrow> bool" where
  "trustedSignature cx trusted env \<longleftrightarrow>
     (\<exists>key sig. map_of trusted (TrimSpace (ig_KeyID (ev_Integrity env))) = Some key \<and> length key = 32 \<and>
        cx_base64 cx (ig_Signature (ev_Integrity env)) = Inr sig \<and> cx_verify cx key (signedBytes cx env) sig)"

definition admitted :: "contentCodec \<Rightarrow> (string, string) gomap \<Rightarrow> string \<Rightarrow> contentOp \<Rightarrow> bool" where
  "admitted cx trusted ref op \<longleftrightarrow>
     (\<exists>env. Parse cx (op_raw op) = Inr env \<and> md_ID (ev_Metadata env) = ref \<and> ev_APIVersion env = ''sysarmor.content/v1'' \<and>
        (if TrimSpace (ig_Signature (ev_Integrity env)) = '''' then op_allowUnsigned op else trustedSignature cx trusted env))"

lemma verifySignature_trusted: "verifySignature cx trusted env = None \<Longrightarrow> trustedSignature cx trusted env"
  by (auto simp: verifySignature_def trustedSignature_def Let_def get_or_def split: if_splits sum.splits option.splits)

lemma if_Some_None: "((if P then Some x else y) = None) = (\<not> P \<and> y = None)"
  by simp

lemma Validate_None:
  "Validate cx trusted env allow = None \<longleftrightarrow>
   ev_APIVersion env = ''sysarmor.content/v1'' \<and> ev_Kind env \<in> set contentKinds \<and> md_ID (ev_Metadata env) \<noteq> '''' \<and> md_Version (ev_Metadata env) \<noteq> '''' \<and>
   ev_Spec env \<noteq> '''' \<and> ev_Spec env \<noteq> ''null'' \<and>
   (ig_Digest (ev_Integrity env) = '''' \<or> firstNonEmptyTrimmed [ig_DigestAlg (ev_Integrity env), ''sha256''] = ''sha256'' \<and>
      EqualFold (ig_Digest (ev_Integrity env)) (signedDigest cx env)) \<and>
   (if TrimSpace (ig_Signature (ev_Integrity env)) = '''' then allow else verifySignature cx trusted env = None)"
  unfolding Validate_def if_Some_None by (auto simp del: firstNonEmptyTrimmed.simps)

lemma Validate_admits:
  "Validate cx trusted env allow = None \<Longrightarrow>
   ev_APIVersion env = ''sysarmor.content/v1'' \<and> (if TrimSpace (ig_Signature (ev_Integrity env)) = '''' then allow else trustedSignature cx trusted env)"
  by (auto simp: Validate_None intro: verifySignature_trusted)

lemma resolvePatch_id: "resolvePatch cx env s = Inr (raw, env') \<Longrightarrow> ev_Metadata env' = ev_Metadata env"
  by (auto simp: resolvePatch_def Let_def split: if_splits sum.splits option.splits)

lemma Store_Prepare_Inr:
  "Store_Prepare cx raw allow s = Inr (record, snapshot) \<longleftrightarrow>
   (\<exists>env raw' env'. Parse cx raw = Inr env \<and> \<not> IsDefaultRef (md_ID (ev_Metadata env)) s \<and> Validate cx (cst_trustedKeys s) env allow = None \<and>
      resolvePatch cx env s = Inr (raw', env') \<and> record = recordOf cx env' ''applied'' raw' \<and> snapshot = SnapshotWith cx record s)"
  by (auto simp: Store_Prepare_def map_sum_Inr Let_def split: sum.splits if_splits option.splits)

lemma Store_Prepare_admitted:
  assumes "Store_Prepare cx (op_raw op) (op_allowUnsigned op) s = Inr (record, snapshot)"
  shows "rec_Ref record \<notin> set (cst_defaultRefs s) \<and> snapshot = SnapshotWith cx record s \<and> admitted cx (cst_trustedKeys s) (rec_Ref record) op"
proof -
  obtain env raw' env' where env: "Parse cx (op_raw op) = Inr env" "\<not> IsDefaultRef (md_ID (ev_Metadata env)) s"
      "Validate cx (cst_trustedKeys s) env (op_allowUnsigned op) = None" "resolvePatch cx env s = Inr (raw', env')"
      "record = recordOf cx env' ''applied'' raw'" "snapshot = SnapshotWith cx record s"
    using assms unfolding Store_Prepare_Inr by blast
  then have "rec_Ref record = md_ID (ev_Metadata env)" using resolvePatch_id by (auto simp: recordOf_def)
  with env Validate_admits [OF env(3)] show ?thesis by (auto simp: admitted_def IsDefaultRef_def)
qed

lemma persistLocked_frame:
  "\<exists>files. snd (persistLocked cx io record s) = s\<lparr> cst_files := files \<rparr>"
proof -
  have "s = s\<lparr> cst_files := cst_files s \<rparr>" by simp
  then have "\<exists>files. s = s\<lparr> cst_files := files \<rparr>" by blast
  then show ?thesis by (auto simp: persistLocked_def Let_def split: option.splits)
qed

text \<open>A commit stores the record, or fails and leaves every record as it was.\<close>

lemma Store_Commit_result:
  "fst (Store_Commit cx io record s) = fst (persistLocked cx io record (s\<lparr> cst_records := AList.update (rec_Ref record) record (cst_records s) \<rparr>)) \<and>
   cst_files (snd (Store_Commit cx io record s)) =
     cst_files (snd (persistLocked cx io record (s\<lparr> cst_records := AList.update (rec_Ref record) record (cst_records s) \<rparr>))) \<and>
   cst_dir (snd (Store_Commit cx io record s)) = cst_dir s \<and> cst_trustedKeys (snd (Store_Commit cx io record s)) = cst_trustedKeys s \<and>
   cst_defaultRefs (snd (Store_Commit cx io record s)) = cst_defaultRefs s \<and>
   cst_manifestVersion (snd (Store_Commit cx io record s)) = cst_manifestVersion s \<and>
   map_of (cst_records (snd (Store_Commit cx io record s))) =
     (if fst (Store_Commit cx io record s) = None then (map_of (cst_records s))(rec_Ref record \<mapsto> record) else map_of (cst_records s))"
proof -
  let ?s = "s\<lparr> cst_records := AList.update (rec_Ref record) record (cst_records s) \<rparr>"
  obtain files where f: "snd (persistLocked cx io record ?s) = ?s\<lparr> cst_files := files \<rparr>" using persistLocked_frame by blast
  show ?thesis
  proof (cases "fst (persistLocked cx io record ?s)")
    case None
    then show ?thesis using f by (auto simp: Store_Commit_def split_beta Let_def)
  next
    case (Some e)
    then show ?thesis using f by (auto simp: Store_Commit_def split_beta Let_def split: option.splits)
  qed
qed

text \<open>What a step does: nothing to the records, or one record is stored that the step admitted.\<close>

lemma contentStep_cases:
  "cst_dir (contentStep cx s op) = cst_dir s \<and> cst_trustedKeys (contentStep cx s op) = cst_trustedKeys s \<and>
   cst_defaultRefs (contentStep cx s op) = cst_defaultRefs s \<and>
   (map_of (cst_records (contentStep cx s op)) = map_of (cst_records s) \<or>
    (\<exists>record. map_of (cst_records (contentStep cx s op)) = (map_of (cst_records s))(rec_Ref record \<mapsto> record) \<and>
       rec_Ref record \<notin> set (cst_defaultRefs s) \<and> admitted cx (cst_trustedKeys s) (rec_Ref record) op))"
proof (cases "Store_Prepare cx (op_raw op) (op_allowUnsigned op) s")
  case (Inl err)
  then show ?thesis by (simp add: contentStep_def Store_Apply_def)
next
  case (Inr r)
  obtain rc snapshot where r: "r = (rc, snapshot)" by (cases r)
  have a: "rec_Ref rc \<notin> set (cst_defaultRefs s)" "admitted cx (cst_trustedKeys s) (rec_Ref rc) op"
    using Store_Prepare_admitted [OF Inr [unfolded r]] by simp_all
  have c: "contentStep cx s op = (if op_dryRun op then s else snd (Store_Commit cx (op_io op) rc s))"
    using Inr r by (auto simp: contentStep_def Store_Apply_def split: prod.splits option.splits)
  show ?thesis using c a Store_Commit_result [of cx "op_io op" rc s] by (auto split: if_splits)
qed

lemma runContent_admitted:
  "map_of (cst_records (runContent cx ops s)) ref = Some r \<Longrightarrow>
   map_of (cst_records s) ref = Some r \<or> ref \<notin> set (cst_defaultRefs s) \<and> (\<exists>op \<in> set ops. admitted cx (cst_trustedKeys s) ref op)"
proof (induction ops arbitrary: s)
  case (Cons op ops)
  let ?s = "contentStep cx s op"
  have "map_of (cst_records ?s) ref = Some r \<or> ref \<notin> set (cst_defaultRefs ?s) \<and> (\<exists>op \<in> set ops. admitted cx (cst_trustedKeys ?s) ref op)"
    using Cons by simp
  then show ?case using contentStep_cases [of cx s op] by (auto split: if_splits)
qed simp

text \<open>The records of the default layer are never touched.\<close>

lemma runContent_default:
  "ref \<in> set (cst_defaultRefs s) \<Longrightarrow> map_of (cst_records (runContent cx ops s)) ref = map_of (cst_records s) ref"
proof (induction ops arbitrary: s)
  case (Cons op ops)
  then show ?case using contentStep_cases [of cx s op] by (auto split: if_splits)
qed simp

text \<open>
  C3. Only trusted content gets into the store: whatever is applied, with whatever failures of the file system, the records of the
  default layer stay as they are, and any other record was there at the start or comes from an application whose envelope has its
  identifier and carries a signature that a trusted Ed25519 key verifies over its signed bytes, or carries none
  and was applied with unsigned content allowed.
\<close>

theorem content_is_admitted:
  assumes "map_of (cst_records (runContent cx ops s)) ref = Some r"
  shows "(ref \<in> set (cst_defaultRefs s) \<longrightarrow> map_of (cst_records s) ref = Some r) \<and>
    (map_of (cst_records s) ref = Some r \<or>
     (\<exists>op \<in> set ops. \<exists>env. Parse cx (op_raw op) = Inr env \<and> md_ID (ev_Metadata env) = ref \<and>
        (if TrimSpace (ig_Signature (ev_Integrity env)) = '''' then op_allowUnsigned op
         else \<exists>key sig. map_of (cst_trustedKeys s) (TrimSpace (ig_KeyID (ev_Integrity env))) = Some key \<and> length key = 32 \<and>
                cx_base64 cx (ig_Signature (ev_Integrity env)) = Inr sig \<and> cx_verify cx key (signedBytes cx env) sig)))"
  using runContent_admitted [OF assms] runContent_default [of ref s cx ops] assms
  unfolding admitted_def trustedSignature_def by (auto split: if_splits)

section \<open>Restarting\<close>

text \<open>
  What the store relies on of the codecs. \<open>wfe\<close> are the envelopes the JSON package can write, and \<open>compact\<close> is what writing does to a raw message.
\<close>

definition trimmedEnvelope :: "Envelope \<Rightarrow> Envelope" where
  "trimmedEnvelope env = env\<lparr> ev_Kind := TrimSpace (ev_Kind env),
     ev_Metadata := (ev_Metadata env)\<lparr> md_ID := TrimSpace (md_ID (ev_Metadata env)), md_Version := TrimSpace (md_Version (ev_Metadata env)) \<rparr> \<rparr>"

definition contentCodec_ok :: "contentCodec \<Rightarrow> (Envelope \<Rightarrow> bool) \<Rightarrow> (string \<Rightarrow> string) \<Rightarrow> bool" where
  "contentCodec_ok cx wfe compact \<longleftrightarrow>
     (\<forall>raw env. cx_envelope cx raw = Inr env \<longrightarrow> wfe env) \<and>
     (\<forall>env. wfe env \<longrightarrow> wfe (trimmedEnvelope env)) \<and>
     (\<forall>env valueType strategy vs. wfe env \<longrightarrow> wfe (env\<lparr> ev_Spec := cx_marshalValues cx valueType strategy vs, ev_Integrity := Integrity_zero \<rparr>)) \<and>
     (\<forall>env. wfe env \<longrightarrow> cx_envelope cx (cx_marshalEnvelope cx env) = Inr (env\<lparr> ev_Spec := compact (ev_Spec env) \<rparr>)) \<and>
     (\<forall>env. wfe env \<longrightarrow> cx_marshalEnvelope cx env \<noteq> '''') \<and>
     (\<forall>env admission. wfe env \<longrightarrow> cx_persisted cx (cx_marshalPersisted cx \<lparr> pr_Admission = Some admission, pr_Content = cx_marshalEnvelope cx env \<rparr>) =
        Inr \<lparr> pr_Admission = Some admission, pr_Content = cx_marshalEnvelope cx env \<rparr>) \<and>
     (\<forall>env. wfe env \<longrightarrow> (\<exists>content. cx_persisted cx (cx_marshalEnvelope cx env) = Inr \<lparr> pr_Admission = None, pr_Content = content \<rparr>)) \<and>
     (\<forall>valueType strategy vs. cx_marshalValues cx valueType strategy vs \<noteq> '''' \<and> cx_marshalValues cx valueType strategy vs \<noteq> ''null'') \<and>
     (\<forall>spec. spec \<noteq> '''' \<longrightarrow> spec \<noteq> ''null'' \<longrightarrow> compact spec \<noteq> '''' \<and> compact spec \<noteq> ''null'') \<and>
     (\<forall>api kind meta spec. cx_signedBytes cx api kind meta (compact spec) = cx_signedBytes cx api kind meta spec)"

lemma codec_laws:
  assumes "contentCodec_ok cx wfe compact"
  shows "cx_envelope cx raw = Inr env \<Longrightarrow> wfe env" and "wfe env \<Longrightarrow> wfe (trimmedEnvelope env)"
    and "wfe env \<Longrightarrow> wfe (env\<lparr> ev_Spec := cx_marshalValues cx valueType strategy vs, ev_Integrity := Integrity_zero \<rparr>)"
    and "wfe env \<Longrightarrow> cx_envelope cx (cx_marshalEnvelope cx env) = Inr (env\<lparr> ev_Spec := compact (ev_Spec env) \<rparr>)"
    and "wfe env \<Longrightarrow> cx_marshalEnvelope cx env \<noteq> ''''"
    and "wfe env \<Longrightarrow> cx_persisted cx (cx_marshalPersisted cx \<lparr> pr_Admission = Some admission, pr_Content = cx_marshalEnvelope cx env \<rparr>) =
        Inr \<lparr> pr_Admission = Some admission, pr_Content = cx_marshalEnvelope cx env \<rparr>"
    and "wfe env \<Longrightarrow> \<exists>content. cx_persisted cx (cx_marshalEnvelope cx env) = Inr \<lparr> pr_Admission = None, pr_Content = content \<rparr>"
    and "cx_marshalValues cx valueType strategy vs \<noteq> '''' \<and> cx_marshalValues cx valueType strategy vs \<noteq> ''null''"
    and "spec \<noteq> '''' \<Longrightarrow> spec \<noteq> ''null'' \<Longrightarrow> compact spec \<noteq> '''' \<and> compact spec \<noteq> ''null''"
    and "cx_signedBytes cx api kind meta (compact spec) = cx_signedBytes cx api kind meta spec"
  using assms unfolding contentCodec_ok_def by simp_all

lemma Parse_trimmed: "Parse cx raw = (case cx_envelope cx raw of Inl err \<Rightarrow> Inl (''decode content envelope: '' @ err) | Inr env \<Rightarrow> Inr (trimmedEnvelope env))"
  by (simp add: Parse_def trimmedEnvelope_def split: sum.splits)

lemma trimmedEnvelope_idem [simp]: "trimmedEnvelope (trimmedEnvelope env) = trimmedEnvelope env"
  by (simp add: trimmedEnvelope_def)

lemma trimmedEnvelope_iff:
  "trimmedEnvelope env = env \<longleftrightarrow>
   TrimSpace (ev_Kind env) = ev_Kind env \<and> TrimSpace (md_ID (ev_Metadata env)) = md_ID (ev_Metadata env) \<and>
   TrimSpace (md_Version (ev_Metadata env)) = md_Version (ev_Metadata env)"
  by (cases env, cases "ev_Metadata env") (auto simp: trimmedEnvelope_def)

lemma trimmedEnvelope_spec: "trimmedEnvelope (env\<lparr> ev_Spec := spec \<rparr>) = (trimmedEnvelope env)\<lparr> ev_Spec := spec \<rparr>"
  by (simp add: trimmedEnvelope_def)

text \<open>How the store keeps a record: it is the one of a written, trimmed envelope that is valid on its own.\<close>

definition storedFrom :: "contentCodec \<Rightarrow> (Envelope \<Rightarrow> bool) \<Rightarrow> (string, string) gomap \<Rightarrow> Record \<Rightarrow> Envelope \<Rightarrow> bool" where
  "storedFrom cx wfe trusted r env \<longleftrightarrow>
     wfe env \<and> trimmedEnvelope env = env \<and> r = recordOf cx env ''applied'' (cx_marshalEnvelope cx env) \<and>
     Validate cx trusted env (\<not> rec_Signed r) = None"

lemma Validate_allow: "Validate cx trusted env allow = None \<Longrightarrow> Validate cx trusted env (TrimSpace (ig_Signature (ev_Integrity env)) = '''') = None"
  by (simp add: Validate_None)

lemma Store_Prepare_storedFrom:
  assumes ok: "contentCodec_ok cx wfe compact" and p: "Store_Prepare cx raw allow s = Inr (record, snapshot)"
  shows "\<exists>env. storedFrom cx wfe (cst_trustedKeys s) record env"
proof -
  obtain env raw' env' where env: "Parse cx raw = Inr env" "Validate cx (cst_trustedKeys s) env allow = None"
      "resolvePatch cx env s = Inr (raw', env')" "record = recordOf cx env' ''applied'' raw'"
    using p unfolding Store_Prepare_Inr by blast
  have wfe: "wfe env" "trimmedEnvelope env = env"
    using env(1) codec_laws(1,2) [OF ok] by (auto simp: Parse_trimmed split: sum.splits)
  consider "env' = env" "raw' = cx_marshalEnvelope cx env"
    | valueType vs where "env' = env\<lparr> ev_Spec := cx_marshalValues cx valueType ''replace'' vs, ev_Integrity := Integrity_zero \<rparr>"
        "raw' = cx_marshalEnvelope cx env'"
    using env(3) by (auto simp: resolvePatch_def Let_def split: if_splits sum.splits option.splits)
  then show ?thesis
  proof cases
    case 1
    then have "Validate cx (cst_trustedKeys s) env (\<not> rec_Signed record) = None" using Validate_allow [OF env(2)] env(4) by (simp add: recordOf_def)
    then show ?thesis using 1 wfe env(4) by (auto simp: storedFrom_def)
  next
    case 2
    have w: "wfe env'" using codec_laws(3) [OF ok wfe(1)] by (simp add: 2(1))
    have t: "trimmedEnvelope env' = env'" using wfe(2) by (simp add: trimmedEnvelope_iff 2(1))
    have "cx_marshalValues cx valueType ''replace'' vs \<noteq> '''' \<and> cx_marshalValues cx valueType ''replace'' vs \<noteq> ''null''" by (rule codec_laws(8) [OF ok])
    then have "Validate cx (cst_trustedKeys s) env' True = None"
      using env(2) by (simp add: Validate_None 2(1) Integrity_zero_def)
    moreover have "\<not> rec_Signed record" by (simp add: env(4) recordOf_def 2(1) Integrity_zero_def)
    ultimately show ?thesis using w t env(4) 2(2) by (auto simp: storedFrom_def)
  qed
qed

text \<open>Reading back the file of a stored record.\<close>

lemma Validate_compact:
  assumes "contentCodec_ok cx wfe compact" and "Validate cx trusted env allow = None"
  shows "Validate cx trusted (env\<lparr> ev_Spec := compact (ev_Spec env) \<rparr>) allow = None"
proof -
  have b: "signedBytes cx (env\<lparr> ev_Spec := compact (ev_Spec env) \<rparr>) = signedBytes cx env"
    using codec_laws(10) [OF assms(1)] by (simp add: signedBytes_def)
  then have d: "signedDigest cx (env\<lparr> ev_Spec := compact (ev_Spec env) \<rparr>) = signedDigest cx env" by (simp add: signedDigest_def)
  have v: "verifySignature cx trusted (env\<lparr> ev_Spec := compact (ev_Spec env) \<rparr>) = verifySignature cx trusted env"
    by (auto simp: verifySignature_def b Let_def split: sum.splits)
  have "compact (ev_Spec env) \<noteq> '''' \<and> compact (ev_Spec env) \<noteq> ''null''"
    using codec_laws(9) [OF assms(1), of "ev_Spec env"] assms(2) by (simp add: Validate_None)
  then show ?thesis using assms(2) by (simp add: Validate_None d v)
qed

lemma loadFile_stored:
  assumes ok: "contentCodec_ok cx wfe compact" and r: "storedFrom cx wfe trusted r env"
  shows "loadFile cx trusted (fileData cx r) = Inr (r\<lparr> rec_Status := ''loaded'' \<rparr>)"
proof -
  let ?raw = "cx_marshalEnvelope cx env" and ?env = "env\<lparr> ev_Spec := compact (ev_Spec env) \<rparr>"
  have env: "wfe env" "trimmedEnvelope env = env" "r = recordOf cx env ''applied'' ?raw" "Validate cx trusted env (\<not> rec_Signed r) = None"
    using r by (auto simp: storedFrom_def)
  have parse: "Parse cx ?raw = Inr ?env"
    using codec_laws(4) [OF ok env(1)] env(2) by (simp add: Parse_trimmed trimmedEnvelope_spec)
  have d: "signedDigest cx ?env = signedDigest cx env" using codec_laws(10) [OF ok] by (simp add: signedDigest_def signedBytes_def)
  have rec: "recordOf cx ?env ''loaded'' ?raw = r\<lparr> rec_Status := ''loaded'' \<rparr>" using d env(3) by (simp add: recordOf_def)
  have valid: "Validate cx trusted ?env (\<not> rec_Signed r) = None" using Validate_compact [OF ok env(4)] .
  show ?thesis
  proof (cases "rec_Signed r")
    case True
    obtain content where "cx_persisted cx ?raw = Inr \<lparr> pr_Admission = None, pr_Content = content \<rparr>" using codec_laws(7) [OF ok env(1)] by blast
    moreover have "fileData cx r = ?raw" using True env(3) by (simp add: fileData_def recordOf_def)
    ultimately show ?thesis using parse valid True rec by (simp add: loadFile_def decodePersistedContent_def)
  next
    case False
    let ?p = "\<lparr> pr_Admission = Some \<lparr> ua_AllowUnsigned = True, ua_Digest = rec_Digest r \<rparr>, pr_Content = ?raw \<rparr>"
    have f: "fileData cx r = cx_marshalPersisted cx ?p" using False env(3) by (simp add: fileData_def recordOf_def)
    have p: "cx_persisted cx (fileData cx r) = Inr ?p" unfolding f by (rule codec_laws(6) [OF ok env(1)])
    have "?raw \<noteq> ''''" by (rule codec_laws(5) [OF ok env(1)])
    moreover have "EqualFold (rec_Digest r) (signedDigest cx ?env)" using env(3) d by (simp add: EqualFold_def recordOf_def)
    ultimately show ?thesis using parse valid False rec p by (simp add: loadFile_def decodePersistedContent_def persistedDigest_def)
  qed
qed

definition fileName :: "string \<Rightarrow> string" where
  "fileName ref = safeName ref @ ''.json''"

lemma HasSuffix_json [simp]: "HasSuffix (fileName ref) ''.json''" "\<not> HasSuffix (fileName ref @ ''.tmp'') ''.json''"
  by (simp_all add: fileName_def HasSuffix_def)

lemma fileName_tmp [simp]: "fileName ref \<noteq> fileName ref' @ ''.tmp''"
  by (metis HasSuffix_json)

lemma fileName_inj: "fileName ref = fileName ref' \<longleftrightarrow> safeName ref = safeName ref'"
  by (simp add: fileName_def)

text \<open>The directory of a store that started empty: every record has its file, and every content file holds a record of the store.\<close>

definition storeOk :: "contentCodec \<Rightarrow> (Envelope \<Rightarrow> bool) \<Rightarrow> ContentStore \<Rightarrow> bool" where
  "storeOk cx wfe s \<longleftrightarrow>
     TrimSpace (cst_dir s) \<noteq> '''' \<and> wf_map (cst_files s) \<and>
     (\<forall>ref r. map_of (cst_records s) ref = Some r \<longrightarrow>
        rec_Ref r = ref \<and> (\<exists>env. storedFrom cx wfe (cst_trustedKeys s) r env) \<and> map_of (cst_files s) (fileName ref) \<noteq> None) \<and>
     (\<forall>name data. map_of (cst_files s) name = Some data \<longrightarrow> HasSuffix name ''.json'' \<longrightarrow>
        (\<exists>r. map_of (cst_records s) (rec_Ref r) = Some r \<and> name = fileName (rec_Ref r) \<and> data = fileData cx r))"

lemma storeOk_record:
  "storeOk cx wfe s \<Longrightarrow> map_of (cst_records s) ref = Some r \<Longrightarrow>
   rec_Ref r = ref \<and> (\<exists>env. storedFrom cx wfe (cst_trustedKeys s) r env) \<and> (\<exists>data. map_of (cst_files s) (fileName ref) = Some data)"
  by (simp add: storeOk_def)

lemma storeOk_file:
  "storeOk cx wfe s \<Longrightarrow> map_of (cst_files s) name = Some data \<Longrightarrow> HasSuffix name ''.json'' \<Longrightarrow>
   \<exists>r. map_of (cst_records s) (rec_Ref r) = Some r \<and> name = fileName (rec_Ref r) \<and> data = fileData cx r"
  by (simp add: storeOk_def)

lemma storeOk_dir: "storeOk cx wfe s \<Longrightarrow> TrimSpace (cst_dir s) \<noteq> '''' \<and> wf_map (cst_files s)"
  by (simp add: storeOk_def)

lemma storeOkI:
  assumes "TrimSpace (cst_dir s) \<noteq> ''''" "wf_map (cst_files s)"
    and "\<And>ref r. map_of (cst_records s) ref = Some r \<Longrightarrow>
        rec_Ref r = ref \<and> (\<exists>env. storedFrom cx wfe (cst_trustedKeys s) r env) \<and> (\<exists>data. map_of (cst_files s) (fileName ref) = Some data)"
    and "\<And>name data. map_of (cst_files s) name = Some data \<Longrightarrow> HasSuffix name ''.json'' \<Longrightarrow>
        \<exists>r. map_of (cst_records s) (rec_Ref r) = Some r \<and> name = fileName (rec_Ref r) \<and> data = fileData cx r"
  shows "storeOk cx wfe s"
  using assms by (simp add: storeOk_def)

lemma persistLocked_cases:
  assumes "TrimSpace (cst_dir s) \<noteq> ''''"
  shows "(fst (persistLocked cx io record s) = None \<and>
      map_of (cst_files (snd (persistLocked cx io record s))) =
        (map_of (cst_files s))(fileName (rec_Ref record) @ ''.tmp'' := None, fileName (rec_Ref record) \<mapsto> fileData cx record)) \<or>
    (fst (persistLocked cx io record s) \<noteq> None \<and>
      (\<exists>partial. map_of (cst_files (snd (persistLocked cx io record s))) = (map_of (cst_files s))(fileName (rec_Ref record) @ ''.tmp'' := partial)))"
proof -
  have "map_of (cst_files s) = (map_of (cst_files s))(fileName (rec_Ref record) @ ''.tmp'' := map_of (cst_files s) (fileName (rec_Ref record) @ ''.tmp''))"
    by simp
  then show ?thesis using assms
    by (auto simp: persistLocked_def fileName_def [symmetric] Let_def fun_eq_iff update_conv AList.delete_conv split: option.splits)
qed

lemma persistLocked_wf: "wf_map (cst_files s) \<Longrightarrow> wf_map (cst_files (snd (persistLocked cx io record s)))"
  by (auto simp: persistLocked_def Let_def split: option.splits)

lemma Store_Commit_storeOk:
  assumes ok: "storeOk cx wfe s" and env: "\<exists>env. storedFrom cx wfe (cst_trustedKeys s) record env"
  shows "storeOk cx wfe (snd (Store_Commit cx io record s))"
proof -
  let ?s = "snd (Store_Commit cx io record s)" and ?p = "s\<lparr> cst_records := AList.update (rec_Ref record) record (cst_records s) \<rparr>"
  let ?name = "fileName (rec_Ref record)"
  have dir: "TrimSpace (cst_dir ?p) \<noteq> ''''" using storeOk_dir [OF ok] by simp
  have same: "cst_dir ?s = cst_dir s" "cst_trustedKeys ?s = cst_trustedKeys s"
    and f: "cst_files ?s = cst_files (snd (persistLocked cx io record ?p))"
    and e: "fst (Store_Commit cx io record s) = fst (persistLocked cx io record ?p)"
    and m: "map_of (cst_records ?s) = (if fst (Store_Commit cx io record s) = None then (map_of (cst_records s))(rec_Ref record \<mapsto> record) else map_of (cst_records s))"
    using Store_Commit_result [of cx io "record" s] by simp_all
  have files: "wf_map (cst_files ?s)" unfolding f by (rule persistLocked_wf) (use storeOk_dir [OF ok] in simp)
  show ?thesis
  proof (cases "fst (persistLocked cx io record ?p)")
    case None
    then have m: "map_of (cst_records ?s) = (map_of (cst_records s))(rec_Ref record \<mapsto> record)"
      and f: "map_of (cst_files ?s) = (map_of (cst_files s))(?name @ ''.tmp'' := None, ?name \<mapsto> fileData cx record)"
      using m e f persistLocked_cases [OF dir, of cx io "record"] by simp_all
    show ?thesis
    proof (rule storeOkI)
      fix ref r assume "map_of (cst_records ?s) ref = Some r"
      then consider "ref = rec_Ref record" "r = record" | "ref \<noteq> rec_Ref record" "map_of (cst_records s) ref = Some r" by (auto simp: m split: if_splits)
      then show "rec_Ref r = ref \<and> (\<exists>env. storedFrom cx wfe (cst_trustedKeys ?s) r env) \<and> (\<exists>data. map_of (cst_files ?s) (fileName ref) = Some data)"
        by cases (use env in \<open>simp add: same f\<close>, use storeOk_record [OF ok] in \<open>simp add: same f\<close>)
    next
      fix name data assume a: "map_of (cst_files ?s) name = Some data" "HasSuffix name ''.json''"
      show "\<exists>r. map_of (cst_records ?s) (rec_Ref r) = Some r \<and> name = fileName (rec_Ref r) \<and> data = fileData cx r"
      proof (cases "name = ?name")
        case True
        with a(1) have "data = fileData cx record" by (simp add: f)
        with True show ?thesis by (intro exI [of _ "record"]) (simp add: m)
      next
        case False
        with a f have "map_of (cst_files s) name = Some data" by (simp split: if_splits)
        then obtain r where "map_of (cst_records s) (rec_Ref r) = Some r" "name = fileName (rec_Ref r)" "data = fileData cx r"
          using storeOk_file [OF ok _ a(2)] by blast
        with False show ?thesis by (intro exI [of _ r]) (auto simp: m)
      qed
    qed (use dir same files in simp_all)
  next
    case (Some x)
    then obtain partial where m: "map_of (cst_records ?s) = map_of (cst_records s)"
      and f: "map_of (cst_files ?s) = (map_of (cst_files s))(?name @ ''.tmp'' := partial)"
      using m e f persistLocked_cases [OF dir, of cx io "record"] by auto
    show ?thesis
    proof (rule storeOkI)
      fix ref r assume "map_of (cst_records ?s) ref = Some r"
      then show "rec_Ref r = ref \<and> (\<exists>env. storedFrom cx wfe (cst_trustedKeys ?s) r env) \<and> (\<exists>data. map_of (cst_files ?s) (fileName ref) = Some data)"
        using storeOk_record [OF ok] by (simp add: m f same)
    next
      fix name data assume a: "map_of (cst_files ?s) name = Some data" "HasSuffix name ''.json''"
      then have "map_of (cst_files s) name = Some data" by (auto simp: f split: if_splits)
      then show "\<exists>r. map_of (cst_records ?s) (rec_Ref r) = Some r \<and> name = fileName (rec_Ref r) \<and> data = fileData cx r"
        using storeOk_file [OF ok _ a(2)] by (simp add: m)
    qed (use dir same files in simp_all)
  qed
qed

lemma runContent_storeOk: "contentCodec_ok cx wfe compact \<Longrightarrow> storeOk cx wfe s \<Longrightarrow> storeOk cx wfe (runContent cx ops s)"
proof (induction ops arbitrary: s)
  case (Cons op ops)
  have "storeOk cx wfe (contentStep cx s op)"
  proof (cases "Store_Prepare cx (op_raw op) (op_allowUnsigned op) s")
    case (Inl err)
    then show ?thesis using Cons.prems by (simp add: contentStep_def Store_Apply_def)
  next
    case (Inr r)
    obtain rc snapshot where r: "r = (rc, snapshot)" by (cases r)
    have "contentStep cx s op = (if op_dryRun op then s else snd (Store_Commit cx (op_io op) rc s))"
      using Inr r by (auto simp: contentStep_def Store_Apply_def split: prod.splits option.splits)
    then show ?thesis using Cons.prems(2) Store_Commit_storeOk Store_Prepare_storedFrom [OF Cons.prems(1) Inr [unfolded r]] by simp
  qed
  then show ?case using Cons by simp
qed simp

lemma loadEntries_result:
  assumes "\<And>name. name \<in> set names \<Longrightarrow> HasSuffix name ''.json'' \<Longrightarrow>
      io_readFile io name = None \<and> loadFile cx trusted (get_or '''' files name) = Inr (R name) \<and> validateRecordPayload cx (R name) = None"
    and "distinct names" and "inj_on (\<lambda>name. rec_Ref (R name)) {name \<in> set names. HasSuffix name ''.json''}"
    and "\<And>name. name \<in> set names \<Longrightarrow> HasSuffix name ''.json'' \<Longrightarrow> map_of acc (rec_Ref (R name)) = None"
  shows "\<exists>records. loadEntries cx io trusted files names acc = Inr records \<and>
    (\<forall>name \<in> set names. HasSuffix name ''.json'' \<longrightarrow> map_of records (rec_Ref (R name)) = Some (R name)) \<and>
    (\<forall>ref. (\<forall>name \<in> set names. HasSuffix name ''.json'' \<longrightarrow> rec_Ref (R name) \<noteq> ref) \<longrightarrow> map_of records ref = map_of acc ref)"
  using assms
proof (induction names arbitrary: acc)
  case (Cons name names)
  have inj: "inj_on (\<lambda>name. rec_Ref (R name)) {name \<in> set names. HasSuffix name ''.json''}"
    using Cons.prems(3) by (rule inj_on_subset) auto
  show ?case
  proof (cases "HasSuffix name ''.json''")
    case False
    then show ?thesis using Cons.IH [of acc] Cons.prems inj by auto
  next
    case True
    let ?acc = "AList.update (rec_Ref (R name)) (R name) acc"
    have other: "rec_Ref (R n) \<noteq> rec_Ref (R name)" if "n \<in> set names" "HasSuffix n ''.json''" for n
      using Cons.prems(2,3) that True by (auto simp: inj_on_def)
    then have "map_of ?acc (rec_Ref (R n)) = None" if "n \<in> set names" "HasSuffix n ''.json''" for n using Cons.prems(4) that by simp
    then obtain records where rs: "loadEntries cx io trusted files names ?acc = Inr records"
        "\<forall>n \<in> set names. HasSuffix n ''.json'' \<longrightarrow> map_of records (rec_Ref (R n)) = Some (R n)"
        "\<forall>ref. (\<forall>n \<in> set names. HasSuffix n ''.json'' \<longrightarrow> rec_Ref (R n) \<noteq> ref) \<longrightarrow> map_of records ref = map_of ?acc ref"
      using Cons.IH [of ?acc] Cons.prems(1,2) inj by auto
    have "loadEntries cx io trusted files (name # names) acc = Inr records"
      using True Cons.prems(1) [of name] Cons.prems(4) [of name] rs(1) by simp
    moreover have "map_of records (rec_Ref (R name)) = Some (R name)" using rs(3) other by auto
    ultimately show ?thesis using rs True by auto
  qed
qed simp

lemma validateRecordPayload_status [simp]: "validateRecordPayload cx (r\<lparr> rec_Status := status \<rparr>) = validateRecordPayload cx r"
  by (auto simp: validateRecordPayload_def parseRulePack_def parseValueSet_def split: sum.splits)

lemma in_dir: "name \<in> set (keys m) \<longleftrightarrow> (\<exists>data. map_of m name = Some data)"
  using map_of_eq_None_iff [of m name] by auto

lemma Store_Load_result:
  assumes codec: "contentCodec_ok cx wfe compact" and ok: "storeOk cx wfe s" and io: "io_readDir io = None" "\<And>name. io_readFile io name = None"
    and names: "inj_on safeName (dom (map_of (cst_records s)))"
    and payload: "\<And>ref r. map_of (cst_records s) ref = Some r \<Longrightarrow> validateRecordPayload cx r = None"
  shows "\<exists>records. Store_Load cx io s = (None, s\<lparr> cst_records := records \<rparr>) \<and>
    (\<forall>ref. map_of records ref = map_option (\<lambda>r. r\<lparr> rec_Status := ''loaded'' \<rparr>) (map_of (cst_records s) ref))"
proof -
  let ?files = "cst_files s" and ?loaded = "\<lambda>r. r\<lparr> rec_Status := ''loaded'' \<rparr>"
  have "\<exists>r. map_of (cst_records s) (rec_Ref r) = Some r \<and> name = fileName (rec_Ref r) \<and> get_or '''' ?files name = fileData cx r"
    if name: "name \<in> set (keys ?files)" "HasSuffix name ''.json''" for name
  proof -
    obtain data where data: "map_of ?files name = Some data" using in_dir [of name ?files] name(1) by auto
    then show ?thesis using storeOk_file [OF ok data name(2)] by (simp add: get_or_def)
  qed
  then obtain R where R: "\<And>name. name \<in> set (keys ?files) \<Longrightarrow> HasSuffix name ''.json'' \<Longrightarrow>
      map_of (cst_records s) (rec_Ref (R name)) = Some (R name) \<and> name = fileName (rec_Ref (R name)) \<and> get_or '''' ?files name = fileData cx (R name)"
    by metis
  have load: "io_readFile io name = None \<and> loadFile cx (cst_trustedKeys s) (get_or '''' ?files name) = Inr (?loaded (R name)) \<and>
      validateRecordPayload cx (?loaded (R name)) = None" if "name \<in> set (keys ?files)" "HasSuffix name ''.json''" for name
  proof -
    note r = R [OF that]
    obtain env where "storedFrom cx wfe (cst_trustedKeys s) (R name) env" using storeOk_record [OF ok conjunct1 [OF r]] by blast
    then have "loadFile cx (cst_trustedKeys s) (fileData cx (R name)) = Inr (?loaded (R name))" by (rule loadFile_stored [OF codec])
    with r payload [OF conjunct1 [OF r]] io(2) show ?thesis by simp
  qed
  have inj0: "inj_on (\<lambda>name. rec_Ref (?loaded (R name))) {name \<in> set (keys ?files). HasSuffix name ''.json''}"
  proof (rule inj_onI)
    fix x y assume a: "x \<in> {name \<in> set (keys ?files). HasSuffix name ''.json''}" "y \<in> {name \<in> set (keys ?files). HasSuffix name ''.json''}"
      "rec_Ref (?loaded (R x)) = rec_Ref (?loaded (R y))"
    have "x = fileName (rec_Ref (R x))" using R [of x] a(1) by blast
    also have "\<dots> = fileName (rec_Ref (R y))" using a(3) by simp
    finally have x: "x = fileName (rec_Ref (R y))" .
    have "y = fileName (rec_Ref (R y))" using R [of y] a(2) by blast
    with x show "x = y" by (rule trans [OF _ sym])
  qed
  then have inj: "inj_on (\<lambda>name. rec_Ref (?loaded (R name))) {name \<in> set (sort (keys ?files)). HasSuffix name ''.json''}" by simp
  have "distinct (sort (keys ?files))" using storeOk_dir [OF ok] by (simp add: wf_map_def)
  then obtain records where rs: "loadEntries cx io (cst_trustedKeys s) ?files (sort (keys ?files)) [] = Inr records"
      "\<forall>name \<in> set (keys ?files). HasSuffix name ''.json'' \<longrightarrow> map_of records (rec_Ref (R name)) = Some (?loaded (R name))"
      "\<forall>ref. (\<forall>name \<in> set (keys ?files). HasSuffix name ''.json'' \<longrightarrow> rec_Ref (R name) \<noteq> ref) \<longrightarrow> map_of records ref = None"
    using loadEntries_result [of "sort (keys ?files)" io cx "cst_trustedKeys s" ?files "\<lambda>name. ?loaded (R name)" "[]", OF _ _ inj] load by auto
  have "map_of records ref = map_option ?loaded (map_of (cst_records s) ref)" for ref
  proof (cases "map_of (cst_records s) ref")
    case None
    then have "\<forall>name \<in> set (keys ?files). HasSuffix name ''.json'' \<longrightarrow> rec_Ref (R name) \<noteq> ref" using R by force
    then show ?thesis using rs(3) None by simp
  next
    case (Some r)
    then have f: "fileName ref \<in> set (keys ?files)" using storeOk_record [OF ok Some] in_dir [of "fileName ref" ?files] by simp
    let ?R = "R (fileName ref)"
    have r1: "map_of (cst_records s) (rec_Ref ?R) = Some ?R" and r2: "fileName ref = fileName (rec_Ref ?R)"
      using R [OF f HasSuffix_json(1)] by blast+
    have ref: "rec_Ref ?R = ref"
    proof (rule inj_onD [OF names])
      show "safeName (rec_Ref ?R) = safeName ref" using r2 unfolding fileName_inj by (rule sym)
      show "rec_Ref ?R \<in> dom (map_of (cst_records s))" using r1 by blast
      show "ref \<in> dom (map_of (cst_records s))" using Some by blast
    qed
    then have "?R = r" using r1 Some by simp
    moreover have "map_of records (rec_Ref ?R) = Some (?loaded ?R)" using rs(2) f HasSuffix_json(1) by blast
    ultimately show ?thesis using ref Some by simp
  qed
  then have "\<forall>ref. map_of records ref = map_option ?loaded (map_of (cst_records s) ref)" by blast
  moreover have "Store_Load cx io s = (None, s\<lparr> cst_records := records \<rparr>)"
    using rs(1) io(1) storeOk_dir [OF ok] by (simp add: Store_Load_def)
  ultimately show ?thesis by blast
qed

text \<open>
  C12. Content survives a restart: start with an empty directory and apply any contents, with any failures of writing and renaming on
  the way. If no two identifiers of the records share a file name and the payloads of the records can be parsed, loading the
  directory again succeeds and gives exactly the records the store had, with their kinds, versions, digests, signedness and texts,
  now with the status loaded. Files of failed writes do not disturb it.
\<close>

theorem content_survives_restart:
  assumes "contentCodec_ok cx wfe compact" and "TrimSpace (cst_dir s) \<noteq> ''''" and "cst_files s = []" and "cst_records s = []"
    and "io_readDir io = None" and "\<And>name. io_readFile io name = None"
    and "inj_on safeName (dom (map_of (cst_records (runContent cx ops s))))"
    and "\<And>ref r. map_of (cst_records (runContent cx ops s)) ref = Some r \<Longrightarrow> validateRecordPayload cx r = None"
  shows "\<exists>records. Store_Load cx io (runContent cx ops s) = (None, (runContent cx ops s)\<lparr> cst_records := records \<rparr>) \<and>
    (\<forall>ref. map_of records ref = map_option (\<lambda>r. r\<lparr> rec_Status := ''loaded'' \<rparr>) (map_of (cst_records (runContent cx ops s)) ref))"
proof (rule Store_Load_result [OF assms(1) _ assms(5,6,7,8)])
  show "storeOk cx wfe (runContent cx ops s)"
    by (rule runContent_storeOk [OF assms(1)]) (simp add: storeOk_def assms(2-4))
qed

text \<open>
  The condition on the payloads is needed: \<^verbatim>\<open>Prepare\<close> and \<^verbatim>\<open>Commit\<close> do not parse the payload of a rule pack, \<^verbatim>\<open>Load\<close> does.
\<close>

lemma loadEntries_unparsable:
  assumes "name \<in> set names" "HasSuffix name ''.json''" "\<And>name. io_readFile io name = None"
    and "loadFile cx trusted (get_or '''' files name) = Inr r" "validateRecordPayload cx r \<noteq> None"
  shows "\<exists>err. loadEntries cx io trusted files names records = Inl err"
  using assms(1)
proof (induction names arbitrary: records)
  case (Cons n names)
  then show ?case using assms(2-5) by (cases "n = name") (auto split: sum.splits option.splits)
qed simp

lemma Store_Load_unparsable:
  assumes codec: "contentCodec_ok cx wfe compact" and ok: "storeOk cx wfe s" and io: "io_readDir io = None" "\<And>name. io_readFile io name = None"
    and names: "inj_on safeName (dom (map_of (cst_records s)))"
    and r: "map_of (cst_records s) ref = Some r" "validateRecordPayload cx r \<noteq> None"
  shows "\<exists>err. Store_Load cx io s = (Some err, s)"
proof -
  obtain data env where data: "map_of (cst_files s) (fileName ref) = Some data" and env: "storedFrom cx wfe (cst_trustedKeys s) r env" and ref: "rec_Ref r = ref"
    using storeOk_record [OF ok r(1)] by blast
  obtain r' where r': "map_of (cst_records s) (rec_Ref r') = Some r'" "fileName ref = fileName (rec_Ref r')" "data = fileData cx r'"
    using storeOk_file [OF ok data HasSuffix_json(1)] by blast
  have "ref = rec_Ref r'" by (rule inj_onD [OF names]) (use r' r(1) fileName_inj in \<open>auto\<close>)
  then have "r' = r" using r'(1) r(1) by simp
  then have "loadFile cx (cst_trustedKeys s) (get_or '''' (cst_files s) (fileName ref)) = Inr (r\<lparr> rec_Status := ''loaded'' \<rparr>)"
    using loadFile_stored [OF codec env] data r'(3) by (simp add: get_or_def)
  moreover have "fileName ref \<in> set (sort (keys (cst_files s)))" using data in_dir [of "fileName ref" "cst_files s"] by simp
  ultimately obtain err where "loadEntries cx io (cst_trustedKeys s) (cst_files s) (sort (keys (cst_files s))) [] = Inl err"
    using loadEntries_unparsable [OF _ HasSuffix_json(1) io(2), of "ref" "sort (keys (cst_files s))" cx "cst_trustedKeys s" "cst_files s"
      "r\<lparr> rec_Status := ''loaded'' \<rparr>" "[]"] r(2) by (simp only: validateRecordPayload_status) blast
  then show ?thesis using io(1) storeOk_dir [OF ok] by (simp add: Store_Load_def)
qed


section \<open>A codec\<close>

text \<open>
  The assumptions on the codec can hold: a codec that writes the fields of an envelope one after the other, each character after a
  \<^verbatim>\<open>c\<close> and each field before a dot. The digest of a text is the text, and a signature of a text by a key is the key followed by the text.
\<close>

definition packString :: "string \<Rightarrow> string" where
  "packString s = concat (map (\<lambda>c. [CHR ''c'', c]) s) @ ''.''"

definition packStrings :: "string list \<Rightarrow> string" where
  "packStrings ss = concat (map packString ss)"

fun unpackStrings :: "string \<Rightarrow> string \<Rightarrow> string list" where
  "unpackStrings acc [] = []"
| "unpackStrings acc [x] = (if x = CHR ''.'' then [acc] else [])"
| "unpackStrings acc (x # c # rest) = (if x = CHR ''.'' then acc # unpackStrings '''' (c # rest) else unpackStrings (acc @ [c]) rest)"

lemma unpack_packString: "unpackStrings acc (packString s @ rest) = (acc @ s) # unpackStrings '''' rest"
proof (induction s arbitrary: acc)
  case Nil
  then show ?case by (cases rest) (simp_all add: packString_def)
next
  case (Cons c s)
  then show ?case by (simp add: packString_def)
qed

lemma unpack_packStrings [simp]: "unpackStrings '''' (packStrings ss) = ss"
  by (induction ss) (simp_all add: packStrings_def unpack_packString)

definition packedEnvelope :: "Envelope \<Rightarrow> string" where
  "packedEnvelope env = CHR ''E'' # packStrings
     [ev_APIVersion env, ev_Kind env, md_ID (ev_Metadata env), md_Version (ev_Metadata env), md_TenantID (ev_Metadata env), md_CreatedAt (ev_Metadata env),
      md_TTL (ev_Metadata env), ev_Spec env, ig_DigestAlg (ev_Integrity env), ig_Digest (ev_Integrity env), ig_SignatureAlg (ev_Integrity env),
      ig_KeyID (ev_Integrity env), ig_Signature (ev_Integrity env)]"

definition unpackedEnvelope :: "string \<Rightarrow> string + Envelope" where
  "unpackedEnvelope raw =
     (if take 1 raw \<noteq> ''E'' then Inl ''not an envelope''
      else case unpackStrings '''' (drop 1 raw) of
        [api, kind, ident, version, tenant, created, ttl, spec, digestAlg, digest, signatureAlg, keyID, signature] \<Rightarrow>
          Inr \<lparr> ev_APIVersion = api, ev_Kind = kind,
                ev_Metadata = \<lparr> md_ID = ident, md_Version = version, md_TenantID = tenant, md_CreatedAt = created, md_TTL = ttl \<rparr>, ev_Spec = spec,
                ev_Integrity = \<lparr> ig_DigestAlg = digestAlg, ig_Digest = digest, ig_SignatureAlg = signatureAlg, ig_KeyID = keyID, ig_Signature = signature \<rparr> \<rparr>
      | _ \<Rightarrow> Inl ''not an envelope'')"

definition packedPersisted :: "persistedRecord \<Rightarrow> string" where
  "packedPersisted p = CHR ''P'' # packStrings
     (case pr_Admission p of None \<Rightarrow> [pr_Content p]
      | Some a \<Rightarrow> [if ua_AllowUnsigned a then ''true'' else ''false'', ua_Digest a, pr_Content p])"

definition unpackedPersisted :: "string \<Rightarrow> string + persistedRecord" where
  "unpackedPersisted raw =
     (if take 1 raw \<noteq> ''P'' then Inr \<lparr> pr_Admission = None, pr_Content = '''' \<rparr>
      else case unpackStrings '''' (drop 1 raw) of
        [content] \<Rightarrow> Inr \<lparr> pr_Admission = None, pr_Content = content \<rparr>
      | [allow, digest, content] \<Rightarrow> Inr \<lparr> pr_Admission = Some \<lparr> ua_AllowUnsigned = (allow = ''true''), ua_Digest = digest \<rparr>, pr_Content = content \<rparr>
      | _ \<Rightarrow> Inl ''not a record'')"

text \<open>A specification of values is its strategy, its value type and its values; a rule pack has no rules or does not parse.\<close>

definition packedCodec :: contentCodec where
  "packedCodec =
     \<lparr> cx_envelope = unpackedEnvelope, cx_marshalEnvelope = packedEnvelope,
       cx_valueSpec = (\<lambda>spec. case unpackStrings '''' spec of
          strategy # valueType # vals \<Rightarrow>
            Inr \<lparr> vp_BaseVersion = '''', vp_ValueType = valueType, vp_MergeStrategy = strategy, vp_Values = vals, vp_Ops = map (\<lambda>v. \<lparr> po_Op = ''add'', po_Value = v \<rparr>) vals \<rparr>
        | _ \<Rightarrow> Inl ''not values''),
       cx_marshalValues = (\<lambda>valueType strategy vs. packStrings (strategy # valueType # vs)),
       cx_ruleSets = (\<lambda>spec. if spec = ''[]'' then Inr [] else Inl ''not rules''),
       cx_manifest = (\<lambda>_. Inl ''no manifest''), cx_persisted = unpackedPersisted, cx_marshalPersisted = packedPersisted,
       cx_signedBytes = (\<lambda>api kind meta spec. packStrings [api, kind, md_ID meta, md_Version meta, spec]), cx_sha256 = (\<lambda>data. data),
       cx_base64 = Inr, cx_verify = (\<lambda>key data sig. sig = key @ data), cx_range = (\<lambda>m. m) \<rparr>"

lemma packString_last: "packString s \<noteq> []" "last (packString s) = CHR ''.''"
  by (simp_all add: packString_def)

lemma packStrings_last: "ss \<noteq> [] \<Longrightarrow> packStrings ss \<noteq> [] \<and> last (packStrings ss) = CHR ''.''"
  by (induction ss rule: induct_list012) (auto simp: packStrings_def packString_last last_append)

lemma packed_codec_ok: "contentCodec_ok packedCodec (\<lambda>_. True) (\<lambda>spec. spec)"
proof -
  have "packStrings (strategy # valueType # vs) \<noteq> ''null''" for strategy valueType vs
    using packStrings_last [of "strategy # valueType # vs"] by auto
  moreover have "packStrings (strategy # valueType # vs) \<noteq> ''''" for strategy valueType vs
    using packStrings_last [of "strategy # valueType # vs"] by auto
  ultimately show ?thesis
    by (simp add: contentCodec_ok_def packedCodec_def packedEnvelope_def unpackedEnvelope_def packedPersisted_def unpackedPersisted_def)
qed

text \<open>
  A store with one trusted key is given a signed rule pack, an unsigned context set without and with leave, a patch of it whose rename
  fails, and the patch again; another store is given a rule pack whose payload does not parse.
\<close>

definition goodIO :: contentIO where
  "goodIO = \<lparr> io_mkdir = None, io_readDir = None, io_readFile = (\<lambda>_. None), io_write = (\<lambda>_ _. None), io_rename = (\<lambda>_. None) \<rparr>"

definition exampleKey :: string where
  "exampleKey = replicate 32 (CHR ''k'')"

definition exampleEnvelope :: "string \<Rightarrow> string \<Rightarrow> string \<Rightarrow> bool \<Rightarrow> string" where
  "exampleEnvelope kind ident spec sign = packedEnvelope
     \<lparr> ev_APIVersion = ''sysarmor.content/v1'', ev_Kind = kind,
       ev_Metadata = \<lparr> md_ID = ident, md_Version = ''1'', md_TenantID = '''', md_CreatedAt = '''', md_TTL = '''' \<rparr>, ev_Spec = spec,
       ev_Integrity = Integrity_zero\<lparr> ig_SignatureAlg := ''ed25519'', ig_KeyID := ''k1'',
         ig_Signature := (if sign then exampleKey @ packStrings [''sysarmor.content/v1'', kind, ident, ''1'', spec] else '''') \<rparr> \<rparr>"

definition exampleOps :: "contentOp list" where
  "exampleOps =
    (let hosts = exampleEnvelope ''contextset'' ''c/h'' (packStrings [''replace'', ''host'', ''b'', ''a'']) False;
         patch = exampleEnvelope ''contextset'' ''c/h'' (packStrings [''patch'', '''', ''d'']) True;
         op = \<lparr> op_io = goodIO, op_raw = hosts, op_allowUnsigned = True, op_dryRun = False \<rparr> in
     [op\<lparr> op_raw := exampleEnvelope ''rulepack'' ''r'' ''[]'' True, op_allowUnsigned := False \<rparr>, op\<lparr> op_allowUnsigned := False \<rparr>, op,
      op\<lparr> op_raw := patch, op_io := goodIO\<lparr> io_rename := (\<lambda>_. Some ''rename failed'') \<rparr> \<rparr>, op\<lparr> op_raw := patch \<rparr>])"

definition exampleContentStore :: ContentStore where
  "exampleContentStore =
     \<lparr> cst_dir = ''d'', cst_files = [], cst_trustedKeys = [(''k1'', exampleKey)], cst_records = [], cst_defaultRefs = [], cst_manifestVersion = '''' \<rparr>"

definition unparsableOp :: contentOp where
  "unparsableOp = \<lparr> op_io = goodIO, op_raw = exampleEnvelope ''rulepack'' ''bad'' ''x'' True, op_allowUnsigned = False, op_dryRun = False \<rparr>"

lemma example_contents:
  "map (\<lambda>(ref, r). (ref, validateRecordPayload packedCodec r)) (cst_records (runContent packedCodec exampleOps exampleContentStore)) =
   [(''r'', None), (''c/h'', None)]"
  "map (\<lambda>(ref, r). (ref, validateRecordPayload packedCodec r)) (cst_records (runContent packedCodec [unparsableOp] exampleContentStore)) =
   [(''bad'', Some ''parse rulepack: not rules'')]"
  by code_simp+

lemma safeName_inj_on: "distinct (map safeName (map fst (map (\<lambda>(ref, r). (ref, f r)) m))) \<Longrightarrow> inj_on safeName (dom (map_of m))"
proof -
  have "map fst (map (\<lambda>(ref, r). (ref, f r)) m) = keys m" by (simp add: comp_def split_def)
  then show ?thesis if "distinct (map safeName (map fst (map (\<lambda>(ref, r). (ref, f r)) m)))"
    using that by (simp only: distinct_map dom_map_of_conv_image_fst set_map)
qed

lemma example_inj:
  "inj_on safeName (dom (map_of (cst_records (runContent packedCodec exampleOps exampleContentStore))))"
  "inj_on safeName (dom (map_of (cst_records (runContent packedCodec [unparsableOp] exampleContentStore))))"
  by (rule safeName_inj_on [where f = "validateRecordPayload packedCodec"], unfold example_contents, simp add: safeName_def)+

lemma example_map_of:
  "map_option (validateRecordPayload packedCodec) (map_of (cst_records (runContent packedCodec exampleOps exampleContentStore)) ref) =
     map_of [(''r'', None), (''c/h'', None)] ref"
  "map_option (validateRecordPayload packedCodec) (map_of (cst_records (runContent packedCodec [unparsableOp] exampleContentStore)) ref) =
     map_of [(''bad'', Some ''parse rulepack: not rules'')] ref"
  unfolding example_contents [symmetric] by (simp_all only: map_of_map comp_def)

lemma example_start: "TrimSpace (cst_dir exampleContentStore) \<noteq> ''''" "cst_files exampleContentStore = []" "cst_records exampleContentStore = []"
    "io_readDir goodIO = None" "io_readFile goodIO name = None"
  by code_simp+

theorem content_is_admitted_witness:
  "\<exists>r. map_of (cst_records (runContent packedCodec exampleOps exampleContentStore)) ''r'' = Some r \<and>
    (\<exists>op \<in> set exampleOps. \<exists>env. Parse packedCodec (op_raw op) = Inr env \<and> md_ID (ev_Metadata env) = ''r'')"
proof -
  have "map_of (cst_records (runContent packedCodec exampleOps exampleContentStore)) ''r'' \<noteq> None" using example_map_of(1) [of "''r''"] by auto
  then obtain r where r: "map_of (cst_records (runContent packedCodec exampleOps exampleContentStore)) ''r'' = Some r" by blast
  have "map_of (cst_records exampleContentStore) ''r'' \<noteq> Some r" by (simp add: example_start)
  then have "\<exists>op \<in> set exampleOps. \<exists>env. Parse packedCodec (op_raw op) = Inr env \<and> md_ID (ev_Metadata env) = ''r''"
    using content_is_admitted [OF r] by blast
  then show ?thesis using r by blast
qed

theorem content_survives_restart_witness:
  "\<exists>records. Store_Load packedCodec goodIO (runContent packedCodec exampleOps exampleContentStore) =
     (None, (runContent packedCodec exampleOps exampleContentStore)\<lparr> cst_records := records \<rparr>) \<and>
    (\<forall>ref. map_of records ref =
       map_option (\<lambda>r. r\<lparr> rec_Status := ''loaded'' \<rparr>) (map_of (cst_records (runContent packedCodec exampleOps exampleContentStore)) ref))"
proof (rule content_survives_restart [OF packed_codec_ok example_start example_inj(1)])
  fix ref r assume "map_of (cst_records (runContent packedCodec exampleOps exampleContentStore)) ref = Some r"
  then show "validateRecordPayload packedCodec r = None" using example_map_of(1) [of ref] by (simp split: if_splits)
qed


end
