(* ===== verification/Spec2Isabelle.thy ===== *)
theory Spec2Isabelle
  imports Go_Prelude Data_Model Matcher Ring_Buffer Batcher Sender Bus Segment_Format Local_Store Export_Pipeline
    Detect_Rules Detect_Engine Detect_Invariant Detect_Policy Detect_Trace Evidence_Graph Analytics Store_Table Response_Model Policy_Model
    Cloud_Store Store_Policies Store_Telemetry Store_Responses Store_Control Store_Enrollment Control_Connection
    Ingest_Processor Ingest_Worker Gateway Agent_Content
begin

text \<open>
  SysArmor: an endpoint agent and its control and analysis services, verified component by
  component. (Header: see the sections below for what each theory models.)
\<close>

end
